(* ===== verification/Prelude.thy ===== *)
theory Prelude
  imports
    Main
    "HOL-Library.Word"
    "HOL-Library.AList"
    "HOL-Library.Char_ord"
    "HOL-Library.List_Lexorder"
begin

text \<open>
  Shared vocabulary of the development.

  \<^item> Machine data: bytes as 8-bit words and byte strings as lists of them; JavaScript
    integers as \<^typ>\<open>int\<close> with the safe-integer test written out.
  \<^item> Asynchronous code: an \<open>async\<close> function that may throw is a state transformer that
    returns either an exception or a value together with the new state; \<open>bindM\<close> is
    \<open>await\<close> followed by the rest of the function, \<open>catchM\<close> is \<open>try\<close>/\<open>catch\<close>.  The
    weakest-precondition calculus \<open>wp\<close> for it is a set of equations, so that symbolic
    execution of a function is simplification with \<open>wp_simps\<close>.
  \<^item> SQL tables: association lists with distinct keys, with the aggregate lemmas the
    adapters share.
\<close>

named_theorems wp_simps "equations of the weakest precondition calculus"
named_theorems table_simps "lookups and aggregates of updated tables"

section \<open>Bytes and JavaScript integers\<close>

type_synonym byte = "8 word"
type_synonym bytes = "byte list"

lemma unat_byte_bound [simp]: "unat (b :: byte) < 256"
  using unsigned_less [of b] by simp

definition MAX_SAFE_INTEGER :: int where
  "MAX_SAFE_INTEGER = 2 ^ 53 - 1"

definition isSafeInteger :: "int \<Rightarrow> bool" where
  "isSafeInteger n \<longleftrightarrow> \<bar>n\<bar> \<le> MAX_SAFE_INTEGER"

lemma MAX_SAFE_INTEGER_eq: "MAX_SAFE_INTEGER = 9007199254740991"
  by (simp add: MAX_SAFE_INTEGER_def)

lemma isSafeInteger_iff: "isSafeInteger n \<longleftrightarrow> - 9007199254740991 \<le> n \<and> n \<le> 9007199254740991"
  by (auto simp: isSafeInteger_def MAX_SAFE_INTEGER_eq)

section \<open>Strings\<close>

text \<open>Decimal notation of integers, as template literals print them.\<close>

fun show_nat :: "nat \<Rightarrow> string" where
  "show_nat n = (if n < 10 then [char_of (48 + n)] else show_nat (n div 10) @ [char_of (48 + n mod 10)])"

declare show_nat.simps [simp del]

definition show_int :: "int \<Rightarrow> string" where
  "show_int n = (if n < 0 then CHR ''-'' # show_nat (nat (- n)) else show_nat (nat n))"

text \<open>\<open>String.prototype.includes\<close>.\<close>

fun str_includes :: "string \<Rightarrow> string \<Rightarrow> bool" where
  "str_includes [] pat \<longleftrightarrow> pat = []"
| "str_includes (c # s) pat \<longleftrightarrow> take (length pat) (c # s) = pat \<or> str_includes s pat"

section \<open>State and exceptions\<close>

type_synonym ('s, 'e, 'a) prog = "'s \<Rightarrow> ('e + 'a) \<times> 's"

definition returnM :: "'a \<Rightarrow> ('s, 'e, 'a) prog" where
  "returnM x s = (Inr x, s)"

definition throwM :: "'e \<Rightarrow> ('s, 'e, 'a) prog" where
  "throwM e s = (Inl e, s)"

definition bindM :: "('s, 'e, 'a) prog \<Rightarrow> ('a \<Rightarrow> ('s, 'e, 'b) prog) \<Rightarrow> ('s, 'e, 'b) prog" where
  "bindM m f s = (case m s of (Inl e, s') \<Rightarrow> (Inl e, s') | (Inr x, s') \<Rightarrow> f x s')"

definition catchM :: "('s, 'e, 'a) prog \<Rightarrow> ('e \<Rightarrow> ('s, 'e, 'a) prog) \<Rightarrow> ('s, 'e, 'a) prog" where
  "catchM m h s = (case m s of (Inl e, s') \<Rightarrow> h e s' | (Inr x, s') \<Rightarrow> (Inr x, s'))"

text \<open>A synchronous computation that may throw, run inside an asynchronous function.\<close>

definition liftM :: "'e + 'a \<Rightarrow> ('s, 'e, 'a) prog" where
  "liftM r s = (r, s)"

text \<open>Sequential composition of synchronous computations.\<close>

definition bindE :: "'e + 'a \<Rightarrow> ('a \<Rightarrow> 'e + 'b) \<Rightarrow> 'e + 'b" where
  "bindE r f = (case r of Inl e \<Rightarrow> Inl e | Inr x \<Rightarrow> f x)"

lemma bindE_simps [simp]: "bindE (Inl e) f = Inl e" "bindE (Inr x) f = f x"
  by (simp_all add: bindE_def)

lemma bindE_eq_Inr [simp]: "bindE r f = Inr y \<longleftrightarrow> (\<exists>x. r = Inr x \<and> f x = Inr y)"
  by (cases r) auto

lemma bindE_eq_Inl: "bindE r f = Inl e \<longleftrightarrow> r = Inl e \<or> (\<exists>x. r = Inr x \<and> f x = Inl e)"
  by (cases r) auto

text \<open>\<open>for (const x of xs) await f(x)\<close>.\<close>

fun forM :: "'a list \<Rightarrow> ('a \<Rightarrow> ('s, 'e, unit) prog) \<Rightarrow> ('s, 'e, unit) prog" where
  "forM [] f = returnM ()"
| "forM (x # xs) f = bindM (f x) (\<lambda>_. forM xs f)"

section \<open>Weakest preconditions\<close>

text \<open>
  \<open>wp m Q E s\<close>: started in \<open>s\<close>, the computation \<open>m\<close> either returns some \<open>x\<close> in a
  state with \<open>Q x\<close> or throws some \<open>e\<close> in a state with \<open>E e\<close>.
\<close>

definition wp ::
  "('s, 'e, 'a) prog \<Rightarrow> ('a \<Rightarrow> 's \<Rightarrow> bool) \<Rightarrow> ('e \<Rightarrow> 's \<Rightarrow> bool) \<Rightarrow> 's \<Rightarrow> bool" where
  "wp m Q E s = (case m s of (Inl e, s') \<Rightarrow> E e s' | (Inr x, s') \<Rightarrow> Q x s')"

lemma wp_returnM [wp_simps]: "wp (returnM x) Q E s = Q x s"
  by (simp add: wp_def returnM_def)

lemma wp_throwM [wp_simps]: "wp (throwM e) Q E s = E e s"
  by (simp add: wp_def throwM_def)

text \<open>The same for continuations, which are not applied to a state yet.\<close>

lemma wp_returnM_cont [wp_simps]: "wp (returnM x) Q E = Q x"
  by (rule ext) (rule wp_returnM)

lemma wp_throwM_cont [wp_simps]: "wp (throwM e) Q E = E e"
  by (rule ext) (rule wp_throwM)

lemma wp_liftM [wp_simps]:
  "wp (liftM r) Q E s = (case r of Inl e \<Rightarrow> E e s | Inr x \<Rightarrow> Q x s)"
  by (simp add: wp_def liftM_def)

lemma wp_bindM [wp_simps]: "wp (bindM m f) Q E s = wp m (\<lambda>x. wp (f x) Q E) E s"
  by (simp add: wp_def bindM_def split: prod.splits sum.splits)

lemma wp_catchM [wp_simps]: "wp (catchM m h) Q E s = wp m Q (\<lambda>e. wp (h e) Q E) s"
  by (simp add: wp_def catchM_def split: prod.splits sum.splits)

lemma wp_if [wp_simps]:
  "wp (if b then m else n) Q E s = (if b then wp m Q E s else wp n Q E s)"
  by simp

lemma wp_mono:
  assumes "wp m Q E s" and "\<And>x s'. Q x s' \<Longrightarrow> Q' x s'" and "\<And>e s'. E e s' \<Longrightarrow> E' e s'"
  shows "wp m Q' E' s"
  using assms by (auto simp: wp_def split: prod.splits sum.splits)

lemma wp_conj:
  assumes "wp m Q E s" and "wp m Q' E' s"
  shows "wp m (\<lambda>x s'. Q x s' \<and> Q' x s') (\<lambda>e s'. E e s' \<and> E' e s') s"
  using assms by (auto simp: wp_def split: prod.splits sum.splits)

lemma wp_result:
  assumes "wp m Q E s" and "m s = (Inr x, s')"
  shows "Q x s'"
  using assms by (simp add: wp_def)

lemma wp_exception:
  assumes "wp m Q E s" and "m s = (Inl e, s')"
  shows "E e s'"
  using assms by (simp add: wp_def)

text \<open>A predicate on states that every outcome keeps, whatever the result.\<close>

lemma wp_state:
  assumes "wp m (\<lambda>_. P) (\<lambda>_. P) s"
  shows "P (snd (m s))"
  using assms by (auto simp: wp_def split: prod.splits sum.splits)

lemma wp_forM:
  assumes "P s" and "\<And>x s. x \<in> set xs \<Longrightarrow> P s \<Longrightarrow> wp (f x) (\<lambda>_. P) E s"
  shows "wp (forM xs f) (\<lambda>_. P) E s"
  using assms
proof (induction xs arbitrary: s)
  case Nil
  then show ?case by (simp add: wp_simps)
next
  case (Cons x xs)
  have "wp (f x) (\<lambda>_. P) E s" using Cons.prems by simp
  moreover have "\<And>s'. P s' \<Longrightarrow> wp (forM xs f) (\<lambda>_. P) E s'"
    using Cons by simp
  ultimately show ?case by (auto simp: wp_simps intro: wp_mono)
qed

section \<open>Tables\<close>

text \<open>Keys are often pairs; facts about all keys are not to be split into facts about components.\<close>

declare split_paired_All [simp del] split_paired_Ex [simp del]

type_synonym ('k, 'v) table = "('k \<times> 'v) list"

definition keys_distinct :: "('k, 'v) table \<Rightarrow> bool" where
  "keys_distinct t \<longleftrightarrow> distinct (map fst t)"

definition insert_row :: "'k \<Rightarrow> 'v \<Rightarrow> ('k, 'v) table \<Rightarrow> ('k, 'v) table" where
  "insert_row k v t = t @ [(k, v)]"

definition delete_row :: "'k \<Rightarrow> ('k, 'v) table \<Rightarrow> ('k, 'v) table" where
  "delete_row k t = filter (\<lambda>(k', _). k' \<noteq> k) t"

definition update_row :: "'k \<Rightarrow> ('v \<Rightarrow> 'v) \<Rightarrow> ('k, 'v) table \<Rightarrow> ('k, 'v) table" where
  "update_row k f t = map (\<lambda>(k', v). (k', if k' = k then f v else v)) t"

lemma map_of_insert_row [table_simps]:
  "map_of t k = None \<Longrightarrow> map_of (insert_row k v t) = (map_of t)(k \<mapsto> v)"
  by (rule ext) (auto simp: insert_row_def map_add_def split: option.splits)

lemma map_of_delete_row [table_simps]: "map_of (delete_row k t) = (map_of t)(k := None)"
  by (induction t) (auto simp: delete_row_def fun_eq_iff)

lemma map_of_update_row [table_simps]:
  "map_of (update_row k f t) = (map_of t)(k := map_option f (map_of t k))"
  by (induction t) (auto simp: update_row_def fun_eq_iff)

lemma keys_update_row [simp]: "map fst (update_row k f t) = map fst t"
  by (induction t) (auto simp: update_row_def)

lemma keys_distinct_update_row [simp]: "keys_distinct (update_row k f t) = keys_distinct t"
  by (simp add: keys_distinct_def)

lemma keys_distinct_delete_row [simp]: "keys_distinct t \<Longrightarrow> keys_distinct (delete_row k t)"
  unfolding keys_distinct_def delete_row_def
  by (induction t) auto

lemma keys_distinct_insert_row [simp]:
  "keys_distinct t \<Longrightarrow> map_of t k = None \<Longrightarrow> keys_distinct (insert_row k v t)"
  by (auto simp: keys_distinct_def insert_row_def map_of_eq_None_iff)

lemma keys_distinct_Nil [simp]: "keys_distinct []"
  by (simp add: keys_distinct_def)

lemma update_row_absent: "map_of t k = None \<Longrightarrow> update_row k f t = t"
  by (induction t) (auto simp: update_row_def split: if_splits)

lemma delete_row_absent: "map_of t k = None \<Longrightarrow> delete_row k t = t"
  by (induction t) (auto simp: delete_row_def split: if_splits)

text \<open>\<open>SELECT SUM(g) FROM t WHERE p\<close> over the rows of a table.\<close>

definition sum_where ::
  "('k \<Rightarrow> bool) \<Rightarrow> ('v \<Rightarrow> 'a :: ab_group_add) \<Rightarrow> ('k, 'v) table \<Rightarrow> 'a" where
  "sum_where p g t = sum_list (map (\<lambda>(k, v). if p k then g v else 0) t)"

lemma sum_where_Nil [simp]: "sum_where p g [] = 0"
  by (simp add: sum_where_def)

lemma sum_where_Cons: "sum_where p g ((k, v) # t) = (if p k then g v else 0) + sum_where p g t"
  by (simp add: sum_where_def)

lemma sum_where_insert_row [table_simps]:
  "sum_where p g (insert_row k v t) = sum_where p g t + (if p k then g v else 0)"
  by (simp add: sum_where_def insert_row_def)

lemma sum_where_update_row_absent [table_simps]:
  "map_of t k = None \<Longrightarrow> sum_where p g (update_row k f t) = sum_where p g t"
  by (simp add: update_row_absent)

lemma sum_where_update_row [table_simps]:
  assumes "keys_distinct t" and "map_of t k = Some v"
  shows "sum_where p g (update_row k f t) = sum_where p g t + (if p k then g (f v) - g v else 0)"
  using assms
proof (induction t)
  case Nil
  then show ?case by simp
next
  case (Cons kv t)
  obtain k' v' where kv: "kv = (k', v')" by (cases kv)
  have dist: "keys_distinct t" and notin: "k' \<notin> fst ` set t"
    using Cons.prems(1) by (auto simp: kv keys_distinct_def)
  show ?case
  proof (cases "k' = k")
    case True
    have "map_of t k = None" using notin True by (simp add: map_of_eq_None_iff)
    then have "update_row k f t = t" by (rule update_row_absent)
    then show ?thesis
      using Cons.prems(2) True by (simp add: kv update_row_def sum_where_Cons)
  next
    case False
    then have "map_of t k = Some v" using Cons.prems(2) kv by simp
    with Cons.IH dist have
      "sum_where p g (update_row k f t) = sum_where p g t + (if p k then g (f v) - g v else 0)"
      by simp
    then show ?thesis
      using False by (simp add: kv update_row_def sum_where_Cons)
  qed
qed

lemma sum_where_delete_row [table_simps]:
  assumes "keys_distinct t" and "map_of t k = Some v"
  shows "sum_where p g (delete_row k t) = sum_where p g t - (if p k then g v else 0)"
  using assms
proof (induction t)
  case Nil
  then show ?case by simp
next
  case (Cons kv t)
  obtain k' v' where kv: "kv = (k', v')" by (cases kv)
  have dist: "keys_distinct t" and notin: "k' \<notin> fst ` set t"
    using Cons.prems(1) by (auto simp: kv keys_distinct_def)
  show ?case
  proof (cases "k' = k")
    case True
    have "map_of t k = None" using notin True by (simp add: map_of_eq_None_iff)
    then have "delete_row k t = t" by (rule delete_row_absent)
    then show ?thesis
      using Cons.prems(2) True by (simp add: kv delete_row_def sum_where_Cons)
  next
    case False
    then have "map_of t k = Some v" using Cons.prems(2) kv by simp
    with Cons.IH dist have
      "sum_where p g (delete_row k t) = sum_where p g t - (if p k then g v else 0)"
      by simp
    then show ?thesis
      using False by (simp add: kv delete_row_def sum_where_Cons)
  qed
qed

lemma sum_where_nonneg:
  assumes "\<And>k v. (k, v) \<in> set t \<Longrightarrow> p k \<Longrightarrow> (0 :: int) \<le> g v"
  shows "0 \<le> sum_where p g t"
  unfolding sum_where_def using assms by (intro sum_list_nonneg) auto

lemma sum_where_ge:
  assumes "\<And>k v. (k, v) \<in> set t \<Longrightarrow> p k \<Longrightarrow> (0 :: int) \<le> g v" and "(k, v) \<in> set t" and "p k"
  shows "g v \<le> sum_where p g t"
  using assms
proof (induction t)
  case Nil
  then show ?case by simp
next
  case (Cons kv t)
  obtain k' v' where kv: "kv = (k', v')" by (cases kv)
  have rest: "0 \<le> sum_where p g t"
    using Cons.prems(1) by (intro sum_where_nonneg) auto
  show ?case
  proof (cases "(k, v) = kv")
    case True
    then show ?thesis using rest Cons.prems(3) by (simp add: kv sum_where_Cons)
  next
    case False
    then have "(k, v) \<in> set t" using Cons.prems(2) by auto
    then have "g v \<le> sum_where p g t" using Cons by auto
    moreover have "p k' \<Longrightarrow> 0 \<le> g v'" using Cons.prems(1) kv by auto
    ultimately show ?thesis by (auto simp: kv sum_where_Cons)
  qed
qed

lemma sum_where_zero_on:
  assumes "\<And>k v. (k, v) \<in> set t \<Longrightarrow> p k \<Longrightarrow> g v = 0"
  shows "sum_where p g t = 0"
proof -
  have "\<forall>(k, v) \<in> set t. p k \<longrightarrow> g v = 0" using assms by blast
  then show ?thesis by (induction t) (auto simp: sum_where_Cons)
qed

lemma mem_table_iff: "keys_distinct t \<Longrightarrow> (k, v) \<in> set t \<longleftrightarrow> map_of t k = Some v"
  unfolding keys_distinct_def by (simp add: map_of_eq_Some_iff)

text \<open>An aggregate of a table with distinct keys depends on its lookups only.\<close>

lemma sum_where_dom:
  assumes "keys_distinct t"
  shows "sum_where p g t = (\<Sum>k \<in> dom (map_of t). if p k then g (the (map_of t k)) else 0)"
  using assms
proof (induction t)
  case (Cons kv t)
  obtain k v where kv: "kv = (k, v)" by (cases kv)
  have d: "keys_distinct t" and new: "k \<notin> dom (map_of t)"
    using Cons.prems by (auto simp: keys_distinct_def kv dom_map_of_conv_image_fst)
  define m where "m = map_of (kv # t)"
  have m: "dom m = insert k (dom (map_of t))" "m k = Some v" by (auto simp: m_def kv)
  have "(\<Sum>x \<in> dom (map_of t). if p x then g (the (m x)) else 0)
      = (\<Sum>x \<in> dom (map_of t). if p x then g (the (map_of t x)) else 0)"
    using new by (intro sum.cong) (auto simp: m_def kv)
  then have "(\<Sum>x \<in> dom m. if p x then g (the (m x)) else 0) = (if p k then g v else 0) + sum_where p g t"
    using Cons.IH [OF d] new finite_dom_map_of [of t] by (simp add: m)
  moreover have "sum_where p g (kv # t) = (if p k then g v else 0) + sum_where p g t" by (simp add: kv sum_where_Cons)
  ultimately show ?case unfolding m_def by (rule trans [OF _ sym, rotated])
qed simp

end
