(* ===== verification/Codec_Binary.thy ===== *)
theory Codec_Binary
  imports Prelude
begin

text \<open>
  The canonical node binary format, \<^verbatim>\<open>packages/codec/src/binary.ts\<close>: the 24-byte header,
  the concatenation of a node's parts and the parser of complete node bytes.  JavaScript
  strings are lists of code units below 256, which is every string the format accepts;
  \<open>textEncode\<close> is \<open>TextEncoder\<close> on them.  Errors are the constructors of \<open>codec_error\<close>,
  one for each \<open>throw\<close> of the codec package, and \<open>codec_message\<close> (theory
  \<open>Codec_Validation\<close>) is the message each carries.
\<close>

unbundle bit_operations_syntax

section \<open>Errors of the codec package\<close>

datatype codec_error =
    Header_length int
  | Node_bytes_too_short int
  | Node_bytes_length_mismatch int int
  | Buffer_set_out_of_range
  | Expected_bytes int
  | Expected_hex int
  | Invalid_content_size int
  | Content_type_length_out_of_range int
  | Child_ref_count_out_of_range int
  | Total_length_overflow
  | Canonical_node_too_large int int
  | Limit_out_of_range string int int
  | Hash_length int
  | Hash_not_hex string
  | Raw_hash_length int
  | Content_type_empty
  | Content_type_too_long int
  | Content_type_nul
  | Content_type_not_ascii string
  | Invalid_signature
  | Unsupported_version int
  | Flags_nonzero int
  | Reserved_nonzero int
  | Child_ref_count_mismatch int int
  | Content_length_mismatch int int
  | Stream_ended int int
  | Declared_length_mismatch int int
  | Content_type_bytes_not_ascii
  | Replay_length_mismatch int int
  | Replay_length_exceeded int

section \<open>Constants\<close>

definition HEADER_SIZE :: nat where "HEADER_SIZE = 24"
definition SIGNATURE :: bytes where "SIGNATURE = [0x55, 0x44]"
definition VERSION :: int where "VERSION = 1"
definition MAX_CONTENT_TYPE_LENGTH :: int where "MAX_CONTENT_TYPE_LENGTH = 1024"
definition MIN_CONTENT_TYPE_LENGTH :: int where "MIN_CONTENT_TYPE_LENGTH = 1"
definition HASH_SIZE :: nat where "HASH_SIZE = 32"
definition HASH_HEX_LENGTH :: nat where "HASH_HEX_LENGTH = 64"

lemmas codec_consts = HEADER_SIZE_def SIGNATURE_def VERSION_def MAX_CONTENT_TYPE_LENGTH_def
  MIN_CONTENT_TYPE_LENGTH_def HASH_SIZE_def HASH_HEX_LENGTH_def

section \<open>Little-endian integers\<close>

text \<open>
  \<open>DataView\<close>'s little-endian setters reduce their argument modulo the width, and its
  getters read the bytes back.
\<close>

fun le_bytes :: "nat \<Rightarrow> int \<Rightarrow> bytes" where
  "le_bytes 0 n = []"
| "le_bytes (Suc k) n = word_of_int n # le_bytes k (n div 256)"

fun le_value :: "bytes \<Rightarrow> int" where
  "le_value [] = 0"
| "le_value (b # bs) = uint b + 256 * le_value bs"

lemma length_le_bytes [simp]: "length (le_bytes k n) = k"
  by (induction k arbitrary: n) auto

lemma le_value_nonneg [simp]: "0 \<le> le_value bs"
  by (induction bs) auto

lemma le_value_bound: "le_value bs < 256 ^ length bs"
proof (induction bs)
  case Nil
  then show ?case by simp
next
  case (Cons b bs)
  have "uint b < 256" using uint_lt2p [of b] by simp
  with Cons show ?case by simp
qed

lemma le_value_le_bytes: "le_value (le_bytes k n) = n mod 256 ^ k"
proof (induction k arbitrary: n)
  case 0
  then show ?case by simp
next
  case (Suc k)
  have "uint (word_of_int n :: byte) = n mod 256"
    by (simp add: uint_word_of_int)
  with Suc show ?case
    by (simp add: mod_mult2_eq [symmetric] zmod_zmult2_eq add.commute)
qed

lemma le_bytes_le_value: "length bs = k \<Longrightarrow> le_bytes k (le_value bs) = bs"
proof (induction bs arbitrary: k)
  case Nil
  then show ?case by simp
next
  case (Cons b bs)
  have b: "uint b < 256" "0 \<le> uint b" using uint_lt2p [of b] by simp_all
  have "(uint b + 256 * le_value bs) div 256 = le_value bs"
    using b by (simp add: div_add1_eq)
  moreover have "(word_of_int (uint b + 256 * le_value bs) :: byte) = b"
    unfolding word_uint_eq_iff uint_word_of_int using b by simp
  ultimately show ?case using Cons by auto
qed

section \<open>Numbers read from 64-bit fields\<close>

text \<open>
  \<open>Number(bigint)\<close>: integers up to \<open>2^53\<close> are exact; larger ones are rounded to 53
  significant bits, ties to even.  \<open>excess_bits\<close> counts the bits beyond 53.
\<close>

fun excess_bits :: "nat \<Rightarrow> nat" where
  "excess_bits n = (if n < 2 ^ 53 then 0 else Suc (excess_bits (n div 2)))"

declare excess_bits.simps [simp del]

definition numberOfBigInt :: "int \<Rightarrow> int" where
  "numberOfBigInt n =
     (let e = excess_bits (nat n); q = n div 2 ^ e; r = n mod 2 ^ e in
      if e = 0 then n
      else if 2 * r > 2 ^ e \<or> (2 * r = 2 ^ e \<and> odd q) then (q + 1) * 2 ^ e
      else q * 2 ^ e)"

lemma numberOfBigInt_exact:
  assumes "n < 2 ^ 53"
  shows "numberOfBigInt n = n"
proof -
  have "nat n < 2 ^ 53" using assms by simp
  then show ?thesis by (simp add: numberOfBigInt_def excess_bits.simps [of "nat n"])
qed

lemma excess_bits_bound:
  "2 ^ 53 \<le> n \<Longrightarrow>
     2 ^ 52 * 2 ^ excess_bits n \<le> n \<and> (2 ^ 53 :: nat) \<le> 2 ^ 52 * 2 ^ excess_bits n"
proof (induction n rule: excess_bits.induct)
  case (1 n)
  show ?case
  proof (cases "n div 2 < 2 ^ 53")
    case True
    then have "excess_bits (n div 2) = 0" by (simp add: excess_bits.simps [of "n div 2"])
    with "1.prems" show ?thesis by (simp add: excess_bits.simps [of n])
  next
    case False
    with 1 have "2 ^ 52 * 2 ^ excess_bits (n div 2) \<le> n div 2"
      and "(2 ^ 53 :: nat) \<le> 2 ^ 52 * 2 ^ excess_bits (n div 2)" by simp_all
    with "1.prems" show ?thesis by (simp add: excess_bits.simps [of n])
  qed
qed

lemma numberOfBigInt_large:
  assumes "2 ^ 53 \<le> n"
  shows "2 ^ 53 \<le> numberOfBigInt n"
proof -
  let ?e = "excess_bits (nat n)"
  have big: "2 ^ 53 \<le> nat n" using assms by (simp add: le_nat_iff)
  have lo: "(2 ^ 52 * 2 ^ ?e :: int) \<le> n"
  proof -
    have "int (2 ^ 52 * 2 ^ ?e) \<le> int (nat n)"
      using excess_bits_bound [OF big] by (simp only: of_nat_le_iff)
    then show ?thesis using assms by simp
  qed
  have hi: "(2 ^ 53 :: int) \<le> 2 ^ 52 * 2 ^ ?e"
  proof -
    have "int (2 ^ 53) \<le> int (2 ^ 52 * 2 ^ ?e)"
      using excess_bits_bound [OF big] by (simp only: of_nat_le_iff)
    then show ?thesis by simp
  qed
  have "(2 ^ 52 :: int) \<le> n div 2 ^ ?e"
  proof -
    have "(2 ^ 52 * 2 ^ ?e) div 2 ^ ?e \<le> n div 2 ^ ?e"
      by (rule zdiv_mono1 [OF lo]) simp
    then show ?thesis by simp
  qed
  then have "2 ^ 52 * 2 ^ ?e \<le> n div 2 ^ ?e * 2 ^ ?e"
    by (simp add: mult_right_mono)
  with hi have q: "2 ^ 53 \<le> n div 2 ^ ?e * 2 ^ ?e" by (rule order_trans)
  then have q1: "2 ^ 53 \<le> (n div 2 ^ ?e + 1) * 2 ^ ?e"
    by (rule order_trans) (simp add: distrib_right)
  show ?thesis
    unfolding numberOfBigInt_def Let_def using assms q q1 by (simp only: if_split) blast
qed

lemma numberOfBigInt_safe:
  assumes "isSafeInteger (numberOfBigInt n)" and "0 \<le> n"
  shows "n < 2 ^ 53 \<and> numberOfBigInt n = n"
proof (cases "n < 2 ^ 53")
  case True
  then show ?thesis by (simp add: numberOfBigInt_exact)
next
  case False
  then have "2 ^ 53 \<le> numberOfBigInt n" by (intro numberOfBigInt_large) simp
  with assms show ?thesis by (simp add: isSafeInteger_iff)
qed

section \<open>Text\<close>

text \<open>UTF-8 of a code unit below 256: one byte below 128, two bytes above.\<close>

definition textEncodeChar :: "char \<Rightarrow> bytes" where
  "textEncodeChar c =
     (let n = of_char c :: nat in
      if n < 128 then [of_nat n] else [of_nat (192 + n div 64), of_nat (128 + n mod 64)])"

definition textEncode :: "string \<Rightarrow> bytes" where
  "textEncode s = concat (map textEncodeChar s)"

text \<open>\<open>TextDecoder\<close> on bytes below 128, where decoding is one code unit for each byte.\<close>

definition asciiDecode :: "bytes \<Rightarrow> string" where
  "asciiDecode bs = map (\<lambda>b. char_of (unat b)) bs"

definition ascii_string :: "string \<Rightarrow> bool" where
  "ascii_string s \<longleftrightarrow> (\<forall>c \<in> set s. of_char c < (128 :: nat))"

lemma textEncode_Nil [simp]: "textEncode [] = []"
  by (simp add: textEncode_def)

lemma textEncode_Cons: "textEncode (c # s) = textEncodeChar c @ textEncode s"
  by (simp add: textEncode_def)

lemma length_textEncode_ascii: "ascii_string s \<Longrightarrow> length (textEncode s) = length s"
  by (induction s) (auto simp: textEncode_Cons textEncodeChar_def ascii_string_def)

lemma asciiDecode_textEncode: "ascii_string s \<Longrightarrow> asciiDecode (textEncode s) = s"
  by (induction s)
    (auto simp: textEncode_Cons asciiDecode_def textEncodeChar_def ascii_string_def unat_of_nat)

lemma textEncode_asciiDecode:
  assumes "\<forall>b \<in> set bs. unat b < 128"
  shows "textEncode (asciiDecode bs) = bs" and "ascii_string (asciiDecode bs)"
  using assms
  by (induction bs)
    (auto simp: textEncode_Cons asciiDecode_def textEncodeChar_def ascii_string_def)

section \<open>Header\<close>

record decoded_header =
  dh_signature :: bytes
  dh_version :: int
  dh_flags :: int
  dh_contentSize :: int
  dh_refCount :: int
  dh_contentTypeLength :: int
  dh_reserved :: int

definition encodeHeader :: "int \<Rightarrow> string \<Rightarrow> int \<Rightarrow> bytes" where
  "encodeHeader contentSize contentType refCount =
     SIGNATURE @ le_bytes 2 VERSION @ le_bytes 4 0 @ le_bytes 8 contentSize
     @ le_bytes 4 refCount @ le_bytes 2 (int (length (textEncode contentType))) @ le_bytes 2 0"

definition slice :: "nat \<Rightarrow> nat \<Rightarrow> 'a list \<Rightarrow> 'a list" where
  "slice i j xs = take (j - i) (drop i xs)"

definition decodeHeader :: "bytes \<Rightarrow> codec_error + decoded_header" where
  "decodeHeader header =
     (if length header \<noteq> HEADER_SIZE then Inl (Header_length (int (length header)))
      else Inr \<lparr>dh_signature = slice 0 2 header,
                dh_version = le_value (slice 2 4 header),
                dh_flags = le_value (slice 4 8 header),
                dh_contentSize = numberOfBigInt (le_value (slice 8 16 header)),
                dh_refCount = le_value (slice 16 20 header),
                dh_contentTypeLength = le_value (slice 20 22 header),
                dh_reserved = le_value (slice 22 24 header)\<rparr>)"

lemma length_SIGNATURE [simp]: "length SIGNATURE = 2"
  by (simp add: SIGNATURE_def)

lemma length_encodeHeader [simp]: "length (encodeHeader n ct r) = HEADER_SIZE"
  by (simp add: encodeHeader_def HEADER_SIZE_def)

section \<open>Whole nodes\<close>

text \<open>\<open>Uint8Array.prototype.set\<close>: a write past the end of the buffer throws.\<close>

definition buffer_set :: "bytes \<Rightarrow> nat \<Rightarrow> bytes \<Rightarrow> codec_error + bytes" where
  "buffer_set buf offset src =
     (if offset + length src > length buf then Inl Buffer_set_out_of_range
      else Inr (take offset buf @ src @ drop (offset + length src) buf))"

text \<open>The loop \<open>for (const hash of childHashes)\<close> that both concatenations share.\<close>

fun set_hashes :: "bytes \<Rightarrow> nat \<Rightarrow> bytes list \<Rightarrow> codec_error + (bytes \<times> nat)" where
  "set_hashes buf offset [] = Inr (buf, offset)"
| "set_hashes buf offset (h # hs) =
     bindE (buffer_set buf offset h) (\<lambda>buf'. set_hashes buf' (offset + HASH_SIZE) hs)"

definition concatenateNodeBytes ::
  "bytes \<Rightarrow> bytes \<Rightarrow> bytes list \<Rightarrow> bytes \<Rightarrow> codec_error + bytes" where
  "concatenateNodeBytes header contentType childHashes content =
     (let totalSize = HEADER_SIZE + length contentType + length childHashes * HASH_SIZE + length content
      in bindE (buffer_set (replicate totalSize 0) 0 header) (\<lambda>r1.
         bindE (buffer_set r1 HEADER_SIZE contentType) (\<lambda>r2.
         bindE (set_hashes r2 (HEADER_SIZE + length contentType) childHashes) (\<lambda>(r3, offset).
         buffer_set r3 offset content))))"

record parsed_node =
  pn_header :: bytes
  pn_contentType :: string
  pn_childHashes :: "bytes list"
  pn_content :: bytes

text \<open>
  \<open>parseNodeBytes\<close>: the parameter \<open>textDecode\<close> is \<open>TextDecoder\<close>, which replaces
  ill-formed input and is outside the code units modelled here.
\<close>

definition parseNodeBytes :: "(bytes \<Rightarrow> string) \<Rightarrow> bytes \<Rightarrow> codec_error + parsed_node" where
  "parseNodeBytes textDecode bs =
     (if length bs < HEADER_SIZE then Inl (Node_bytes_too_short (int (length bs)))
      else bindE (decodeHeader (slice 0 HEADER_SIZE bs)) (\<lambda>decoded.
        let expectedLength = int HEADER_SIZE + dh_contentTypeLength decoded
              + dh_refCount decoded * int HASH_SIZE + dh_contentSize decoded
        in if int (length bs) \<noteq> expectedLength
           then Inl (Node_bytes_length_mismatch expectedLength (int (length bs)))
           else
             let o1 = HEADER_SIZE;
                 o2 = o1 + nat (dh_contentTypeLength decoded);
                 o3 = o2 + nat (dh_refCount decoded) * HASH_SIZE
             in Inr \<lparr>pn_header = slice 0 HEADER_SIZE bs,
                     pn_contentType = textDecode (slice o1 o2 bs),
                     pn_childHashes = map (\<lambda>i. slice (o2 + i * HASH_SIZE) (o2 + Suc i * HASH_SIZE) bs)
                                        [0..<nat (dh_refCount decoded)],
                     pn_content = slice o3 (o3 + nat (dh_contentSize decoded)) bs\<rparr>))"

section \<open>Lemmas\<close>

lemma slice_append_left: "j \<le> length xs \<Longrightarrow> slice i j (xs @ ys) = slice i j xs"
  by (cases "i \<le> j") (simp_all add: slice_def)

lemma slice_append_right:
  "length xs \<le> i \<Longrightarrow> slice i j (xs @ ys) = slice (i - length xs) (j - length xs) ys"
  by (simp add: slice_def)

lemma slice_all: "j = length xs \<Longrightarrow> slice 0 j xs = xs"
  by (simp add: slice_def)

lemma length_slice: "j \<le> length xs \<Longrightarrow> length (slice i j xs) = j - i"
  by (simp add: slice_def)

lemma slice_join: "i \<le> j \<Longrightarrow> j \<le> k \<Longrightarrow> slice i j xs @ slice j k xs = slice i k xs"
  using take_add [of "j - i" "k - j" "drop i xs"] by (simp add: slice_def add.commute)

lemma decode_encodeHeader:
  "decodeHeader (encodeHeader contentSize contentType refCount) =
     Inr \<lparr>dh_signature = SIGNATURE, dh_version = VERSION, dh_flags = 0,
          dh_contentSize = numberOfBigInt (contentSize mod 2 ^ 64),
          dh_refCount = refCount mod 2 ^ 32,
          dh_contentTypeLength = int (length (textEncode contentType)) mod 2 ^ 16,
          dh_reserved = 0\<rparr>"
  by (simp add: decodeHeader_def encodeHeader_def HEADER_SIZE_def VERSION_def slice_append_right
      slice_append_left slice_all le_value_le_bytes)

text \<open>The buffer writes of \<open>concatenateNodeBytes\<close> amount to concatenation.\<close>

lemma buffer_set_end:
  "length src \<le> length rest \<Longrightarrow>
     buffer_set (pre @ rest) (length pre) src = Inr (pre @ src @ drop (length src) rest)"
  by (simp add: buffer_set_def)

lemma set_hashes_end:
  assumes "\<forall>h \<in> set hs. length h = HASH_SIZE" and "length hs * HASH_SIZE \<le> length rest"
  shows "set_hashes (pre @ rest) (length pre) hs =
    Inr (pre @ concat hs @ drop (length hs * HASH_SIZE) rest, length pre + length hs * HASH_SIZE)"
  using assms
proof (induction hs arbitrary: pre rest)
  case Nil
  then show ?case by simp
next
  case (Cons h hs)
  have h: "length h = HASH_SIZE" and fits: "length h \<le> length rest" using Cons.prems by auto
  have "set_hashes ((pre @ h) @ drop (length h) rest) (length (pre @ h)) hs =
    Inr ((pre @ h) @ concat hs @ drop (length hs * HASH_SIZE) (drop (length h) rest),
      length (pre @ h) + length hs * HASH_SIZE)"
    using Cons.prems h by (intro Cons.IH) auto
  then show ?case
    using h buffer_set_end [OF fits, of pre] by (simp add: add.commute add.left_commute)
qed

lemma concatenateNodeBytes_eq:
  assumes "length header = HEADER_SIZE" and "\<forall>h \<in> set hs. length h = HASH_SIZE"
  shows "concatenateNodeBytes header ct hs content = Inr (header @ ct @ concat hs @ content)"
proof -
  let ?n = "HEADER_SIZE + length ct + length hs * HASH_SIZE + length content"
  have "buffer_set (replicate ?n 0) 0 header = Inr (header @ replicate (?n - HEADER_SIZE) 0)"
    using buffer_set_end [of header "replicate ?n 0" "[]"] assms(1) by simp
  moreover have "buffer_set (header @ replicate (?n - HEADER_SIZE) 0) HEADER_SIZE ct =
      Inr ((header @ ct) @ replicate (?n - HEADER_SIZE - length ct) 0)"
    using buffer_set_end [of ct "replicate (?n - HEADER_SIZE) 0" header] assms(1) by simp
  moreover have "set_hashes ((header @ ct) @ replicate (?n - HEADER_SIZE - length ct) 0)
      (HEADER_SIZE + length ct) hs =
      Inr ((header @ ct) @ concat hs @ replicate (length content) 0,
        HEADER_SIZE + length ct + length hs * HASH_SIZE)"
    using set_hashes_end [of hs "replicate (?n - HEADER_SIZE - length ct) 0" "header @ ct"] assms
    by simp
  moreover have "buffer_set (header @ ct @ concat hs @ replicate (length content) 0)
      (HEADER_SIZE + length ct + length hs * HASH_SIZE) content = Inr (header @ ct @ concat hs @ content)"
  proof -
    have "length (concat hs) = length hs * HASH_SIZE"
      using assms(2) by (induction hs) auto
    then show ?thesis
      using buffer_set_end [of content "replicate (length content) 0" "header @ ct @ concat hs"] assms(1)
      by (simp add: add.assoc)
  qed
  ultimately show ?thesis
    by (simp add: concatenateNodeBytes_def Let_def)
qed

lemma length_concat_hashes: "\<forall>h \<in> set hs. length h = HASH_SIZE \<Longrightarrow> length (concat hs) = length hs * HASH_SIZE"
  by (induction hs) auto

lemma nth_hash_slice:
  assumes "\<forall>h \<in> set hs. length h = n" and "i < length hs"
  shows "slice (i * n) (Suc i * n) (concat hs @ rest) = hs ! i"
  using assms
proof (induction hs arbitrary: i)
  case Nil
  then show ?case by simp
next
  case (Cons h hs)
  have h: "length h = n" using Cons.prems by simp
  show ?case
  proof (cases i)
    case 0
    then show ?thesis using h by (simp add: slice_def)
  next
    case (Suc j)
    then have "slice (j * n) (Suc j * n) (concat hs @ rest) = hs ! j"
      using Cons by simp
    then show ?thesis using Suc h by (simp add: slice_append_right)
  qed
qed

lemma hash_slices:
  assumes "\<forall>h \<in> set hs. length h = n"
  shows "map (\<lambda>i. slice (i * n) (Suc i * n) (concat hs @ rest)) [0..<length hs] = hs"
  using nth_hash_slice [OF assms] by (intro nth_equalityI) simp_all

end
