(* ===== verification/Codec_Digest.thy ===== *)
theory Codec_Digest
  imports Codec_Binary
begin

text \<open>
  Digests, \<^verbatim>\<open>packages/codec/src/digest.ts\<close>.  SHA-256 is Web Crypto's and a parameter
  \<open>sha256\<close> of every definition that computes one; the hexadecimal conversions are the
  source's, with \<open>parseInt(_, 16)\<close> written out, so that what \<open>hexToHash\<close> does with a
  string that is not hexadecimal is part of the model.
\<close>

definition hex_digit :: "nat \<Rightarrow> char" where
  "hex_digit n = (if n < 10 then char_of (48 + n) else char_of (87 + n))"

text \<open>\<open>b.toString(16).padStart(2, "0")\<close>.\<close>

definition byte_to_hex :: "byte \<Rightarrow> string" where
  "byte_to_hex b = [hex_digit (unat b div 16), hex_digit (unat b mod 16)]"

definition hashToHex :: "bytes \<Rightarrow> codec_error + string" where
  "hashToHex hash =
     (if length hash \<noteq> HASH_SIZE then Inl (Expected_bytes (int (length hash)))
      else Inr (concat (map byte_to_hex hash)))"

definition hex_value :: "char \<Rightarrow> nat option" where
  "hex_value c =
     (let n = of_char c :: nat in
      if 48 \<le> n \<and> n \<le> 57 then Some (n - 48)
      else if 97 \<le> n \<and> n \<le> 102 then Some (n - 87)
      else if 65 \<le> n \<and> n \<le> 70 then Some (n - 55)
      else None)"

definition is_js_space :: "char \<Rightarrow> bool" where
  "is_js_space c \<longleftrightarrow> (let n = of_char c :: nat in (9 \<le> n \<and> n \<le> 13) \<or> n = 32 \<or> n = 160)"

fun hex_prefix_value :: "nat \<Rightarrow> string \<Rightarrow> nat" where
  "hex_prefix_value acc [] = acc"
| "hex_prefix_value acc (c # cs) =
     (case hex_value c of None \<Rightarrow> acc | Some d \<Rightarrow> hex_prefix_value (16 * acc + d) cs)"

text \<open>The digits after the optional \<open>0x\<close>; \<open>None\<close> is \<open>NaN\<close>.\<close>

definition parse_hex_digits :: "string \<Rightarrow> nat option" where
  "parse_hex_digits s =
     (let digits = (case s of z # x # rest \<Rightarrow> if z = CHR ''0'' \<and> (x = CHR ''x'' \<or> x = CHR ''X'') then rest else s
                    | _ \<Rightarrow> s)
      in case digits of [] \<Rightarrow> None
         | c # _ \<Rightarrow> (case hex_value c of None \<Rightarrow> None | Some _ \<Rightarrow> Some (hex_prefix_value 0 digits)))"

definition parseInt16 :: "string \<Rightarrow> int option" where
  "parseInt16 s =
     (case dropWhile is_js_space s of
        [] \<Rightarrow> None
      | c # cs \<Rightarrow>
          if c = CHR ''-'' then map_option (\<lambda>n. - int n) (parse_hex_digits cs)
          else if c = CHR ''+'' then map_option int (parse_hex_digits cs)
          else map_option int (parse_hex_digits (c # cs)))"

text \<open>A store into a \<open>Uint8Array\<close> reduces modulo 256 and turns \<open>NaN\<close> into 0.\<close>

definition to_uint8 :: "int option \<Rightarrow> byte" where
  "to_uint8 v = (case v of None \<Rightarrow> 0 | Some n \<Rightarrow> word_of_int n)"

definition hexToHash :: "string \<Rightarrow> codec_error + bytes" where
  "hexToHash hex =
     (if length hex \<noteq> HASH_SIZE * 2 then Inl (Expected_hex (int (length hex)))
      else Inr (map (\<lambda>i. to_uint8 (parseInt16 (slice (i * 2) (i * 2 + 2) hex))) [0..<HASH_SIZE]))"

definition computeNodeDigest ::
  "(bytes \<Rightarrow> bytes) \<Rightarrow> bytes \<Rightarrow> string \<Rightarrow> bytes list \<Rightarrow> bytes \<Rightarrow> codec_error + bytes" where
  "computeNodeDigest sha256 headerBytes contentType childHashes content =
     (let contentTypeBytes = textEncode contentType;
          totalSize = length headerBytes + length contentTypeBytes
            + length childHashes * HASH_SIZE + length content
      in bindE (buffer_set (replicate totalSize 0) 0 headerBytes) (\<lambda>c1.
         bindE (buffer_set c1 (length headerBytes) contentTypeBytes) (\<lambda>c2.
         bindE (set_hashes c2 (length headerBytes + length contentTypeBytes) childHashes) (\<lambda>(c3, offset).
         bindE (buffer_set c3 offset content) (\<lambda>canonical.
         Inr (sha256 canonical))))))"

section \<open>Lemmas\<close>

definition is_lower_hex :: "char \<Rightarrow> bool" where
  "is_lower_hex c \<longleftrightarrow> (let n = of_char c :: nat in (48 \<le> n \<and> n \<le> 57) \<or> (97 \<le> n \<and> n \<le> 102))"

lemma of_char_hex_digit:
  "n < 16 \<Longrightarrow> (of_char (hex_digit n) :: nat) = (if n < 10 then 48 + n else 87 + n)"
  by (simp add: hex_digit_def of_char_of)

lemma hex_value_hex_digit: "n < 16 \<Longrightarrow> hex_value (hex_digit n) = Some n"
  by (simp add: hex_value_def of_char_hex_digit)

lemma hex_digit_lower: "n < 16 \<Longrightarrow> is_lower_hex (hex_digit n)"
  by (simp add: is_lower_hex_def of_char_hex_digit)

lemma lower_hex_digit:
  assumes "is_lower_hex c"
  shows "\<exists>n < 16. c = hex_digit n"
proof (cases "(of_char c :: nat) \<le> 57")
  case True
  with assms have "hex_digit (of_char c - 48) = c \<and> of_char c - 48 < (16 :: nat)"
    by (auto simp: hex_digit_def is_lower_hex_def Let_def)
  then show ?thesis by metis
next
  case False
  with assms have "hex_digit (of_char c - 87) = c \<and> of_char c - 87 < (16 :: nat)"
    by (auto simp: hex_digit_def is_lower_hex_def Let_def)
  then show ?thesis by metis
qed

lemma parse_two_digits:
  assumes "m < 16" and "n < 16"
  shows "parseInt16 [hex_digit m, hex_digit n] = Some (int (16 * m + n))"
proof -
  have sp: "\<not> is_js_space (hex_digit m)"
    using assms(1) by (auto simp: is_js_space_def of_char_hex_digit)
  have sign: "hex_digit m \<noteq> CHR ''-''" "hex_digit m \<noteq> CHR ''+''"
    using of_char_hex_digit [OF assms(1)] by (auto split: if_splits)
  have x: "hex_digit n \<noteq> CHR ''x''" "hex_digit n \<noteq> CHR ''X''"
    using of_char_hex_digit [OF assms(2)] assms(2) by (auto split: if_splits)
  show ?thesis
    using sp sign x assms by (simp add: parseInt16_def parse_hex_digits_def hex_value_hex_digit)
qed

lemma to_uint8_byte: "to_uint8 (parseInt16 (byte_to_hex b)) = b"
proof -
  have "parseInt16 (byte_to_hex b) = Some (int (16 * (unat b div 16) + unat b mod 16))"
    unfolding byte_to_hex_def by (intro parse_two_digits) (simp_all add: div_less_iff_less_mult)
  then show ?thesis by (simp add: to_uint8_def)
qed

lemma length_byte_to_hex [simp]: "length (byte_to_hex b) = 2"
  by (simp add: byte_to_hex_def)

lemma length_concat_hex [simp]: "length (concat (map byte_to_hex bs)) = 2 * length bs"
  by (induction bs) auto

lemma hex_slices:
  assumes "length bs = n"
  shows "map (\<lambda>i. slice (i * 2) (i * 2 + 2) (concat (map byte_to_hex bs))) [0..<n] = map byte_to_hex bs"
  using hash_slices [of "map byte_to_hex bs" 2 "[]"] assms by (simp add: add.commute)

lemma hexToHash_hex: "length bs = HASH_SIZE \<Longrightarrow> hexToHash (concat (map byte_to_hex bs)) = Inr bs"
proof -
  assume len: "length bs = HASH_SIZE"
  let ?s = "concat (map byte_to_hex bs)"
  have "map (\<lambda>i. to_uint8 (parseInt16 (slice (i * 2) (i * 2 + 2) ?s))) [0..<HASH_SIZE]
      = map (\<lambda>h. to_uint8 (parseInt16 h)) (map (\<lambda>i. slice (i * 2) (i * 2 + 2) ?s) [0..<HASH_SIZE])"
    by simp
  also have "\<dots> = bs" unfolding hex_slices [OF len] by (simp add: to_uint8_byte o_def)
  finally show ?thesis using len by (simp add: hexToHash_def)
qed

text \<open>Every string of an even number of lowercase hexadecimal digits is the hex of some bytes.\<close>

lemma lower_hex_is_hex:
  assumes "\<forall>c \<in> set s. is_lower_hex c" and "length s = 2 * n"
  shows "\<exists>bs. length bs = n \<and> concat (map byte_to_hex bs) = s"
  using assms
proof (induction n arbitrary: s)
  case 0
  then show ?case by simp
next
  case (Suc n)
  then obtain a b t where s: "s = a # b # t" by (cases s; cases "tl s") auto
  with Suc.prems obtain i j where ij: "i < 16" "a = hex_digit i" "j < 16" "b = hex_digit j"
    by (metis list.set_intros(1) list.set_intros(2) lower_hex_digit)
  from Suc s obtain bs where bs: "length bs = n" "concat (map byte_to_hex bs) = t" by auto
  have "unat (of_nat (16 * i + j) :: byte) = 16 * i + j"
    using ij by (subst unat_of_nat) simp
  then have "byte_to_hex (of_nat (16 * i + j)) = [a, b]"
    using ij unfolding byte_to_hex_def by simp
  then show ?case using bs s by (intro exI [of _ "of_nat (16 * i + j) # bs"]) simp
qed

lemma hashToHex_eq_Inr:
  "hashToHex h = Inr s \<longleftrightarrow> length h = HASH_SIZE \<and> s = concat (map byte_to_hex h)"
  by (auto simp: hashToHex_def)

lemma hex_is_lower: "c \<in> set (concat (map byte_to_hex bs)) \<Longrightarrow> is_lower_hex c"
proof -
  have "\<And>b. unat (b :: byte) div 16 < 16" by (simp add: div_less_iff_less_mult unat_byte_bound)
  then show "c \<in> set (concat (map byte_to_hex bs)) \<Longrightarrow> is_lower_hex c"
    by (auto simp: byte_to_hex_def intro: hex_digit_lower)
qed

end
