(* ===== verification/Codec_Validation.thy ===== *)
theory Codec_Validation
  imports Codec_Digest
begin

text \<open>
  Wire constraints, \<^verbatim>\<open>packages/codec/src/validation.ts\<close>: each validator returns the first
  error its source throws, in the order of the source's checks.  Sums of sizes are exact
  here and double-precision there; a sum beyond \<open>2^53\<close> is refused by both, since rounding
  is monotone and the safe-integer test and every configured limit lie below it.
\<close>

definition MAX_CANONICAL_NODE_BYTES :: int where
  "MAX_CANONICAL_NODE_BYTES = 64 * 1024 * 1024"

definition MAX_NODE_REFS :: int where
  "MAX_NODE_REFS = 256"

record canonicalNodeLimits =
  maxCanonicalNodeBytes :: "int option"
  maxNodeRefs :: "int option"

definition no_limits :: canonicalNodeLimits where
  "no_limits = \<lparr>maxCanonicalNodeBytes = None, maxNodeRefs = None\<rparr>"

definition resolveLimit :: "int option \<Rightarrow> int \<Rightarrow> string \<Rightarrow> bool \<Rightarrow> codec_error + int" where
  "resolveLimit value maximum name allowZero =
     (case value of
        None \<Rightarrow> Inr maximum
      | Some v \<Rightarrow>
          let minimum = (if allowZero then 0 else 1) in
          if \<not> isSafeInteger v \<or> v < minimum \<or> v > maximum
          then Inl (Limit_out_of_range name minimum maximum)
          else Inr v)"

definition validateCanonicalNodeSize ::
  "int \<Rightarrow> int \<Rightarrow> int \<Rightarrow> canonicalNodeLimits \<Rightarrow> codec_error + int" where
  "validateCanonicalNodeSize contentSize contentTypeLength refCount limits =
     bindE (resolveLimit (maxCanonicalNodeBytes limits) MAX_CANONICAL_NODE_BYTES
              ''Canonical node byte limit'' False) (\<lambda>maxBytes.
     bindE (resolveLimit (maxNodeRefs limits) MAX_NODE_REFS ''Child ref limit'' True) (\<lambda>maxRefs.
     if \<not> isSafeInteger contentSize \<or> contentSize < 0 then Inl (Invalid_content_size contentSize)
     else if \<not> isSafeInteger contentTypeLength
        \<or> contentTypeLength < MIN_CONTENT_TYPE_LENGTH \<or> contentTypeLength > MAX_CONTENT_TYPE_LENGTH
     then Inl (Content_type_length_out_of_range contentTypeLength)
     else if \<not> isSafeInteger refCount \<or> refCount < 0 \<or> refCount > maxRefs
     then Inl (Child_ref_count_out_of_range refCount)
     else
       let totalLength = int HEADER_SIZE + contentTypeLength + refCount * int HASH_SIZE + contentSize in
       if \<not> isSafeInteger totalLength then Inl Total_length_overflow
       else if totalLength > maxBytes then Inl (Canonical_node_too_large totalLength maxBytes)
       else Inr totalLength))"

definition validateHash :: "string \<Rightarrow> codec_error + unit" where
  "validateHash hash =
     (if length hash \<noteq> HASH_HEX_LENGTH then Inl (Hash_length (int (length hash)))
      else if \<not> (length hash = 64 \<and> list_all is_lower_hex hash) then Inl (Hash_not_hex hash)
      else Inr ())"

definition validateRawHash :: "bytes \<Rightarrow> codec_error + unit" where
  "validateRawHash raw =
     (if length raw \<noteq> HASH_SIZE then Inl (Raw_hash_length (int (length raw))) else Inr ())"

definition is_printable_ascii :: "char \<Rightarrow> bool" where
  "is_printable_ascii c \<longleftrightarrow> (let n = of_char c :: nat in 32 \<le> n \<and> n \<le> 126)"

definition validateContentType :: "string \<Rightarrow> codec_error + unit" where
  "validateContentType contentType =
     (let bytes = textEncode contentType in
      if int (length bytes) < MIN_CONTENT_TYPE_LENGTH then Inl Content_type_empty
      else if int (length bytes) > MAX_CONTENT_TYPE_LENGTH
      then Inl (Content_type_too_long (int (length bytes)))
      else if List.member contentType (char_of (0 :: nat)) then Inl Content_type_nul
      else if \<not> (contentType \<noteq> [] \<and> list_all is_printable_ascii contentType)
      then Inl (Content_type_not_ascii contentType)
      else Inr ())"

definition validateDecodedHeader :: "decoded_header \<Rightarrow> codec_error + unit" where
  "validateDecodedHeader decoded =
     (if \<not> (case dh_signature decoded of a # b # _ \<Rightarrow> a = 0x55 \<and> b = 0x44 | _ \<Rightarrow> False)
      then Inl Invalid_signature
      else if dh_version decoded \<noteq> VERSION then Inl (Unsupported_version (dh_version decoded))
      else if dh_flags decoded \<noteq> 0 then Inl (Flags_nonzero (dh_flags decoded))
      else if dh_reserved decoded \<noteq> 0 then Inl (Reserved_nonzero (dh_reserved decoded))
      else bindE (validateCanonicalNodeSize (dh_contentSize decoded) (dh_contentTypeLength decoded)
                    (dh_refCount decoded) no_limits) (\<lambda>_. Inr ()))"

fun validate_all :: "string list \<Rightarrow> codec_error + unit" where
  "validate_all [] = Inr ()"
| "validate_all (r # rs) = bindE (validateHash r) (\<lambda>_. validate_all rs)"

definition validateChildRefs :: "string list \<Rightarrow> int \<Rightarrow> codec_error + unit" where
  "validateChildRefs refs refCount =
     (if int (length refs) \<noteq> refCount then Inl (Child_ref_count_mismatch refCount (int (length refs)))
      else validate_all refs)"

definition validateContentLength :: "int \<Rightarrow> int \<Rightarrow> codec_error + unit" where
  "validateContentLength actualLength expectedLength =
     (if actualLength \<noteq> expectedLength
      then Inl (Content_length_mismatch expectedLength actualLength) else Inr ())"

section \<open>Messages\<close>

fun codec_message :: "codec_error \<Rightarrow> string" where
  "codec_message (Header_length n) = ''Header must be 24 bytes, got '' @ show_int n"
| "codec_message (Node_bytes_too_short n) = ''Node bytes too short: '' @ show_int n @ '' < 24''"
| "codec_message (Node_bytes_length_mismatch e n) =
     ''Node bytes length mismatch: expected '' @ show_int e @ '', got '' @ show_int n"
| "codec_message Buffer_set_out_of_range = ''offset is out of bounds''"
| "codec_message (Expected_bytes n) = ''Expected 32 bytes, got '' @ show_int n"
| "codec_message (Expected_hex n) = ''Expected 64 hex characters, got '' @ show_int n"
| "codec_message (Invalid_content_size n) = ''Invalid content size: '' @ show_int n"
| "codec_message (Content_type_length_out_of_range n) = ''Content type length out of range: '' @ show_int n"
| "codec_message (Child_ref_count_out_of_range n) = ''Child ref count out of range: '' @ show_int n"
| "codec_message Total_length_overflow = ''Total node length overflows safe integer range''"
| "codec_message (Canonical_node_too_large n m) =
     ''Canonical node too large: '' @ show_int n @ '' > '' @ show_int m"
| "codec_message (Limit_out_of_range name lo hi) =
     name @ '' must be an integer between '' @ show_int lo @ '' and '' @ show_int hi"
| "codec_message (Hash_length n) = ''Hash must be 64 characters, got '' @ show_int n"
| "codec_message (Hash_not_hex h) = ''Hash must be lowercase hex: '' @ h"
| "codec_message (Raw_hash_length n) = ''Raw hash must be 32 bytes, got '' @ show_int n"
| "codec_message Content_type_empty = ''Content type must not be empty''"
| "codec_message (Content_type_too_long n) = ''Content type too long: '' @ show_int n @ '' > 1024''"
| "codec_message Content_type_nul = ''Content type must not contain NUL''"
| "codec_message (Content_type_not_ascii s) =
     ''Content type must be printable ASCII (0x20-0x7e): '' @ s"
| "codec_message Invalid_signature = ''Invalid signature: expected '' @ [CHR 0x27] @ ''UD'' @ [CHR 0x27]"
| "codec_message (Unsupported_version n) = ''Unsupported version: '' @ show_int n @ '' (expected 1)''"
| "codec_message (Flags_nonzero n) = ''Flags must be zero, got '' @ show_int n"
| "codec_message (Reserved_nonzero n) = ''Reserved must be zero, got '' @ show_int n"
| "codec_message (Child_ref_count_mismatch e n) =
     ''Child ref count mismatch: header says '' @ show_int e @ '', got '' @ show_int n"
| "codec_message (Content_length_mismatch e n) =
     ''Content length mismatch: expected '' @ show_int e @ '', got '' @ show_int n"
| "codec_message (Stream_ended at n) =
     ''Canonical node ended at '' @ show_int at @ '' bytes while reading '' @ show_int n @ '' bytes''"
| "codec_message (Declared_length_mismatch h d) =
     ''Canonical node length mismatch: header says '' @ show_int h @ '', Content-Length says '' @ show_int d"
| "codec_message Content_type_bytes_not_ascii = ''Content type must be printable ASCII (0x20-0x7e)''"
| "codec_message (Replay_length_mismatch e n) =
     ''Canonical node length mismatch: expected '' @ show_int e @ '', got '' @ show_int n"
| "codec_message (Replay_length_exceeded n) =
     ''Canonical node length exceeds declared '' @ show_int n @ '' bytes''"

section \<open>Lemmas\<close>

lemma validateHash_ok: "validateHash h = Inr () \<longleftrightarrow> length h = 64 \<and> list_all is_lower_hex h"
  by (simp add: validateHash_def HASH_HEX_LENGTH_def)

lemma validate_all_ok: "validate_all rs = Inr () \<longleftrightarrow> (\<forall>r \<in> set rs. validateHash r = Inr ())"
  by (induction rs) auto

lemma printable_is_ascii: "list_all is_printable_ascii s \<Longrightarrow> ascii_string s"
  by (auto simp: list_all_iff is_printable_ascii_def ascii_string_def Let_def)

lemma resolveLimit_ok:
  "resolveLimit v m name z = Inr x \<Longrightarrow> 0 \<le> m \<Longrightarrow> x \<le> m"
  by (auto simp: resolveLimit_def Let_def split: option.splits if_splits)

lemma validateContentType_ok:
  "validateContentType s = Inr () \<longleftrightarrow>
     1 \<le> length s \<and> length s \<le> 1024 \<and> list_all is_printable_ascii s"
proof -
  have no_nul: "\<not> List.member s (char_of (0 :: nat))" if "list_all is_printable_ascii s"
    using that by (auto simp: list_all_iff is_printable_ascii_def)
  have len: "length (textEncode s) = length s" if "list_all is_printable_ascii s"
    using length_textEncode_ascii [OF printable_is_ascii [OF that]] .
  show ?thesis
    using no_nul len
    by (auto simp: validateContentType_def MIN_CONTENT_TYPE_LENGTH_def MAX_CONTENT_TYPE_LENGTH_def Let_def
        Suc_le_eq)
qed

text \<open>An accepted size is the exact sum and respects every bound of the format.\<close>

lemma validateCanonicalNodeSize_ok:
  assumes "validateCanonicalNodeSize cs ctl rc lim = Inr n"
  shows "n = 24 + ctl + rc * 32 + cs \<and> 0 \<le> cs \<and> isSafeInteger cs \<and> 1 \<le> ctl \<and> ctl \<le> 1024
    \<and> 0 \<le> rc \<and> rc \<le> 256 \<and> n \<le> 67108864"
proof -
  from assms obtain mb mr where
    mb: "resolveLimit (maxCanonicalNodeBytes lim) MAX_CANONICAL_NODE_BYTES ''Canonical node byte limit'' False = Inr mb"
    and mr: "resolveLimit (maxNodeRefs lim) MAX_NODE_REFS ''Child ref limit'' True = Inr mr"
    unfolding validateCanonicalNodeSize_def bindE_eq_Inr by blast
  have "mb \<le> MAX_CANONICAL_NODE_BYTES" "mr \<le> MAX_NODE_REFS"
    using resolveLimit_ok [OF mb] resolveLimit_ok [OF mr]
    by (simp_all add: MAX_CANONICAL_NODE_BYTES_def MAX_NODE_REFS_def)
  with assms show ?thesis
    unfolding validateCanonicalNodeSize_def mb mr
    by (auto simp: Let_def codec_consts MAX_CANONICAL_NODE_BYTES_def MAX_NODE_REFS_def split: if_splits)
qed

lemma validateCanonicalNodeSize_no_limits:
  assumes "0 \<le> cs" and "1 \<le> ctl" and "ctl \<le> 1024" and "0 \<le> rc" and "rc \<le> 256"
    and "24 + ctl + rc * 32 + cs \<le> 67108864"
  shows "validateCanonicalNodeSize cs ctl rc no_limits = Inr (24 + ctl + rc * 32 + cs)"
  using assms
  by (simp add: validateCanonicalNodeSize_def resolveLimit_def no_limits_def isSafeInteger_iff
      codec_consts MAX_CANONICAL_NODE_BYTES_def MAX_NODE_REFS_def Let_def)

end
