(* ===== verification/Codec_Stream.thy ===== *)
theory Codec_Stream
  imports Codec_Validation
begin

text \<open>
  The streaming node parser, \<^verbatim>\<open>packages/codec/src/canonical-stream.ts\<close>.  A
  \<open>ReadableStream\<close> is the finite list of the chunks its reader delivers, cut wherever the
  network cut them; \<open>StreamCursor\<close> keeps the part of a chunk that was read too far.  The
  replayed body is the list of chunks the new stream enqueues and how it ends, closed or
  errored.
\<close>

record stream_cursor =
  sc_remainder :: "bytes option"
  sc_source :: "bytes list"

definition open_cursor :: "bytes list \<Rightarrow> stream_cursor" where
  "open_cursor chunks = \<lparr>sc_remainder = None, sc_source = chunks\<rparr>"

text \<open>\<open>this.#remainder ?? (await this.#reader.read()).value\<close>, clearing the remainder.\<close>

definition next_chunk :: "stream_cursor \<Rightarrow> (bytes \<times> stream_cursor) option" where
  "next_chunk c =
     (case sc_remainder c of
        Some ch \<Rightarrow> Some (ch, c\<lparr>sc_remainder := None\<rparr>)
      | None \<Rightarrow> (case sc_source c of [] \<Rightarrow> None | ch # rest \<Rightarrow> Some (ch, c\<lparr>sc_source := rest\<rparr>)))"

definition pending_chunks :: "stream_cursor \<Rightarrow> bytes list" where
  "pending_chunks c = (case sc_remainder c of Some ch \<Rightarrow> [ch] | None \<Rightarrow> []) @ sc_source c"

lemma next_chunk_pending:
  "next_chunk c = (case pending_chunks c of [] \<Rightarrow> None
     | ch # rest \<Rightarrow> Some (ch, \<lparr>sc_remainder = None, sc_source = rest\<rparr>))"
  by (cases c) (auto simp: next_chunk_def pending_chunks_def split: option.splits list.splits)

lemma pending_chunks_simps [simp]:
  "pending_chunks \<lparr>sc_remainder = None, sc_source = cs\<rparr> = cs"
  "pending_chunks \<lparr>sc_remainder = Some ch, sc_source = cs\<rparr> = ch # cs"
  by (simp_all add: pending_chunks_def)

text \<open>The loop of \<open>readExactly\<close>; \<open>acc\<close> holds the \<open>offset\<close> bytes written so far.\<close>

function read_loop :: "nat \<Rightarrow> bytes \<Rightarrow> stream_cursor \<Rightarrow> codec_error + (bytes \<times> stream_cursor)" where
  "read_loop len acc c =
     (if length acc < len then
        (case next_chunk c of
           None \<Rightarrow> Inl (Stream_ended (int (length acc)) (int len))
         | Some (chunk, c') \<Rightarrow>
             let tk = min (length chunk) (len - length acc);
                 c'' = (if tk < length chunk then c'\<lparr>sc_remainder := Some (drop tk chunk)\<rparr> else c')
             in read_loop len (acc @ take tk chunk) c'')
      else Inr (acc, c))"
  by pat_completeness auto
termination
  by (relation "measure (\<lambda>(len, acc, c). if length acc < len then Suc (length (pending_chunks c)) else 0)")
    (auto simp: next_chunk_pending split: list.splits)

declare read_loop.simps [simp del]

definition readExactly :: "nat \<Rightarrow> stream_cursor \<Rightarrow> codec_error + (bytes \<times> stream_cursor)" where
  "readExactly len c = read_loop len [] c"

text \<open>The stream \<open>replay\<close> returns: its enqueued chunks, and the error it ends with, if any.\<close>

fun replay_loop :: "nat \<Rightarrow> nat \<Rightarrow> bytes list \<Rightarrow> bytes list \<times> codec_error option" where
  "replay_loop emitted expectedLength [] =
     ([], if emitted \<noteq> expectedLength
          then Some (Replay_length_mismatch (int expectedLength) (int emitted)) else None)"
| "replay_loop emitted expectedLength (chunk # rest) =
     (if emitted + length chunk > expectedLength then ([], Some (Replay_length_exceeded (int expectedLength)))
      else case replay_loop (emitted + length chunk) expectedLength rest of
        (chunks, end) \<Rightarrow> (chunk # chunks, end))"

definition replay :: "bytes \<Rightarrow> nat \<Rightarrow> stream_cursor \<Rightarrow> bytes list \<times> codec_error option" where
  "replay prefix expectedLength c = replay_loop 0 expectedLength (prefix # pending_chunks c)"

record parsedCanonicalNode =
  pc_contentSize :: int
  pc_contentType :: string
  pc_refs :: "string list"
  pc_canonicalSize :: int
  pc_body :: "bytes list \<times> codec_error option"

text \<open>The loop that turns the reference bytes into hexadecimal hashes.\<close>

fun hex_refs :: "nat \<Rightarrow> bytes \<Rightarrow> codec_error + string list" where
  "hex_refs 0 bs = Inr []"
| "hex_refs (Suc n) bs =
     bindE (hashToHex (take HASH_SIZE bs)) (\<lambda>h.
     bindE (hex_refs n (drop HASH_SIZE bs)) (\<lambda>hs. Inr (h # hs)))"

definition parseCanonicalNodeStream ::
  "bytes list \<Rightarrow> int option \<Rightarrow> canonicalNodeLimits \<Rightarrow> codec_error + parsedCanonicalNode" where
  "parseCanonicalNodeStream source declaredLength limits =
     bindE (readExactly HEADER_SIZE (open_cursor source)) (\<lambda>(header, c1).
     bindE (decodeHeader header) (\<lambda>decoded.
     bindE (validateDecodedHeader decoded) (\<lambda>_.
     bindE (validateCanonicalNodeSize (dh_contentSize decoded) (dh_contentTypeLength decoded)
              (dh_refCount decoded) limits) (\<lambda>canonicalSize.
     if (case declaredLength of None \<Rightarrow> False | Some d \<Rightarrow> d \<noteq> canonicalSize)
     then Inl (Declared_length_mismatch canonicalSize (the declaredLength))
     else
     bindE (readExactly (nat (dh_contentTypeLength decoded)) c1) (\<lambda>(contentTypeBytes, c2).
     if list_ex (\<lambda>b. b < 0x20 \<or> b > 0x7e) contentTypeBytes then Inl Content_type_bytes_not_ascii
     else
     let contentType = asciiDecode contentTypeBytes in
     bindE (validateContentType contentType) (\<lambda>_.
     bindE (readExactly (nat (dh_refCount decoded * int HASH_SIZE)) c2) (\<lambda>(refsBytes, c3).
     bindE (hex_refs (length refsBytes div HASH_SIZE) refsBytes) (\<lambda>refs.
     Inr \<lparr>pc_contentSize = dh_contentSize decoded,
          pc_contentType = contentType,
          pc_refs = refs,
          pc_canonicalSize = canonicalSize,
          pc_body = replay (header @ contentTypeBytes @ refsBytes) (nat canonicalSize) c3\<rparr>))))))))"

section \<open>The cursor delivers the bytes of the stream, however it is chunked\<close>

definition cursor_bytes :: "stream_cursor \<Rightarrow> bytes" where
  "cursor_bytes c = concat (pending_chunks c)"

lemma cursor_bytes_open [simp]: "cursor_bytes (open_cursor chunks) = concat chunks"
  by (simp add: cursor_bytes_def pending_chunks_def open_cursor_def)

lemma read_loop_bytes:
  "length acc \<le> len \<Longrightarrow>
     (case read_loop len acc c of
        Inl e \<Rightarrow> length acc + length (cursor_bytes c) < len
          \<and> e = Stream_ended (int (length acc + length (cursor_bytes c))) (int len)
      | Inr (r, c') \<Rightarrow> len \<le> length acc + length (cursor_bytes c)
          \<and> r = acc @ take (len - length acc) (cursor_bytes c)
          \<and> cursor_bytes c' = drop (len - length acc) (cursor_bytes c))"
proof (induction len acc c rule: read_loop.induct)
  case (1 len acc c)
  show ?case
  proof (cases "length acc < len")
    case False
    then show ?thesis using "1.prems" by (simp add: read_loop.simps [of len acc c])
  next
    case True
    show ?thesis
    proof (cases "pending_chunks c")
      case Nil
      then show ?thesis
        using True by (simp add: read_loop.simps [of len acc c] next_chunk_pending cursor_bytes_def)
    next
      case (Cons chunk rest)
      define tk where "tk = min (length chunk) (len - length acc)"
      define c' where "c' = \<lparr>sc_remainder = None, sc_source = rest\<rparr>"
      define c'' where "c'' = (if tk < length chunk then c'\<lparr>sc_remainder := Some (drop tk chunk)\<rparr> else c')"
      have nc: "next_chunk c = Some (chunk, c')" using Cons by (simp add: next_chunk_pending c'_def)
      have bytes: "cursor_bytes c = take tk chunk @ cursor_bytes c''"
        using Cons by (auto simp: cursor_bytes_def c''_def c'_def tk_def)
      have step: "read_loop len acc c = read_loop len (acc @ take tk chunk) c''"
        using True nc by (simp add: read_loop.simps [of len acc c] Let_def tk_def c''_def)
      have tk: "length (take tk chunk) = tk" "length acc + tk \<le> len" using True by (simp_all add: tk_def)
      have "length (acc @ take tk chunk) \<le> len" using tk by simp
      note IH = "1.IH" [OF True nc refl tk_def c''_def this]
      show ?thesis
      proof (cases "read_loop len (acc @ take tk chunk) c''")
        case (Inl e)
        with IH show ?thesis unfolding step bytes by (simp add: tk)
      next
        case (Inr p)
        obtain r d where p: "p = (r, d)" by (cases p)
        from IH Inr p tk show ?thesis unfolding step bytes by simp
      qed
    qed
  qed
qed

lemma readExactly_ok:
  "readExactly n c = Inr (r, c') \<Longrightarrow>
     n \<le> length (cursor_bytes c) \<and> r = take n (cursor_bytes c) \<and> cursor_bytes c' = drop n (cursor_bytes c)"
  using read_loop_bytes [of "[]" n c] by (simp add: readExactly_def)

lemma readExactly_error:
  "readExactly n c = Inl e \<Longrightarrow>
     length (cursor_bytes c) < n \<and> e = Stream_ended (int (length (cursor_bytes c))) (int n)"
  using read_loop_bytes [of "[]" n c] by (simp add: readExactly_def)

lemma readExactly_enough:
  assumes "n \<le> length (cursor_bytes c)"
  obtains c' where "readExactly n c = Inr (take n (cursor_bytes c), c')"
    and "cursor_bytes c' = drop n (cursor_bytes c)"
proof (cases "readExactly n c")
  case (Inl e)
  then show ?thesis using readExactly_error [OF Inl] assms by simp
next
  case (Inr p)
  then show ?thesis using readExactly_ok [of n c "fst p" "snd p"] that by (cases p) auto
qed

section \<open>The replayed body\<close>

lemma replay_loop_ok:
  "emitted + length (concat chunks) = n \<Longrightarrow> replay_loop emitted n chunks = (chunks, None)"
  by (induction chunks arbitrary: emitted) (auto simp: add.assoc)

lemma replay_loop_None:
  "snd (replay_loop emitted n chunks) = None \<Longrightarrow>
     fst (replay_loop emitted n chunks) = chunks \<and> emitted + length (concat chunks) = n"
proof (induction chunks arbitrary: emitted)
  case Nil
  then show ?case by (simp split: if_splits)
next
  case (Cons a chunks)
  obtain cs r where rl: "replay_loop (emitted + length a) n chunks = (cs, r)" by fastforce
  with Cons.prems have "r = None" and fits: "\<not> n < emitted + length a" by (auto split: if_splits)
  with Cons.IH [of "emitted + length a"] rl show ?case by simp
qed

section \<open>Reference hashes\<close>

lemma hex_refs_ok:
  assumes "length bs = n * HASH_SIZE"
  shows "\<exists>hs. length hs = n \<and> (\<forall>h \<in> set hs. length h = HASH_SIZE) \<and> concat hs = bs
    \<and> hex_refs n bs = Inr (map (\<lambda>h. concat (map byte_to_hex h)) hs)"
  using assms
proof (induction n arbitrary: bs)
  case 0
  then show ?case by simp
next
  case (Suc n)
  then have "length (drop HASH_SIZE bs) = n * HASH_SIZE" by simp
  from Suc.IH [OF this] obtain hs where hs: "length hs = n" "\<forall>h \<in> set hs. length h = HASH_SIZE"
    "concat hs = drop HASH_SIZE bs" "hex_refs n (drop HASH_SIZE bs) = Inr (map (\<lambda>h. concat (map byte_to_hex h)) hs)"
    by auto
  have len: "length (take HASH_SIZE bs) = HASH_SIZE" using Suc.prems by simp
  then have "hashToHex (take HASH_SIZE bs) = Inr (concat (map byte_to_hex (take HASH_SIZE bs)))"
    by (simp add: hashToHex_def)
  then show ?case
    using hs len by (intro exI [of _ "take HASH_SIZE bs # hs"]) simp
qed

section \<open>What the parser accepts\<close>

text \<open>
  The prefix of a canonical node: header, content type and child hashes.  \<open>node_shape\<close>
  collects the bounds of the format.
\<close>

definition node_prefix :: "int \<Rightarrow> string \<Rightarrow> bytes list \<Rightarrow> bytes" where
  "node_prefix contentSize contentType hashes =
     encodeHeader contentSize contentType (int (length hashes)) @ textEncode contentType @ concat hashes"

definition node_shape :: "int \<Rightarrow> string \<Rightarrow> bytes list \<Rightarrow> bool" where
  "node_shape contentSize contentType hashes \<longleftrightarrow>
     0 \<le> contentSize \<and> validateContentType contentType = Inr () \<and>
     (\<forall>h \<in> set hashes. length h = HASH_SIZE) \<and> length hashes \<le> 256 \<and>
     24 + int (length contentType) + 32 * int (length hashes) + contentSize \<le> 67108864"

definition hex_of_hashes :: "bytes list \<Rightarrow> string list" where
  "hex_of_hashes hs = map (\<lambda>h. concat (map byte_to_hex h)) hs"

lemma length_node_prefix:
  assumes "node_shape cs ct hs"
  shows "length (node_prefix cs ct hs) = 24 + length ct + 32 * length hs"
proof -
  have "length (textEncode ct) = length ct"
    using assms by (simp add: node_shape_def validateContentType_ok length_textEncode_ascii printable_is_ascii)
  moreover have "length (concat hs) = length hs * HASH_SIZE"
    using assms by (intro length_concat_hashes) (simp add: node_shape_def)
  ultimately show ?thesis
    by (simp add: node_prefix_def HEADER_SIZE_def HASH_SIZE_def)
qed

lemma decode_shape:
  assumes "node_shape cs ct hs"
  shows "decodeHeader (encodeHeader cs ct (int (length hs))) =
    Inr \<lparr>dh_signature = SIGNATURE, dh_version = VERSION, dh_flags = 0, dh_contentSize = cs,
         dh_refCount = int (length hs), dh_contentTypeLength = int (length ct), dh_reserved = 0\<rparr>"
proof -
  have ct: "length (textEncode ct) = length ct" "length ct \<le> 1024"
    using assms by (auto simp: node_shape_def validateContentType_ok length_textEncode_ascii printable_is_ascii)
  have "cs < 2 ^ 53" "0 \<le> cs" "length hs \<le> 256" using assms by (auto simp: node_shape_def)
  then show ?thesis
    using ct by (simp add: decode_encodeHeader numberOfBigInt_exact)
qed

lemma asciiDecode_ok:
  assumes "list_all is_printable_ascii ct"
  shows "asciiDecode (textEncode ct) = ct \<and> \<not> list_ex (\<lambda>b. b < 0x20 \<or> b > 0x7e) (textEncode ct)"
proof -
  have "asciiDecode (textEncode ct) = ct"
    using assms by (intro asciiDecode_textEncode printable_is_ascii)
  moreover have "\<not> list_ex (\<lambda>b. b < 0x20 \<or> b > 0x7e) (textEncode ct)"
    using assms
    by (induction ct)
      (auto simp: textEncode_Cons textEncodeChar_def is_printable_ascii_def Let_def word_less_nat_alt
        unat_of_nat)
  ultimately show ?thesis ..
qed

text \<open>Completeness: any stream that begins with a well-shaped prefix is parsed into its fields.\<close>

lemma parse_of_prefix:
  assumes shape: "node_shape cs ct hs"
    and bytes: "concat chunks = node_prefix cs ct hs @ rest"
    and size: "validateCanonicalNodeSize cs (int (length ct)) (int (length hs)) lim = Inr size_n"
    and declared: "d = None \<or> d = Some size_n"
  shows "\<exists>c. cursor_bytes c = rest \<and> parseCanonicalNodeStream chunks d lim =
    Inr \<lparr>pc_contentSize = cs, pc_contentType = ct, pc_refs = hex_of_hashes hs, pc_canonicalSize = size_n,
         pc_body = replay (node_prefix cs ct hs) (nat size_n) c\<rparr>"
proof -
  let ?hdr = "encodeHeader cs ct (int (length hs))"
  let ?ctb = "textEncode ct"
  have ctok: "list_all is_printable_ascii ct" and vct: "validateContentType ct = Inr ()"
    and hs: "\<forall>h \<in> set hs. length h = HASH_SIZE"
    using shape by (auto simp: node_shape_def validateContentType_ok)
  have ctlen: "length ?ctb = length ct"
    using ctok by (simp add: length_textEncode_ascii printable_is_ascii)
  have hslen: "length (concat hs) = length hs * HASH_SIZE" by (rule length_concat_hashes [OF hs])
  obtain c1 where r1: "readExactly HEADER_SIZE (open_cursor chunks) = Inr (?hdr, c1)"
    and b1: "cursor_bytes c1 = ?ctb @ concat hs @ rest"
    using readExactly_enough [of HEADER_SIZE "open_cursor chunks"] bytes
    by (auto simp: node_prefix_def)
  obtain c2 where r2: "readExactly (length ct) c1 = Inr (?ctb, c2)"
    and b2: "cursor_bytes c2 = concat hs @ rest"
    using readExactly_enough [of "length ct" c1] b1 ctlen by auto
  obtain c3 where r3: "readExactly (length hs * HASH_SIZE) c2 = Inr (concat hs, c3)"
    and b3: "cursor_bytes c3 = rest"
    using readExactly_enough [of "length hs * HASH_SIZE" c2] b2 hslen by auto
  have n3: "nat (int (length hs) * int HASH_SIZE) = length hs * HASH_SIZE"
    by (metis nat_int of_nat_mult)
  have default: "validateDecodedHeader \<lparr>dh_signature = SIGNATURE, dh_version = VERSION, dh_flags = 0,
      dh_contentSize = cs, dh_refCount = int (length hs), dh_contentTypeLength = int (length ct),
      dh_reserved = 0\<rparr> = Inr ()"
    using shape validateCanonicalNodeSize_no_limits [of cs "int (length ct)" "int (length hs)"]
    by (simp add: validateDecodedHeader_def SIGNATURE_def VERSION_def node_shape_def validateContentType_ok)
  obtain gs where gs: "length gs = length hs" "\<forall>h \<in> set gs. length h = HASH_SIZE" "concat gs = concat hs"
    "hex_refs (length hs) (concat hs) = Inr (hex_of_hashes gs)"
    using hex_refs_ok [OF hslen] unfolding hex_of_hashes_def by auto
  have "gs = hs"
    using hash_slices [OF gs(2), of "[]"] hash_slices [OF hs, of "[]"] gs(1,3) by simp
  then have hr: "hex_refs (length (concat hs) div HASH_SIZE) (concat hs) = Inr (hex_of_hashes hs)"
    using gs(4) hslen by (simp add: HASH_SIZE_def)
  have "parseCanonicalNodeStream chunks d lim =
    Inr \<lparr>pc_contentSize = cs, pc_contentType = ct, pc_refs = hex_of_hashes hs, pc_canonicalSize = size_n,
         pc_body = replay (node_prefix cs ct hs) (nat size_n) c3\<rparr>"
    using declared asciiDecode_ok [OF ctok] vct
    by (auto simp: parseCanonicalNodeStream_def r1 r2 r3 n3 decode_shape [OF shape] default size hr
        node_prefix_def Let_def)
  with b3 show ?thesis by blast
qed

text \<open>Soundness: what the parser accepts begins with exactly the prefix of the fields it returns.\<close>

lemma header_split:
  assumes "length h = 24"
  shows "h = slice 0 2 h @ slice 2 4 h @ slice 4 8 h @ slice 8 16 h @ slice 16 20 h @ slice 20 22 h
    @ slice 22 24 h"
  using assms slice_all [of 24 h] by (simp add: slice_join)

lemma decoded_header_unique:
  assumes dec: "decodeHeader header = Inr d" and val: "validateDecodedHeader d = Inr ()"
    and ctl: "dh_contentTypeLength d = int (length (textEncode ct))"
  shows "header = encodeHeader (dh_contentSize d) ct (dh_refCount d)"
proof -
  have len: "length header = 24" using dec by (simp add: decodeHeader_def HEADER_SIZE_def split: if_splits)
  have d: "d = \<lparr>dh_signature = slice 0 2 header, dh_version = le_value (slice 2 4 header),
      dh_flags = le_value (slice 4 8 header), dh_contentSize = numberOfBigInt (le_value (slice 8 16 header)),
      dh_refCount = le_value (slice 16 20 header), dh_contentTypeLength = le_value (slice 20 22 header),
      dh_reserved = le_value (slice 22 24 header)\<rparr>"
    using dec len by (simp add: decodeHeader_def HEADER_SIZE_def)
  from val obtain n where
    "validateCanonicalNodeSize (dh_contentSize d) (dh_contentTypeLength d) (dh_refCount d) no_limits = Inr n"
    by (auto simp: validateDecodedHeader_def split: if_splits)
  then have "isSafeInteger (dh_contentSize d)" by (auto dest: validateCanonicalNodeSize_ok)
  then have size: "numberOfBigInt (le_value (slice 8 16 header)) = le_value (slice 8 16 header)"
    using numberOfBigInt_safe by (simp add: d)
  have "length (slice 0 2 header) = 2" using len by (simp add: length_slice)
  then have sig: "slice 0 2 header = SIGNATURE"
    using val by (auto simp: validateDecodedHeader_def d SIGNATURE_def length_Suc_conv numeral_2_eq_2
        split: if_splits list.splits)
  have fields: "le_value (slice 2 4 header) = VERSION" "le_value (slice 4 8 header) = 0"
      "le_value (slice 22 24 header) = 0"
    using val by (auto simp: validateDecodedHeader_def d split: if_splits)
  have le: "\<And>i j k. j \<le> 24 \<Longrightarrow> k = j - i \<Longrightarrow> le_bytes k (le_value (slice i j header)) = slice i j header"
    using len by (simp add: le_bytes_le_value length_slice)
  have "encodeHeader (dh_contentSize d) ct (dh_refCount d) =
      SIGNATURE @ le_bytes 2 (le_value (slice 2 4 header)) @ le_bytes 4 (le_value (slice 4 8 header))
      @ le_bytes 8 (le_value (slice 8 16 header)) @ le_bytes 4 (le_value (slice 16 20 header))
      @ le_bytes 2 (le_value (slice 20 22 header)) @ le_bytes 2 (le_value (slice 22 24 header))"
    using ctl fields size by (simp add: encodeHeader_def d)
  also have "\<dots> = header"
    using header_split [OF len] sig by (simp add: le)
  finally show ?thesis by simp
qed

lemma printable_bytes:
  assumes "\<not> list_ex (\<lambda>b. b < 0x20 \<or> b > 0x7e) (bs :: bytes)"
  shows "textEncode (asciiDecode bs) = bs" and "length (asciiDecode bs) = length bs"
proof -
  have "\<forall>b \<in> set bs. unat b < 128"
    using assms by (auto simp: list_ex_iff word_less_nat_alt not_less)
  then show "textEncode (asciiDecode bs) = bs" by (rule textEncode_asciiDecode)
qed (simp add: asciiDecode_def)

lemma parse_ok:
  assumes "parseCanonicalNodeStream chunks d lim = Inr p"
  shows "\<exists>hs c. node_shape (pc_contentSize p) (pc_contentType p) hs \<and> pc_refs p = hex_of_hashes hs
    \<and> concat chunks = node_prefix (pc_contentSize p) (pc_contentType p) hs @ cursor_bytes c
    \<and> validateCanonicalNodeSize (pc_contentSize p) (int (length (pc_contentType p)))
        (int (length hs)) lim = Inr (pc_canonicalSize p)
    \<and> (d = None \<or> d = Some (pc_canonicalSize p))
    \<and> pc_body p = replay (node_prefix (pc_contentSize p) (pc_contentType p) hs) (nat (pc_canonicalSize p)) c"
proof -
  from assms obtain header c1 dh size_n ctb c2 rb c3 refs where
    r1: "readExactly HEADER_SIZE (open_cursor chunks) = Inr (header, c1)"
    and dec: "decodeHeader header = Inr dh"
    and val: "validateDecodedHeader dh = Inr ()"
    and size: "validateCanonicalNodeSize (dh_contentSize dh) (dh_contentTypeLength dh) (dh_refCount dh) lim = Inr size_n"
    and decl: "\<not> (case d of None \<Rightarrow> False | Some n \<Rightarrow> n \<noteq> size_n)"
    and r2: "readExactly (nat (dh_contentTypeLength dh)) c1 = Inr (ctb, c2)"
    and asc: "\<not> list_ex (\<lambda>b. b < 0x20 \<or> b > 0x7e) ctb"
    and vct: "validateContentType (asciiDecode ctb) = Inr ()"
    and r3: "readExactly (nat (dh_refCount dh * int HASH_SIZE)) c2 = Inr (rb, c3)"
    and hr: "hex_refs (length rb div HASH_SIZE) rb = Inr refs"
    and p: "p = \<lparr>pc_contentSize = dh_contentSize dh, pc_contentType = asciiDecode ctb, pc_refs = refs,
        pc_canonicalSize = size_n, pc_body = replay (header @ ctb @ rb) (nat size_n) c3\<rparr>"
    by (auto simp: parseCanonicalNodeStream_def Let_def split: if_splits)
  note bounds = validateCanonicalNodeSize_ok [OF size]
  have ctl: "int (length ctb) = dh_contentTypeLength dh" and ctb: "cursor_bytes c1 = ctb @ cursor_bytes c2"
    using readExactly_ok [OF r2] bounds by auto
  have rbl: "length rb = nat (dh_refCount dh) * HASH_SIZE" and rb: "cursor_bytes c2 = rb @ cursor_bytes c3"
    using readExactly_ok [OF r3] bounds by (auto simp: nat_mult_distrib)
  obtain hs where hs: "length hs = nat (dh_refCount dh)" "\<forall>h \<in> set hs. length h = HASH_SIZE" "concat hs = rb"
    "hex_refs (nat (dh_refCount dh)) rb = Inr (hex_of_hashes hs)"
    using hex_refs_ok [OF rbl] unfolding hex_of_hashes_def by auto
  have refs: "refs = hex_of_hashes hs" using hr hs(4) rbl by (simp add: HASH_SIZE_def)
  have hdr: "header = encodeHeader (dh_contentSize dh) (asciiDecode ctb) (int (length hs))"
    using decoded_header_unique [OF dec val, of "asciiDecode ctb"] printable_bytes [OF asc] ctl hs(1) bounds
    by simp
  have pre: "node_prefix (pc_contentSize p) (pc_contentType p) hs = header @ ctb @ rb"
    using printable_bytes [OF asc] hs(3) by (simp add: node_prefix_def p hdr)
  have "concat chunks = header @ cursor_bytes c1" using readExactly_ok [OF r1] by auto
  with pre ctb rb have bytes: "concat chunks = node_prefix (pc_contentSize p) (pc_contentType p) hs @ cursor_bytes c3"
    by simp
  have "node_shape (pc_contentSize p) (pc_contentType p) hs"
    using vct hs bounds printable_bytes(2) [OF asc] ctl by (auto simp: node_shape_def p)
  moreover have "validateCanonicalNodeSize (pc_contentSize p) (int (length (pc_contentType p)))
      (int (length hs)) lim = Inr (pc_canonicalSize p)"
    using size printable_bytes(2) [OF asc] ctl hs(1) bounds by (simp add: p)
  moreover have "d = None \<or> d = Some (pc_canonicalSize p)" using decl by (auto simp: p split: option.splits)
  ultimately show ?thesis
    using bytes refs pre by (intro exI [of _ hs] exI [of _ c3]) (simp add: p)
qed

end
