(* ===== verification/Codec_Properties.thy ===== *)
theory Codec_Properties
  imports Codec_Stream
begin

text \<open>
  Correctness of the node codec: what the writers produce, the parsers read back, and what
  the parsers accept is what the writers produce.  \<open>node_bytes\<close> is the reference encoding,
  the concatenation the header comment of \<^verbatim>\<open>binary.ts\<close> describes.
\<close>

definition node_bytes :: "string \<Rightarrow> bytes list \<Rightarrow> bytes \<Rightarrow> bytes" where
  "node_bytes ct hs content = node_prefix (int (length content)) ct hs @ content"

lemma concatenate_is_node_bytes:
  assumes "\<forall>h \<in> set hs. length h = HASH_SIZE"
  shows "concatenateNodeBytes (encodeHeader (int (length content)) ct (int (length hs))) (textEncode ct) hs content
    = Inr (node_bytes ct hs content)"
  using assms by (simp add: concatenateNodeBytes_eq node_bytes_def node_prefix_def)

lemma node_shape_size:
  assumes "node_shape cs ct hs"
  shows "validateCanonicalNodeSize cs (int (length ct)) (int (length hs)) no_limits
    = Inr (24 + int (length ct) + 32 * int (length hs) + cs)"
  using assms validateCanonicalNodeSize_no_limits [of cs "int (length ct)" "int (length hs)"]
  by (simp add: node_shape_def validateContentType_ok algebra_simps)

lemma length_node_bytes:
  "node_shape (int (length content)) ct hs \<Longrightarrow>
     int (length (node_bytes ct hs content)) = 24 + int (length ct) + 32 * int (length hs) + int (length content)"
  by (simp add: node_bytes_def length_node_prefix)

lemma replay_whole:
  assumes "concat chunks = bs" and "length bs = n"
  shows "replay_loop 0 n chunks = (chunks, None)"
  using assms by (intro replay_loop_ok) simp

section \<open>The streaming parser\<close>

lemma stream_parses_node:
  assumes shape: "node_shape (int (length content)) ct hs"
    and bytes: "concat chunks = node_bytes ct hs content"
    and d: "d = None \<or> d = Some (int (length (node_bytes ct hs content)))"
  shows "\<exists>body. parseCanonicalNodeStream chunks d no_limits =
      Inr \<lparr>pc_contentSize = int (length content), pc_contentType = ct, pc_refs = hex_of_hashes hs,
           pc_canonicalSize = int (length (node_bytes ct hs content)), pc_body = (body, None)\<rparr>
    \<and> concat body = node_bytes ct hs content"
proof -
  let ?n = "int (length (node_bytes ct hs content))"
  have "validateCanonicalNodeSize (int (length content)) (int (length ct)) (int (length hs)) no_limits = Inr ?n"
    using node_shape_size [OF shape] length_node_bytes [OF shape] by simp
  from parse_of_prefix [OF shape _ this d, of chunks content] bytes obtain c where
    c: "cursor_bytes c = content" and
    p: "parseCanonicalNodeStream chunks d no_limits =
      Inr \<lparr>pc_contentSize = int (length content), pc_contentType = ct, pc_refs = hex_of_hashes hs,
           pc_canonicalSize = ?n,
           pc_body = replay (node_prefix (int (length content)) ct hs) (nat ?n) c\<rparr>"
    by (auto simp: node_bytes_def)
  let ?body = "node_prefix (int (length content)) ct hs # pending_chunks c"
  have whole: "concat ?body = node_bytes ct hs content"
    using c by (simp add: node_bytes_def cursor_bytes_def)
  have "replay (node_prefix (int (length content)) ct hs) (nat ?n) c = (?body, None)"
    unfolding replay_def by (rule replay_whole [OF whole]) simp
  with p whole show ?thesis by (intro exI [of _ ?body]) simp
qed

text \<open>
  C12. Round trip of the canonical node format: whatever child hashes, content type and
  content within the format's bounds the writer concatenates, and wherever the transport
  cuts the resulting bytes into chunks, the streaming parser returns exactly these fields,
  and the body it replays is the whole node, ending without an error.
\<close>

theorem stream_round_trip:
  assumes "node_shape (int (length content)) ct hs"
    and "concatenateNodeBytes (encodeHeader (int (length content)) ct (int (length hs))) (textEncode ct) hs content
           = Inr node"
    and "concat chunks = node"
  shows "\<exists>body. parseCanonicalNodeStream chunks (Some (int (length node))) no_limits =
      Inr \<lparr>pc_contentSize = int (length content), pc_contentType = ct, pc_refs = hex_of_hashes hs,
           pc_canonicalSize = int (length node), pc_body = (body, None)\<rparr>
    \<and> concat body = node"
proof -
  have "node = node_bytes ct hs content"
    using assms(1,2) concatenate_is_node_bytes [of hs content ct] by (simp add: node_shape_def)
  then show ?thesis using stream_parses_node [OF assms(1)] assms(3) by simp
qed

definition example_hash :: bytes where
  "example_hash = replicate 32 0xab"

lemma example_shape: "node_shape (int (length [1, 2, 3 :: byte])) ''text/plain'' [example_hash]"
  by (simp add: node_shape_def validateContentType_ok is_printable_ascii_def example_hash_def HASH_SIZE_def)

theorem stream_round_trip_witness:
  "\<exists>body. parseCanonicalNodeStream
       [take 7 (node_bytes ''text/plain'' [example_hash] [1, 2, 3]), drop 7 (node_bytes ''text/plain'' [example_hash] [1, 2, 3])]
       (Some (int (length (node_bytes ''text/plain'' [example_hash] [1, 2, 3])))) no_limits =
      Inr \<lparr>pc_contentSize = int (length [1, 2, 3 :: byte]), pc_contentType = ''text/plain'',
           pc_refs = hex_of_hashes [example_hash],
           pc_canonicalSize = int (length (node_bytes ''text/plain'' [example_hash] [1, 2, 3])),
           pc_body = (body, None)\<rparr>
    \<and> concat body = node_bytes ''text/plain'' [example_hash] [1, 2, 3]"
  by (rule stream_round_trip [OF example_shape concatenate_is_node_bytes])
    (simp_all add: example_hash_def HASH_SIZE_def)

lemma parsed_bytes:
  assumes "parseCanonicalNodeStream chunks d lim = Inr p" and "snd (pc_body p) = None"
  shows "\<exists>hs content. concat chunks = node_bytes (pc_contentType p) hs content
    \<and> node_shape (int (length content)) (pc_contentType p) hs
    \<and> pc_contentSize p = int (length content) \<and> pc_refs p = hex_of_hashes hs
    \<and> pc_canonicalSize p = int (length (concat chunks)) \<and> (\<forall>n. d = Some n \<longrightarrow> n = int (length (concat chunks)))
    \<and> concat (fst (pc_body p)) = concat chunks"
proof -
  from parse_ok [OF assms(1)] obtain hs c where
    shape: "node_shape (pc_contentSize p) (pc_contentType p) hs"
    and bytes: "concat chunks = node_prefix (pc_contentSize p) (pc_contentType p) hs @ cursor_bytes c"
    and refs: "pc_refs p = hex_of_hashes hs"
    and size: "validateCanonicalNodeSize (pc_contentSize p) (int (length (pc_contentType p)))
        (int (length hs)) lim = Inr (pc_canonicalSize p)"
    and d: "d = None \<or> d = Some (pc_canonicalSize p)"
    and body: "pc_body p = replay (node_prefix (pc_contentSize p) (pc_contentType p) hs) (nat (pc_canonicalSize p)) c"
    by blast
  let ?pre = "node_prefix (pc_contentSize p) (pc_contentType p) hs"
  have body': "fst (pc_body p) = ?pre # pending_chunks c
      \<and> 0 + length (concat (?pre # pending_chunks c)) = nat (pc_canonicalSize p)"
    using replay_loop_None assms(2) unfolding body replay_def by blast
  note sz = validateCanonicalNodeSize_ok [OF size]
  have n: "pc_canonicalSize p = int (length (concat chunks))"
    using body' bytes sz by (simp add: cursor_bytes_def)
  moreover have "pc_contentSize p = int (length (cursor_bytes c))"
    using n bytes sz length_node_prefix [OF shape] by simp
  ultimately show ?thesis
    using shape bytes refs d body'
    by (intro exI [of _ hs] exI [of _ "cursor_bytes c"]) (auto simp: node_bytes_def cursor_bytes_def)
qed

text \<open>A stream whose declared length is its real length replays without an error.\<close>

lemma parsed_declared_length:
  assumes "parseCanonicalNodeStream chunks (Some (int (length (concat chunks)))) lim = Inr p"
  shows "snd (pc_body p) = None"
proof -
  from parse_ok [OF assms] obtain hs c where
    bytes: "concat chunks = node_prefix (pc_contentSize p) (pc_contentType p) hs @ cursor_bytes c"
    and n: "pc_canonicalSize p = int (length (concat chunks))"
    and body: "pc_body p = replay (node_prefix (pc_contentSize p) (pc_contentType p) hs) (nat (pc_canonicalSize p)) c"
    by auto
  have "replay (node_prefix (pc_contentSize p) (pc_contentType p) hs) (nat (pc_canonicalSize p)) c
      = (node_prefix (pc_contentSize p) (pc_contentType p) hs # pending_chunks c, None)"
    unfolding replay_def using n bytes by (intro replay_whole [OF refl]) (simp add: cursor_bytes_def)
  then show ?thesis by (simp add: body)
qed

text \<open>
  C13. Soundness of the streaming parser, for every limits setting: if it accepts a stream
  and the replayed body ends without an error, then the bytes received are exactly the
  canonical encoding of the fields it returned (with some content of the announced size),
  these fields respect every bound of the format, the declared length (if any) was the
  real one, and the replayed body is those bytes.
\<close>

theorem stream_sound:
  assumes "parseCanonicalNodeStream chunks d lim = Inr p" and "snd (pc_body p) = None"
  shows "\<exists>hs content. concat chunks = node_bytes (pc_contentType p) hs content
    \<and> node_shape (int (length content)) (pc_contentType p) hs
    \<and> pc_contentSize p = int (length content) \<and> pc_refs p = hex_of_hashes hs
    \<and> pc_canonicalSize p = int (length (concat chunks)) \<and> (\<forall>n. d = Some n \<longrightarrow> n = int (length (concat chunks)))
    \<and> concat (fst (pc_body p)) = concat chunks"
  by (rule parsed_bytes [OF assms])

lemma example_parse:
  "\<exists>p. parseCanonicalNodeStream [node_bytes ''text/plain'' [example_hash] [1, 2, 3]] None no_limits = Inr p
     \<and> snd (pc_body p) = None \<and> pc_contentType p = ''text/plain''"
  using stream_parses_node [OF example_shape, of "[node_bytes ''text/plain'' [example_hash] [1, 2, 3]]" None]
  by auto

theorem stream_sound_witness:
  "\<exists>p hs content. parseCanonicalNodeStream [node_bytes ''text/plain'' [example_hash] [1, 2, 3]] None no_limits = Inr p
    \<and> pc_contentType p = ''text/plain''
    \<and> node_bytes ''text/plain'' [example_hash] [1, 2, 3] = node_bytes (pc_contentType p) hs content
    \<and> pc_refs p = hex_of_hashes hs"
proof -
  obtain p where p: "parseCanonicalNodeStream [node_bytes ''text/plain'' [example_hash] [1, 2, 3]] None no_limits = Inr p"
    "snd (pc_body p) = None" "pc_contentType p = ''text/plain''"
    using example_parse by blast
  from stream_sound [OF p(1,2)] p show ?thesis by auto
qed

section \<open>Independence of the chunking\<close>

definition same_read :: "codec_error + (bytes \<times> stream_cursor) \<Rightarrow> codec_error + (bytes \<times> stream_cursor) \<Rightarrow> bool" where
  "same_read a b \<longleftrightarrow> rel_sum (=) (\<lambda>(r, c) (r', c'). r = r' \<and> cursor_bytes c = cursor_bytes c') a b"

lemma readExactly_same:
  assumes "cursor_bytes c = cursor_bytes c'"
  shows "same_read (readExactly n c) (readExactly n c')"
proof (cases "n \<le> length (cursor_bytes c)")
  case True
  obtain d where "readExactly n c = Inr (take n (cursor_bytes c), d)" "cursor_bytes d = drop n (cursor_bytes c)"
    using readExactly_enough [OF True] by blast
  moreover obtain d' where "readExactly n c' = Inr (take n (cursor_bytes c'), d')"
    "cursor_bytes d' = drop n (cursor_bytes c')"
    using readExactly_enough [of n c'] True assms by auto
  ultimately show ?thesis using assms by (simp add: same_read_def)
next
  case False
  have fails: "\<exists>e. readExactly n x = Inl e" if "\<not> n \<le> length (cursor_bytes x)" for x
  proof (cases "readExactly n x")
    case (Inr p)
    then show ?thesis using readExactly_ok [of n x "fst p" "snd p"] that by simp
  qed simp
  obtain e where "readExactly n c = Inl e" using fails [OF False] by blast
  moreover obtain e' where "readExactly n c' = Inl e'" using fails [of c'] False assms by auto
  ultimately show ?thesis
    using readExactly_error [of n c e] readExactly_error [of n c' e'] assms by (simp add: same_read_def)
qed

definition replay_end :: "nat \<Rightarrow> nat \<Rightarrow> codec_error option" where
  "replay_end received n =
     (if received > n then Some (Replay_length_exceeded (int n))
      else if received \<noteq> n then Some (Replay_length_mismatch (int n) (int received)) else None)"

lemma replay_loop_end:
  "emitted \<le> n \<Longrightarrow> snd (replay_loop emitted n chunks) = replay_end (emitted + length (concat chunks)) n"
proof (induction chunks arbitrary: emitted)
  case Nil
  then show ?case by (simp add: replay_end_def)
next
  case (Cons a chunks)
  show ?case
  proof (cases "n < emitted + length a")
    case True
    then show ?thesis by (simp add: replay_end_def)
  next
    case False
    then show ?thesis using Cons.IH [of "emitted + length a"] by (auto simp: add.assoc split: prod.splits)
  qed
qed

lemma replay_end_same:
  assumes "cursor_bytes c = cursor_bytes c'"
  shows "snd (replay pre n c) = snd (replay pre n c')"
proof -
  have "length (concat (pre # pending_chunks c)) = length (concat (pre # pending_chunks c'))"
    using assms by (simp add: cursor_bytes_def)
  then show ?thesis unfolding replay_def using replay_loop_end [of 0 n] by (metis le0)
qed

text \<open>The outcome of a parse, with the body reduced to how it ends.\<close>

definition parse_outcome :: "codec_error + parsedCanonicalNode
    \<Rightarrow> codec_error + (int \<times> string \<times> string list \<times> int \<times> codec_error option)" where
  "parse_outcome r = map_sum id (\<lambda>p. (pc_contentSize p, pc_contentType p, pc_refs p, pc_canonicalSize p,
     snd (pc_body p))) r"

lemma parse_outcome_simps [simp]:
  "parse_outcome (Inl e) = Inl e"
  "parse_outcome (Inr p) = Inr (pc_contentSize p, pc_contentType p, pc_refs p, pc_canonicalSize p, snd (pc_body p))"
  by (simp_all add: parse_outcome_def)

lemma same_read_bind:
  assumes "same_read a b"
    and "\<And>r c c'. cursor_bytes c = cursor_bytes c' \<Longrightarrow> parse_outcome (f (r, c)) = parse_outcome (g (r, c'))"
  shows "parse_outcome (bindE a f) = parse_outcome (bindE b g)"
  using assms by (cases a; cases b) (auto simp: same_read_def)

lemma same_bind:
  assumes "\<And>x. a = Inr x \<Longrightarrow> parse_outcome (f x) = parse_outcome (g x)"
  shows "parse_outcome (bindE a f) = parse_outcome (bindE a g)"
  using assms by (cases a) auto

lemma same_if:
  assumes "\<not> b \<Longrightarrow> parse_outcome f = parse_outcome g"
  shows "parse_outcome (if b then e else f) = parse_outcome (if b then e else g)"
  using assms by simp

text \<open>
  C14. The streaming parser depends only on the bytes, not on where they were cut into
  chunks: two streams with the same bytes are both refused with the same error, or both
  accepted with the same fields and a body that ends in the same way.
\<close>

theorem chunking_irrelevant:
  assumes "concat chunks = concat chunks'"
  shows "parse_outcome (parseCanonicalNodeStream chunks d lim)
    = parse_outcome (parseCanonicalNodeStream chunks' d lim)"
  unfolding parseCanonicalNodeStream_def Let_def
proof (rule same_read_bind [OF readExactly_same], simp add: assms, unfold prod.case,
    intro same_bind same_if, rule same_read_bind [OF readExactly_same], assumption, unfold prod.case,
    intro same_bind same_if, rule same_read_bind [OF readExactly_same], assumption, unfold prod.case,
    rule same_bind)
qed (simp, erule replay_end_same)

theorem chunking_irrelevant_witness:
  "parse_outcome (parseCanonicalNodeStream [[0x55], [0x44, 1]] None no_limits)
    = parse_outcome (parseCanonicalNodeStream [[0x55, 0x44], [], [1]] None no_limits)
   \<and> concat [[0x55], [0x44, 1]] = concat [[0x55, 0x44], [], [1 :: byte]]"
  using chunking_irrelevant [of "[[0x55], [0x44, 1]]" "[[0x55, 0x44], [], [1]]" None no_limits] by simp

section \<open>The whole-buffer parser and the digest\<close>

lemma parseNodeBytes_node:
  assumes shape: "node_shape (int (length content)) ct hs"
    and decode: "textDecode (textEncode ct) = ct"
  shows "parseNodeBytes textDecode (node_bytes ct hs content) =
    Inr \<lparr>pn_header = encodeHeader (int (length content)) ct (int (length hs)), pn_contentType = ct,
         pn_childHashes = hs, pn_content = content\<rparr>"
proof -
  let ?hdr = "encodeHeader (int (length content)) ct (int (length hs))"
  let ?o2 = "HEADER_SIZE + length ct"
  have hs: "\<forall>h \<in> set hs. length h = HASH_SIZE" using shape by (simp add: node_shape_def)
  have lct: "length (textEncode ct) = length ct"
    using shape by (simp add: node_shape_def validateContentType_ok length_textEncode_ascii printable_is_ascii)
  have lhs: "length (concat hs) = length hs * HASH_SIZE" using hs by (rule length_concat_hashes)
  have bs: "node_bytes ct hs content = ?hdr @ textEncode ct @ concat hs @ content"
    by (simp add: node_bytes_def node_prefix_def)
  have hdr: "slice 0 HEADER_SIZE (node_bytes ct hs content) = ?hdr"
    by (simp add: bs slice_def)
  have cts: "slice HEADER_SIZE ?o2 (node_bytes ct hs content) = textEncode ct"
    using lct by (simp add: bs slice_def)
  have child: "slice (?o2 + i * HASH_SIZE) (?o2 + Suc i * HASH_SIZE) (node_bytes ct hs content)
      = slice (i * HASH_SIZE) (Suc i * HASH_SIZE) (concat hs @ content)" for i
    using lct by (simp add: bs slice_append_right)
  have own: "slice (?o2 + length hs * HASH_SIZE) (?o2 + length hs * HASH_SIZE + length content)
      (node_bytes ct hs content) = content"
    using lct lhs by (simp add: bs slice_append_right slice_all)
  have len: "int (length (node_bytes ct hs content))
      = int HEADER_SIZE + int (length ct) + int (length hs) * int HASH_SIZE + int (length content)"
    using length_node_bytes [OF shape] by (simp add: HEADER_SIZE_def HASH_SIZE_def)
  have long: "\<not> length (node_bytes ct hs content) < HEADER_SIZE" by (simp add: bs)
  have children: "map (\<lambda>i. slice (?o2 + i * HASH_SIZE) (?o2 + Suc i * HASH_SIZE) (node_bytes ct hs content))
      [0..<length hs] = hs"
    unfolding child by (rule hash_slices [OF hs])
  show ?thesis
    using decode long len
    unfolding parseNodeBytes_def hdr decode_shape [OF shape] Let_def bindE_simps
    by (simp add: cts children [simplified] own)
qed

text \<open>
  C33. The whole-buffer parser inverts the whole-buffer writer: \<open>parseNodeBytes\<close> of the bytes
  that \<open>concatenateNodeBytes\<close> builds from a header, a content type, child hashes and content
  within the format's bounds returns these four parts.  \<open>textDecode\<close> is \<open>TextDecoder\<close>,
  of which only that it decodes the encoding of this content type is used.
\<close>

theorem parse_concatenate:
  assumes "node_shape (int (length content)) ct hs" and "textDecode (textEncode ct) = ct"
  shows "bindE (concatenateNodeBytes (encodeHeader (int (length content)) ct (int (length hs)))
                  (textEncode ct) hs content) (parseNodeBytes textDecode)
    = Inr \<lparr>pn_header = encodeHeader (int (length content)) ct (int (length hs)), pn_contentType = ct,
           pn_childHashes = hs, pn_content = content\<rparr>"
  using assms concatenate_is_node_bytes [of hs content ct] parseNodeBytes_node [OF assms(1), of textDecode]
  by (simp add: node_shape_def)

theorem parse_concatenate_witness:
  "bindE (concatenateNodeBytes (encodeHeader (int (length [1, 2, 3 :: byte])) ''text/plain'' (int (length [example_hash])))
            (textEncode ''text/plain'') [example_hash] [1, 2, 3]) (parseNodeBytes asciiDecode)
    = Inr \<lparr>pn_header = encodeHeader (int (length [1, 2, 3 :: byte])) ''text/plain'' (int (length [example_hash])),
           pn_contentType = ''text/plain'', pn_childHashes = [example_hash], pn_content = [1, 2, 3]\<rparr>"
  by (rule parse_concatenate [OF example_shape]) (simp add: asciiDecode_ok is_printable_ascii_def)

text \<open>
  C34. The two writers agree: for a header of the right length, \<open>computeNodeDigest\<close> is the
  SHA-256 of exactly the bytes \<open>concatenateNodeBytes\<close> returns, and it fails exactly when
  that one does, whatever the lengths of the child hashes.
\<close>

theorem digest_of_concatenation:
  assumes "length header = HEADER_SIZE"
  shows "computeNodeDigest sha256 header ct hs content
    = bindE (concatenateNodeBytes header (textEncode ct) hs content) (\<lambda>node. Inr (sha256 node))"
  using assms
  by (simp add: computeNodeDigest_def concatenateNodeBytes_def Let_def bindE_def split: sum.splits prod.splits)

theorem digest_of_concatenation_witness:
  "computeNodeDigest (take 32) (replicate 24 0) ''a'' [replicate 32 7] [1]
    = bindE (concatenateNodeBytes (replicate 24 0) (textEncode ''a'') [replicate 32 7] [1]) (\<lambda>node. Inr (take 32 node))"
  by (rule digest_of_concatenation) (simp add: HEADER_SIZE_def)

text \<open>
  C35. Hexadecimal hashes: \<open>hashToHex\<close> maps raw bytes to a string exactly when that string
  passes \<open>validateHash\<close> and \<open>hexToHash\<close> maps it back to the bytes; so the conversions are
  mutually inverse bijections between 32-byte hashes and valid hash strings.
\<close>

theorem hex_bijection:
  "hashToHex raw = Inr hex \<longleftrightarrow> validateHash hex = Inr () \<and> hexToHash hex = Inr raw"
proof
  assume "hashToHex raw = Inr hex"
  then have l: "length raw = HASH_SIZE" and h: "hex = concat (map byte_to_hex raw)"
    by (simp_all add: hashToHex_eq_Inr)
  then have "validateHash hex = Inr ()"
    using hex_is_lower [of _ raw] by (auto simp: validateHash_ok HASH_SIZE_def list_all_iff simp del: set_concat set_map)
  then show "validateHash hex = Inr () \<and> hexToHash hex = Inr raw" using hexToHash_hex [OF l] h by simp
next
  assume a: "validateHash hex = Inr () \<and> hexToHash hex = Inr raw"
  then obtain bs where bs: "length bs = 32" "concat (map byte_to_hex bs) = hex"
    using lower_hex_is_hex [of hex 32] by (auto simp: validateHash_ok list_all_iff)
  then have "raw = bs" using hexToHash_hex [of bs] a by (simp add: HASH_SIZE_def)
  then show "hashToHex raw = Inr hex" using bs by (simp add: hashToHex_eq_Inr HASH_SIZE_def)
qed

end
