(* ===== verification/Service_Errors.thy ===== *)
theory Service_Errors
  imports Codec_Stream
begin

text \<open>
  The exceptions of the data-plane service: \<^verbatim>\<open>packages/service/src/node-errors.ts\<close>, the
  error classes of \<^verbatim>\<open>root-refs.ts\<close> and \<^verbatim>\<open>app-gc.ts\<close>, the codec's errors and the errors a
  storage binding raises.  Every \<open>throw\<close> of the modelled code is a value of \<open>exn\<close>.
\<close>

datatype exn =
    NodeOpError nat string string "(string \<times> string) list"
  | RootRefsValidationError nat string string
  | RootRefsRetryableError string
  | AppGcError string string
  | AppUsageUnavailableError
  | AuditReadError nat string string
  | CodecError codec_error
  | TypeErr string
  | PlainError string
  | StorageError string

fun exn_message :: "exn \<Rightarrow> string" where
  "exn_message (NodeOpError status code message headers) = message"
| "exn_message (RootRefsValidationError status code message) = message"
| "exn_message (RootRefsRetryableError message) = message"
| "exn_message (AppGcError code message) = message"
| "exn_message AppUsageUnavailableError = ''App usage accounting is still being reconciled''"
| "exn_message (AuditReadError status code message) = message"
| "exn_message (CodecError e) = codec_message e"
| "exn_message (TypeErr message) = message"
| "exn_message (PlainError message) = message"
| "exn_message (StorageError message) = message"

section \<open>NodeOpErrorCodes\<close>

definition INVALID_REQUEST :: string where "INVALID_REQUEST = ''INVALID_REQUEST''"
definition NOT_FOUND :: string where "NOT_FOUND = ''NODE_NOT_FOUND''"
definition NOT_READY :: string where "NOT_READY = ''NODE_NOT_READY''"
definition CONFLICT :: string where "CONFLICT = ''NODE_CONFLICT''"
definition UPLOAD_CONFLICT :: string where "UPLOAD_CONFLICT = ''CAS_UPLOAD_CONFLICT''"
definition UPLOAD_EXPIRED :: string where "UPLOAD_EXPIRED = ''CAS_UPLOAD_EXPIRED''"
definition UPLOAD_INVALID :: string where "UPLOAD_INVALID = ''CAS_UPLOAD_INVALID''"
definition UPLOAD_LIMIT :: string where "UPLOAD_LIMIT = ''CAS_UPLOAD_LIMIT''"
definition STORAGE :: string where "STORAGE = ''STORAGE_ERROR''"

definition nodeOpError :: "nat \<Rightarrow> string \<Rightarrow> string \<Rightarrow> exn" where
  "nodeOpError status code message = NodeOpError status code message []"

text \<open>A codec computation called from the service: its errors are thrown as they are.\<close>

definition codec :: "codec_error + 'a \<Rightarrow> exn + 'a" where
  "codec r = map_sum CodecError id r"

lemma codec_simps [simp]:
  "codec (Inl e) = Inl (CodecError e)" "codec (Inr x) = Inr x"
  by (simp_all add: codec_def)

section \<open>Scopes\<close>

text \<open>\<^verbatim>\<open>packages/service/src/space-scope.ts\<close>.\<close>

record appSpaceScope =
  appId :: string
  spaceId :: string

end
