(* ===== verification/Node_Lease.thy ===== *)
theory Node_Lease
  imports Service_Errors
begin

text \<open>
  The node lease and upload kernel, \<^verbatim>\<open>packages/service/src/node-lease.ts\<close>.  A repository is
  the record of the operations its TypeScript interface declares, each a computation over
  an abstract storage state \<open>'s\<close>; the kernel functions take the repository as an argument,
  as the source's do, and are defined for any of them.  Times and durations are integers,
  and SHA-256 is a parameter.
\<close>

section \<open>Constants and data\<close>

definition DEFAULT_LEASE_MS :: int where "DEFAULT_LEASE_MS = 15 * 60 * 1000"
definition MIN_LEASE_MS :: int where "MIN_LEASE_MS = 60 * 1000"
definition MAX_LEASE_MS :: int where "MAX_LEASE_MS = 24 * 60 * 60 * 1000"
definition DEFAULT_UPLOAD_SESSION_MS :: int where "DEFAULT_UPLOAD_SESSION_MS = 15 * 60 * 1000"
definition DEFAULT_UPLOAD_CLEANUP_MS :: int where "DEFAULT_UPLOAD_CLEANUP_MS = 24 * 60 * 60 * 1000"
definition DEFAULT_MAX_ACTIVE_UPLOADS :: int where "DEFAULT_MAX_ACTIVE_UPLOADS = 1024"

record nodeLeaseRecord =
  leaseStartedAt :: int
  leaseExpiresAt :: int

record canonicalNodeLeaseRecord = nodeLeaseRecord +
  cn_contentSize :: int
  cn_contentType :: string

record canonicalOrphanObject =
  co_storedBytes :: int
  co_sha256Hex :: "string option"

record adoptedCanonicalNodePlan =
  ap_hash :: string
  ap_contentSize :: int
  ap_contentType :: string
  ap_refs :: "string list"
  ap_storedBytes :: int
  ap_lease :: nodeLeaseRecord
  ap_reservationCreatedAt :: int
  ap_reservationExpiresAt :: int

record canonicalUploadReservation =
  rv_hash :: string
  rv_storedBytes :: int
  rv_createdAt :: int
  rv_expiresAt :: int

record canonicalNodeUploadPlan =
  up_hash :: string
  up_storedBytes :: int
  up_leaseDurationMs :: int

record canonicalDirectUploadSession =
  ds_hash :: string
  ds_uploadId :: string
  ds_temporaryObjectKey :: string
  ds_storedBytes :: int
  ds_leaseDurationMs :: int
  ds_createdAt :: int
  ds_expiresAt :: int

text \<open>\<open>CasLeaseResult\<close> of the protocol package; \<open>ready\<close> is always true.\<close>

record casLeaseResult =
  lr_hash :: string
  lr_lease :: nodeLeaseRecord

datatype canonicalDirectUploadPrepareResult =
    Prepare_ready casLeaseResult
  | Prepare_upload canonicalDirectUploadSession "string option"

datatype canonicalDirectUploadFinalizeAdmission =
    Admit_ready casLeaseResult
  | Admit_upload canonicalDirectUploadSession

datatype canonicalNodeLeaseBeginResult =
    Begin_ready casLeaseResult
  | Begin_upload canonicalNodeUploadPlan

record newCanonicalNodeCommit =
  nc_hash :: string
  nc_contentSize :: int
  nc_storedBytes :: int
  nc_contentType :: string
  nc_refs :: "string list"
  nc_lease :: nodeLeaseRecord

datatype uploadedCanonicalNodeCommit =
    Commit_existing string int nodeLeaseRecord
  | Commit_new newCanonicalNodeCommit

record parsedUploadedNodeMetadata =
  md_contentSize :: int
  md_contentType :: string
  md_refs :: "string list"

record leaseDrivenUploadValidation = parsedUploadedNodeMetadata +
  lv_storedBytes :: int

record spaceNodeUploadRejection =
  rj_code :: string
  rj_message :: string

record leaseDrivenUploadRecord =
  lu_hash :: string
  lu_generation :: string
  lu_temporaryObjectKey :: string
  lu_createdAt :: int
  lu_expiresAt :: int
  lu_cleanupAt :: int
  lu_rejection :: "spaceNodeUploadRejection option"
  lu_validation :: "leaseDrivenUploadValidation option"

datatype leaseDrivenNodeUploadResult =
    Ready casLeaseResult
  | Awaiting_upload leaseDrivenUploadRecord
  | Awaiting_replacement_upload leaseDrivenUploadRecord spaceNodeUploadRejection
  | Validated_awaiting_children "string list"

section \<open>Repository interfaces\<close>

text \<open>A \<open>ReadableStream\<close> is the list of its chunks.\<close>

record 's nodeLeaseRepository =
  readNodeLease :: "appSpaceScope \<Rightarrow> string \<Rightarrow> ('s, exn, nodeLeaseRecord option) prog"
  readCanonicalObject :: "appSpaceScope \<Rightarrow> string \<Rightarrow> ('s, exn, canonicalOrphanObject option) prog"
  readCanonicalPrefix :: "appSpaceScope \<Rightarrow> string \<Rightarrow> int \<Rightarrow> ('s, exn, bytes list option) prog"
  isNodeReady :: "appSpaceScope \<Rightarrow> string \<Rightarrow> ('s, exn, bool) prog"
  renewNodeLease :: "appSpaceScope \<Rightarrow> string \<Rightarrow> nodeLeaseRecord \<Rightarrow> ('s, exn, unit) prog"
  commitAdoptedCanonicalNode :: "appSpaceScope \<Rightarrow> adoptedCanonicalNodePlan \<Rightarrow> ('s, exn, unit) prog"

record 's canonicalNodeLeaseRepository = "'s nodeLeaseRepository" +
  readCanonicalNodeLease :: "appSpaceScope \<Rightarrow> string \<Rightarrow> ('s, exn, canonicalNodeLeaseRecord option) prog"
  readNodeRefs :: "appSpaceScope \<Rightarrow> string \<Rightarrow> ('s, exn, string list) prog"
  reserveCanonicalUpload :: "appSpaceScope \<Rightarrow> canonicalUploadReservation \<Rightarrow> ('s, exn, unit) prog"
  putCanonicalObject :: "appSpaceScope \<Rightarrow> string \<Rightarrow> bytes list \<Rightarrow> ('s, exn, unit) prog"
  commitUploadedCanonicalNode :: "appSpaceScope \<Rightarrow> uploadedCanonicalNodeCommit \<Rightarrow> ('s, exn, unit) prog"

record 's leaseDrivenNodeUploadRepository = "'s canonicalNodeLeaseRepository" +
  countLeaseDrivenUploads :: "appSpaceScope \<Rightarrow> ('s, exn, int) prog"
  readCanonicalBytes :: "appSpaceScope \<Rightarrow> string \<Rightarrow> ('s, exn, bytes option) prog"
  readLeaseDrivenUpload :: "appSpaceScope \<Rightarrow> string \<Rightarrow> ('s, exn, leaseDrivenUploadRecord option) prog"
  replaceLeaseDrivenUpload ::
    "appSpaceScope \<Rightarrow> string option \<Rightarrow> leaseDrivenUploadRecord \<Rightarrow> ('s, exn, bool) prog"
  stageLeaseDrivenUploadValidation ::
    "appSpaceScope \<Rightarrow> string \<Rightarrow> string \<Rightarrow> leaseDrivenUploadValidation \<Rightarrow> ('s, exn, bool) prog"
  readTemporaryUploadObject :: "appSpaceScope \<Rightarrow> string \<Rightarrow> ('s, exn, int option) prog"
  readTemporaryUploadBytes :: "appSpaceScope \<Rightarrow> string \<Rightarrow> ('s, exn, bytes option) prog"
  deleteTemporaryUploadObject :: "appSpaceScope \<Rightarrow> string \<Rightarrow> ('s, exn, unit) prog"
  deleteLeaseDrivenUpload :: "appSpaceScope \<Rightarrow> string \<Rightarrow> string \<Rightarrow> ('s, exn, unit) prog"
  putVerifiedCanonicalBytes :: "appSpaceScope \<Rightarrow> string \<Rightarrow> bytes \<Rightarrow> ('s, exn, unit) prog"

record 's canonicalDirectUploadRepository = "'s nodeLeaseRepository" +
  readCanonicalUploadSession :: "appSpaceScope \<Rightarrow> string \<Rightarrow> ('s, exn, canonicalDirectUploadSession option) prog"
  reserveCanonicalUploadSession :: "appSpaceScope \<Rightarrow> canonicalDirectUploadSession \<Rightarrow> ('s, exn, unit) prog"
  deleteCanonicalUploadSession :: "appSpaceScope \<Rightarrow> string \<Rightarrow> string \<Rightarrow> ('s, exn, unit) prog"

section \<open>Leases\<close>

definition clampLeaseDuration :: "int \<Rightarrow> int" where
  "clampLeaseDuration value = min (max value MIN_LEASE_MS) MAX_LEASE_MS"

definition nextNodeLease :: "('z) nodeLeaseRecord_scheme option \<Rightarrow> int \<Rightarrow> int \<Rightarrow> nodeLeaseRecord" where
  "nextNodeLease existing durationMs now =
     \<lparr>leaseStartedAt = (case existing of
          Some e \<Rightarrow> if leaseExpiresAt e > now then leaseStartedAt e else now
        | None \<Rightarrow> now),
      leaseExpiresAt = max (case existing of Some e \<Rightarrow> leaseExpiresAt e | None \<Rightarrow> 0) (now + durationMs)\<rparr>"

definition lease_result :: "string \<Rightarrow> nodeLeaseRecord \<Rightarrow> casLeaseResult" where
  "lease_result hash lease = \<lparr>lr_hash = hash, lr_lease = lease\<rparr>"

definition validateLeaseHash :: "string \<Rightarrow> ('s, exn, unit) prog" where
  "validateLeaseHash hash =
     (case validateHash hash of
        Inl e \<Rightarrow> throwM (nodeOpError 400 INVALID_REQUEST (codec_message e))
      | Inr _ \<Rightarrow> returnM ())"

definition max_bytes :: "canonicalNodeLimits \<Rightarrow> int" where
  "max_bytes limits = (case maxCanonicalNodeBytes limits of None \<Rightarrow> MAX_CANONICAL_NODE_BYTES | Some n \<Rightarrow> n)"

section \<open>Validation of uploaded bytes\<close>

text \<open>\<open>{ ok: true, validation }\<close> is \<open>Inr\<close>, \<open>{ ok: false, rejection }\<close> is \<open>Inl\<close>.\<close>

type_synonym validationResult = "spaceNodeUploadRejection + leaseDrivenUploadValidation"

definition node_too_large :: spaceNodeUploadRejection where
  "node_too_large = \<lparr>rj_code = ''NODE_TOO_LARGE'',
     rj_message = ''Uploaded canonical node exceeds the configured size limit''\<rparr>"

definition validateLeaseDrivenUpload ::
  "(bytes \<Rightarrow> bytes) \<Rightarrow> string \<Rightarrow> bytes \<Rightarrow> canonicalNodeLimits \<Rightarrow> exn + validationResult" where
  "validateLeaseDrivenUpload sha256 hash bytes limits =
     (if int (length bytes) > max_bytes limits then Inr (Inl node_too_large)
      else bindE (codec (hashToHex (sha256 bytes))) (\<lambda>hex.
        if hex \<noteq> hash then
          Inr (Inl \<lparr>rj_code = ''NODE_DIGEST_MISMATCH'',
                    rj_message = ''Uploaded canonical bytes did not match the requested node hash''\<rparr>)
        else
          (case parseCanonicalNodeStream [bytes] (Some (int (length bytes))) limits of
             Inr parsed \<Rightarrow> Inr (Inr \<lparr>md_contentSize = pc_contentSize parsed,
                                      md_contentType = pc_contentType parsed,
                                      md_refs = pc_refs parsed,
                                      lv_storedBytes = int (length bytes)\<rparr>)
           | Inl e \<Rightarrow> Inr (Inl \<lparr>rj_code = ''INVALID_CANONICAL_NODE'', rj_message = codec_message e\<rparr>))))"

section \<open>The lease-driven upload\<close>

record 's leaseDrivenInput =
  in_repository :: "'s leaseDrivenNodeUploadRepository"
  in_sha256 :: "bytes \<Rightarrow> bytes"
  in_scope :: appSpaceScope
  in_hash :: string
  in_leaseDurationMs :: int
  in_createIdentifiers :: "('s, exn, string \<times> string) prog"
  in_limits :: canonicalNodeLimits
  in_uploadSessionMs :: "int option"
  in_uploadCleanupMs :: "int option"
  in_maxActiveUploads :: "int option"
  in_instrumentation :: "(('s, exn, validationResult) prog \<Rightarrow> ('s, exn, validationResult) prog) option"
  in_now :: int

definition createLeaseDrivenUpload ::
  "'s leaseDrivenInput \<Rightarrow> int \<Rightarrow> spaceNodeUploadRejection option \<Rightarrow> ('s, exn, leaseDrivenUploadRecord) prog" where
  "createLeaseDrivenUpload input now rejection =
     bindM (in_createIdentifiers input) (\<lambda>(generation, temporaryObjectKey).
     if generation = [] \<or> temporaryObjectKey = []
     then throwM (TypeErr ''Canonical upload identifiers must not be empty'')
     else
       let expiresAt = now + (case in_uploadSessionMs input of None \<Rightarrow> DEFAULT_UPLOAD_SESSION_MS | Some n \<Rightarrow> n)
       in returnM \<lparr>lu_hash = in_hash input, lu_generation = generation,
                   lu_temporaryObjectKey = temporaryObjectKey, lu_createdAt = now,
                   lu_expiresAt = expiresAt,
                   lu_cleanupAt = expiresAt
                     + (case in_uploadCleanupMs input of None \<Rightarrow> DEFAULT_UPLOAD_CLEANUP_MS | Some n \<Rightarrow> n),
                   lu_rejection = rejection, lu_validation = None\<rparr>)"

definition generation_changed :: exn where
  "generation_changed = nodeOpError 409 CONFLICT ''Canonical upload generation changed''"

text \<open>The module function \<open>replaceLeaseDrivenUpload\<close>, which raises when the repository refuses.\<close>

definition replaceOrConflict ::
  "'s leaseDrivenNodeUploadRepository \<Rightarrow> appSpaceScope \<Rightarrow> string option \<Rightarrow> leaseDrivenUploadRecord
   \<Rightarrow> ('s, exn, unit) prog" where
  "replaceOrConflict repository scope expectedGeneration upload =
     bindM (replaceLeaseDrivenUpload repository scope expectedGeneration upload) (\<lambda>replaced.
     if replaced then returnM () else throwM generation_changed)"

definition ignoring_errors :: "('s, exn, unit) prog \<Rightarrow> ('s, exn, unit) prog" where
  "ignoring_errors m = catchM m (\<lambda>_. returnM ())"

definition replaceRejectedLeaseDrivenUpload ::
  "'s leaseDrivenInput \<Rightarrow> leaseDrivenUploadRecord \<Rightarrow> spaceNodeUploadRejection \<Rightarrow> int
   \<Rightarrow> ('s, exn, leaseDrivenNodeUploadResult) prog" where
  "replaceRejectedLeaseDrivenUpload input upload rejection now =
     bindM (createLeaseDrivenUpload input now (Some rejection)) (\<lambda>replacement.
     bindM (replaceOrConflict (in_repository input) (in_scope input) (Some (lu_generation upload)) replacement) (\<lambda>_.
     bindM (ignoring_errors (deleteTemporaryUploadObject (in_repository input) (in_scope input)
              (lu_temporaryObjectKey upload))) (\<lambda>_.
     returnM (Awaiting_replacement_upload replacement rejection))))"

definition observeLeaseDrivenNodeValidation ::
  "'s leaseDrivenInput \<Rightarrow> bytes \<Rightarrow> ('s, exn, validationResult) prog" where
  "observeLeaseDrivenNodeValidation input bytes =
     (let operation = liftM (validateLeaseDrivenUpload (in_sha256 input) (in_hash input) bytes (in_limits input))
      in case in_instrumentation input of Some f \<Rightarrow> f operation | None \<Rightarrow> operation)"

text \<open>The children of a validated node that are not ready, each reported once, in order.\<close>

fun unready_children ::
  "('s, 'z) nodeLeaseRepository_scheme \<Rightarrow> appSpaceScope \<Rightarrow> string list \<Rightarrow> string list
   \<Rightarrow> ('s, exn, string list) prog" where
  "unready_children repository scope seen [] = returnM []"
| "unready_children repository scope seen (childHash # rest) =
     (if childHash \<in> set seen then unready_children repository scope seen rest
      else bindM (isNodeReady repository scope childHash) (\<lambda>ready.
           bindM (unready_children repository scope (childHash # seen) rest) (\<lambda>others.
           returnM (if ready then others else childHash # others))))"

text \<open>
  The two halves of \<open>publishValidatedLeaseDrivenUpload\<close> after the children are known to be
  ready: the canonical object is put (or found), then the node is committed and the upload
  cleaned up.
\<close>

definition store_validated_content ::
  "'s leaseDrivenInput \<Rightarrow> leaseDrivenUploadRecord \<Rightarrow> bytes option \<Rightarrow> ('s, exn, unit) prog" where
  "store_validated_content input upload validatedBytes =
     (let repo = in_repository input; scope = in_scope input; hash = in_hash input in
      bindM (case validatedBytes of
               Some b \<Rightarrow> returnM (Some b)
             | None \<Rightarrow> readTemporaryUploadBytes repo scope (lu_temporaryObjectKey upload)) (\<lambda>bytes.
      case bytes of
        Some b \<Rightarrow> putVerifiedCanonicalBytes repo scope hash b
      | None \<Rightarrow> bindM (readCanonicalObject repo scope hash) (\<lambda>object.
          if object = None
          then throwM (nodeOpError 503 STORAGE ''Validated upload content is missing'')
          else returnM ())))"

definition commit_validated_node ::
  "'s leaseDrivenInput \<Rightarrow> leaseDrivenUploadRecord \<Rightarrow> leaseDrivenUploadValidation \<Rightarrow> nodeLeaseRecord
   \<Rightarrow> ('s, exn, leaseDrivenNodeUploadResult) prog" where
  "commit_validated_node input upload validation lease =
     (let repo = in_repository input; scope = in_scope input; hash = in_hash input in
      bindM (commitUploadedCanonicalNode repo scope (Commit_new
               \<lparr>nc_hash = hash, nc_contentSize = md_contentSize validation,
                nc_storedBytes = lv_storedBytes validation, nc_contentType = md_contentType validation,
                nc_refs = md_refs validation, nc_lease = lease\<rparr>)) (\<lambda>_.
      bindM (ignoring_errors
               (bindM (deleteTemporaryUploadObject repo scope (lu_temporaryObjectKey upload)) (\<lambda>_.
                deleteLeaseDrivenUpload repo scope hash (lu_generation upload)))) (\<lambda>_.
      returnM (Ready (lease_result hash lease)))))"

definition publishValidatedLeaseDrivenUpload ::
  "'s leaseDrivenInput \<Rightarrow> leaseDrivenUploadRecord \<Rightarrow> leaseDrivenUploadValidation \<Rightarrow> int \<Rightarrow> int \<Rightarrow> bytes option
   \<Rightarrow> ('s, exn, leaseDrivenNodeUploadResult) prog" where
  "publishValidatedLeaseDrivenUpload input upload validation leaseDurationMs now validatedBytes =
     bindM (unready_children (in_repository input) (in_scope input) [] (md_refs validation)) (\<lambda>childHashes.
     if childHashes \<noteq> [] then returnM (Validated_awaiting_children childHashes)
     else
     bindM (store_validated_content input upload validatedBytes) (\<lambda>_.
     commit_validated_node input upload validation
       (nextNodeLease (None :: nodeLeaseRecord option) leaseDurationMs now)))"

definition awaiting_result :: "leaseDrivenUploadRecord \<Rightarrow> leaseDrivenNodeUploadResult" where
  "awaiting_result upload =
     (case lu_rejection upload of
        None \<Rightarrow> Awaiting_upload upload
      | Some r \<Rightarrow> Awaiting_replacement_upload upload r)"

text \<open>Staging a validation under the generation it was made for.\<close>

definition stage_or_conflict ::
  "'s leaseDrivenInput \<Rightarrow> leaseDrivenUploadRecord \<Rightarrow> leaseDrivenUploadValidation
   \<Rightarrow> ('s, exn, leaseDrivenUploadRecord) prog" where
  "stage_or_conflict input upload v =
     bindM (stageLeaseDrivenUploadValidation (in_repository input) (in_scope input) (in_hash input)
              (lu_generation upload) v) (\<lambda>staged.
     if staged then returnM (upload\<lparr>lu_validation := Some v\<rparr>) else throwM generation_changed)"

text \<open>The branch of a stored canonical object without a node row (recovery of an orphan).\<close>

definition validate_orphan ::
  "'s leaseDrivenInput \<Rightarrow> leaseDrivenUploadRecord
   \<Rightarrow> ('s, exn, leaseDrivenUploadRecord \<times> leaseDrivenUploadValidation) prog" where
  "validate_orphan input upload =
     bindM (readCanonicalBytes (in_repository input) (in_scope input) (in_hash input)) (\<lambda>bytes.
     case bytes of
       None \<Rightarrow> throwM (nodeOpError 503 STORAGE ''Canonical object disappeared during recovery'')
     | Some b \<Rightarrow>
         bindM (observeLeaseDrivenNodeValidation input b) (\<lambda>validated.
         case validated of
           Inl _ \<Rightarrow> throwM (nodeOpError 503 STORAGE ''Canonical orphan failed integrity validation'')
         | Inr v \<Rightarrow> bindM (stage_or_conflict input upload v) (\<lambda>upload'. returnM (upload', v))))"

definition recover_canonical ::
  "'s leaseDrivenInput \<Rightarrow> leaseDrivenUploadRecord option \<Rightarrow> int \<Rightarrow> int
   \<Rightarrow> ('s, exn, leaseDrivenNodeUploadResult) prog" where
  "recover_canonical input found leaseDurationMs now =
     bindM (case found of
              Some u \<Rightarrow> returnM u
            | None \<Rightarrow> bindM (createLeaseDrivenUpload input now None) (\<lambda>u.
                      bindM (replaceOrConflict (in_repository input) (in_scope input) None u) (\<lambda>_. returnM u))) (\<lambda>upload.
     bindM (case lu_validation upload of
              Some v \<Rightarrow> returnM (upload, v)
            | None \<Rightarrow> validate_orphan input upload) (\<lambda>(upload', validation).
     publishValidatedLeaseDrivenUpload input upload' validation leaseDurationMs now None))"

text \<open>The branch of an upload in progress, after the upload record is known.\<close>

definition restart_expired_upload ::
  "'s leaseDrivenInput \<Rightarrow> leaseDrivenUploadRecord \<Rightarrow> int \<Rightarrow> ('s, exn, leaseDrivenNodeUploadResult) prog" where
  "restart_expired_upload input upload now =
     bindM (createLeaseDrivenUpload input now (lu_rejection upload)) (\<lambda>replacement.
     bindM (replaceOrConflict (in_repository input) (in_scope input) (Some (lu_generation upload)) replacement) (\<lambda>_.
     bindM (ignoring_errors (deleteTemporaryUploadObject (in_repository input) (in_scope input)
              (lu_temporaryObjectKey upload))) (\<lambda>_.
     returnM (awaiting_result replacement))))"

definition validate_uploaded_bytes ::
  "'s leaseDrivenInput \<Rightarrow> leaseDrivenUploadRecord \<Rightarrow> int \<Rightarrow> int \<Rightarrow> bytes
   \<Rightarrow> ('s, exn, leaseDrivenNodeUploadResult) prog" where
  "validate_uploaded_bytes input upload leaseDurationMs now b =
     bindM (observeLeaseDrivenNodeValidation input b) (\<lambda>validated.
     case validated of
       Inl rejection \<Rightarrow> replaceRejectedLeaseDrivenUpload input upload rejection now
     | Inr v \<Rightarrow>
         bindM (stage_or_conflict input upload v) (\<lambda>upload'.
         publishValidatedLeaseDrivenUpload input upload' v leaseDurationMs now (Some b)))"

definition continue_upload ::
  "'s leaseDrivenInput \<Rightarrow> leaseDrivenUploadRecord \<Rightarrow> int \<Rightarrow> int
   \<Rightarrow> ('s, exn, leaseDrivenNodeUploadResult) prog" where
  "continue_upload input upload leaseDurationMs now =
     bindM (readTemporaryUploadObject (in_repository input) (in_scope input) (lu_temporaryObjectKey upload)) (\<lambda>temporary.
     case temporary of
       None \<Rightarrow>
         if lu_validation upload \<noteq> None
         then throwM (nodeOpError 503 STORAGE ''Validated upload content is missing'')
         else if lu_expiresAt upload \<le> now then restart_expired_upload input upload now
         else returnM (awaiting_result upload)
     | Some storedBytes \<Rightarrow>
         (case lu_validation upload of
            Some v \<Rightarrow> publishValidatedLeaseDrivenUpload input upload v leaseDurationMs now None
          | None \<Rightarrow>
              if storedBytes > max_bytes (in_limits input)
              then replaceRejectedLeaseDrivenUpload input upload node_too_large now
              else
              bindM (readTemporaryUploadBytes (in_repository input) (in_scope input)
                       (lu_temporaryObjectKey upload)) (\<lambda>bytes.
              case bytes of
                None \<Rightarrow> returnM (awaiting_result upload)
              | Some b \<Rightarrow> validate_uploaded_bytes input upload leaseDurationMs now b)))"

text \<open>The upload of this hash, admitted within the limit of active uploads if there is none.\<close>

definition find_or_create_upload ::
  "'s leaseDrivenInput \<Rightarrow> leaseDrivenUploadRecord option \<Rightarrow> int \<Rightarrow> ('s, exn, leaseDrivenUploadRecord) prog" where
  "find_or_create_upload input found now =
     (case found of
        Some u \<Rightarrow> returnM u
      | None \<Rightarrow>
          bindM (countLeaseDrivenUploads (in_repository input) (in_scope input)) (\<lambda>activeUploads.
          if activeUploads \<ge> (case in_maxActiveUploads input of
                None \<Rightarrow> DEFAULT_MAX_ACTIVE_UPLOADS | Some n \<Rightarrow> n)
          then throwM (nodeOpError 429 UPLOAD_LIMIT ''Space has too many active node uploads'')
          else
          bindM (createLeaseDrivenUpload input now None) (\<lambda>u.
          bindM (replaceOrConflict (in_repository input) (in_scope input) None u) (\<lambda>_. returnM u))))"

text \<open>The two branches of \<open>leaseDrivenNodeUpload\<close>: a node row exists, or none does.\<close>

definition lease_committed_node ::
  "'s leaseDrivenInput \<Rightarrow> canonicalNodeLeaseRecord \<Rightarrow> canonicalOrphanObject option \<Rightarrow> int
   \<Rightarrow> ('s, exn, leaseDrivenNodeUploadResult) prog" where
  "lease_committed_node input existing canonical leaseDurationMs =
     (if canonical = None
      then throwM (nodeOpError 503 STORAGE (''Ready node '' @ in_hash input @ '' is missing canonical content''))
      else
        let lease = nextNodeLease (Some existing) leaseDurationMs (in_now input) in
        bindM (renewNodeLease (in_repository input) (in_scope input) (in_hash input) lease) (\<lambda>_.
        returnM (Ready (lease_result (in_hash input) lease))))"

definition lease_uncommitted_node ::
  "'s leaseDrivenInput \<Rightarrow> canonicalOrphanObject option \<Rightarrow> int
   \<Rightarrow> ('s, exn, leaseDrivenNodeUploadResult) prog" where
  "lease_uncommitted_node input canonical leaseDurationMs =
     bindM (readLeaseDrivenUpload (in_repository input) (in_scope input) (in_hash input)) (\<lambda>found.
     if canonical \<noteq> None then recover_canonical input found leaseDurationMs (in_now input)
     else
     bindM (find_or_create_upload input found (in_now input)) (\<lambda>upload.
     continue_upload input upload leaseDurationMs (in_now input)))"

definition leaseDrivenNodeUpload ::
  "'s leaseDrivenInput \<Rightarrow> ('s, exn, leaseDrivenNodeUploadResult) prog" where
  "leaseDrivenNodeUpload input =
     bindM (validateLeaseHash (in_hash input)) (\<lambda>_.
     let leaseDurationMs = clampLeaseDuration (in_leaseDurationMs input) in
     bindM (readCanonicalNodeLease (in_repository input) (in_scope input) (in_hash input)) (\<lambda>existing.
     bindM (readCanonicalObject (in_repository input) (in_scope input) (in_hash input)) (\<lambda>canonical.
     case existing of
       Some e \<Rightarrow> lease_committed_node input e canonical leaseDurationMs
     | None \<Rightarrow> lease_uncommitted_node input canonical leaseDurationMs)))"

end
