(* ===== verification/Direct_Upload.thy ===== *)
theory Direct_Upload
  imports Node_Lease
begin

text \<open>
  The second half of \<^verbatim>\<open>packages/service/src/node-lease.ts\<close>: renewal and orphan adoption
  (\<open>leaseReadyNode\<close>), direct upload sessions (\<open>prepareCanonicalNodeUpload\<close>,
  \<open>admitCanonicalNodeUploadFinalization\<close>) and the one-request upload
  (\<open>beginCanonicalNodeLease\<close>, \<open>uploadCanonicalNode\<close>, \<open>finalizeCanonicalNodeLease\<close>,
  \<open>leaseCanonicalNode\<close>).  Cancelling a request body has no effect that is modelled.
\<close>

section \<open>Inspection of a stored object\<close>

definition prefix_limit :: "canonicalNodeLimits \<Rightarrow> int" where
  "prefix_limit limits = int HEADER_SIZE + MAX_CONTENT_TYPE_LENGTH
     + (case maxNodeRefs limits of None \<Rightarrow> MAX_NODE_REFS | Some n \<Rightarrow> n) * int HASH_SIZE"

definition inspectCanonicalNode ::
  "('s, 'z) nodeLeaseRepository_scheme \<Rightarrow> appSpaceScope \<Rightarrow> string \<Rightarrow> int \<Rightarrow> canonicalNodeLimits
   \<Rightarrow> ('s, exn, parsedCanonicalNode) prog" where
  "inspectCanonicalNode repository scope hash storedBytes limits =
     bindM (readCanonicalPrefix repository scope hash (min storedBytes (prefix_limit limits))) (\<lambda>prefix.
     case prefix of
       None \<Rightarrow> throwM (PlainError ''Canonical node disappeared during inspection'')
     | Some chunks \<Rightarrow> liftM (codec (parseCanonicalNodeStream chunks (Some storedBytes) limits)))"

text \<open>\<open>for (const childHash of refs) if (!await isNodeReady(\<dots>)) throw \<dots>\<close>.\<close>

definition require_ready_children ::
  "('s, 'z) nodeLeaseRepository_scheme \<Rightarrow> appSpaceScope \<Rightarrow> string list \<Rightarrow> ('s, exn, unit) prog" where
  "require_ready_children repository scope refs =
     forM refs (\<lambda>childHash.
       bindM (isNodeReady repository scope childHash) (\<lambda>ready.
       if ready then returnM ()
       else throwM (nodeOpError 409 NOT_READY (''Child node '' @ childHash @ '' is not ready''))))"

section \<open>Renewal and adoption\<close>

definition node_not_found :: "string \<Rightarrow> exn" where
  "node_not_found hash = nodeOpError 404 NOT_FOUND (''Node '' @ hash @ '' not found'')"

definition leaseReadyNode ::
  "('s, 'z) nodeLeaseRepository_scheme \<Rightarrow> appSpaceScope \<Rightarrow> string \<Rightarrow> int \<Rightarrow> canonicalNodeLimits \<Rightarrow> int
   \<Rightarrow> ('s, exn, casLeaseResult) prog" where
  "leaseReadyNode repository scope hash leaseDurationMs limits now =
     bindM (validateLeaseHash hash) (\<lambda>_.
     bindM (readNodeLease repository scope hash) (\<lambda>existing.
     case existing of
       Some e \<Rightarrow>
         bindM (isNodeReady repository scope hash) (\<lambda>ready.
         if \<not> ready then throwM (nodeOpError 409 NOT_READY (''Node '' @ hash @ '' is not ready''))
         else
           let lease = nextNodeLease (Some e) leaseDurationMs now in
           bindM (renewNodeLease repository scope hash lease) (\<lambda>_. returnM (lease_result hash lease)))
     | None \<Rightarrow>
         bindM (readCanonicalObject repository scope hash) (\<lambda>object.
         case object of
           None \<Rightarrow> throwM (node_not_found hash)
         | Some obj \<Rightarrow>
             if co_storedBytes obj > max_bytes limits \<or> co_sha256Hex obj \<noteq> Some hash
             then throwM (node_not_found hash)
             else
             bindM (catchM (inspectCanonicalNode repository scope hash (co_storedBytes obj) limits)
                      (\<lambda>e. throwM (nodeOpError 409 CONFLICT (exn_message e)))) (\<lambda>parsed.
             bindM (require_ready_children repository scope (pc_refs parsed)) (\<lambda>_.
             let lease = nextNodeLease (None :: nodeLeaseRecord option) leaseDurationMs now in
             bindM (commitAdoptedCanonicalNode repository scope
                      \<lparr>ap_hash = hash, ap_contentSize = pc_contentSize parsed,
                       ap_contentType = pc_contentType parsed, ap_refs = pc_refs parsed,
                       ap_storedBytes = co_storedBytes obj, ap_lease = lease,
                       ap_reservationCreatedAt = now, ap_reservationExpiresAt = now + MAX_LEASE_MS\<rparr>) (\<lambda>_.
             returnM (lease_result hash lease)))))))"

section \<open>Direct upload sessions\<close>

text \<open>The \<open>try\<close>/\<open>catch\<close> around \<open>leaseReadyNode\<close>: only \<open>NODE_NOT_FOUND\<close> goes on.\<close>

definition try_ready :: "('s, exn, casLeaseResult) prog \<Rightarrow> ('s, exn, casLeaseResult option) prog" where
  "try_ready m = catchM (bindM m (\<lambda>r. returnM (Some r)))
     (\<lambda>e. case e of
        NodeOpError status code message headers \<Rightarrow> if code = NOT_FOUND then returnM None else throwM e
      | _ \<Rightarrow> throwM e)"

text \<open>The end of \<open>prepareCanonicalNodeUpload\<close>: a new session, replacing an expired one.\<close>

definition start_upload_session ::
  "'s canonicalDirectUploadRepository \<Rightarrow> appSpaceScope \<Rightarrow> string \<Rightarrow> int \<Rightarrow> int
   \<Rightarrow> ('s, exn, string \<times> string) prog \<Rightarrow> int option \<Rightarrow> int \<Rightarrow> string option
   \<Rightarrow> ('s, exn, canonicalDirectUploadPrepareResult) prog" where
  "start_upload_session repository scope hash storedBytes leaseDurationMs createIdentifiers uploadSessionMs now
       replaced =
     bindM createIdentifiers (\<lambda>(uploadId, temporaryObjectKey).
     if uploadId = [] \<or> temporaryObjectKey = []
     then throwM (TypeErr ''Canonical upload identifiers must not be empty'')
     else
       let session = \<lparr>ds_hash = hash, ds_uploadId = uploadId, ds_temporaryObjectKey = temporaryObjectKey,
             ds_storedBytes = storedBytes, ds_leaseDurationMs = leaseDurationMs, ds_createdAt = now,
             ds_expiresAt = now + (case uploadSessionMs of None \<Rightarrow> DEFAULT_UPLOAD_SESSION_MS | Some n \<Rightarrow> n)\<rparr>
       in bindM (reserveCanonicalUploadSession repository scope session) (\<lambda>_.
          returnM (Prepare_upload session replaced)))"

definition prepareCanonicalNodeUpload ::
  "'s canonicalDirectUploadRepository \<Rightarrow> appSpaceScope \<Rightarrow> string \<Rightarrow> int \<Rightarrow> int
   \<Rightarrow> ('s, exn, string \<times> string) prog \<Rightarrow> canonicalNodeLimits \<Rightarrow> int option \<Rightarrow> int
   \<Rightarrow> ('s, exn, canonicalDirectUploadPrepareResult) prog" where
  "prepareCanonicalNodeUpload repository scope hash storedBytes leaseDurationMs createIdentifiers limits
       uploadSessionMs now =
     bindM (validateLeaseHash hash) (\<lambda>_.
     bindM (try_ready (leaseReadyNode repository scope hash leaseDurationMs limits now)) (\<lambda>ready.
     case ready of
       Some result \<Rightarrow> returnM (Prepare_ready result)
     | None \<Rightarrow>
         if \<not> isSafeInteger storedBytes \<or> storedBytes < 1
         then throwM (nodeOpError 400 UPLOAD_INVALID ''Invalid canonical upload length'')
         else if storedBytes > max_bytes limits
         then throwM (nodeOpError 413 UPLOAD_INVALID ''Canonical node is too large'')
         else
         bindM (readCanonicalUploadSession repository scope hash) (\<lambda>existing.
         case existing of
           None \<Rightarrow> start_upload_session repository scope hash storedBytes leaseDurationMs createIdentifiers
                     uploadSessionMs now None
         | Some s \<Rightarrow>
             if ds_expiresAt s > now then
               (if ds_storedBytes s \<noteq> storedBytes
                then throwM (nodeOpError 409 UPLOAD_CONFLICT
                       ''Canonical upload length conflicts with the active session'')
                else returnM (Prepare_upload s None))
             else start_upload_session repository scope hash storedBytes leaseDurationMs createIdentifiers
                    uploadSessionMs now (Some (ds_temporaryObjectKey s)))))"

definition admitCanonicalNodeUploadFinalization ::
  "'s canonicalDirectUploadRepository \<Rightarrow> appSpaceScope \<Rightarrow> string \<Rightarrow> string \<Rightarrow> int \<Rightarrow> canonicalNodeLimits \<Rightarrow> int
   \<Rightarrow> ('s, exn, canonicalDirectUploadFinalizeAdmission) prog" where
  "admitCanonicalNodeUploadFinalization repository scope hash uploadId leaseDurationMs limits now =
     bindM (validateLeaseHash hash) (\<lambda>_.
     bindM (try_ready (leaseReadyNode repository scope hash leaseDurationMs limits now)) (\<lambda>ready.
     case ready of
       Some result \<Rightarrow> returnM (Admit_ready result)
     | None \<Rightarrow>
         bindM (readCanonicalUploadSession repository scope hash) (\<lambda>session.
         case session of
           None \<Rightarrow> throwM (nodeOpError 400 UPLOAD_INVALID ''Canonical upload session is invalid'')
         | Some s \<Rightarrow>
             if ds_uploadId s \<noteq> uploadId
             then throwM (nodeOpError 400 UPLOAD_INVALID ''Canonical upload session is invalid'')
             else if ds_expiresAt s \<le> now
             then throwM (nodeOpError 410 UPLOAD_EXPIRED ''Canonical upload session expired'')
             else returnM (Admit_upload s))))"

section \<open>The one-request upload\<close>

definition beginCanonicalNodeLease ::
  "('s, 'z) canonicalNodeLeaseRepository_scheme \<Rightarrow> appSpaceScope \<Rightarrow> string \<Rightarrow> int \<Rightarrow> int option
   \<Rightarrow> canonicalNodeLimits \<Rightarrow> int \<Rightarrow> ('s, exn, canonicalNodeLeaseBeginResult) prog" where
  "beginCanonicalNodeLease repository scope hash leaseDurationMs declaredLength limits now =
     bindM (validateLeaseHash hash) (\<lambda>_.
     bindM (readCanonicalNodeLease repository scope hash) (\<lambda>existing.
     bindM (case existing of None \<Rightarrow> returnM False | Some _ \<Rightarrow> isNodeReady repository scope hash) (\<lambda>ready.
     if ready then
       let lease = nextNodeLease existing leaseDurationMs now in
       bindM (renewNodeLease repository scope hash lease) (\<lambda>_.
       returnM (Begin_ready (lease_result hash lease)))
     else
       case declaredLength of
         None \<Rightarrow> throwM (nodeOpError 411 INVALID_REQUEST ''Content-Length is required'')
       | Some n \<Rightarrow>
           if n > max_bytes limits
           then throwM (nodeOpError 413 INVALID_REQUEST ''Canonical node is too large'')
           else
           bindM (reserveCanonicalUpload repository scope
                    \<lparr>rv_hash = hash, rv_storedBytes = n, rv_createdAt = now, rv_expiresAt = now + MAX_LEASE_MS\<rparr>) (\<lambda>_.
           returnM (Begin_upload \<lparr>up_hash = hash, up_storedBytes = n, up_leaseDurationMs = leaseDurationMs\<rparr>)))))"

text \<open>A case-insensitive regular expression without metacharacters, tested on ASCII text.\<close>

definition lower_ascii :: "char \<Rightarrow> char" where
  "lower_ascii c = (let n = of_char c :: nat in if 65 \<le> n \<and> n \<le> 90 then char_of (n + 32) else c)"

definition isChecksumMismatch :: "exn \<Rightarrow> bool" where
  "isChecksumMismatch e \<longleftrightarrow> (let m = map lower_ascii (exn_message e) in
     str_includes m ''checksum'' \<and> (str_includes m ''did not match'' \<or> str_includes m ''mismatch''))"

definition uploadCanonicalNode ::
  "('s, 'z) canonicalNodeLeaseRepository_scheme \<Rightarrow> appSpaceScope \<Rightarrow> canonicalNodeUploadPlan \<Rightarrow> bytes list
   \<Rightarrow> ('s, exn, unit) prog" where
  "uploadCanonicalNode repository scope plan body =
     catchM (putCanonicalObject repository scope (up_hash plan) body)
       (\<lambda>e. throwM (nodeOpError 400 INVALID_REQUEST
          (if isChecksumMismatch e then ''Canonical node checksum does not match its hash''
           else ''Canonical node upload failed'')))"

definition sameRefs :: "string list \<Rightarrow> string list \<Rightarrow> bool" where
  "sameRefs left right \<longleftrightarrow>
     length left = length right \<and> list_all (\<lambda>i. left ! i = right ! i) [0..<length left]"

definition finalizeCanonicalNodeLease ::
  "('s, 'z) canonicalNodeLeaseRepository_scheme \<Rightarrow> appSpaceScope \<Rightarrow> canonicalNodeUploadPlan \<Rightarrow> canonicalNodeLimits
   \<Rightarrow> int \<Rightarrow> parsedUploadedNodeMetadata option \<Rightarrow> ('s, exn, casLeaseResult) prog" where
  "finalizeCanonicalNodeLease repository scope plan limits now parsedInput =
     bindM (validateLeaseHash (up_hash plan)) (\<lambda>_.
     bindM (readCanonicalNodeLease repository scope (up_hash plan)) (\<lambda>existing.
     bindM (case parsedInput of
              Some md \<Rightarrow> returnM md
            | None \<Rightarrow>
                bindM (catchM (inspectCanonicalNode repository scope (up_hash plan) (up_storedBytes plan) limits)
                   (\<lambda>e. throwM (nodeOpError (if str_includes (exn_message e) ''too large'' then 413 else 400)
                          INVALID_REQUEST (exn_message e)))) (\<lambda>p.
                returnM \<lparr>md_contentSize = pc_contentSize p, md_contentType = pc_contentType p,
                         md_refs = pc_refs p\<rparr>)) (\<lambda>parsed.
     bindM (case existing of
              None \<Rightarrow> returnM ()
            | Some e \<Rightarrow>
                bindM (readNodeRefs repository scope (up_hash plan)) (\<lambda>refs.
                if cn_contentSize e \<noteq> md_contentSize parsed \<or> cn_contentType e \<noteq> md_contentType parsed
                   \<or> \<not> sameRefs refs (md_refs parsed)
                then throwM (nodeOpError 409 CONFLICT ''Immutable metadata mismatch'')
                else returnM ())) (\<lambda>_.
     bindM (require_ready_children repository scope (md_refs parsed)) (\<lambda>_.
     let lease = nextNodeLease existing (up_leaseDurationMs plan) now in
     bindM (commitUploadedCanonicalNode repository scope
              (case existing of
                 None \<Rightarrow> Commit_new \<lparr>nc_hash = up_hash plan, nc_contentSize = md_contentSize parsed,
                   nc_storedBytes = up_storedBytes plan, nc_contentType = md_contentType parsed,
                   nc_refs = md_refs parsed, nc_lease = lease\<rparr>
               | Some _ \<Rightarrow> Commit_existing (up_hash plan) (up_storedBytes plan) lease)) (\<lambda>_.
     returnM (lease_result (up_hash plan) lease)))))))"

definition leaseCanonicalNode ::
  "('s, 'z) canonicalNodeLeaseRepository_scheme \<Rightarrow> appSpaceScope \<Rightarrow> string \<Rightarrow> int \<Rightarrow> bytes list \<Rightarrow> int option
   \<Rightarrow> canonicalNodeLimits \<Rightarrow> int \<Rightarrow> ('s, exn, casLeaseResult) prog" where
  "leaseCanonicalNode repository scope hash leaseDurationMs body declaredLength limits now =
     bindM (beginCanonicalNodeLease repository scope hash leaseDurationMs declaredLength limits now) (\<lambda>begun.
     case begun of
       Begin_ready result \<Rightarrow> returnM result
     | Begin_upload plan \<Rightarrow>
         bindM (uploadCanonicalNode repository scope plan body) (\<lambda>_.
         finalizeCanonicalNodeLease repository scope plan limits now None))"

end
