(* ===== verification/Node_Gc.thy ===== *)
theory Node_Gc
  imports Service_Errors
begin

text \<open>
  The node collector, \<^verbatim>\<open>packages/service/src/gc.ts\<close>: the kernel
  \<open>collectExpiredUnreferencedNodes\<close> over a repository record, the contract of such a repository
  as the locale \<open>gc_repository\<close>, and the kernel's guarantees proved once inside it.
\<close>

section \<open>Data\<close>

definition DEFAULT_GC_MAX_NODES :: int where "DEFAULT_GC_MAX_NODES = 100"

record nodeGcDeletion =
  gd_hash :: string
  gd_contentSize :: int
  gd_childReferences :: "(string \<times> int) list"

record 's nodeGcRepository =
  findExpiredUnreferenced :: "appSpaceScope \<Rightarrow> int \<Rightarrow> int \<Rightarrow> ('s, exn, string list) prog"
  readStillExpiredUnreferenced :: "appSpaceScope \<Rightarrow> string \<Rightarrow> int \<Rightarrow> ('s, exn, nodeGcDeletion option) prog"
  deleteCanonicalContent :: "appSpaceScope \<Rightarrow> string \<Rightarrow> ('s, exn, unit) prog"
  commitDeletion :: "appSpaceScope \<Rightarrow> nodeGcDeletion \<Rightarrow> ('s, exn, unit) prog"

record casGcResult =
  examined :: int
  deleted :: int
  reclaimedContentBytes :: int

section \<open>The kernel\<close>

text \<open>The loop over the candidates, with its two counters.\<close>

fun collect_candidates ::
  "'s nodeGcRepository \<Rightarrow> appSpaceScope \<Rightarrow> int \<Rightarrow> string list \<Rightarrow> int \<Rightarrow> int \<Rightarrow> ('s, exn, int \<times> int) prog" where
  "collect_candidates repository scope expiresAtOrBefore [] del reclaimed = returnM (del, reclaimed)"
| "collect_candidates repository scope expiresAtOrBefore (candidate # rest) del reclaimed =
     bindM (readStillExpiredUnreferenced repository scope candidate expiresAtOrBefore) (\<lambda>deletion.
     case deletion of
       None \<Rightarrow> collect_candidates repository scope expiresAtOrBefore rest del reclaimed
     | Some x \<Rightarrow>
         bindM (deleteCanonicalContent repository scope (gd_hash x)) (\<lambda>_.
         bindM (commitDeletion repository scope x) (\<lambda>_.
         collect_candidates repository scope expiresAtOrBefore rest (del + 1) (reclaimed + gd_contentSize x))))"

definition collectExpiredUnreferencedNodes ::
  "'s nodeGcRepository \<Rightarrow> appSpaceScope \<Rightarrow> int option \<Rightarrow> ('s, exn, int) prog \<Rightarrow> ('s, exn, casGcResult) prog" where
  "collectExpiredUnreferencedNodes repository scope maxNodes now =
     (let limit = (case maxNodes of None \<Rightarrow> DEFAULT_GC_MAX_NODES | Some n \<Rightarrow> n) in
      if \<not> isSafeInteger limit \<or> limit \<le> 0 then throwM (TypeErr ''maxNodes must be a positive integer'')
      else
      bindM now (\<lambda>expiresAtOrBefore.
      bindM (findExpiredUnreferenced repository scope expiresAtOrBefore limit) (\<lambda>candidates.
      bindM (collect_candidates repository scope expiresAtOrBefore candidates 0 0) (\<lambda>(del, reclaimed).
      returnM \<lparr>examined = int (length candidates), deleted = del, reclaimedContentBytes = reclaimed\<rparr>))))"

section \<open>The contract\<close>

text \<open>
  \<open>deletable s d\<close>: the deletion \<open>d\<close> describes a node that may be collected.  \<open>node_total\<close> and
  \<open>content_total\<close> are the number of committed nodes and their content bytes.  \<open>rel\<close> is the
  preorder within which every operation stays, successful or not: what survives a collection.
\<close>

locale gc_repository =
  fixes repo :: "'s nodeGcRepository"
    and scope :: appSpaceScope
    and inv :: "'s \<Rightarrow> bool"
    and cutoff :: int
    and deletable :: "'s \<Rightarrow> nodeGcDeletion \<Rightarrow> bool"
    and node_total :: "'s \<Rightarrow> int"
    and content_total :: "'s \<Rightarrow> int"
    and rel :: "'s \<Rightarrow> 's \<Rightarrow> bool"
  assumes gc_rel_refl: "rel s s"
    and gc_rel_trans: "rel s s' \<Longrightarrow> rel s' s'' \<Longrightarrow> rel s s''"
    and find_expired: "inv s \<Longrightarrow> 0 < n \<Longrightarrow>
      wp (findExpiredUnreferenced repo scope cutoff n)
        (\<lambda>cs s'. inv s' \<and> rel s s' \<and> node_total s' = node_total s \<and> content_total s' = content_total s
           \<and> int (length cs) \<le> n) (\<lambda>_ s'. inv s' \<and> rel s s') s"
    and read_still: "inv s \<Longrightarrow>
      wp (readStillExpiredUnreferenced repo scope h cutoff)
        (\<lambda>r s'. inv s' \<and> rel s s' \<and> node_total s' = node_total s \<and> content_total s' = content_total s
           \<and> (\<forall>d. r = Some d \<longrightarrow> gd_hash d = h \<and> deletable s' d)) (\<lambda>_ s'. inv s' \<and> rel s s') s"
    and delete_content: "inv s \<Longrightarrow> deletable s d \<Longrightarrow>
      wp (deleteCanonicalContent repo scope (gd_hash d))
        (\<lambda>_ s'. inv s' \<and> rel s s' \<and> node_total s' = node_total s \<and> content_total s' = content_total s
           \<and> deletable s' d) (\<lambda>_ s'. inv s' \<and> rel s s') s"
    and commit_deletion: "inv s \<Longrightarrow> deletable s d \<Longrightarrow>
      wp (commitDeletion repo scope d)
        (\<lambda>_ s'. inv s' \<and> rel s s' \<and> node_total s' = node_total s - 1
           \<and> content_total s' = content_total s - gd_contentSize d) (\<lambda>_ s'. inv s' \<and> rel s s') s"
begin

text \<open>One candidate that is still collectable: its content goes first, then its row.\<close>

lemma delete_one:
  assumes "inv s" and "deletable s d"
    and "\<And>s'. inv s' \<Longrightarrow> rel s s' \<Longrightarrow> node_total s' = node_total s - 1 \<Longrightarrow>
      content_total s' = content_total s - gd_contentSize d \<Longrightarrow> wp m Q (\<lambda>_ s'. inv s' \<and> rel s s') s'"
  shows "wp (bindM (deleteCanonicalContent repo scope (gd_hash d)) (\<lambda>_. bindM (commitDeletion repo scope d) (\<lambda>_. m))) Q
    (\<lambda>_ s'. inv s' \<and> rel s s') s"
  unfolding wp_bindM [of "deleteCanonicalContent _ _ _"]
proof (rule wp_mono [OF delete_content [OF assms(1,2)]])
  fix x s1
  assume a: "inv s1 \<and> rel s s1 \<and> node_total s1 = node_total s \<and> content_total s1 = content_total s \<and> deletable s1 d"
  then have i: "inv s1" and d1: "deletable s1 d" by simp_all
  show "wp (bindM (commitDeletion repo scope d) (\<lambda>_. m)) Q (\<lambda>_ s'. inv s' \<and> rel s s') s1"
    unfolding wp_bindM
  proof (rule wp_mono [OF commit_deletion [OF i d1]])
    fix y s2
    assume b: "inv s2 \<and> rel s1 s2 \<and> node_total s2 = node_total s1 - 1 \<and> content_total s2 = content_total s1 - gd_contentSize d"
    moreover have "rel s s2" using a b gc_rel_trans by blast
    ultimately show "wp m Q (\<lambda>_ s'. inv s' \<and> rel s s') s2" using a assms(3) by simp
  qed (use a gc_rel_trans in blast)
qed

lemma collect_loop:
  assumes "inv s"
  shows "wp (collect_candidates repo scope cutoff cs del reclaimed)
    (\<lambda>(del', reclaimed') s'. inv s' \<and> rel s s' \<and> del \<le> del' \<and> del' \<le> del + int (length cs)
       \<and> node_total s' = node_total s - (del' - del) \<and> content_total s' = content_total s - (reclaimed' - reclaimed))
    (\<lambda>_ s'. inv s' \<and> rel s s') s"
  using assms
proof (induction cs arbitrary: s del reclaimed)
  case Nil
  then show ?case by (simp add: wp_simps gc_rel_refl)
next
  case (Cons c cs)
  show ?case
    unfolding collect_candidates.simps wp_bindM [of "readStillExpiredUnreferenced _ _ _ _"]
  proof (rule wp_mono [OF read_still [OF Cons.prems, of c]])
    fix r s1
    assume a: "inv s1 \<and> rel s s1 \<and> node_total s1 = node_total s \<and> content_total s1 = content_total s
      \<and> (\<forall>d. r = Some d \<longrightarrow> gd_hash d = c \<and> deletable s1 d)"
    let ?post = "\<lambda>(del', reclaimed') s'. inv s' \<and> rel s s' \<and> del \<le> del' \<and> del' \<le> del + int (length (c # cs))
       \<and> node_total s' = node_total s - (del' - del) \<and> content_total s' = content_total s - (reclaimed' - reclaimed)"
    have tr: "rel s1 s2 \<Longrightarrow> rel s s2" for s2 using a gc_rel_trans by blast
    have skip: "wp (collect_candidates repo scope cutoff cs del reclaimed) ?post (\<lambda>_ s'. inv s' \<and> rel s s') s1"
      by (rule wp_mono [OF Cons.IH]) (use a tr in auto)
    have one: "wp (bindM (deleteCanonicalContent repo scope (gd_hash d)) (\<lambda>_. bindM (commitDeletion repo scope d) (\<lambda>_.
        collect_candidates repo scope cutoff cs (del + 1) (reclaimed + gd_contentSize d)))) ?post (\<lambda>_ s'. inv s' \<and> rel s s') s1"
      if "r = Some d" for d
    proof (rule wp_mono [OF delete_one [where s = s1 and d = d and Q = ?post]])
      show "inv s1" "deletable s1 d" using a that by blast+
      fix s2
      assume b: "inv s2" "rel s1 s2" "node_total s2 = node_total s1 - 1" "content_total s2 = content_total s1 - gd_contentSize d"
      have tr2: "rel s2 s3 \<Longrightarrow> rel s1 s3" for s3 using b(2) gc_rel_trans by blast
      show "wp (collect_candidates repo scope cutoff cs (del + 1) (reclaimed + gd_contentSize d)) ?post
          (\<lambda>_ s'. inv s' \<and> rel s1 s') s2"
        by (intro wp_mono [OF Cons.IH [OF b(1)]]) (use a b(3,4) tr tr2 in auto)
    qed (use tr in blast)+
    show "wp (case r of None \<Rightarrow> collect_candidates repo scope cutoff cs del reclaimed
        | Some x \<Rightarrow> bindM (deleteCanonicalContent repo scope (gd_hash x)) (\<lambda>_. bindM (commitDeletion repo scope x) (\<lambda>_.
            collect_candidates repo scope cutoff cs (del + 1) (reclaimed + gd_contentSize x)))) ?post (\<lambda>_ s'. inv s' \<and> rel s s') s1"
      using skip one by (cases r) auto
  qed simp
qed

text \<open>
  A whole collection: the invariant is kept and survivors survive whatever fails; the result
  counts exactly the nodes and content bytes that are gone, and is bounded by \<open>maxNodes\<close>.
\<close>

lemma collection_ok:
  assumes "inv s" and now: "now s = (Inr cutoff, s)"
  shows "wp (collectExpiredUnreferencedNodes repo scope maxNodes now)
    (\<lambda>r s'. inv s' \<and> rel s s' \<and> 0 \<le> deleted r \<and> deleted r \<le> examined r
       \<and> examined r \<le> (case maxNodes of None \<Rightarrow> DEFAULT_GC_MAX_NODES | Some n \<Rightarrow> n)
       \<and> node_total s' = node_total s - deleted r \<and> content_total s' = content_total s - reclaimedContentBytes r)
    (\<lambda>_ s'. inv s' \<and> rel s s') s"
proof -
  define limit where "limit = (case maxNodes of None \<Rightarrow> DEFAULT_GC_MAX_NODES | Some n \<Rightarrow> n)"
  let ?post = "\<lambda>r s'. inv s' \<and> rel s s' \<and> 0 \<le> deleted r \<and> deleted r \<le> examined r \<and> examined r \<le> limit
       \<and> node_total s' = node_total s - deleted r \<and> content_total s' = content_total s - reclaimedContentBytes r"
  have "wp (bindM (findExpiredUnreferenced repo scope cutoff limit) (\<lambda>candidates.
      bindM (collect_candidates repo scope cutoff candidates 0 0) (\<lambda>(del, reclaimed).
      returnM \<lparr>examined = int (length candidates), deleted = del, reclaimedContentBytes = reclaimed\<rparr>)))
      ?post (\<lambda>_ s'. inv s' \<and> rel s s') s" if "0 < limit"
    unfolding wp_bindM [of "findExpiredUnreferenced _ _ _ _"]
  proof (rule wp_mono [OF find_expired [OF assms(1) that]])
    fix cs :: "string list" and s1
    assume a: "inv s1 \<and> rel s s1 \<and> node_total s1 = node_total s \<and> content_total s1 = content_total s \<and> int (length cs) \<le> limit"
    then have i: "inv s1" and tr: "\<And>s2. rel s1 s2 \<Longrightarrow> rel s s2" using gc_rel_trans by blast+
    show "wp (bindM (collect_candidates repo scope cutoff cs 0 0) (\<lambda>(del, reclaimed).
      returnM \<lparr>examined = int (length cs), deleted = del, reclaimedContentBytes = reclaimed\<rparr>)) ?post (\<lambda>_ s'. inv s' \<and> rel s s') s1"
      unfolding wp_bindM
      by (rule wp_mono [OF collect_loop [OF i, of cs 0 0]]) (use a tr in \<open>auto simp: wp_simps split: prod.splits\<close>)
  qed simp
  then show ?thesis
    using assms gc_rel_refl
    by (auto simp: collectExpiredUnreferencedNodes_def limit_def [symmetric] Let_def wp_simps wp_def [of now])
qed

end

end
