(* ===== verification/Platform.thy ===== *)
theory Platform
  imports Service_Errors
begin

text \<open>
  The platform under the Cloudflare adapters: the D1 database and the R2 bucket.

  D1 runs the SQL of the sources.  A statement is a partial function on the database, \<open>None\<close>
  when a constraint or a trigger aborts it; a batch is atomic.  A call over the network may
  be delivered, be lost before it runs, or run and lose its reply; the schedule of these
  outcomes is part of the world, so a theorem about all worlds is a theorem about all
  failures.

  R2 is a service the sources only call: the bucket is a record of operations on an abstract
  state, and what the code relies on are the laws of the locale \<open>object_store\<close>: reads see
  the last write, a conditional put with a SHA-256 stores a new object only if the key is free
  and the body has that digest, and a call that fails may or may not have taken effect.
  Nothing is promised of keys outside the canonical namespace, which clients write through
  presigned URLs at any time.
\<close>

section \<open>Calls that may fail\<close>

datatype delivery = Delivered | Lost | Reply_lost

section \<open>D1\<close>

type_synonym ('d, 'r) statement = "'d \<Rightarrow> ('d \<times> 'r) option"

definition query :: "('d \<Rightarrow> 'r) \<Rightarrow> ('d, 'r) statement" where
  "query f d = Some (d, f d)"

definition then_stmt :: "('d, 'a) statement \<Rightarrow> ('a \<Rightarrow> ('d, 'b) statement) \<Rightarrow> ('d, 'b) statement" where
  "then_stmt m f d = (case m d of None \<Rightarrow> None | Some (d', x) \<Rightarrow> f x d')"

text \<open>\<open>db.batch\<close>: one transaction; the results are the numbers of changed rows.\<close>

fun batch :: "('d, int) statement list \<Rightarrow> ('d, int list) statement" where
  "batch [] d = Some (d, [])"
| "batch (st # sts) d =
     (case st d of None \<Rightarrow> None
      | Some (d', n) \<Rightarrow> (case batch sts d' of None \<Rightarrow> None | Some (d'', ns) \<Rightarrow> Some (d'', n # ns)))"

record ('d, 'b) world =
  w_db :: 'd
  w_bucket :: 'b
  w_deliveries :: "delivery list"
  w_clock :: int
  w_uuids :: "string list"
  w_readyCache :: "(string \<times> int) list"

definition next_delivery :: "delivery list \<Rightarrow> delivery \<times> delivery list" where
  "next_delivery ds = (case ds of [] \<Rightarrow> (Delivered, []) | d # rest \<Rightarrow> (d, rest))"

definition d1 :: "('d, 'r) statement \<Rightarrow> (('d, 'b) world, exn, 'r) prog" where
  "d1 st w =
     (case next_delivery (w_deliveries w) of (d, rest) \<Rightarrow>
        let w' = w\<lparr>w_deliveries := rest\<rparr> in
        if d = Lost then (Inl (StorageError ''D1_ERROR: Network connection lost.''), w')
        else (case st (w_db w) of
                None \<Rightarrow> (Inl (StorageError ''D1_ERROR: constraint failed''), w')
              | Some (db, r) \<Rightarrow>
                  (if d = Delivered then Inr r
                   else Inl (StorageError ''D1_ERROR: Network connection lost.''),
                   w'\<lparr>w_db := db\<rparr>)))"

text \<open>\<open>Date.now()\<close>.\<close>

definition date_now :: "(('d, 'b) world, exn, int) prog" where
  "date_now w = (Inr (w_clock w), w)"

text \<open>\<open>crypto.randomUUID()\<close>: the next value of an arbitrary supply.\<close>

definition random_uuid :: "(('d, 'b) world, exn, string) prog" where
  "random_uuid w = (case w_uuids w of
       [] \<Rightarrow> (Inl (PlainError ''entropy unavailable''), w)
     | u # rest \<Rightarrow> (Inr u, w\<lparr>w_uuids := rest\<rparr>))"

text \<open>The weakest-precondition rule of a D1 call: all three deliveries have to be covered.\<close>

lemma wp_d1:
  assumes "\<And>ds db r. st (w_db w) = Some (db, r) \<Longrightarrow> Q r (w\<lparr>w_deliveries := ds, w_db := db\<rparr>)"
    and "\<And>ds db r e. st (w_db w) = Some (db, r) \<Longrightarrow> E e (w\<lparr>w_deliveries := ds, w_db := db\<rparr>)"
    and "\<And>ds e. E e (w\<lparr>w_deliveries := ds\<rparr>)"
  shows "wp (d1 st) Q E w"
  using assms by (auto simp: wp_def d1_def Let_def split: prod.splits option.splits if_splits)

lemma wp_d1_query:
  assumes "\<And>ds. Q (f (w_db w)) (w\<lparr>w_deliveries := ds\<rparr>)" and "\<And>ds e. E e (w\<lparr>w_deliveries := ds\<rparr>)"
  shows "wp (d1 (query f)) Q E w"
proof (rule wp_d1)
  have same: "w\<lparr>w_deliveries := ds, w_db := w_db w\<rparr> = w\<lparr>w_deliveries := ds\<rparr>" for ds by simp
  fix ds db r
  assume "query f (w_db w) = Some (db, r)"
  then have q: "db = w_db w" "r = f (w_db w)" by (auto simp: query_def)
  show "Q r (w\<lparr>w_deliveries := ds, w_db := db\<rparr>)" using assms(1) [of ds] unfolding q same .
  show "E e (w\<lparr>w_deliveries := ds, w_db := db\<rparr>)" for e using assms(2) [of e ds] unfolding q same .
qed (rule assms(2))

lemma d1_delivered:
  assumes "w_deliveries w = []" and "st (w_db w) = Some (db, r)"
  shows "d1 st w = (Inr r, w\<lparr>w_db := db\<rparr>)"
  using assms by (simp add: d1_def next_delivery_def)

lemma wp_date_now [wp_simps]: "wp date_now Q E w = Q (w_clock w) w"
  by (simp add: wp_def date_now_def)

lemma batch_append:
  "batch (xs @ ys) d = (case batch xs d of None \<Rightarrow> None
     | Some (d', ns) \<Rightarrow> (case batch ys d' of None \<Rightarrow> None | Some (d'', ms) \<Rightarrow> Some (d'', ns @ ms)))"
  by (induction xs arbitrary: d) (auto split: option.splits prod.splits)

text \<open>A property that every statement of a batch keeps, the batch keeps.\<close>

lemma batch_invariant:
  assumes "batch sts d = Some (d', ns)" and "P d"
    and "\<And>st d d' n. st \<in> set sts \<Longrightarrow> P d \<Longrightarrow> st d = Some (d', n) \<Longrightarrow> P d'"
  shows "P d'"
  using assms
proof (induction sts arbitrary: d ns)
  case Nil
  then show ?case by simp
next
  case (Cons st sts)
  from Cons.prems(1) obtain d1 n ns' where st: "st d = Some (d1, n)" "batch sts d1 = Some (d', ns')"
    by (auto split: option.splits prod.splits)
  then show ?case using Cons.IH [OF st(2)] Cons.prems(2,3) by auto
qed

section \<open>R2\<close>

record 'b r2_bucket =
  r2_head :: "string \<Rightarrow> ('b, exn, (int \<times> bytes option) option) prog"
  r2_get :: "string \<Rightarrow> ('b, exn, bytes option) prog"
  r2_get_range :: "string \<Rightarrow> int \<Rightarrow> int \<Rightarrow> ('b, exn, bytes list option) prog"
  r2_put_absent :: "string \<Rightarrow> bytes \<Rightarrow> string \<Rightarrow> ('b, exn, bool) prog"
  r2_delete :: "string \<Rightarrow> ('b, exn, unit) prog"

text \<open>An operation of the bucket, run in the world.\<close>

definition r2 :: "('b, exn, 'a) prog \<Rightarrow> (('d, 'b) world, exn, 'a) prog" where
  "r2 m w = (case m (w_bucket w) of (r, b) \<Rightarrow> (r, w\<lparr>w_bucket := b\<rparr>))"

lemma wp_r2 [wp_simps]:
  "wp (r2 m) Q E w = wp m (\<lambda>x b. Q x (w\<lparr>w_bucket := b\<rparr>)) (\<lambda>e b. E e (w\<lparr>w_bucket := b\<rparr>)) (w_bucket w)"
  by (simp add: wp_def r2_def split: prod.splits sum.splits)

text \<open>Keys of canonical objects; clients' temporary objects lie elsewhere.\<close>

definition canonical_key :: "string \<Rightarrow> bool" where
  "canonical_key k \<longleftrightarrow> take 5 k = ''apps/''"

definition head_reply :: "(bytes \<Rightarrow> bytes) \<Rightarrow> bytes option \<Rightarrow> (int \<times> bytes option) option \<Rightarrow> bool" where
  "head_reply sha256 c r \<longleftrightarrow>
     (case c of None \<Rightarrow> r = None
      | Some body \<Rightarrow> (\<exists>sum. r = Some (int (length body), sum) \<and> (sum = None \<or> sum = Some (sha256 body))))"

locale object_store =
  fixes bucket :: "'b r2_bucket"
    and contents :: "'b \<Rightarrow> string \<Rightarrow> bytes option"
    and sha256 :: "bytes \<Rightarrow> bytes"
  assumes head_law: "canonical_key k \<Longrightarrow>
      wp (r2_head bucket k) (\<lambda>r b'. contents b' = contents b \<and> head_reply sha256 (contents b k) r)
        (\<lambda>_ b'. contents b' = contents b) b"
    and get_law: "canonical_key k \<Longrightarrow>
      wp (r2_get bucket k) (\<lambda>r b'. contents b' = contents b \<and> r = contents b k)
        (\<lambda>_ b'. contents b' = contents b) b"
    and get_range_law: "canonical_key k \<Longrightarrow> 0 \<le> offset \<Longrightarrow> 0 < len \<Longrightarrow>
      wp (r2_get_range bucket k offset len)
        (\<lambda>r b'. contents b' = contents b
           \<and> map_option concat r = map_option (\<lambda>body. take (nat len) (drop (nat offset) body)) (contents b k))
        (\<lambda>_ b'. contents b' = contents b) b"
    and range_reads_only: "canonical_key k \<Longrightarrow>
      wp (r2_get_range bucket k offset len) (\<lambda>_ b'. contents b' = contents b) (\<lambda>_ b'. contents b' = contents b) b"
    and put_law: "canonical_key k \<Longrightarrow>
      wp (r2_put_absent bucket k body hash)
        (\<lambda>stored b'. if stored
           then contents b k = None \<and> hashToHex (sha256 body) = Inr hash \<and> contents b' = (contents b)(k \<mapsto> body)
           else contents b k \<noteq> None \<and> contents b' = contents b)
        (\<lambda>_ b'. contents b' = contents b
           \<or> contents b k = None \<and> hashToHex (sha256 body) = Inr hash \<and> contents b' = (contents b)(k \<mapsto> body)) b"
    and delete_law: "canonical_key k \<Longrightarrow>
      wp (r2_delete bucket k) (\<lambda>_ b'. contents b' = (contents b)(k := None))
        (\<lambda>_ b'. contents b' = contents b \<or> contents b' = (contents b)(k := None)) b"
    and head_error: "wp (r2_head bucket k) (\<lambda>_ _. True) (\<lambda>e _. \<exists>m. e = StorageError m) b"
    and range_error: "wp (r2_get_range bucket k offset len) (\<lambda>_ _. True) (\<lambda>e _. \<exists>m. e = StorageError m) b"
    and temporary_head: "\<not> canonical_key k \<Longrightarrow>
      wp (r2_head bucket k) (\<lambda>_ b'. contents b' = contents b) (\<lambda>_ b'. contents b' = contents b) b"
    and temporary_get: "\<not> canonical_key k \<Longrightarrow>
      wp (r2_get bucket k) (\<lambda>_ b'. contents b' = contents b) (\<lambda>_ b'. contents b' = contents b) b"
    and temporary_delete: "\<not> canonical_key k \<Longrightarrow>
      wp (r2_delete bucket k) (\<lambda>_ b'. contents b' = contents b) (\<lambda>_ b'. contents b' = contents b) b"

section \<open>A reference store\<close>

text \<open>
  A store with the documented behaviour, whose calls fail by an arbitrary schedule: the laws
  of \<open>object_store\<close> can hold, and the witnesses run on it.
\<close>

record memory_bucket =
  mb_objects :: "(string, bytes) table"
  mb_deliveries :: "delivery list"

definition mem_call ::
  "((string, bytes) table \<Rightarrow> (exn + 'a) \<times> (string, bytes) table) \<Rightarrow> (memory_bucket, exn, 'a) prog" where
  "mem_call f b =
     (case next_delivery (mb_deliveries b) of (d, rest) \<Rightarrow>
        let b' = b\<lparr>mb_deliveries := rest\<rparr>; lost = Inl (StorageError ''R2: connection lost'') in
        if d = Lost then (lost, b')
        else case f (mb_objects b) of (r, os) \<Rightarrow>
          (if d = Delivered then r else lost, b'\<lparr>mb_objects := os\<rparr>))"

definition put_row :: "string \<Rightarrow> bytes \<Rightarrow> (string, bytes) table \<Rightarrow> (string, bytes) table" where
  "put_row k v t = insert_row k v (delete_row k t)"

definition mem_bucket :: "(bytes \<Rightarrow> bytes) \<Rightarrow> memory_bucket r2_bucket" where
  "mem_bucket sha256 =
     \<lparr>r2_head = (\<lambda>k. mem_call (\<lambda>os. (Inr (map_option (\<lambda>body. (int (length body), Some (sha256 body))) (map_of os k)), os))),
      r2_get = (\<lambda>k. mem_call (\<lambda>os. (Inr (map_of os k), os))),
      r2_get_range = (\<lambda>k offset len. mem_call (\<lambda>os.
        (Inr (map_option (\<lambda>body. [take (nat len) (drop (nat offset) body)]) (map_of os k)), os))),
      r2_put_absent = (\<lambda>k body hash. mem_call (\<lambda>os.
        if map_of os k \<noteq> None then (Inr False, os)
        else if hashToHex (sha256 body) \<noteq> Inr hash
        then (Inl (StorageError ''put: The SHA-256 checksum you specified did not match what we received.''), os)
        else (Inr True, put_row k body os))),
      r2_delete = (\<lambda>k. mem_call (\<lambda>os. (Inr (), delete_row k os)))\<rparr>"

definition mem_contents :: "memory_bucket \<Rightarrow> string \<Rightarrow> bytes option" where
  "mem_contents b k = (if canonical_key k then map_of (mb_objects b) k else None)"

lemma map_of_put_row [table_simps]: "map_of (put_row k v t) = (map_of t)(k \<mapsto> v)"
  by (simp add: put_row_def map_of_insert_row map_of_delete_row)

lemma wp_mem_call:
  assumes "\<And>ds r os. f (mb_objects b) = (r, os) \<Longrightarrow>
      (case r of Inl e \<Rightarrow> E e (b\<lparr>mb_deliveries := ds, mb_objects := os\<rparr>)
       | Inr x \<Rightarrow> Q x (b\<lparr>mb_deliveries := ds, mb_objects := os\<rparr>))"
    and "\<And>ds r os e. f (mb_objects b) = (r, os) \<Longrightarrow> E e (b\<lparr>mb_deliveries := ds, mb_objects := os\<rparr>)"
    and "\<And>ds e. E e (b\<lparr>mb_deliveries := ds\<rparr>)"
  shows "wp (mem_call f) Q E b"
proof -
  obtain r os where f: "f (mb_objects b) = (r, os)" by fastforce
  show ?thesis
    using assms(1) [OF f] assms(2) [OF f] assms(3)
    by (cases r) (auto simp: wp_def mem_call_def f Let_def split: prod.splits)
qed

interpretation mem_store: object_store "mem_bucket sha" mem_contents sha
proof unfold_locales
  note defs = mem_bucket_def mem_contents_def fun_eq_iff table_simps head_reply_def
  fix k :: string and b :: memory_bucket and body :: bytes and hash :: string and offset len :: int
  show "wp (r2_head (mem_bucket sha) k) (\<lambda>_ _. True) (\<lambda>e _. \<exists>m. e = StorageError m) b"
    "wp (r2_get_range (mem_bucket sha) k offset len) (\<lambda>_ _. True) (\<lambda>e _. \<exists>m. e = StorageError m) b"
    by (auto simp: mem_bucket_def mem_call_def wp_def Let_def split: prod.splits)
  show "canonical_key k \<Longrightarrow>
      wp (r2_head (mem_bucket sha) k) (\<lambda>r b'. mem_contents b' = mem_contents b \<and> head_reply sha (mem_contents b k) r)
        (\<lambda>_ b'. mem_contents b' = mem_contents b) b"
    unfolding mem_bucket_def r2_bucket.simps
    by (rule wp_mem_call) (auto simp: defs split: option.splits)
  show "canonical_key k \<Longrightarrow>
      wp (r2_get (mem_bucket sha) k) (\<lambda>r b'. mem_contents b' = mem_contents b \<and> r = mem_contents b k)
        (\<lambda>_ b'. mem_contents b' = mem_contents b) b"
    unfolding mem_bucket_def r2_bucket.simps
    by (rule wp_mem_call) (auto simp: defs)
  show "canonical_key k \<Longrightarrow> 0 \<le> offset \<Longrightarrow> 0 < len \<Longrightarrow>
      wp (r2_get_range (mem_bucket sha) k offset len)
        (\<lambda>r b'. mem_contents b' = mem_contents b
           \<and> map_option concat r = map_option (\<lambda>body. take (nat len) (drop (nat offset) body)) (mem_contents b k))
        (\<lambda>_ b'. mem_contents b' = mem_contents b) b"
    unfolding mem_bucket_def r2_bucket.simps
    by (rule wp_mem_call) (auto simp: defs option.map_comp o_def)
  show "canonical_key k \<Longrightarrow>
      wp (r2_get_range (mem_bucket sha) k offset len) (\<lambda>_ b'. mem_contents b' = mem_contents b)
        (\<lambda>_ b'. mem_contents b' = mem_contents b) b"
    unfolding mem_bucket_def r2_bucket.simps
    by (rule wp_mem_call) (auto simp: defs)
  show "canonical_key k \<Longrightarrow>
      wp (r2_put_absent (mem_bucket sha) k body hash)
        (\<lambda>stored b'. if stored
           then mem_contents b k = None \<and> hashToHex (sha body) = Inr hash \<and> mem_contents b' = (mem_contents b)(k \<mapsto> body)
           else mem_contents b k \<noteq> None \<and> mem_contents b' = mem_contents b)
        (\<lambda>_ b'. mem_contents b' = mem_contents b
           \<or> mem_contents b k = None \<and> hashToHex (sha body) = Inr hash \<and> mem_contents b' = (mem_contents b)(k \<mapsto> body)) b"
    unfolding mem_bucket_def r2_bucket.simps
    by (rule wp_mem_call) (auto simp: defs split: if_splits)
  show "canonical_key k \<Longrightarrow>
      wp (r2_delete (mem_bucket sha) k) (\<lambda>_ b'. mem_contents b' = (mem_contents b)(k := None))
        (\<lambda>_ b'. mem_contents b' = mem_contents b \<or> mem_contents b' = (mem_contents b)(k := None)) b"
    unfolding mem_bucket_def r2_bucket.simps
    by (rule wp_mem_call) (auto simp: defs)
  assume t: "\<not> canonical_key k"
  show "wp (r2_head (mem_bucket sha) k) (\<lambda>_ b'. mem_contents b' = mem_contents b) (\<lambda>_ b'. mem_contents b' = mem_contents b) b"
    "wp (r2_get (mem_bucket sha) k) (\<lambda>_ b'. mem_contents b' = mem_contents b) (\<lambda>_ b'. mem_contents b' = mem_contents b) b"
    "wp (r2_delete (mem_bucket sha) k) (\<lambda>_ b'. mem_contents b' = mem_contents b) (\<lambda>_ b'. mem_contents b' = mem_contents b) b"
    unfolding mem_bucket_def r2_bucket.simps
    by (insert t; rule wp_mem_call; auto simp: defs)+
qed

end
