(* ===== verification/Schema.thy ===== *)
theory Schema
  imports Platform
begin

text \<open>
  The Space storage schema, \<^verbatim>\<open>packages/service-cloudflare/src/schema.ts\<close>: the tables the data
  plane uses, their \<open>CHECK\<close> and key constraints, and the triggers that keep the per-Space
  usage projection.  The row operations below are what an \<open>INSERT\<close>, \<open>UPDATE\<close> or \<open>DELETE\<close>
  of one keyed row does, triggers included; \<open>None\<close> is an abort.  The main result of this
  theory is that every one of them keeps the projection exact.
\<close>

section \<open>Usage counters\<close>

text \<open>The counters of a \<^verbatim>\<open>cas_space_usage\<close> row form a commutative group.\<close>

datatype usage = Usage
  (node_count: int) (ready_content_bytes: int) (ready_stored_bytes: int) (reserved_bytes: int)
  (not_ready_node_count: int) (leased_node_count: int) (unobserved_node_count: int)

instantiation usage :: ab_group_add
begin

definition zero_usage :: usage where
  "zero_usage = Usage 0 0 0 0 0 0 0"

definition plus_usage :: "usage \<Rightarrow> usage \<Rightarrow> usage" where
  "plus_usage u v = Usage (node_count u + node_count v) (ready_content_bytes u + ready_content_bytes v)
     (ready_stored_bytes u + ready_stored_bytes v) (reserved_bytes u + reserved_bytes v)
     (not_ready_node_count u + not_ready_node_count v) (leased_node_count u + leased_node_count v)
     (unobserved_node_count u + unobserved_node_count v)"

definition uminus_usage :: "usage \<Rightarrow> usage" where
  "uminus_usage u = Usage (- node_count u) (- ready_content_bytes u) (- ready_stored_bytes u) (- reserved_bytes u)
     (- not_ready_node_count u) (- leased_node_count u) (- unobserved_node_count u)"

definition minus_usage :: "usage \<Rightarrow> usage \<Rightarrow> usage" where
  "minus_usage u v = u + - (v :: usage)"

instance
  by standard (simp_all add: zero_usage_def plus_usage_def uminus_usage_def minus_usage_def usage.expand)

end

lemmas usage_ops = zero_usage_def plus_usage_def uminus_usage_def minus_usage_def

text \<open>\<open>CHECK (... >= 0)\<close> on every counter.\<close>

definition usage_check :: "usage \<Rightarrow> bool" where
  "usage_check u \<longleftrightarrow> node_count u \<ge> 0 \<and> ready_content_bytes u \<ge> 0 \<and> ready_stored_bytes u \<ge> 0
     \<and> reserved_bytes u \<ge> 0 \<and> not_ready_node_count u \<ge> 0 \<and> leased_node_count u \<ge> 0
     \<and> unobserved_node_count u \<ge> 0"

section \<open>Tables\<close>

type_synonym node_key = "appSpaceScope \<times> string"

record node_row =
  content_size :: int
  content_type :: string
  lease_started_at :: int
  lease_expires_at :: int
  child_ref_count :: int
  root_ref_count :: int
  ready :: bool
  canonical_stored_bytes :: "int option"
  canonical_observed_at :: "int option"

record reservation_row =
  rs_stored_bytes :: int
  rs_created_at :: int
  rs_expires_at :: int

record session_row =
  ss_upload_id :: string
  ss_temporary_object_key :: string
  ss_stored_bytes :: int
  ss_lease_duration_ms :: int
  ss_created_at :: int
  ss_expires_at :: int

text \<open>
  A row of \<^verbatim>\<open>cas_node_uploads\<close>: the \<open>CHECK\<close>s tie the nullable columns together, so they are
  two optional groups, the rejection and the staged validation.
\<close>

record upload_validation =
  uv_stored_bytes :: int
  uv_content_size :: int
  uv_content_type :: string
  uv_refs_json :: "string list"

record upload_row =
  ur_generation :: string
  ur_temporary_object_key :: string
  ur_created_at :: int
  ur_expires_at :: int
  ur_cleanup_at :: int
  ur_rejection :: "(string \<times> string) option"
  ur_validation :: "upload_validation option"

record event_row =
  ev_scope_space :: string
  ev_request_id :: string
  ev_payload_hash :: string
  ev_changes_json :: "(string \<times> int) list"
  ev_applied_at :: int

record request_row =
  rq_payload_hash :: string
  rq_revision :: int
  rq_applied_at :: int

record db =
  cas_nodes :: "(node_key, node_row) table"
  cas_edges :: "(node_key \<times> nat, string) table"
  cas_upload_reservations :: "(node_key, reservation_row) table"
  cas_direct_upload_sessions :: "(node_key, session_row) table"
  cas_node_uploads :: "(node_key, upload_row) table"
  cas_node_upload_cleanup :: "(node_key, int) table"
  cas_space_usage :: "(appSpaceScope, usage \<times> int) table"
  cas_app_root_revisions :: "(string, int) table"
  cas_app_root_refs :: "(node_key, int) table"
  cas_app_root_events :: "(string \<times> int, event_row) table"
  cas_app_root_requests :: "(node_key, request_row) table"
  cas_app_root_cutover :: bool
  legacy_root_rows :: bool

definition empty_db :: db where
  "empty_db = \<lparr>cas_nodes = [], cas_edges = [], cas_upload_reservations = [], cas_direct_upload_sessions = [],
     cas_node_uploads = [], cas_node_upload_cleanup = [], cas_space_usage = [], cas_app_root_revisions = [],
     cas_app_root_refs = [], cas_app_root_events = [], cas_app_root_requests = [],
     cas_app_root_cutover = False, legacy_root_rows = False\<rparr>"

section \<open>Constraints and triggers\<close>

definition node_check :: "node_row \<Rightarrow> bool" where
  "node_check r \<longleftrightarrow> child_ref_count r \<ge> 0 \<and> root_ref_count r \<ge> 0
     \<and> (case canonical_stored_bytes r of None \<Rightarrow> True | Some n \<Rightarrow> n \<ge> 0)
     \<and> (case canonical_observed_at r of None \<Rightarrow> True | Some n \<Rightarrow> n \<ge> 0)"

definition reservation_check :: "reservation_row \<Rightarrow> bool" where
  "reservation_check r \<longleftrightarrow> rs_stored_bytes r > 0"

text \<open>What one row contributes to the counters of its Space.\<close>

definition node_usage :: "node_row \<Rightarrow> usage" where
  "node_usage r = Usage 1 (content_size r)
     (case canonical_stored_bytes r of None \<Rightarrow> 0 | Some n \<Rightarrow> n) 0
     (if canonical_observed_at r \<noteq> None \<and> canonical_stored_bytes r = None then 1 else 0)
     (if lease_expires_at r > 0 then 1 else 0)
     (if canonical_observed_at r = None then 1 else 0)"

definition reservation_usage :: "reservation_row \<Rightarrow> usage" where
  "reservation_usage r = Usage 0 0 0 (rs_stored_bytes r) 0 0 0"

definition usage_exists :: "appSpaceScope \<Rightarrow> db \<Rightarrow> bool" where
  "usage_exists sc d \<longleftrightarrow> map_of (cas_space_usage d) sc \<noteq> None"

text \<open>\<open>INSERT \<dots> ON CONFLICT DO UPDATE\<close> of the two insert triggers.\<close>

definition usage_upsert :: "appSpaceScope \<Rightarrow> usage \<Rightarrow> db \<Rightarrow> db option" where
  "usage_upsert sc u d =
     (case map_of (cas_space_usage d) sc of
        None \<Rightarrow> if usage_check u then Some (d\<lparr>cas_space_usage := insert_row sc (u, 0) (cas_space_usage d)\<rparr>) else None
      | Some (v, rep) \<Rightarrow>
          if usage_check (v + u)
          then Some (d\<lparr>cas_space_usage := update_row sc (\<lambda>_. (v + u, rep)) (cas_space_usage d)\<rparr>) else None)"

text \<open>The \<open>UPDATE\<close> of the update and delete triggers; no row, no effect.\<close>

definition usage_add :: "appSpaceScope \<Rightarrow> usage \<Rightarrow> db \<Rightarrow> db option" where
  "usage_add sc u d =
     (case map_of (cas_space_usage d) sc of
        None \<Rightarrow> Some d
      | Some (v, rep) \<Rightarrow>
          if usage_check (v + u)
          then Some (d\<lparr>cas_space_usage := update_row sc (\<lambda>_. (v + u, rep)) (cas_space_usage d)\<rparr>) else None)"

text \<open>The last statement of the delete triggers.\<close>

definition usage_drop_empty :: "appSpaceScope \<Rightarrow> db \<Rightarrow> db" where
  "usage_drop_empty sc d =
     (case map_of (cas_space_usage d) sc of
        None \<Rightarrow> d
      | Some (v, rep) \<Rightarrow>
          if node_count v = 0 \<and> reserved_bytes v = 0
          then d\<lparr>cas_space_usage := delete_row sc (cas_space_usage d)\<rparr> else d)"

section \<open>Row operations\<close>

definition insert_node :: "node_key \<Rightarrow> node_row \<Rightarrow> (db, int) statement" where
  "insert_node k r d =
     (if map_of (cas_nodes d) k \<noteq> None \<or> \<not> node_check r then None
      else map_option (\<lambda>d'. (d', 1))
             (usage_upsert (fst k) (node_usage r) (d\<lparr>cas_nodes := insert_row k r (cas_nodes d)\<rparr>)))"

definition update_node :: "node_key \<Rightarrow> (node_row \<Rightarrow> node_row) \<Rightarrow> (db, int) statement" where
  "update_node k f d =
     (case map_of (cas_nodes d) k of
        None \<Rightarrow> Some (d, 0)
      | Some r \<Rightarrow>
          if \<not> usage_exists (fst k) d \<or> \<not> node_check (f r) then None
          else map_option (\<lambda>d'. (d', 1))
                 (usage_add (fst k) (node_usage (f r) - node_usage r)
                    (d\<lparr>cas_nodes := update_row k f (cas_nodes d)\<rparr>)))"

definition delete_node :: "node_key \<Rightarrow> (db, int) statement" where
  "delete_node k d =
     (case map_of (cas_nodes d) k of
        None \<Rightarrow> Some (d, 0)
      | Some r \<Rightarrow>
          if \<not> usage_exists (fst k) d then None
          else map_option (\<lambda>d'. (usage_drop_empty (fst k) d', 1))
                 (usage_add (fst k) (- node_usage r) (d\<lparr>cas_nodes := delete_row k (cas_nodes d)\<rparr>)))"

text \<open>\<open>INSERT INTO cas_upload_reservations \<dots> ON CONFLICT DO UPDATE SET f\<close>.\<close>

definition upsert_reservation ::
  "node_key \<Rightarrow> reservation_row \<Rightarrow> (reservation_row \<Rightarrow> reservation_row) \<Rightarrow> (db, int) statement" where
  "upsert_reservation k r f d =
     (case map_of (cas_upload_reservations d) k of
        None \<Rightarrow>
          if \<not> reservation_check r then None
          else map_option (\<lambda>d'. (d', 1))
                 (usage_upsert (fst k) (reservation_usage r)
                    (d\<lparr>cas_upload_reservations := insert_row k r (cas_upload_reservations d)\<rparr>))
      | Some old \<Rightarrow>
          if \<not> usage_exists (fst k) d \<or> \<not> reservation_check (f old) then None
          else map_option (\<lambda>d'. (d', 1))
                 (usage_add (fst k) (reservation_usage (f old) - reservation_usage old)
                    (d\<lparr>cas_upload_reservations := update_row k f (cas_upload_reservations d)\<rparr>)))"

definition delete_reservation :: "node_key \<Rightarrow> (db, int) statement" where
  "delete_reservation k d =
     (case map_of (cas_upload_reservations d) k of
        None \<Rightarrow> Some (d, 0)
      | Some r \<Rightarrow>
          if \<not> usage_exists (fst k) d then None
          else map_option (\<lambda>d'. (usage_drop_empty (fst k) d', 1))
                 (usage_add (fst k) (- reservation_usage r)
                    (d\<lparr>cas_upload_reservations := delete_row k (cas_upload_reservations d)\<rparr>)))"

section \<open>The usage projection is exact\<close>

definition of_space :: "appSpaceScope \<Rightarrow> appSpaceScope \<times> 'a \<Rightarrow> bool" where
  "of_space sc k \<longleftrightarrow> fst k = sc"

text \<open>The counters a full recount of the Space would give.\<close>

definition usage_total :: "appSpaceScope \<Rightarrow> db \<Rightarrow> usage" where
  "usage_total sc d = sum_where (of_space sc) node_usage (cas_nodes d)
     + sum_where (of_space sc) reservation_usage (cas_upload_reservations d)"

definition scope_empty :: "appSpaceScope \<Rightarrow> db \<Rightarrow> bool" where
  "scope_empty sc d \<longleftrightarrow> (\<forall>k \<in> fst ` set (cas_nodes d) \<union> fst ` set (cas_upload_reservations d). fst k \<noteq> sc)"

definition usage_exact :: "db \<Rightarrow> bool" where
  "usage_exact d \<longleftrightarrow>
     keys_distinct (cas_nodes d) \<and> keys_distinct (cas_upload_reservations d) \<and> keys_distinct (cas_space_usage d)
     \<and> (\<forall>(k, r) \<in> set (cas_upload_reservations d). reservation_check r)
     \<and> (\<forall>sc. case map_of (cas_space_usage d) sc of
           None \<Rightarrow> scope_empty sc d
         | Some (u, _) \<Rightarrow> u = usage_total sc d \<and> \<not> scope_empty sc d)"

lemma usage_exactI:
  assumes "keys_distinct (cas_nodes d)" "keys_distinct (cas_upload_reservations d)" "keys_distinct (cas_space_usage d)"
    and "\<And>k r. map_of (cas_upload_reservations d) k = Some r \<Longrightarrow> reservation_check r"
    and "\<And>sc. map_of (cas_space_usage d) sc = None \<Longrightarrow> scope_empty sc d"
    and "\<And>sc u rep. map_of (cas_space_usage d) sc = Some (u, rep) \<Longrightarrow> u = usage_total sc d \<and> \<not> scope_empty sc d"
  shows "usage_exact d"
  unfolding usage_exact_def
proof (intro conjI)
  show "\<forall>(k, r) \<in> set (cas_upload_reservations d). reservation_check r"
    using assms(2,4) by (auto simp: mem_table_iff)
  show "\<forall>sc. case map_of (cas_space_usage d) sc of None \<Rightarrow> scope_empty sc d
         | Some (u, _) \<Rightarrow> u = usage_total sc d \<and> \<not> scope_empty sc d"
    using assms(5,6) by (auto split: option.splits)
qed (use assms(1,2,3) in auto)

lemma usage_exactD:
  assumes "usage_exact d"
  shows "keys_distinct (cas_nodes d)" "keys_distinct (cas_upload_reservations d)" "keys_distinct (cas_space_usage d)"
    and "map_of (cas_upload_reservations d) k = Some r \<Longrightarrow> reservation_check r"
    and "map_of (cas_space_usage d) sc = None \<longleftrightarrow> scope_empty sc d"
    and "map_of (cas_space_usage d) sc = Some (u, rep) \<Longrightarrow> u = usage_total sc d"
proof -
  show "map_of (cas_upload_reservations d) k = Some r \<Longrightarrow> reservation_check r"
    using assms by (auto simp: usage_exact_def dest!: map_of_SomeD)
  have all: "case map_of (cas_space_usage d) sc of None \<Rightarrow> scope_empty sc d
         | Some (u, _) \<Rightarrow> u = usage_total sc d \<and> \<not> scope_empty sc d"
    using assms unfolding usage_exact_def by blast
  show "map_of (cas_space_usage d) sc = None \<longleftrightarrow> scope_empty sc d"
    using all by (cases "map_of (cas_space_usage d) sc") auto
  show "map_of (cas_space_usage d) sc = Some (u, rep) \<Longrightarrow> u = usage_total sc d"
    using all by simp
qed (use assms in \<open>auto simp: usage_exact_def\<close>)

lemma scope_empty_iff:
  "scope_empty sc d \<longleftrightarrow>
     (\<forall>h. map_of (cas_nodes d) (sc, h) = None) \<and> (\<forall>h. map_of (cas_upload_reservations d) (sc, h) = None)"
  unfolding scope_empty_def map_of_eq_None_iff by force

lemma sum_where_none:
  assumes "\<forall>k \<in> fst ` set t. \<not> p k"
  shows "sum_where p g t = 0"
  using assms by (induction t) (auto simp: sum_where_Cons)

lemma scope_empty_total: "scope_empty sc d \<Longrightarrow> usage_total sc d = 0"
  unfolding usage_total_def by (subst (1 2) sum_where_none) (auto simp: scope_empty_def of_space_def)

text \<open>Projections of sums of counters.\<close>

lemma node_count_sum: "node_count (sum_where p g t) = sum_where p (\<lambda>v. node_count (g v)) t"
  by (induction t) (auto simp: sum_where_Cons usage_ops)

lemma reserved_bytes_sum: "reserved_bytes (sum_where p g t) = sum_where p (\<lambda>v. reserved_bytes (g v)) t"
  by (induction t) (auto simp: sum_where_Cons usage_ops)

lemma node_count_plus: "node_count (u + v) = node_count u + node_count v"
  by (simp add: plus_usage_def)

lemma reserved_bytes_plus: "reserved_bytes (u + v) = reserved_bytes u + reserved_bytes v"
  by (simp add: plus_usage_def)

lemma sum_where_zero: "(\<And>v. g v = 0) \<Longrightarrow> sum_where p g t = 0"
  by (induction t) (auto simp: sum_where_Cons)

lemma node_count_total: "node_count (usage_total sc d) = sum_where (of_space sc) (\<lambda>_. 1) (cas_nodes d)"
  unfolding usage_total_def node_count_plus node_count_sum
  by (simp add: node_usage_def reservation_usage_def sum_where_zero)

lemma reserved_total:
  "reserved_bytes (usage_total sc d) = sum_where (of_space sc) rs_stored_bytes (cas_upload_reservations d)"
  unfolding usage_total_def reserved_bytes_plus reserved_bytes_sum
  by (simp add: node_usage_def reservation_usage_def sum_where_zero)

lemma total_zero_empty:
  assumes res: "\<And>k r. (k, r) \<in> set (cas_upload_reservations d) \<Longrightarrow> reservation_check r"
    and zero: "node_count (usage_total sc d) = 0" "reserved_bytes (usage_total sc d) = 0"
  shows "scope_empty sc d"
proof -
  have nodes: "\<not> of_space sc k" if "(k, v) \<in> set (cas_nodes d)" for k v
    using sum_where_ge [of "cas_nodes d" "of_space sc" "\<lambda>_. 1" k v] that zero(1) by (auto simp: node_count_total)
  have "\<not> of_space sc k" if m: "(k, r) \<in> set (cas_upload_reservations d)" for k r
  proof
    assume "of_space sc k"
    moreover have "0 \<le> rs_stored_bytes r'" if "(k', r') \<in> set (cas_upload_reservations d)" for k' r'
      using res [OF that] by (simp add: reservation_check_def)
    ultimately have "rs_stored_bytes r \<le> sum_where (of_space sc) rs_stored_bytes (cas_upload_reservations d)"
      using m by (intro sum_where_ge) auto
    then show False using zero(2) res [OF m] by (simp add: reserved_total reservation_check_def)
  qed
  with nodes show ?thesis unfolding scope_empty_def of_space_def by force
qed

text \<open>
  \<open>usage_delta sc u d e\<close>: \<open>e\<close> is \<open>d\<close> after a change of its node or reservation rows in the
  Space \<open>sc\<close> that a recount would see as \<open>u\<close>, before the triggers have run.
\<close>

definition usage_delta :: "appSpaceScope \<Rightarrow> usage \<Rightarrow> db \<Rightarrow> db \<Rightarrow> bool" where
  "usage_delta sc u d e \<longleftrightarrow> cas_space_usage e = cas_space_usage d
     \<and> keys_distinct (cas_nodes e) \<and> keys_distinct (cas_upload_reservations e)
     \<and> (\<forall>k r. map_of (cas_upload_reservations e) k = Some r \<longrightarrow> reservation_check r)
     \<and> (\<forall>sc'. sc' \<noteq> sc \<longrightarrow> usage_total sc' e = usage_total sc' d \<and> scope_empty sc' e = scope_empty sc' d)
     \<and> usage_total sc e = usage_total sc d + u"

lemma total_usage_table [simp]:
  "usage_total sc (d\<lparr>cas_space_usage := t\<rparr>) = usage_total sc d"
  "scope_empty sc (d\<lparr>cas_space_usage := t\<rparr>) = scope_empty sc d"
  by (simp_all add: usage_total_def scope_empty_def)

lemma usage_set_exact:
  assumes exact: "usage_exact d" and delta: "usage_delta sc u d e"
    and table: "cas_space_usage f = update_row sc (\<lambda>_. (usage_total sc e, rep)) (cas_space_usage d)"
    and rows: "f = e\<lparr>cas_space_usage := cas_space_usage f\<rparr>"
    and ne: "\<not> scope_empty sc e" "\<not> scope_empty sc d"
  shows "usage_exact f"
proof (rule usage_exactI)
  have same: "cas_nodes f = cas_nodes e" "cas_upload_reservations f = cas_upload_reservations e"
    "usage_total sc' f = usage_total sc' e" "scope_empty sc' f = scope_empty sc' e" for sc'
    by (subst rows, simp)+
  show "keys_distinct (cas_nodes f)" "keys_distinct (cas_upload_reservations f)"
    "\<And>k r. map_of (cas_upload_reservations f) k = Some r \<Longrightarrow> reservation_check r"
    using delta unfolding same by (auto simp: usage_delta_def)
  show "keys_distinct (cas_space_usage f)" using usage_exactD(3) [OF exact] by (simp add: table)
  have some: "map_of (cas_space_usage d) sc \<noteq> None" using usage_exactD(5) [OF exact] ne(2) by simp
  fix sc'
  show "map_of (cas_space_usage f) sc' = None \<Longrightarrow> scope_empty sc' f"
    using usage_exactD(5) [OF exact, of sc'] delta some
    by (cases "sc' = sc") (auto simp: table table_simps same usage_delta_def)
  show "map_of (cas_space_usage f) sc' = Some (v, rep') \<Longrightarrow> v = usage_total sc' f \<and> \<not> scope_empty sc' f" for v rep'
    using usage_exactD(5) [OF exact, of sc'] usage_exactD(6) [OF exact, of sc'] delta some ne(1)
    by (cases "sc' = sc") (auto simp: table table_simps same usage_delta_def)
qed

lemma usage_upsert_exact:
  assumes exact: "usage_exact d" and delta: "usage_delta sc u d e" and ne: "\<not> scope_empty sc e"
    and up: "usage_upsert sc u e = Some f"
  shows "usage_exact f"
proof (cases "map_of (cas_space_usage d) sc")
  case None
  then have empty: "scope_empty sc d" using usage_exactD(5) [OF exact] by simp
  have f: "f = e\<lparr>cas_space_usage := insert_row sc (u, 0) (cas_space_usage d)\<rparr>"
    using up None delta by (auto simp: usage_upsert_def usage_delta_def split: if_splits)
  have tot: "usage_total sc e = u" using delta scope_empty_total [OF empty] by (simp add: usage_delta_def)
  show ?thesis
  proof (rule usage_exactI)
    show "keys_distinct (cas_nodes f)" "keys_distinct (cas_upload_reservations f)"
      "\<And>k r. map_of (cas_upload_reservations f) k = Some r \<Longrightarrow> reservation_check r"
      using delta by (auto simp: f usage_delta_def)
    show "keys_distinct (cas_space_usage f)" using usage_exactD(3) [OF exact] None by (simp add: f)
    fix sc'
    show "map_of (cas_space_usage f) sc' = None \<Longrightarrow> scope_empty sc' f"
      using usage_exactD(5) [OF exact, of sc'] delta None
      by (auto simp: f table_simps usage_delta_def split: if_splits)
    show "map_of (cas_space_usage f) sc' = Some (v, rep') \<Longrightarrow> v = usage_total sc' f \<and> \<not> scope_empty sc' f" for v rep'
      using usage_exactD(5) [OF exact, of sc'] usage_exactD(6) [OF exact, of sc'] delta None ne tot
      by (auto simp: f table_simps usage_delta_def split: if_splits)
  qed
next
  case (Some v)
  obtain w rep where v: "v = (w, rep)" by (cases v)
  have "w = usage_total sc d" using usage_exactD(6) [OF exact] Some v by simp
  then have f: "f = e\<lparr>cas_space_usage := update_row sc (\<lambda>_. (usage_total sc e, rep)) (cas_space_usage d)\<rparr>"
    using up Some v delta by (auto simp: usage_upsert_def usage_delta_def split: if_splits)
  have "\<not> scope_empty sc d" using usage_exactD(5) [OF exact, of sc] Some by simp
  then show ?thesis using usage_set_exact [OF exact delta, of f rep] ne by (simp add: f)
qed

lemma usage_add_cases:
  assumes exact: "usage_exact d" and delta: "usage_delta sc u d e" and ne: "\<not> scope_empty sc d"
    and add: "usage_add sc u e = Some f"
  obtains rep where "f = e\<lparr>cas_space_usage := update_row sc (\<lambda>_. (usage_total sc e, rep)) (cas_space_usage d)\<rparr>"
    and "map_of (cas_space_usage f) sc = Some (usage_total sc e, rep)"
proof -
  obtain w rep where v: "map_of (cas_space_usage d) sc = Some (w, rep)"
    using usage_exactD(5) [OF exact, of sc] ne by fastforce
  then have "w = usage_total sc d" using usage_exactD(6) [OF exact] by simp
  then have f: "f = e\<lparr>cas_space_usage := update_row sc (\<lambda>_. (usage_total sc e, rep)) (cas_space_usage d)\<rparr>"
    using add v delta by (auto simp: usage_add_def usage_delta_def split: if_splits)
  moreover have "map_of (cas_space_usage f) sc = Some (usage_total sc e, rep)"
    using v by (simp add: f table_simps)
  ultimately show ?thesis using that by blast
qed

lemma usage_add_exact:
  assumes "usage_exact d" and "usage_delta sc u d e" and "\<not> scope_empty sc d" and "\<not> scope_empty sc e"
    and "usage_add sc u e = Some f"
  shows "usage_exact f"
proof -
  obtain rep where "f = e\<lparr>cas_space_usage := update_row sc (\<lambda>_. (usage_total sc e, rep)) (cas_space_usage d)\<rparr>"
    using usage_add_cases [OF assms(1,2,3,5)] by blast
  then show ?thesis using usage_set_exact [OF assms(1,2), of f rep] assms(3,4) by simp
qed

lemma usage_drop_exact:
  assumes exact: "usage_exact d" and delta: "usage_delta sc u d e" and ne: "\<not> scope_empty sc d"
    and add: "usage_add sc u e = Some f"
  shows "usage_exact (usage_drop_empty sc f)"
proof (cases "scope_empty sc e")
  case False
  obtain rep where f: "f = e\<lparr>cas_space_usage := update_row sc (\<lambda>_. (usage_total sc e, rep)) (cas_space_usage d)\<rparr>"
    and row: "map_of (cas_space_usage f) sc = Some (usage_total sc e, rep)"
    using usage_add_cases [OF exact delta ne add] by blast
  have "\<not> (node_count (usage_total sc e) = 0 \<and> reserved_bytes (usage_total sc e) = 0)"
    using total_zero_empty [of e sc] delta False by (auto simp: usage_delta_def mem_table_iff)
  then have "usage_drop_empty sc f = f" by (auto simp: usage_drop_empty_def row)
  then show ?thesis using usage_add_exact [OF exact delta ne False add] by simp
next
  case True
  obtain rep where f: "f = e\<lparr>cas_space_usage := update_row sc (\<lambda>_. (usage_total sc e, rep)) (cas_space_usage d)\<rparr>"
    and row: "map_of (cas_space_usage f) sc = Some (usage_total sc e, rep)"
    using usage_add_cases [OF exact delta ne add] by blast
  have "usage_total sc e = 0" using True by (rule scope_empty_total)
  then have g: "usage_drop_empty sc f = e\<lparr>cas_space_usage := delete_row sc (update_row sc (\<lambda>_. (0, rep)) (cas_space_usage d))\<rparr>"
    using row by (simp add: usage_drop_empty_def f zero_usage_def)
  show ?thesis unfolding g
  proof (rule usage_exactI, simp_all)
    show "keys_distinct (cas_nodes e)" "keys_distinct (cas_upload_reservations e)"
      "\<And>k r. map_of (cas_upload_reservations e) k = Some r \<Longrightarrow> reservation_check r"
      using delta by (auto simp: usage_delta_def)
    show "keys_distinct (delete_row sc (update_row sc (\<lambda>_. (0, rep)) (cas_space_usage d)))"
      using usage_exactD(3) [OF exact] by simp
    fix sc'
    show "map_of (delete_row sc (update_row sc (\<lambda>_. (0, rep)) (cas_space_usage d))) sc' = None \<Longrightarrow> scope_empty sc' e"
      using usage_exactD(5) [OF exact, of sc'] delta True
      by (auto simp: table_simps usage_delta_def split: if_splits)
    show "map_of (delete_row sc (update_row sc (\<lambda>_. (0, rep)) (cas_space_usage d))) sc' = Some (v, rep')
        \<Longrightarrow> v = usage_total sc' e \<and> \<not> scope_empty sc' e" for v rep'
      using usage_exactD(5) [OF exact, of sc'] usage_exactD(6) [OF exact, of sc'] delta
      by (auto simp: table_simps usage_delta_def split: if_splits)
  qed
qed

section \<open>The row operations keep the projection exact\<close>

lemma usage_self [simp]: "\<exists>t. d = d\<lparr>cas_space_usage := t\<rparr>"
  by (rule exI [of _ "cas_space_usage d"]) simp

lemma upsert_shape: "usage_upsert sc u d = Some e \<Longrightarrow> \<exists>t. e = d\<lparr>cas_space_usage := t\<rparr>"
  by (auto simp: usage_upsert_def split: option.splits if_splits)

lemma add_shape: "usage_add sc u d = Some e \<Longrightarrow> \<exists>t. e = d\<lparr>cas_space_usage := t\<rparr>"
  by (auto simp: usage_add_def split: option.splits if_splits)

lemma drop_shape: "\<exists>t. usage_drop_empty sc d = d\<lparr>cas_space_usage := t\<rparr>"
  by (auto simp: usage_drop_empty_def split: option.splits)

text \<open>What each row operation does to the tables it is about, the projection aside.\<close>

lemma insert_node_Some:
  assumes "insert_node k r d = Some (d', n)"
  shows "map_of (cas_nodes d) k = None \<and> node_check r \<and> n = 1
    \<and> (\<exists>t. d' = d\<lparr>cas_nodes := insert_row k r (cas_nodes d), cas_space_usage := t\<rparr>)"
  using assms upsert_shape [of "fst k" "node_usage r" "d\<lparr>cas_nodes := insert_row k r (cas_nodes d)\<rparr>"]
  by (auto simp: insert_node_def split: if_splits)

lemma update_node_Some:
  assumes "update_node k f d = Some (d', n)"
  shows "(\<exists>t. d' = d\<lparr>cas_nodes := update_row k f (cas_nodes d), cas_space_usage := t\<rparr>)
    \<and> n = (if map_of (cas_nodes d) k = None then 0 else 1)
    \<and> (\<forall>r. map_of (cas_nodes d) k = Some r \<longrightarrow> node_check (f r))"
proof (cases "map_of (cas_nodes d) k")
  case None
  then show ?thesis using assms by (auto simp: update_node_def update_row_absent)
next
  case (Some r)
  then show ?thesis
    using assms add_shape [of "fst k" "node_usage (f r) - node_usage r" "d\<lparr>cas_nodes := update_row k f (cas_nodes d)\<rparr>"]
    by (auto simp: update_node_def split: if_splits)
qed

lemma delete_node_Some:
  assumes "delete_node k d = Some (d', n)"
  shows "(\<exists>t. d' = d\<lparr>cas_nodes := delete_row k (cas_nodes d), cas_space_usage := t\<rparr>)
    \<and> n = (if map_of (cas_nodes d) k = None then 0 else 1)"
proof (cases "map_of (cas_nodes d) k")
  case None
  then show ?thesis using assms by (auto simp: delete_node_def delete_row_absent)
next
  case (Some r)
  then obtain e where e: "usage_add (fst k) (- node_usage r) (d\<lparr>cas_nodes := delete_row k (cas_nodes d)\<rparr>) = Some e"
    "d' = usage_drop_empty (fst k) e" "n = 1"
    using assms by (auto simp: delete_node_def split: if_splits)
  then show ?thesis using Some add_shape [OF e(1)] drop_shape [of "fst k" e] by auto
qed

lemma upsert_reservation_Some:
  assumes "upsert_reservation k r f d = Some (d', n)"
  shows "n = 1 \<and> (\<exists>t. d' = d\<lparr>cas_upload_reservations :=
      (if map_of (cas_upload_reservations d) k = None then insert_row k r (cas_upload_reservations d)
       else update_row k f (cas_upload_reservations d)), cas_space_usage := t\<rparr>)"
proof (cases "map_of (cas_upload_reservations d) k")
  case None
  then show ?thesis
    using assms upsert_shape [of "fst k" "reservation_usage r"
        "d\<lparr>cas_upload_reservations := insert_row k r (cas_upload_reservations d)\<rparr>"]
    by (auto simp: upsert_reservation_def split: if_splits)
next
  case (Some old)
  then show ?thesis
    using assms add_shape [of "fst k" "reservation_usage (f old) - reservation_usage old"
        "d\<lparr>cas_upload_reservations := update_row k f (cas_upload_reservations d)\<rparr>"]
    by (auto simp: upsert_reservation_def split: if_splits)
qed

lemma delete_reservation_Some:
  assumes "delete_reservation k d = Some (d', n)"
  shows "(\<exists>t. d' = d\<lparr>cas_upload_reservations := delete_row k (cas_upload_reservations d), cas_space_usage := t\<rparr>)"
proof (cases "map_of (cas_upload_reservations d) k")
  case None
  then show ?thesis using assms by (auto simp: delete_reservation_def delete_row_absent)
next
  case (Some r)
  then obtain e where e: "usage_add (fst k) (- reservation_usage r)
      (d\<lparr>cas_upload_reservations := delete_row k (cas_upload_reservations d)\<rparr>) = Some e"
    "d' = usage_drop_empty (fst k) e"
    using assms by (auto simp: delete_reservation_def split: if_splits)
  then show ?thesis using Some add_shape [OF e(1)] drop_shape [of "fst k" e] by auto
qed

text \<open>The deltas of the three changes of a node row and of a reservation row.\<close>

lemma scope_keys_other:
  assumes "sc \<noteq> fst k"
  shows "(\<forall>h. ((map_of t)(k := x)) (sc, h) = None) \<longleftrightarrow> (\<forall>h. map_of t (sc, h) = None)"
proof -
  have "(sc, h) \<noteq> k" for h using assms by auto
  then show ?thesis by (metis fun_upd_other)
qed

lemma node_delta:
  assumes exact: "usage_exact d"
    and nodes: "keys_distinct t" "map_of t = (map_of (cas_nodes d))(k := x)"
    and sum: "\<And>sc. sum_where (of_space sc) node_usage t
      = sum_where (of_space sc) node_usage (cas_nodes d) + (if of_space sc k then u else 0)"
  shows "usage_delta (fst k) u d (d\<lparr>cas_nodes := t\<rparr>)"
  unfolding usage_delta_def
proof (intro conjI allI impI)
  fix sc
  assume sc: "sc \<noteq> fst k"
  then show "usage_total sc (d\<lparr>cas_nodes := t\<rparr>) = usage_total sc d"
    by (simp add: usage_total_def sum of_space_def)
  show "scope_empty sc (d\<lparr>cas_nodes := t\<rparr>) = scope_empty sc d"
    by (simp add: scope_empty_iff nodes(2) scope_keys_other [OF sc] del: fun_upd_apply)
next
  show "usage_total (fst k) (d\<lparr>cas_nodes := t\<rparr>) = usage_total (fst k) d + u"
    by (simp add: usage_total_def sum of_space_def algebra_simps)
qed (use nodes(1) usage_exactD [OF exact] in auto)

lemma reservation_delta:
  assumes exact: "usage_exact d"
    and rows: "keys_distinct t" "map_of t = (map_of (cas_upload_reservations d))(k := x)"
    and check: "\<And>r. x = Some r \<Longrightarrow> reservation_check r"
    and sum: "\<And>sc. sum_where (of_space sc) reservation_usage t
      = sum_where (of_space sc) reservation_usage (cas_upload_reservations d) + (if of_space sc k then u else 0)"
  shows "usage_delta (fst k) u d (d\<lparr>cas_upload_reservations := t\<rparr>)"
  unfolding usage_delta_def
proof (intro conjI allI impI)
  fix sc
  assume sc: "sc \<noteq> fst k"
  then show "usage_total sc (d\<lparr>cas_upload_reservations := t\<rparr>) = usage_total sc d"
    by (simp add: usage_total_def sum of_space_def)
  show "scope_empty sc (d\<lparr>cas_upload_reservations := t\<rparr>) = scope_empty sc d"
    by (simp add: scope_empty_iff rows(2) scope_keys_other [OF sc] del: fun_upd_apply)
next
  show "usage_total (fst k) (d\<lparr>cas_upload_reservations := t\<rparr>) = usage_total (fst k) d + u"
    by (simp add: usage_total_def sum of_space_def algebra_simps)
next
  fix k' r
  assume "map_of (cas_upload_reservations (d\<lparr>cas_upload_reservations := t\<rparr>)) k' = Some r"
  then show "reservation_check r"
    using check usage_exactD(4) [OF exact, of k' r] by (auto simp: rows(2) split: if_splits)
qed (use rows(1) usage_exactD [OF exact] in auto)

lemma row_not_empty:
  "map_of (cas_nodes d) k \<noteq> None \<Longrightarrow> \<not> scope_empty (fst k) d"
  "map_of (cas_upload_reservations d) k \<noteq> None \<Longrightarrow> \<not> scope_empty (fst k) d"
  unfolding scope_empty_iff by (metis prod.collapse)+

lemma insert_node_exact:
  assumes exact: "usage_exact d" and ins: "insert_node k r d = Some (d', n)"
  shows "usage_exact d'"
proof -
  let ?e = "d\<lparr>cas_nodes := insert_row k r (cas_nodes d)\<rparr>"
  have none: "map_of (cas_nodes d) k = None" using insert_node_Some [OF ins] by simp
  have "usage_delta (fst k) (node_usage r) d ?e"
    using usage_exactD(1) [OF exact] none
    by (intro node_delta [OF exact, where x = "Some r"]) (auto simp: table_simps)
  moreover have "\<not> scope_empty (fst k) ?e" by (rule row_not_empty(1)) (simp add: table_simps none)
  moreover have "usage_upsert (fst k) (node_usage r) ?e = Some d'"
    using ins by (auto simp: insert_node_def split: if_splits)
  ultimately show ?thesis by (rule usage_upsert_exact [OF exact])
qed

lemma update_node_exact:
  assumes exact: "usage_exact d" and upd: "update_node k f d = Some (d', n)"
  shows "usage_exact d'"
proof (cases "map_of (cas_nodes d) k")
  case None
  then show ?thesis using upd exact by (simp add: update_node_def)
next
  case (Some r)
  let ?e = "d\<lparr>cas_nodes := update_row k f (cas_nodes d)\<rparr>"
  have "usage_delta (fst k) (node_usage (f r) - node_usage r) d ?e"
    using usage_exactD(1) [OF exact] Some
    by (intro node_delta [OF exact, where x = "Some (f r)"]) (auto simp: table_simps)
  moreover have "\<not> scope_empty (fst k) d" "\<not> scope_empty (fst k) ?e"
    by (rule row_not_empty(1), simp add: table_simps Some)+
  moreover have "usage_add (fst k) (node_usage (f r) - node_usage r) ?e = Some d'"
    using upd Some by (auto simp: update_node_def split: if_splits)
  ultimately show ?thesis by (rule usage_add_exact [OF exact])
qed

lemma delete_node_exact:
  assumes exact: "usage_exact d" and del: "delete_node k d = Some (d', n)"
  shows "usage_exact d'"
proof (cases "map_of (cas_nodes d) k")
  case None
  then show ?thesis using del exact by (simp add: delete_node_def)
next
  case (Some r)
  let ?e = "d\<lparr>cas_nodes := delete_row k (cas_nodes d)\<rparr>"
  have delta: "usage_delta (fst k) (- node_usage r) d ?e"
    using usage_exactD(1) [OF exact] Some
    by (intro node_delta [OF exact, where x = None]) (auto simp: table_simps)
  have ne: "\<not> scope_empty (fst k) d" by (rule row_not_empty(1)) (simp add: Some)
  obtain e where "usage_add (fst k) (- node_usage r) ?e = Some e" "d' = usage_drop_empty (fst k) e"
    using del Some by (auto simp: delete_node_def split: if_splits)
  then show ?thesis using usage_drop_exact [OF exact delta ne] by simp
qed

lemma upsert_reservation_exact:
  assumes exact: "usage_exact d" and up: "upsert_reservation k r f d = Some (d', n)"
  shows "usage_exact d'"
proof (cases "map_of (cas_upload_reservations d) k")
  case None
  let ?e = "d\<lparr>cas_upload_reservations := insert_row k r (cas_upload_reservations d)\<rparr>"
  have ok: "reservation_check r" using up None by (auto simp: upsert_reservation_def split: if_splits)
  have "usage_delta (fst k) (reservation_usage r) d ?e"
    using usage_exactD(2) [OF exact] None ok
    by (intro reservation_delta [OF exact, where x = "Some r"]) (auto simp: table_simps)
  moreover have "\<not> scope_empty (fst k) ?e" by (rule row_not_empty(2)) (simp add: table_simps None)
  moreover have "usage_upsert (fst k) (reservation_usage r) ?e = Some d'"
    using up None by (auto simp: upsert_reservation_def split: if_splits)
  ultimately show ?thesis by (rule usage_upsert_exact [OF exact])
next
  case (Some old)
  let ?e = "d\<lparr>cas_upload_reservations := update_row k f (cas_upload_reservations d)\<rparr>"
  have ok: "reservation_check (f old)" using up Some by (auto simp: upsert_reservation_def split: if_splits)
  have "usage_delta (fst k) (reservation_usage (f old) - reservation_usage old) d ?e"
    using usage_exactD(2) [OF exact] Some ok
    by (intro reservation_delta [OF exact, where x = "Some (f old)"]) (auto simp: table_simps)
  moreover have "\<not> scope_empty (fst k) d" "\<not> scope_empty (fst k) ?e"
    by (rule row_not_empty(2), simp add: table_simps Some)+
  moreover have "usage_add (fst k) (reservation_usage (f old) - reservation_usage old) ?e = Some d'"
    using up Some by (auto simp: upsert_reservation_def split: if_splits)
  ultimately show ?thesis by (rule usage_add_exact [OF exact])
qed

lemma delete_reservation_exact:
  assumes exact: "usage_exact d" and del: "delete_reservation k d = Some (d', n)"
  shows "usage_exact d'"
proof (cases "map_of (cas_upload_reservations d) k")
  case None
  then show ?thesis using del exact by (simp add: delete_reservation_def)
next
  case (Some r)
  let ?e = "d\<lparr>cas_upload_reservations := delete_row k (cas_upload_reservations d)\<rparr>"
  have delta: "usage_delta (fst k) (- reservation_usage r) d ?e"
    using usage_exactD(2) [OF exact] Some
    by (intro reservation_delta [OF exact, where x = None]) (auto simp: table_simps)
  have ne: "\<not> scope_empty (fst k) d" by (rule row_not_empty(2)) (simp add: Some)
  obtain e where "usage_add (fst k) (- reservation_usage r) ?e = Some e" "d' = usage_drop_empty (fst k) e"
    using del Some by (auto simp: delete_reservation_def split: if_splits)
  then show ?thesis using usage_drop_exact [OF exact delta ne] by simp
qed

lemmas row_exact = insert_node_exact update_node_exact delete_node_exact upsert_reservation_exact
  delete_reservation_exact

text \<open>Under an exact projection the guard triggers never fire.\<close>

lemma exact_guard:
  "usage_exact d \<Longrightarrow> map_of (cas_nodes d) k \<noteq> None \<Longrightarrow> usage_exists (fst k) d"
  "usage_exact d \<Longrightarrow> map_of (cas_upload_reservations d) k \<noteq> None \<Longrightarrow> usage_exists (fst k) d"
  using usage_exactD(5) row_not_empty unfolding usage_exists_def by blast+

lemma usage_exact_empty [simp]: "usage_exact empty_db"
  by (simp add: usage_exact_def empty_db_def scope_empty_def)

text \<open>The projection only reads nodes, reservations and itself.\<close>

lemma usage_exact_cong:
  assumes "cas_nodes d' = cas_nodes d" "cas_upload_reservations d' = cas_upload_reservations d"
    "cas_space_usage d' = cas_space_usage d"
  shows "usage_exact d' = usage_exact d"
proof -
  have same: "usage_total sc d' = usage_total sc d" "scope_empty sc d' = scope_empty sc d" for sc
    using assms by (simp_all add: usage_total_def scope_empty_def)
  show ?thesis unfolding usage_exact_def assms same ..
qed

end
