(* ===== verification/Cf_Node_Lease.thy ===== *)
theory Cf_Node_Lease
  imports Schema Direct_Upload
begin

text \<open>
  The D1/R2 adapter of the node lease kernel,
  \<^verbatim>\<open>packages/service-cloudflare/src/node-lease.ts\<close>, and the object keys of \<^verbatim>\<open>do-names.ts\<close>.
  Each method of \<open>CloudflareNodeLeaseRepository\<close> is a definition; its SQL is written as the
  row operations it performs.  The timing wrapper has no effect on the result.  A JSON column
  is represented by the value it serialises.
\<close>

definition appCanonicalNodeKey :: "string \<Rightarrow> string \<Rightarrow> string \<Rightarrow> string" where
  "appCanonicalNodeKey app space hash = ''apps/'' @ app @ ''/spaces/'' @ space @ ''/nodes-v2/'' @ hash"

definition node_object_key :: "appSpaceScope \<Rightarrow> string \<Rightarrow> string" where
  "node_object_key scope hash = appCanonicalNodeKey (appId scope) (spaceId scope) hash"

section \<open>The ready cache\<close>

definition READY_CACHE_TTL_MS :: int where "READY_CACHE_TTL_MS = 60000"

text \<open>\<open>this.readyCache?.set(hash, cacheExpiry())\<close>.\<close>

definition cache_ready :: "string \<Rightarrow> (('d, 'b) world, exn, unit) prog" where
  "cache_ready hash w =
     (Inr (), w\<lparr>w_readyCache := AList.update hash (w_clock w + READY_CACHE_TTL_MS) (w_readyCache w)\<rparr>)"

lemma wp_cache_ready [wp_simps]:
  "wp (cache_ready hash) Q E w
     = Q () (w\<lparr>w_readyCache := AList.update hash (w_clock w + READY_CACHE_TTL_MS) (w_readyCache w)\<rparr>)"
  by (simp add: wp_def cache_ready_def)

section \<open>Reads\<close>

type_synonym 'b cf_world = "(db, 'b) world"

definition ready_row :: "node_key \<Rightarrow> db \<Rightarrow> node_row option" where
  "ready_row k d = (case map_of (cas_nodes d) k of Some r \<Rightarrow> if ready r then Some r else None | None \<Rightarrow> None)"

definition cf_readNodeLease :: "appSpaceScope \<Rightarrow> string \<Rightarrow> ('b cf_world, exn, nodeLeaseRecord option) prog" where
  "cf_readNodeLease scope hash = d1 (query (\<lambda>d. map_option (\<lambda>r.
     \<lparr>leaseStartedAt = lease_started_at r, leaseExpiresAt = lease_expires_at r\<rparr>) (ready_row (scope, hash) d)))"

definition cf_readCanonicalNodeLease ::
  "appSpaceScope \<Rightarrow> string \<Rightarrow> ('b cf_world, exn, canonicalNodeLeaseRecord option) prog" where
  "cf_readCanonicalNodeLease scope hash = d1 (query (\<lambda>d. map_option (\<lambda>r.
     \<lparr>leaseStartedAt = lease_started_at r, leaseExpiresAt = lease_expires_at r,
      cn_contentSize = content_size r, cn_contentType = content_type r\<rparr>) (ready_row (scope, hash) d)))"

text \<open>\<open>SELECT child_hash FROM cas_edges WHERE parent \<dots> ORDER BY ordinal ASC\<close>.\<close>

definition edge_rows :: "node_key \<Rightarrow> db \<Rightarrow> (nat \<times> string) list" where
  "edge_rows k d = map (\<lambda>((_, i), c). (i, c)) (filter (\<lambda>((p, _), _). p = k) (cas_edges d))"

definition select_refs :: "node_key \<Rightarrow> db \<Rightarrow> string list" where
  "select_refs k d = map snd (sort_key fst (edge_rows k d))"

definition cf_readNodeRefs :: "appSpaceScope \<Rightarrow> string \<Rightarrow> ('b cf_world, exn, string list) prog" where
  "cf_readNodeRefs scope hash = d1 (query (select_refs (scope, hash)))"

definition cf_readCanonicalObject ::
  "'b r2_bucket \<Rightarrow> appSpaceScope \<Rightarrow> string \<Rightarrow> ('b cf_world, exn, canonicalOrphanObject option) prog" where
  "cf_readCanonicalObject bucket scope hash =
     bindM (r2 (r2_head bucket (node_object_key scope hash))) (\<lambda>object.
     case object of
       None \<Rightarrow> returnM None
     | Some (sz, checksum) \<Rightarrow>
         (case checksum of
            None \<Rightarrow> returnM (Some \<lparr>co_storedBytes = sz, co_sha256Hex = None\<rparr>)
          | Some digest \<Rightarrow>
              bindM (liftM (codec (hashToHex digest))) (\<lambda>hex.
              returnM (Some \<lparr>co_storedBytes = sz, co_sha256Hex = Some hex\<rparr>))))"

definition cf_readCanonicalBytes ::
  "'b r2_bucket \<Rightarrow> appSpaceScope \<Rightarrow> string \<Rightarrow> ('b cf_world, exn, bytes option) prog" where
  "cf_readCanonicalBytes bucket scope hash = r2 (r2_get bucket (node_object_key scope hash))"

definition cf_readCanonicalPrefix ::
  "'b r2_bucket \<Rightarrow> appSpaceScope \<Rightarrow> string \<Rightarrow> int \<Rightarrow> ('b cf_world, exn, bytes list option) prog" where
  "cf_readCanonicalPrefix bucket scope hash len = r2 (r2_get_range bucket (node_object_key scope hash) 0 len)"

definition cf_isNodeReady :: "'b r2_bucket \<Rightarrow> appSpaceScope \<Rightarrow> string \<Rightarrow> ('b cf_world, exn, bool) prog" where
  "cf_isNodeReady bucket scope hash =
     bindM (d1 (query (ready_row (scope, hash)))) (\<lambda>row.
     if row = None then returnM False
     else
     bindM (r2 (r2_head bucket (node_object_key scope hash))) (\<lambda>object.
     if object \<noteq> None then bindM (cache_ready hash) (\<lambda>_. returnM True) else returnM False))"

section \<open>Leases, reservations and sessions\<close>

definition set_lease :: "nodeLeaseRecord \<Rightarrow> node_row \<Rightarrow> node_row" where
  "set_lease lease r = r\<lparr>lease_started_at := leaseStartedAt lease, lease_expires_at := leaseExpiresAt lease\<rparr>"

definition cf_renewNodeLease ::
  "appSpaceScope \<Rightarrow> string \<Rightarrow> nodeLeaseRecord \<Rightarrow> ('b cf_world, exn, unit) prog" where
  "cf_renewNodeLease scope hash lease =
     bindM (d1 (update_node (scope, hash) (set_lease lease))) (\<lambda>_. returnM ())"

definition cf_reserveCanonicalUpload ::
  "appSpaceScope \<Rightarrow> canonicalUploadReservation \<Rightarrow> ('b cf_world, exn, unit) prog" where
  "cf_reserveCanonicalUpload scope v =
     bindM (d1 (upsert_reservation (scope, rv_hash v)
       \<lparr>rs_stored_bytes = rv_storedBytes v, rs_created_at = rv_createdAt v, rs_expires_at = rv_expiresAt v\<rparr>
       (\<lambda>old. old\<lparr>rs_stored_bytes := rv_storedBytes v, rs_expires_at := rv_expiresAt v\<rparr>))) (\<lambda>_. returnM ())"

definition cf_readCanonicalUploadSession ::
  "appSpaceScope \<Rightarrow> string \<Rightarrow> ('b cf_world, exn, canonicalDirectUploadSession option) prog" where
  "cf_readCanonicalUploadSession scope hash = d1 (query (\<lambda>d. map_option (\<lambda>r.
     \<lparr>ds_hash = hash, ds_uploadId = ss_upload_id r, ds_temporaryObjectKey = ss_temporary_object_key r,
      ds_storedBytes = ss_stored_bytes r, ds_leaseDurationMs = ss_lease_duration_ms r,
      ds_createdAt = ss_created_at r, ds_expiresAt = ss_expires_at r\<rparr>)
     (map_of (cas_direct_upload_sessions d) (scope, hash))))"

text \<open>Upsert of a session: \<open>CHECK\<close>s and the two \<open>UNIQUE\<close> columns against the other rows.\<close>

definition upsert_session :: "node_key \<Rightarrow> session_row \<Rightarrow> (db, int) statement" where
  "upsert_session k r d =
     (let t = cas_direct_upload_sessions d in
      if ss_stored_bytes r \<le> 0 \<or> ss_lease_duration_ms r \<le> 0
         \<or> list_ex (\<lambda>(k', r'). k' \<noteq> k \<and> (ss_upload_id r' = ss_upload_id r
              \<or> ss_temporary_object_key r' = ss_temporary_object_key r)) t
      then None
      else Some (d\<lparr>cas_direct_upload_sessions :=
             (if map_of t k = None then insert_row k r t else update_row k (\<lambda>_. r) t)\<rparr>, 1))"

definition cf_reserveCanonicalUploadSession ::
  "appSpaceScope \<Rightarrow> canonicalDirectUploadSession \<Rightarrow> ('b cf_world, exn, unit) prog" where
  "cf_reserveCanonicalUploadSession scope s =
     (let r = \<lparr>rs_stored_bytes = ds_storedBytes s, rs_created_at = ds_createdAt s, rs_expires_at = ds_expiresAt s\<rparr> in
      bindM (d1 (batch [
        upsert_session (scope, ds_hash s)
          \<lparr>ss_upload_id = ds_uploadId s, ss_temporary_object_key = ds_temporaryObjectKey s,
           ss_stored_bytes = ds_storedBytes s, ss_lease_duration_ms = ds_leaseDurationMs s,
           ss_created_at = ds_createdAt s, ss_expires_at = ds_expiresAt s\<rparr>,
        upsert_reservation (scope, ds_hash s) r (\<lambda>_. r)])) (\<lambda>_. returnM ()))"

definition delete_session :: "node_key \<Rightarrow> (session_row \<Rightarrow> bool) \<Rightarrow> (db, int) statement" where
  "delete_session k p d =
     (case map_of (cas_direct_upload_sessions d) k of
        Some r \<Rightarrow> if p r then Some (d\<lparr>cas_direct_upload_sessions := delete_row k (cas_direct_upload_sessions d)\<rparr>, 1)
                  else Some (d, 0)
      | None \<Rightarrow> Some (d, 0))"

definition session_matches :: "node_key \<Rightarrow> string \<Rightarrow> db \<Rightarrow> bool" where
  "session_matches k uploadId d \<longleftrightarrow>
     (case map_of (cas_direct_upload_sessions d) k of Some r \<Rightarrow> ss_upload_id r = uploadId | None \<Rightarrow> False)"

definition cf_deleteCanonicalUploadSession ::
  "appSpaceScope \<Rightarrow> string \<Rightarrow> string \<Rightarrow> ('b cf_world, exn, unit) prog" where
  "cf_deleteCanonicalUploadSession scope hash uploadId =
     bindM (d1 (batch [
       (\<lambda>d. if session_matches (scope, hash) uploadId d then delete_reservation (scope, hash) d else Some (d, 0)),
       delete_session (scope, hash) (\<lambda>r. ss_upload_id r = uploadId)])) (\<lambda>_. returnM ())"

section \<open>Lease-driven uploads\<close>

definition upload_record :: "string \<Rightarrow> upload_row \<Rightarrow> leaseDrivenUploadRecord" where
  "upload_record hash r =
     \<lparr>lu_hash = hash, lu_generation = ur_generation r, lu_temporaryObjectKey = ur_temporary_object_key r,
      lu_createdAt = ur_created_at r, lu_expiresAt = ur_expires_at r, lu_cleanupAt = ur_cleanup_at r,
      lu_rejection = map_option (\<lambda>(c, m). \<lparr>rj_code = c, rj_message = m\<rparr>) (ur_rejection r),
      lu_validation = map_option (\<lambda>v. \<lparr>md_contentSize = uv_content_size v, md_contentType = uv_content_type v,
        md_refs = uv_refs_json v, lv_storedBytes = uv_stored_bytes v\<rparr>) (ur_validation r)\<rparr>"

definition validation_columns :: "leaseDrivenUploadValidation \<Rightarrow> upload_validation" where
  "validation_columns v = \<lparr>uv_stored_bytes = lv_storedBytes v, uv_content_size = md_contentSize v,
     uv_content_type = md_contentType v, uv_refs_json = md_refs v\<rparr>"

definition upload_columns :: "leaseDrivenUploadRecord \<Rightarrow> upload_row" where
  "upload_columns u =
     \<lparr>ur_generation = lu_generation u, ur_temporary_object_key = lu_temporaryObjectKey u,
      ur_created_at = lu_createdAt u, ur_expires_at = lu_expiresAt u, ur_cleanup_at = lu_cleanupAt u,
      ur_rejection = map_option (\<lambda>j. (rj_code j, rj_message j)) (lu_rejection u),
      ur_validation = map_option validation_columns (lu_validation u)\<rparr>"

definition cf_readLeaseDrivenUpload ::
  "appSpaceScope \<Rightarrow> string \<Rightarrow> ('b cf_world, exn, leaseDrivenUploadRecord option) prog" where
  "cf_readLeaseDrivenUpload scope hash =
     d1 (query (\<lambda>d. map_option (upload_record hash) (map_of (cas_node_uploads d) (scope, hash))))"

definition cf_countLeaseDrivenUploads :: "appSpaceScope \<Rightarrow> ('b cf_world, exn, int) prog" where
  "cf_countLeaseDrivenUploads scope = d1 (query (\<lambda>d. sum_where (of_space scope) (\<lambda>_. 1) (cas_node_uploads d)))"

text \<open>\<open>UNIQUE (temporary_object_key)\<close> against the rows of other keys.\<close>

definition temporary_key_taken :: "node_key \<Rightarrow> string \<Rightarrow> db \<Rightarrow> bool" where
  "temporary_key_taken k key d \<longleftrightarrow>
     list_ex (\<lambda>(k', r). k' \<noteq> k \<and> ur_temporary_object_key r = key) (cas_node_uploads d)"

definition insert_upload :: "node_key \<Rightarrow> upload_row \<Rightarrow> (db, int) statement" where
  "insert_upload k r d =
     (if map_of (cas_node_uploads d) k \<noteq> None then Some (d, 0)
      else if temporary_key_taken k (ur_temporary_object_key r) d then None
      else Some (d\<lparr>cas_node_uploads := insert_row k r (cas_node_uploads d)\<rparr>, 1))"

definition update_upload :: "node_key \<Rightarrow> string \<Rightarrow> (upload_row \<Rightarrow> upload_row) \<Rightarrow> (db, int) statement" where
  "update_upload k generation f d =
     (case map_of (cas_node_uploads d) k of
        Some u \<Rightarrow>
          if ur_generation u \<noteq> generation then Some (d, 0)
          else if temporary_key_taken k (ur_temporary_object_key (f u)) d then None
          else Some (d\<lparr>cas_node_uploads := update_row k f (cas_node_uploads d)\<rparr>, 1)
      | None \<Rightarrow> Some (d, 0))"

definition delete_upload_row :: "node_key \<Rightarrow> string \<Rightarrow> (db, int) statement" where
  "delete_upload_row k generation d =
     (case map_of (cas_node_uploads d) k of
        Some u \<Rightarrow>
          if ur_generation u \<noteq> generation then Some (d, 0)
          else Some (d\<lparr>cas_node_uploads := delete_row k (cas_node_uploads d)\<rparr>, 1)
      | None \<Rightarrow> Some (d, 0))"

text \<open>\<open>INSERT INTO cas_node_upload_cleanup \<dots> SELECT \<dots> FROM cas_node_uploads\<close> of a generation.\<close>

definition enqueue_cleanup :: "node_key \<Rightarrow> string \<Rightarrow> (db, int) statement" where
  "enqueue_cleanup k generation d =
     (case map_of (cas_node_uploads d) k of
        Some u \<Rightarrow>
          if ur_generation u \<noteq> generation then Some (d, 0)
          else
            let c = (fst k, ur_temporary_object_key u); t = cas_node_upload_cleanup d in
            Some (d\<lparr>cas_node_upload_cleanup :=
              (if map_of t c = None then insert_row c (ur_cleanup_at u) t
               else update_row c (\<lambda>_. ur_cleanup_at u) t)\<rparr>, 1)
      | None \<Rightarrow> Some (d, 0))"

definition delete_cleanup :: "node_key \<Rightarrow> (db, int) statement" where
  "delete_cleanup c d =
     Some (d\<lparr>cas_node_upload_cleanup := delete_row c (cas_node_upload_cleanup d)\<rparr>,
           if map_of (cas_node_upload_cleanup d) c = None then 0 else 1)"

definition cf_replaceLeaseDrivenUpload ::
  "appSpaceScope \<Rightarrow> string option \<Rightarrow> leaseDrivenUploadRecord \<Rightarrow> ('b cf_world, exn, bool) prog" where
  "cf_replaceLeaseDrivenUpload scope expected u =
     (case expected of
        None \<Rightarrow> bindM (d1 (insert_upload (scope, lu_hash u) (upload_columns u))) (\<lambda>n. returnM (n = 1))
      | Some generation \<Rightarrow>
          bindM (d1 (batch [enqueue_cleanup (scope, lu_hash u) generation,
                            update_upload (scope, lu_hash u) generation (\<lambda>_. upload_columns u)])) (\<lambda>ns.
          returnM (ns ! 1 = 1)))"

text \<open>The reservation a staged validation takes until the upload's cleanup time.\<close>

definition reserve_staged :: "node_key \<Rightarrow> string \<Rightarrow> int \<Rightarrow> (db, int) statement" where
  "reserve_staged k generation storedBytes d =
     (case map_of (cas_node_uploads d) k of
        Some u \<Rightarrow>
          if ur_generation u \<noteq> generation then Some (d, 0)
          else
            let r = \<lparr>rs_stored_bytes = storedBytes, rs_created_at = ur_created_at u, rs_expires_at = ur_cleanup_at u\<rparr>
            in upsert_reservation k r (\<lambda>_. r) d
      | None \<Rightarrow> Some (d, 0))"

definition cf_stageLeaseDrivenUploadValidation ::
  "appSpaceScope \<Rightarrow> string \<Rightarrow> string \<Rightarrow> leaseDrivenUploadValidation \<Rightarrow> ('b cf_world, exn, bool) prog" where
  "cf_stageLeaseDrivenUploadValidation scope hash generation v =
     bindM (d1 (batch [
       update_upload (scope, hash) generation (\<lambda>u. u\<lparr>ur_validation := Some (validation_columns v)\<rparr>),
       reserve_staged (scope, hash) generation (lv_storedBytes v)])) (\<lambda>ns.
     returnM (ns ! 0 = 1))"

definition cf_readTemporaryUploadObject ::
  "'b r2_bucket \<Rightarrow> appSpaceScope \<Rightarrow> string \<Rightarrow> ('b cf_world, exn, int option) prog" where
  "cf_readTemporaryUploadObject bucket scope key =
     bindM (r2 (r2_head bucket key)) (\<lambda>object. returnM (map_option fst object))"

definition cf_readTemporaryUploadBytes ::
  "'b r2_bucket \<Rightarrow> appSpaceScope \<Rightarrow> string \<Rightarrow> ('b cf_world, exn, bytes option) prog" where
  "cf_readTemporaryUploadBytes bucket scope key = r2 (r2_get bucket key)"

definition cf_deleteTemporaryUploadObject ::
  "'b r2_bucket \<Rightarrow> appSpaceScope \<Rightarrow> string \<Rightarrow> ('b cf_world, exn, unit) prog" where
  "cf_deleteTemporaryUploadObject bucket scope key =
     bindM (r2 (r2_delete bucket key)) (\<lambda>_.
     bindM (d1 (delete_cleanup (scope, key))) (\<lambda>_. returnM ()))"

definition cf_deleteLeaseDrivenUpload ::
  "appSpaceScope \<Rightarrow> string \<Rightarrow> string \<Rightarrow> ('b cf_world, exn, unit) prog" where
  "cf_deleteLeaseDrivenUpload scope hash generation =
     bindM (d1 (delete_upload_row (scope, hash) generation)) (\<lambda>_. returnM ())"

section \<open>Canonical objects\<close>

text \<open>The read-back after a conditional put found the key taken.\<close>

definition check_existing_object ::
  "'b r2_bucket \<Rightarrow> (bytes \<Rightarrow> bytes) \<Rightarrow> appSpaceScope \<Rightarrow> string \<Rightarrow> ('b cf_world, exn, unit) prog" where
  "check_existing_object bucket sha256 scope hash =
     bindM (cf_readCanonicalBytes bucket scope hash) (\<lambda>existing.
     case existing of
       None \<Rightarrow> throwM (PlainError ''Canonical object conflicts with its hash'')
     | Some b \<Rightarrow>
         bindM (liftM (codec (hashToHex (sha256 b)))) (\<lambda>hex.
         if hex \<noteq> hash then throwM (PlainError ''Canonical object conflicts with its hash'') else returnM ()))"

definition cf_putVerifiedCanonicalBytes ::
  "'b r2_bucket \<Rightarrow> (bytes \<Rightarrow> bytes) \<Rightarrow> appSpaceScope \<Rightarrow> string \<Rightarrow> bytes \<Rightarrow> ('b cf_world, exn, unit) prog" where
  "cf_putVerifiedCanonicalBytes bucket sha256 scope hash bytes =
     bindM (r2 (r2_put_absent bucket (node_object_key scope hash) bytes hash)) (\<lambda>stored.
     if stored then returnM () else check_existing_object bucket sha256 scope hash)"

definition cf_putCanonicalObject ::
  "'b r2_bucket \<Rightarrow> (bytes \<Rightarrow> bytes) \<Rightarrow> appSpaceScope \<Rightarrow> string \<Rightarrow> bytes list \<Rightarrow> ('b cf_world, exn, unit) prog" where
  "cf_putCanonicalObject bucket sha256 scope hash body =
     catchM
       (bindM (r2 (r2_put_absent bucket (node_object_key scope hash) (concat body) hash)) (\<lambda>stored.
        if stored then returnM () else check_existing_object bucket sha256 scope hash))
       (\<lambda>e. throwM e)"

section \<open>Commits\<close>

definition insert_edge :: "node_key \<Rightarrow> nat \<Rightarrow> string \<Rightarrow> (db, int) statement" where
  "insert_edge k i child d =
     (if map_of (cas_edges d) (k, i) \<noteq> None then None
      else Some (d\<lparr>cas_edges := insert_row (k, i) child (cas_edges d)\<rparr>, 1))"

definition add_child_ref :: "int \<Rightarrow> node_row \<Rightarrow> node_row" where
  "add_child_ref n r = r\<lparr>child_ref_count := child_ref_count r + n\<rparr>"

definition new_node_row :: "newCanonicalNodeCommit \<Rightarrow> int \<Rightarrow> node_row" where
  "new_node_row plan now =
     \<lparr>content_size = nc_contentSize plan, content_type = nc_contentType plan,
      lease_started_at = leaseStartedAt (nc_lease plan), lease_expires_at = leaseExpiresAt (nc_lease plan),
      child_ref_count = 0, root_ref_count = 0, ready = True,
      canonical_stored_bytes = Some (nc_storedBytes plan), canonical_observed_at = Some now\<rparr>"

text \<open>The statements of the loop over the children.\<close>

definition edge_statements :: "node_key \<Rightarrow> nat \<Rightarrow> string \<Rightarrow> (db, int) statement list" where
  "edge_statements k i child = [insert_edge k i child, update_node (fst k, child) (add_child_ref 1)]"

definition commit_statements ::
  "appSpaceScope \<Rightarrow> newCanonicalNodeCommit \<Rightarrow> (db, int) statement list \<Rightarrow> int \<Rightarrow> (db, int) statement list" where
  "commit_statements scope plan first now =
     first @ [insert_node (scope, nc_hash plan) (new_node_row plan now)]
     @ concat (map (\<lambda>(i, c). edge_statements (scope, nc_hash plan) i c) (enumerate 0 (nc_refs plan)))
     @ [delete_reservation (scope, nc_hash plan), delete_session (scope, nc_hash plan) (\<lambda>_. True)]"

definition cf_commitNewNode ::
  "appSpaceScope \<Rightarrow> newCanonicalNodeCommit \<Rightarrow> (db, int) statement list \<Rightarrow> ('b cf_world, exn, unit) prog" where
  "cf_commitNewNode scope plan first =
     bindM date_now (\<lambda>now.
     bindM (d1 (batch (commit_statements scope plan first now))) (\<lambda>_.
     bindM (cache_ready (nc_hash plan)) (\<lambda>_.
     forM (nc_refs plan) cache_ready)))"

definition cf_commitUploadedCanonicalNode ::
  "appSpaceScope \<Rightarrow> uploadedCanonicalNodeCommit \<Rightarrow> ('b cf_world, exn, unit) prog" where
  "cf_commitUploadedCanonicalNode scope plan =
     (case plan of
        Commit_existing hash storedBytes lease \<Rightarrow>
          bindM date_now (\<lambda>now.
          bindM (d1 (batch [
            update_node (scope, hash) (\<lambda>r. (set_lease lease r)
              \<lparr>canonical_stored_bytes := Some storedBytes, canonical_observed_at := Some now\<rparr>),
            delete_reservation (scope, hash),
            delete_session (scope, hash) (\<lambda>_. True)])) (\<lambda>_.
          cache_ready hash))
      | Commit_new c \<Rightarrow> cf_commitNewNode scope c [])"

definition cf_commitAdoptedCanonicalNode ::
  "appSpaceScope \<Rightarrow> adoptedCanonicalNodePlan \<Rightarrow> ('b cf_world, exn, unit) prog" where
  "cf_commitAdoptedCanonicalNode scope p =
     cf_commitNewNode scope
       \<lparr>nc_hash = ap_hash p, nc_contentSize = ap_contentSize p, nc_storedBytes = ap_storedBytes p,
        nc_contentType = ap_contentType p, nc_refs = ap_refs p, nc_lease = ap_lease p\<rparr>
       [upsert_reservation (scope, ap_hash p)
          \<lparr>rs_stored_bytes = ap_storedBytes p, rs_created_at = ap_reservationCreatedAt p,
           rs_expires_at = ap_reservationExpiresAt p\<rparr>
          (\<lambda>old. old\<lparr>rs_stored_bytes := ap_storedBytes p\<rparr>)]"

section \<open>Cleanup of expired uploads\<close>

definition expired_uploads :: "appSpaceScope \<Rightarrow> int \<Rightarrow> int \<Rightarrow> db \<Rightarrow> (string \<times> upload_row) list" where
  "expired_uploads scope now limit d =
     take (nat limit) (sort_key (\<lambda>(_, u). ur_cleanup_at u) (sort_key fst
       (map (\<lambda>((_, h), u). (h, u)) (filter (\<lambda>((sc, _), u). sc = scope \<and> ur_cleanup_at u \<le> now) (cas_node_uploads d)))))"

definition queued_cleanups :: "appSpaceScope \<Rightarrow> int \<Rightarrow> int \<Rightarrow> db \<Rightarrow> string list" where
  "queued_cleanups scope now limit d =
     map fst (take (nat limit) (sort_key snd (sort_key fst
       (map (\<lambda>((_, key), c). (key, c)) (filter (\<lambda>((sc, _), c). sc = scope \<and> c \<le> now) (cas_node_upload_cleanup d))))))"

definition upload_matches :: "node_key \<Rightarrow> string \<Rightarrow> db \<Rightarrow> bool" where
  "upload_matches k generation d \<longleftrightarrow>
     (case map_of (cas_node_uploads d) k of Some u \<Rightarrow> ur_generation u = generation | None \<Rightarrow> False)"

definition cleanup_upload ::
  "'b r2_bucket \<Rightarrow> appSpaceScope \<Rightarrow> string \<times> upload_row \<Rightarrow> ('b cf_world, exn, int) prog" where
  "cleanup_upload bucket scope row =
     (case row of (hash, u) \<Rightarrow>
        bindM (cf_deleteTemporaryUploadObject bucket scope (ur_temporary_object_key u)) (\<lambda>_.
        bindM (d1 (batch [
          (\<lambda>d. if upload_matches (scope, hash) (ur_generation u) d
               then delete_reservation (scope, hash) d else Some (d, 0)),
          delete_upload_row (scope, hash) (ur_generation u)])) (\<lambda>ns.
        returnM (ns ! 1))))"

fun cleanup_uploads ::
  "'b r2_bucket \<Rightarrow> appSpaceScope \<Rightarrow> (string \<times> upload_row) list \<Rightarrow> int \<Rightarrow> ('b cf_world, exn, int) prog" where
  "cleanup_uploads bucket scope [] deleted = returnM deleted"
| "cleanup_uploads bucket scope (row # rows) deleted =
     bindM (cleanup_upload bucket scope row) (\<lambda>n. cleanup_uploads bucket scope rows (deleted + n))"

fun cleanup_superseded ::
  "'b r2_bucket \<Rightarrow> appSpaceScope \<Rightarrow> string list \<Rightarrow> int \<Rightarrow> ('b cf_world, exn, int) prog" where
  "cleanup_superseded bucket scope [] deleted = returnM deleted"
| "cleanup_superseded bucket scope (key # keys) deleted =
     bindM (cf_deleteTemporaryUploadObject bucket scope key) (\<lambda>_.
     cleanup_superseded bucket scope keys (deleted + 1))"

definition cf_cleanupExpiredLeaseDrivenUploads ::
  "'b r2_bucket \<Rightarrow> appSpaceScope \<Rightarrow> int \<Rightarrow> int \<Rightarrow> ('b cf_world, exn, int) prog" where
  "cf_cleanupExpiredLeaseDrivenUploads bucket scope now limit =
     bindM (d1 (query (expired_uploads scope now limit))) (\<lambda>rows.
     bindM (cleanup_uploads bucket scope rows 0) (\<lambda>deleted.
     let remaining = max 0 (limit - deleted) in
     if remaining = 0 then returnM deleted
     else
     bindM (d1 (query (queued_cleanups scope now remaining))) (\<lambda>superseded.
     cleanup_superseded bucket scope superseded deleted)))"

section \<open>The repository\<close>

definition cloudflareNodeLeaseRepository ::
  "'b r2_bucket \<Rightarrow> (bytes \<Rightarrow> bytes) \<Rightarrow> 'b cf_world leaseDrivenNodeUploadRepository" where
  "cloudflareNodeLeaseRepository bucket sha256 =
     \<lparr>readNodeLease = cf_readNodeLease,
      readCanonicalObject = cf_readCanonicalObject bucket,
      readCanonicalPrefix = cf_readCanonicalPrefix bucket,
      isNodeReady = cf_isNodeReady bucket,
      renewNodeLease = cf_renewNodeLease,
      commitAdoptedCanonicalNode = cf_commitAdoptedCanonicalNode,
      readCanonicalNodeLease = cf_readCanonicalNodeLease,
      readNodeRefs = cf_readNodeRefs,
      reserveCanonicalUpload = cf_reserveCanonicalUpload,
      putCanonicalObject = cf_putCanonicalObject bucket sha256,
      commitUploadedCanonicalNode = cf_commitUploadedCanonicalNode,
      countLeaseDrivenUploads = cf_countLeaseDrivenUploads,
      readCanonicalBytes = cf_readCanonicalBytes bucket,
      readLeaseDrivenUpload = cf_readLeaseDrivenUpload,
      replaceLeaseDrivenUpload = cf_replaceLeaseDrivenUpload,
      stageLeaseDrivenUploadValidation = cf_stageLeaseDrivenUploadValidation,
      readTemporaryUploadObject = cf_readTemporaryUploadObject bucket,
      readTemporaryUploadBytes = cf_readTemporaryUploadBytes bucket,
      deleteTemporaryUploadObject = cf_deleteTemporaryUploadObject bucket,
      deleteLeaseDrivenUpload = cf_deleteLeaseDrivenUpload,
      putVerifiedCanonicalBytes = cf_putVerifiedCanonicalBytes bucket sha256\<rparr>"

definition cloudflareDirectUploadRepository :: "'b r2_bucket \<Rightarrow> 'b cf_world canonicalDirectUploadRepository" where
  "cloudflareDirectUploadRepository bucket =
     \<lparr>readNodeLease = cf_readNodeLease,
      readCanonicalObject = cf_readCanonicalObject bucket,
      readCanonicalPrefix = cf_readCanonicalPrefix bucket,
      isNodeReady = cf_isNodeReady bucket,
      renewNodeLease = cf_renewNodeLease,
      commitAdoptedCanonicalNode = cf_commitAdoptedCanonicalNode,
      readCanonicalUploadSession = cf_readCanonicalUploadSession,
      reserveCanonicalUploadSession = cf_reserveCanonicalUploadSession,
      deleteCanonicalUploadSession = cf_deleteCanonicalUploadSession\<rparr>"

end
