(* ===== verification/Lease_Contract.thy ===== *)
theory Lease_Contract
  imports Node_Lease Codec_Properties
begin

text \<open>
  What the lease-driven upload relies on and what it guarantees.  The locale
  \<open>lease_repository\<close> states the contract of a \<open>LeaseDrivenNodeUploadRepository\<close> for one
  Space: an invariant \<open>inv\<close>, the leases of the committed nodes (\<open>lease_of\<close>), the stored
  canonical objects (\<open>stored\<close>) and a preorder \<open>rel\<close> every operation stays within.  Every
  operation may fail, and the contract says what holds then.  Inside it
  \<open>leaseDrivenNodeUpload\<close> is verified once for every repository.
\<close>

section \<open>Genuine metadata\<close>

text \<open>
  \<open>genuine sha h n cs ct refs\<close>: some canonical node of \<open>n\<close> bytes with the digest \<open>h\<close> has
  the content size \<open>cs\<close>, the content type \<open>ct\<close> and the children \<open>refs\<close>.
\<close>

definition genuine :: "(bytes \<Rightarrow> bytes) \<Rightarrow> string \<Rightarrow> int \<Rightarrow> int \<Rightarrow> string \<Rightarrow> string list \<Rightarrow> bool" where
  "genuine sha h n cs ct refs \<longleftrightarrow>
     (\<exists>hs content. node_shape (int (length content)) ct hs
        \<and> hashToHex (sha (node_bytes ct hs content)) = Inr h
        \<and> cs = int (length content) \<and> refs = hex_of_hashes hs
        \<and> n = int (length (node_bytes ct hs content)))"

definition genuine_validation :: "(bytes \<Rightarrow> bytes) \<Rightarrow> string \<Rightarrow> leaseDrivenUploadValidation \<Rightarrow> bool" where
  "genuine_validation sha h v \<longleftrightarrow>
     genuine sha h (lv_storedBytes v) (md_contentSize v) (md_contentType v) (md_refs v)"

definition temporary_key :: "string \<Rightarrow> bool" where
  "temporary_key k \<longleftrightarrow> take 9 k = ''_uploads/''"

definition upload_ok :: "(bytes \<Rightarrow> bytes) \<Rightarrow> string \<Rightarrow> leaseDrivenUploadRecord \<Rightarrow> bool" where
  "upload_ok sha h u \<longleftrightarrow> lu_hash u = h \<and> temporary_key (lu_temporaryObjectKey u)
     \<and> (\<forall>v. lu_validation u = Some v \<longrightarrow> genuine_validation sha h v)"

lemma genuine_hash_ok: "genuine sha h n cs ct refs \<Longrightarrow> validateHash h = Inr ()"
  unfolding genuine_def hashToHex_eq_Inr
  using hex_is_lower by (auto simp: validateHash_ok HASH_SIZE_def list_all_iff simp del: set_concat set_map)

lemma genuine_sizes: "genuine sha h n cs ct refs \<Longrightarrow> 0 \<le> cs \<and> cs \<le> n \<and> 0 < n \<and> n \<le> 67108864 \<and> length refs \<le> 256"
  using length_node_bytes by (fastforce simp: genuine_def node_shape_def hex_of_hashes_def)

lemma genuine_refs_hash:
  assumes "genuine sha' h n cs ct refs" and "x \<in> set refs"
  shows "validateHash x = Inr ()"
proof -
  obtain hs and content :: bytes where "node_shape (int (length content)) ct hs" "refs = hex_of_hashes hs"
    using assms(1) unfolding genuine_def by blast
  then obtain b where "length b = HASH_SIZE" "x = concat (map byte_to_hex b)"
    using assms(2) by (auto simp: hex_of_hashes_def node_shape_def)
  then show ?thesis
    using hex_is_lower [of _ b] by (auto simp: validateHash_ok HASH_SIZE_def list_all_iff simp del: set_concat set_map)
qed

text \<open>The validation step accepts only genuine metadata.\<close>

lemma validated_genuine:
  assumes "validateLeaseDrivenUpload sha hash bytes lim = Inr (Inr v)"
  shows "genuine_validation sha hash v"
proof -
  from assms obtain p where hex: "hashToHex (sha bytes) = Inr hash"
    and p: "parseCanonicalNodeStream [bytes] (Some (int (length (concat [bytes])))) lim = Inr p"
    and v: "v = \<lparr>md_contentSize = pc_contentSize p, md_contentType = pc_contentType p, md_refs = pc_refs p,
                 lv_storedBytes = int (length bytes)\<rparr>"
    by (auto simp: validateLeaseDrivenUpload_def bindE_eq_Inr codec_def split: if_splits sum.splits)
      (auto simp: map_sum_def split: sum.splits)
  from parsed_bytes [OF p parsed_declared_length [OF p]] obtain hs content where
    "bytes = node_bytes (pc_contentType p) hs content" "node_shape (int (length content)) (pc_contentType p) hs"
    "pc_contentSize p = int (length content)" "pc_refs p = hex_of_hashes hs"
    by auto
  with hex show ?thesis unfolding genuine_validation_def genuine_def by (auto simp: v)
qed

section \<open>The contract\<close>

locale lease_repository =
  fixes repo :: "'s leaseDrivenNodeUploadRepository"
    and sha :: "bytes \<Rightarrow> bytes"
    and scope :: appSpaceScope
    and inv :: "'s \<Rightarrow> bool"
    and lease_of :: "'s \<Rightarrow> string \<Rightarrow> nodeLeaseRecord option"
    and stored :: "'s \<Rightarrow> string \<Rightarrow> bool"
    and rel :: "'s \<Rightarrow> 's \<Rightarrow> bool"
  assumes rel_refl: "rel s s"
    and rel_trans: "rel s s' \<Longrightarrow> rel s' s'' \<Longrightarrow> rel s s''"
    and read_lease: "inv s \<Longrightarrow> validateHash h = Inr () \<Longrightarrow>
      wp (readCanonicalNodeLease repo scope h)
        (\<lambda>r s'. inv s' \<and> rel s s' \<and> lease_of s' = lease_of s \<and> stored s' = stored s
           \<and> map_option (\<lambda>x. \<lparr>leaseStartedAt = leaseStartedAt x, leaseExpiresAt = leaseExpiresAt x\<rparr>) r = lease_of s h)
        (\<lambda>_ s'. inv s' \<and> rel s s') s"
    and read_object: "inv s \<Longrightarrow> validateHash h = Inr () \<Longrightarrow>
      wp (readCanonicalObject repo scope h)
        (\<lambda>r s'. inv s' \<and> rel s s' \<and> lease_of s' = lease_of s \<and> stored s' = stored s \<and> (r \<noteq> None \<longleftrightarrow> stored s h))
        (\<lambda>_ s'. inv s' \<and> rel s s') s"
    and read_bytes: "inv s \<Longrightarrow> validateHash h = Inr () \<Longrightarrow>
      wp (readCanonicalBytes repo scope h)
        (\<lambda>r s'. inv s' \<and> rel s s' \<and> lease_of s' = lease_of s \<and> stored s' = stored s \<and> (r \<noteq> None \<longleftrightarrow> stored s h))
        (\<lambda>_ s'. inv s' \<and> rel s s') s"
    and node_ready: "inv s \<Longrightarrow> validateHash h = Inr () \<Longrightarrow>
      wp (isNodeReady repo scope h)
        (\<lambda>r s'. inv s' \<and> rel s s' \<and> lease_of s' = lease_of s \<and> stored s' = stored s
           \<and> (r \<longleftrightarrow> lease_of s h \<noteq> None \<and> stored s h))
        (\<lambda>_ s'. inv s' \<and> rel s s') s"
    and renew: "inv s \<Longrightarrow> validateHash h = Inr () \<Longrightarrow> lease_of s h \<noteq> None \<Longrightarrow> stored s h \<Longrightarrow>
      wp (renewNodeLease repo scope h lease)
        (\<lambda>_ s'. inv s' \<and> rel s s' \<and> stored s' = stored s \<and> lease_of s' = (lease_of s)(h \<mapsto> lease))
        (\<lambda>_ s'. inv s' \<and> rel s s') s"
    and count: "inv s \<Longrightarrow>
      wp (countLeaseDrivenUploads repo scope)
        (\<lambda>_ s'. inv s' \<and> rel s s' \<and> lease_of s' = lease_of s \<and> stored s' = stored s)
        (\<lambda>_ s'. inv s' \<and> rel s s') s"
    and read_upload: "inv s \<Longrightarrow> validateHash h = Inr () \<Longrightarrow>
      wp (readLeaseDrivenUpload repo scope h)
        (\<lambda>r s'. inv s' \<and> rel s s' \<and> lease_of s' = lease_of s \<and> stored s' = stored s
           \<and> (\<forall>u. r = Some u \<longrightarrow> upload_ok sha h u))
        (\<lambda>_ s'. inv s' \<and> rel s s') s"
    and replace: "inv s \<Longrightarrow> validateHash h = Inr () \<Longrightarrow> upload_ok sha h u \<Longrightarrow>
      wp (replaceLeaseDrivenUpload repo scope expected u)
        (\<lambda>_ s'. inv s' \<and> rel s s' \<and> lease_of s' = lease_of s \<and> stored s' = stored s)
        (\<lambda>_ s'. inv s' \<and> rel s s') s"
    and stage: "inv s \<Longrightarrow> validateHash h = Inr () \<Longrightarrow> genuine_validation sha h v \<Longrightarrow>
      wp (stageLeaseDrivenUploadValidation repo scope h g v)
        (\<lambda>_ s'. inv s' \<and> rel s s' \<and> lease_of s' = lease_of s \<and> stored s' = stored s)
        (\<lambda>_ s'. inv s' \<and> rel s s') s"
    and read_temporary: "inv s \<Longrightarrow> temporary_key k \<Longrightarrow>
      wp (readTemporaryUploadObject repo scope k)
        (\<lambda>_ s'. inv s' \<and> rel s s' \<and> lease_of s' = lease_of s \<and> stored s' = stored s)
        (\<lambda>_ s'. inv s' \<and> rel s s') s"
    and read_temporary_bytes: "inv s \<Longrightarrow> temporary_key k \<Longrightarrow>
      wp (readTemporaryUploadBytes repo scope k)
        (\<lambda>_ s'. inv s' \<and> rel s s' \<and> lease_of s' = lease_of s \<and> stored s' = stored s)
        (\<lambda>_ s'. inv s' \<and> rel s s') s"
    and delete_temporary: "inv s \<Longrightarrow> temporary_key k \<Longrightarrow>
      wp (deleteTemporaryUploadObject repo scope k)
        (\<lambda>_ s'. inv s' \<and> rel s s' \<and> lease_of s' = lease_of s \<and> stored s' = stored s)
        (\<lambda>_ s'. inv s' \<and> rel s s' \<and> lease_of s' = lease_of s \<and> stored s' = stored s) s"
    and delete_upload: "inv s \<Longrightarrow>
      wp (deleteLeaseDrivenUpload repo scope h g)
        (\<lambda>_ s'. inv s' \<and> rel s s' \<and> lease_of s' = lease_of s \<and> stored s' = stored s)
        (\<lambda>_ s'. inv s' \<and> rel s s' \<and> lease_of s' = lease_of s \<and> stored s' = stored s) s"
    and put_bytes: "inv s \<Longrightarrow> validateHash h = Inr () \<Longrightarrow>
      wp (putVerifiedCanonicalBytes repo scope h bytes)
        (\<lambda>_ s'. inv s' \<and> rel s s' \<and> lease_of s' = lease_of s \<and> stored s' = (stored s)(h := True))
        (\<lambda>_ s'. inv s' \<and> rel s s') s"
    and commit_new: "inv s \<Longrightarrow> validateHash h = Inr () \<Longrightarrow> nc_hash c = h \<Longrightarrow> stored s h \<Longrightarrow>
      genuine sha h (nc_storedBytes c) (nc_contentSize c) (nc_contentType c) (nc_refs c) \<Longrightarrow>
      (\<forall>x \<in> set (nc_refs c). lease_of s x \<noteq> None \<and> stored s x) \<Longrightarrow>
      wp (commitUploadedCanonicalNode repo scope (Commit_new c))
        (\<lambda>_ s'. inv s' \<and> rel s s' \<and> stored s' = stored s \<and> lease_of s' = (lease_of s)(h \<mapsto> nc_lease c))
        (\<lambda>_ s'. inv s' \<and> rel s s') s"
begin

text \<open>\<open>kept s s'\<close>: what an operation that changes no node and no object leaves behind.\<close>

definition kept :: "'s \<Rightarrow> 's \<Rightarrow> bool" where
  "kept s s' \<longleftrightarrow> inv s' \<and> rel s s' \<and> lease_of s' = lease_of s \<and> stored s' = stored s"

definition safe :: "'s \<Rightarrow> 's \<Rightarrow> bool" where
  "safe s s' \<longleftrightarrow> inv s' \<and> rel s s'"

lemma kept_refl: "inv s \<Longrightarrow> kept s s"
  by (simp add: kept_def rel_refl)

lemma kept_trans: "kept s s' \<Longrightarrow> kept s' s'' \<Longrightarrow> kept s s''"
  by (auto simp: kept_def intro: rel_trans)

lemma safe_trans: "safe s s' \<Longrightarrow> safe s' s'' \<Longrightarrow> safe s s''"
  by (auto simp: safe_def intro: rel_trans)

lemma kept_safe: "kept s s' \<Longrightarrow> safe s s'"
  by (simp add: kept_def safe_def)

text \<open>Sequencing after an operation that keeps nodes and objects.\<close>

lemma wp_kept:
  assumes "wp m (\<lambda>x s'. kept s1 s' \<and> P x s') (\<lambda>_ s'. safe s1 s') s1" and "kept s s1"
    and "\<And>x s'. kept s s' \<Longrightarrow> P x s' \<Longrightarrow> wp (f x) Q (\<lambda>_. safe s) s'"
  shows "wp (bindM m f) Q (\<lambda>_. safe s) s1"
  unfolding wp_bindM
  using wp_mono [OF assms(1)] assms(2,3) kept_trans kept_safe safe_trans by (smt (verit))

lemma kept_inv: "kept s s' \<Longrightarrow> inv s'"
  by (simp add: kept_def)

lemma read_lease_kept: "inv s \<Longrightarrow> validateHash h = Inr () \<Longrightarrow>
    wp (readCanonicalNodeLease repo scope h)
      (\<lambda>r s'. kept s s' \<and> map_option (\<lambda>x. \<lparr>leaseStartedAt = leaseStartedAt x, leaseExpiresAt = leaseExpiresAt x\<rparr>) r
         = lease_of s h) (\<lambda>_ s'. safe s s') s"
  using read_lease [of s h] by (auto simp: kept_def safe_def elim: wp_mono)

lemma read_object_kept: "inv s \<Longrightarrow> validateHash h = Inr () \<Longrightarrow>
    wp (readCanonicalObject repo scope h) (\<lambda>r s'. kept s s' \<and> (r \<noteq> None \<longleftrightarrow> stored s h)) (\<lambda>_ s'. safe s s') s"
  using read_object [of s h] by (auto simp: kept_def safe_def elim: wp_mono)

lemma read_bytes_kept: "inv s \<Longrightarrow> validateHash h = Inr () \<Longrightarrow>
    wp (readCanonicalBytes repo scope h) (\<lambda>r s'. kept s s' \<and> (r \<noteq> None \<longleftrightarrow> stored s h)) (\<lambda>_ s'. safe s s') s"
  using read_bytes [of s h] by (auto simp: kept_def safe_def elim: wp_mono)

lemma node_ready_kept: "inv s \<Longrightarrow> validateHash h = Inr () \<Longrightarrow>
    wp (isNodeReady repo scope h) (\<lambda>r s'. kept s s' \<and> (r \<longleftrightarrow> lease_of s h \<noteq> None \<and> stored s h)) (\<lambda>_ s'. safe s s') s"
  using node_ready [of s h] by (auto simp: kept_def safe_def elim: wp_mono)

lemma count_kept: "inv s \<Longrightarrow> wp (countLeaseDrivenUploads repo scope) (\<lambda>r s'. kept s s' \<and> True) (\<lambda>_ s'. safe s s') s"
  using count [of s] by (auto simp: kept_def safe_def elim: wp_mono)

lemma read_upload_kept: "inv s \<Longrightarrow> validateHash h = Inr () \<Longrightarrow>
    wp (readLeaseDrivenUpload repo scope h) (\<lambda>r s'. kept s s' \<and> (\<forall>u. r = Some u \<longrightarrow> upload_ok sha h u))
      (\<lambda>_ s'. safe s s') s"
  using read_upload [of s h] by (auto simp: kept_def safe_def elim: wp_mono)

lemma stage_kept: "inv s \<Longrightarrow> validateHash h = Inr () \<Longrightarrow> genuine_validation sha h v \<Longrightarrow>
    wp (stageLeaseDrivenUploadValidation repo scope h g v) (\<lambda>r s'. kept s s' \<and> True) (\<lambda>_ s'. safe s s') s"
  using stage [of s h v g] by (auto simp: kept_def safe_def elim: wp_mono)

lemma read_temporary_kept: "inv s \<Longrightarrow> temporary_key k \<Longrightarrow>
    wp (readTemporaryUploadObject repo scope k) (\<lambda>r s'. kept s s' \<and> True) (\<lambda>_ s'. safe s s') s"
  using read_temporary [of s k] by (auto simp: kept_def safe_def elim: wp_mono)

lemma read_temporary_bytes_kept: "inv s \<Longrightarrow> temporary_key k \<Longrightarrow>
    wp (readTemporaryUploadBytes repo scope k) (\<lambda>r s'. kept s s' \<and> True) (\<lambda>_ s'. safe s s') s"
  using read_temporary_bytes [of s k] by (auto simp: kept_def safe_def elim: wp_mono)

lemma delete_temporary_ignored: "inv s \<Longrightarrow> temporary_key k \<Longrightarrow>
    wp (ignoring_errors (deleteTemporaryUploadObject repo scope k)) (\<lambda>r s'. kept s s' \<and> True) (\<lambda>_ s'. safe s s') s"
  using delete_temporary [of s k] unfolding ignoring_errors_def wp_catchM wp_returnM
  by (auto simp: kept_def elim: wp_mono)

lemma delete_both_ignored:
  assumes "inv s" and "temporary_key k"
  shows "wp (ignoring_errors (bindM (deleteTemporaryUploadObject repo scope k) (\<lambda>_. deleteLeaseDrivenUpload repo scope h g)))
    (\<lambda>r s'. kept s s' \<and> True) (\<lambda>_ s'. safe s s') s"
  unfolding ignoring_errors_def wp_catchM wp_returnM wp_bindM
proof (rule wp_mono [OF delete_temporary [OF assms]])
  fix x s1
  assume "inv s1 \<and> rel s s1 \<and> lease_of s1 = lease_of s \<and> stored s1 = stored s"
  then have k: "inv s1" "kept s s1" by (simp_all add: kept_def)
  show "wp (deleteLeaseDrivenUpload repo scope h g) (\<lambda>x s'. kept s s' \<and> True) (\<lambda>e s'. kept s s' \<and> True) s1"
    using delete_upload [OF k(1), of h g] k(2) kept_trans by (auto simp: kept_def elim!: wp_mono)
qed (simp add: kept_def)

lemma replace_kept: "inv s \<Longrightarrow> validateHash h = Inr () \<Longrightarrow> upload_ok sha h u \<Longrightarrow>
    wp (replaceOrConflict repo scope expected u) (\<lambda>_ s'. kept s s' \<and> True) (\<lambda>_ s'. safe s s') s"
  unfolding replaceOrConflict_def wp_bindM
  by (rule wp_mono [OF replace [of s h u expected]]) (auto simp: kept_def safe_def wp_simps)

section \<open>Inputs of the kernel\<close>

text \<open>
  The request: this repository, digest and Space, fresh identifiers under the temporary prefix,
  and an instrumentation that runs the validation it is given.
\<close>

definition input_ok :: "'s leaseDrivenInput \<Rightarrow> bool" where
  "input_ok input \<longleftrightarrow> in_repository input = repo \<and> in_sha256 input = sha \<and> in_scope input = scope
     \<and> (\<forall>s. inv s \<longrightarrow> wp (in_createIdentifiers input) (\<lambda>r s'. kept s s' \<and> temporary_key (snd r)) (\<lambda>_ s'. safe s s') s)
     \<and> (\<forall>f. in_instrumentation input = Some f \<longrightarrow> (\<forall>m. f m = m))"

lemma create_kept:
  assumes "input_ok input" and "inv s"
  shows "wp (createLeaseDrivenUpload input now rejection)
    (\<lambda>u s'. kept s s' \<and> upload_ok sha (in_hash input) u \<and> lu_rejection u = rejection) (\<lambda>_ s'. safe s s') s"
  using assms unfolding createLeaseDrivenUpload_def wp_bindM input_ok_def
  by (auto simp: upload_ok_def wp_simps Let_def kept_safe elim!: wp_mono split: prod.splits)

lemma observe_validation:
  assumes "input_ok input"
  shows "observeLeaseDrivenNodeValidation input b
    = liftM (validateLeaseDrivenUpload sha (in_hash input) b (in_limits input))"
  using assms by (auto simp: observeLeaseDrivenNodeValidation_def input_ok_def Let_def split: option.splits)

text \<open>What a result promises.\<close>

definition result_ok :: "'s leaseDrivenInput \<Rightarrow> 's \<Rightarrow> leaseDrivenNodeUploadResult \<Rightarrow> 's \<Rightarrow> bool" where
  "result_ok input s r s' \<longleftrightarrow> safe s s' \<and>
     (case r of
        Ready res \<Rightarrow> lr_hash res = in_hash input \<and> lease_of s' (in_hash input) = Some (lr_lease res)
          \<and> stored s' (in_hash input)
          \<and> leaseExpiresAt (lr_lease res) \<ge> in_now input + clampLeaseDuration (in_leaseDurationMs input)
      | Validated_awaiting_children cs \<Rightarrow> cs \<noteq> [] \<and> (\<forall>c \<in> set cs. \<not> (lease_of s' c \<noteq> None \<and> stored s' c))
      | Awaiting_upload u \<Rightarrow> upload_ok sha (in_hash input) u
      | Awaiting_replacement_upload u _ \<Rightarrow> upload_ok sha (in_hash input) u)"

lemma awaiting_result_ok: "kept s s' \<Longrightarrow> upload_ok sha (in_hash input) u \<Longrightarrow> result_ok input s (awaiting_result u) s'"
  by (auto simp: result_ok_def awaiting_result_def kept_safe split: option.splits)

lemma unready_children_kept:
  assumes "inv s" and "\<forall>x \<in> set refs. validateHash x = Inr ()"
  shows "wp (unready_children repo scope seen refs)
    (\<lambda>cs s'. kept s s' \<and> (\<forall>c \<in> set cs. \<not> (lease_of s c \<noteq> None \<and> stored s c))
       \<and> (\<forall>x \<in> set refs. x \<in> set seen \<or> x \<in> set cs \<or> (lease_of s x \<noteq> None \<and> stored s x)))
    (\<lambda>_ s'. safe s s') s"
  using assms
proof (induction refs arbitrary: seen s)
  case Nil
  then show ?case by (simp add: wp_simps kept_refl)
next
  case (Cons x refs)
  show ?case
  proof (cases "x \<in> set seen")
    case True
    then show ?thesis using Cons.IH [of s seen] Cons.prems by (auto elim!: wp_mono)
  next
    case False
    have "wp (isNodeReady repo scope x) (\<lambda>r s'. kept s s' \<and> (r \<longleftrightarrow> lease_of s x \<noteq> None \<and> stored s x)) (\<lambda>_ s'. safe s s') s"
      using Cons.prems by (intro node_ready_kept) auto
    then have "wp (bindM (isNodeReady repo scope x) (\<lambda>r. bindM (unready_children repo scope (x # seen) refs)
             (\<lambda>others. returnM (if r then others else x # others))))
           (\<lambda>cs s'. kept s s' \<and> (\<forall>c \<in> set cs. \<not> (lease_of s c \<noteq> None \<and> stored s c))
              \<and> (\<forall>y \<in> set (x # refs). y \<in> set seen \<or> y \<in> set cs \<or> (lease_of s y \<noteq> None \<and> stored s y)))
           (\<lambda>_. safe s) s"
    proof (rule wp_kept [OF _ kept_refl [OF Cons.prems(1)]])
      fix r s1
      assume k: "kept s s1" and r: "r \<longleftrightarrow> lease_of s x \<noteq> None \<and> stored s x"
      have same: "lease_of s1 = lease_of s" "stored s1 = stored s" and i: "inv s1" using k by (simp_all add: kept_def)
      note IH = Cons.IH [OF i, of "x # seen", unfolded same]
      show "wp (bindM (unready_children repo scope (x # seen) refs)
             (\<lambda>others. returnM (if r then others else x # others)))
           (\<lambda>cs s'. kept s s' \<and> (\<forall>c \<in> set cs. \<not> (lease_of s c \<noteq> None \<and> stored s c))
              \<and> (\<forall>y \<in> set (x # refs). y \<in> set seen \<or> y \<in> set cs \<or> (lease_of s y \<noteq> None \<and> stored s y)))
           (\<lambda>_. safe s) s1"
        by (rule wp_kept [OF IH k]) (use Cons.prems r in \<open>auto simp: wp_simps\<close>)
    qed
    then show ?thesis using False by simp
  qed
qed

section \<open>The kernel keeps the contract\<close>

lemma next_lease_expiry: "leaseExpiresAt (nextNodeLease e d now) \<ge> now + d"
  by (simp add: nextNodeLease_def)

lemma inputD:
  assumes "input_ok input"
  shows "in_repository input = repo" "in_scope input = scope"
  using assms by (simp_all add: input_ok_def)

lemma store_content_ok:
  assumes input: "input_ok input" and hash: "validateHash (in_hash input) = Inr ()"
    and temp: "temporary_key (lu_temporaryObjectKey u)" and i: "inv s"
  shows "wp (store_validated_content input u vb)
    (\<lambda>_ s'. safe s s' \<and> lease_of s' = lease_of s \<and> stored s' = (stored s)(in_hash input := True)) (\<lambda>_. safe s) s"
proof -
  have k: "kept s s" using i by (rule kept_refl)
  have rd: "wp (case vb of Some b \<Rightarrow> returnM (Some b) | None \<Rightarrow> readTemporaryUploadBytes repo scope (lu_temporaryObjectKey u))
      (\<lambda>_ s'. kept s s' \<and> True) (\<lambda>_ s'. safe s s') s"
    using read_temporary_bytes_kept [OF i temp] by (cases vb) (auto simp: wp_simps k)
  show ?thesis
    unfolding store_validated_content_def Let_def inputD [OF input]
  proof (rule wp_kept [OF rd k])
    fix b s1
    assume k1: "kept s s1"
    have put: "wp (putVerifiedCanonicalBytes repo scope (in_hash input) x)
        (\<lambda>_ s'. safe s s' \<and> lease_of s' = lease_of s \<and> stored s' = (stored s)(in_hash input := True)) (\<lambda>_. safe s) s1" for x
      by (rule wp_mono [OF put_bytes [OF kept_inv [OF k1] hash]])
        (use k1 in \<open>auto simp: kept_def safe_def intro: rel_trans\<close>)
    have found: "wp (bindM (readCanonicalObject repo scope (in_hash input)) (\<lambda>object. if object = None
            then throwM (nodeOpError 503 STORAGE ''Validated upload content is missing'') else returnM ()))
        (\<lambda>_ s'. safe s s' \<and> lease_of s' = lease_of s \<and> stored s' = (stored s)(in_hash input := True)) (\<lambda>_. safe s) s1"
      by (rule wp_kept [OF read_object_kept [OF kept_inv [OF k1] hash] k1])
        (use k1 in \<open>auto simp: wp_simps kept_def safe_def fun_eq_iff\<close>)
    show "wp (case b of Some x \<Rightarrow> putVerifiedCanonicalBytes repo scope (in_hash input) x
         | None \<Rightarrow> bindM (readCanonicalObject repo scope (in_hash input)) (\<lambda>object. if object = None
            then throwM (nodeOpError 503 STORAGE ''Validated upload content is missing'') else returnM ()))
        (\<lambda>_ s'. safe s s' \<and> lease_of s' = lease_of s \<and> stored s' = (stored s)(in_hash input := True)) (\<lambda>_. safe s) s1"
      using put found by (cases b) auto
  qed
qed

lemma commit_validated_ok:
  assumes input: "input_ok input" and hash: "validateHash (in_hash input) = Inr ()"
    and temp: "temporary_key (lu_temporaryObjectKey u)" and v: "genuine_validation sha (in_hash input) v"
    and i: "inv s" and st: "stored s (in_hash input)"
    and children: "\<forall>x \<in> set (md_refs v). lease_of s x \<noteq> None \<and> stored s x"
    and expiry: "leaseExpiresAt lease \<ge> in_now input + clampLeaseDuration (in_leaseDurationMs input)"
  shows "wp (commit_validated_node input u v lease) (result_ok input s) (\<lambda>_. safe s) s"
  unfolding commit_validated_node_def Let_def inputD [OF input] wp_bindM [of "commitUploadedCanonicalNode _ _ _"]
proof (rule wp_mono [OF commit_new [OF i hash _ st]])
  fix x s1
  assume a: "inv s1 \<and> rel s s1 \<and> stored s1 = stored s \<and> lease_of s1 = (lease_of s)(in_hash input \<mapsto>
    nc_lease \<lparr>nc_hash = in_hash input, nc_contentSize = md_contentSize v, nc_storedBytes = lv_storedBytes v,
              nc_contentType = md_contentType v, nc_refs = md_refs v, nc_lease = lease\<rparr>)"
  have fin: "result_ok input s (Ready (lease_result (in_hash input) lease)) s2" if "kept s1 s2" for s2
    using a that st expiry by (auto simp: result_ok_def lease_result_def kept_def safe_def intro: rel_trans)
  show "wp (bindM (ignoring_errors (bindM (deleteTemporaryUploadObject repo scope (lu_temporaryObjectKey u))
        (\<lambda>_. deleteLeaseDrivenUpload repo scope (in_hash input) (lu_generation u))))
      (\<lambda>_. returnM (Ready (lease_result (in_hash input) lease)))) (result_ok input s) (\<lambda>_. safe s) s1"
    unfolding wp_bindM [of "ignoring_errors _"]
    using a fin by (intro wp_mono [OF delete_both_ignored [OF _ temp]])
      (auto simp: wp_simps safe_def intro: rel_trans)
qed (use v children in \<open>auto simp: genuine_validation_def safe_def\<close>)

lemma publish_ok:
  assumes input: "input_ok input" and hash: "validateHash (in_hash input) = Inr ()"
    and temp: "temporary_key (lu_temporaryObjectKey u)"
    and v: "genuine_validation sha (in_hash input) v"
    and k0: "kept s s0"
  shows "wp (publishValidatedLeaseDrivenUpload input u v (clampLeaseDuration (in_leaseDurationMs input)) (in_now input) vb)
    (result_ok input s) (\<lambda>_. safe s) s0"
  unfolding publishValidatedLeaseDrivenUpload_def inputD [OF input]
proof (rule wp_kept [OF unready_children_kept [OF kept_inv [OF k0]] k0])
  show "\<forall>x \<in> set (md_refs v). validateHash x = Inr ()"
    using v genuine_refs_hash unfolding genuine_validation_def by blast
  fix cs s1
  assume k1: "kept s s1"
    and cs: "(\<forall>c \<in> set cs. \<not> (lease_of s0 c \<noteq> None \<and> stored s0 c))
      \<and> (\<forall>x \<in> set (md_refs v). x \<in> set [] \<or> x \<in> set cs \<or> (lease_of s0 x \<noteq> None \<and> stored s0 x))"
  have same: "lease_of s1 = lease_of s0" "stored s1 = stored s0" using k0 k1 by (simp_all add: kept_def)
  let ?lease = "nextNodeLease (None :: nodeLeaseRecord option) (clampLeaseDuration (in_leaseDurationMs input)) (in_now input)"
  have rest: "wp (bindM (store_validated_content input u vb) (\<lambda>_. commit_validated_node input u v ?lease))
      (result_ok input s) (\<lambda>_. safe s) s1" if "cs = []"
    unfolding wp_bindM
  proof (rule wp_mono [OF store_content_ok [OF input hash temp kept_inv [OF k1]]])
    fix x s2
    assume a: "safe s1 s2 \<and> lease_of s2 = lease_of s1 \<and> stored s2 = (stored s1)(in_hash input := True)"
    have "wp (commit_validated_node input u v ?lease) (result_ok input s2) (\<lambda>_. safe s2) s2"
      by (rule commit_validated_ok [OF input hash temp v])
        (use a cs that same next_lease_expiry in \<open>auto simp: safe_def\<close>)
    then show "wp (commit_validated_node input u v ?lease) (result_ok input s) (\<lambda>_. safe s) s2"
      by (rule wp_mono) (use a k1 in \<open>auto simp: result_ok_def intro: safe_trans dest: kept_safe\<close>)
  qed (use k1 in \<open>auto intro: safe_trans dest: kept_safe\<close>)
  show "wp (if cs \<noteq> [] then returnM (Validated_awaiting_children cs)
      else bindM (store_validated_content input u vb) (\<lambda>_. commit_validated_node input u v ?lease))
      (result_ok input s) (\<lambda>_. safe s) s1"
    using rest k1 cs same by (auto simp: wp_simps result_ok_def kept_safe)
qed

lemma stage_ok:
  assumes "input_ok input" and "validateHash (in_hash input) = Inr ()" and "genuine_validation sha (in_hash input) v"
    and "inv s" and "upload_ok sha (in_hash input) u"
  shows "wp (stage_or_conflict input u v)
    (\<lambda>u' s'. kept s s' \<and> (upload_ok sha (in_hash input) u' \<and> lu_validation u' = Some v)) (\<lambda>_ s'. safe s s') s"
  unfolding stage_or_conflict_def inputD [OF assms(1)] wp_bindM
  by (rule wp_mono [OF stage_kept [OF assms(4,2,3)]])
    (use assms(3,5) in \<open>auto simp: wp_simps upload_ok_def kept_safe\<close>)

lemma replace_rejected_ok:
  assumes "input_ok input" and "validateHash (in_hash input) = Inr ()"
    and "temporary_key (lu_temporaryObjectKey u)" and "kept s s0"
  shows "wp (replaceRejectedLeaseDrivenUpload input u rejection now) (result_ok input s) (\<lambda>_. safe s) s0"
  unfolding replaceRejectedLeaseDrivenUpload_def inputD [OF assms(1)]
proof (rule wp_kept [OF create_kept [OF assms(1) kept_inv [OF assms(4)]] assms(4)])
  fix r s1
  assume k1: "kept s s1" and r: "upload_ok sha (in_hash input) r \<and> lu_rejection r = Some rejection"
  show "wp (bindM (replaceOrConflict repo scope (Some (lu_generation u)) r) (\<lambda>_.
      bindM (ignoring_errors (deleteTemporaryUploadObject repo scope (lu_temporaryObjectKey u))) (\<lambda>_.
      returnM (Awaiting_replacement_upload r rejection)))) (result_ok input s) (\<lambda>_. safe s) s1"
  proof (rule wp_kept [OF replace_kept [OF kept_inv [OF k1] assms(2)] k1])
    fix x :: unit and s2
    assume k2: "kept s s2"
    show "wp (bindM (ignoring_errors (deleteTemporaryUploadObject repo scope (lu_temporaryObjectKey u))) (\<lambda>_.
        returnM (Awaiting_replacement_upload r rejection))) (result_ok input s) (\<lambda>_. safe s) s2"
      by (rule wp_kept [OF delete_temporary_ignored [OF kept_inv [OF k2] assms(3)] k2])
        (use r in \<open>auto simp: wp_simps result_ok_def kept_safe\<close>)
  qed (use r in simp)
qed

lemma restart_ok:
  assumes "input_ok input" and "validateHash (in_hash input) = Inr ()"
    and "temporary_key (lu_temporaryObjectKey u)" and "kept s s0"
  shows "wp (restart_expired_upload input u now) (result_ok input s) (\<lambda>_. safe s) s0"
  unfolding restart_expired_upload_def inputD [OF assms(1)]
proof (rule wp_kept [OF create_kept [OF assms(1) kept_inv [OF assms(4)]] assms(4)])
  fix r s1
  assume k1: "kept s s1" and r: "upload_ok sha (in_hash input) r \<and> lu_rejection r = lu_rejection u"
  show "wp (bindM (replaceOrConflict repo scope (Some (lu_generation u)) r) (\<lambda>_.
      bindM (ignoring_errors (deleteTemporaryUploadObject repo scope (lu_temporaryObjectKey u))) (\<lambda>_.
      returnM (awaiting_result r)))) (result_ok input s) (\<lambda>_. safe s) s1"
  proof (rule wp_kept [OF replace_kept [OF kept_inv [OF k1] assms(2)] k1])
    fix x :: unit and s2
    assume k2: "kept s s2"
    show "wp (bindM (ignoring_errors (deleteTemporaryUploadObject repo scope (lu_temporaryObjectKey u))) (\<lambda>_.
        returnM (awaiting_result r))) (result_ok input s) (\<lambda>_. safe s) s2"
      by (rule wp_kept [OF delete_temporary_ignored [OF kept_inv [OF k2] assms(3)] k2])
        (use r in \<open>auto simp: wp_simps intro: awaiting_result_ok\<close>)
  qed (use r in simp)
qed

lemma new_upload_ok:
  assumes "input_ok input" and "validateHash (in_hash input) = Inr ()" and "inv s"
  shows "wp (bindM (createLeaseDrivenUpload input now None) (\<lambda>u.
      bindM (replaceOrConflict repo scope None u) (\<lambda>_. returnM u)))
    (\<lambda>u s'. kept s s' \<and> upload_ok sha (in_hash input) u) (\<lambda>_ s'. safe s s') s"
proof (rule wp_kept [OF create_kept [OF assms(1,3)] kept_refl [OF assms(3)]])
  fix u s1
  assume k1: "kept s s1" and u: "upload_ok sha (in_hash input) u \<and> lu_rejection u = None"
  show "wp (bindM (replaceOrConflict repo scope None u) (\<lambda>_. returnM u))
      (\<lambda>u s'. kept s s' \<and> upload_ok sha (in_hash input) u) (\<lambda>_. safe s) s1"
    by (rule wp_kept [OF replace_kept [OF kept_inv [OF k1] assms(2)] k1]) (use u in \<open>auto simp: wp_simps\<close>)
qed

lemma find_or_create_ok:
  assumes "input_ok input" and "validateHash (in_hash input) = Inr ()" and "inv s"
    and "\<forall>u. found = Some u \<longrightarrow> upload_ok sha (in_hash input) u"
  shows "wp (find_or_create_upload input found now)
    (\<lambda>u s'. kept s s' \<and> upload_ok sha (in_hash input) u) (\<lambda>_ s'. safe s s') s"
proof (cases found)
  case (Some u)
  then show ?thesis using assms(3,4) by (simp add: find_or_create_upload_def wp_simps kept_refl)
next
  case None
  show ?thesis
    unfolding find_or_create_upload_def None option.case inputD [OF assms(1)]
  proof (rule wp_kept [OF count_kept [OF assms(3)] kept_refl [OF assms(3)]])
    fix n s1
    assume k1: "kept s s1"
    have new: "wp (bindM (createLeaseDrivenUpload input now None) (\<lambda>u.
        bindM (replaceOrConflict repo scope None u) (\<lambda>_. returnM u)))
      (\<lambda>u s'. kept s s' \<and> upload_ok sha (in_hash input) u) (\<lambda>_. safe s) s1"
      by (rule wp_mono [OF new_upload_ok [OF assms(1,2) kept_inv [OF k1]]])
        (use k1 in \<open>auto intro: kept_trans safe_trans dest: kept_safe\<close>)
    show "wp (if n \<ge> (case in_maxActiveUploads input of None \<Rightarrow> DEFAULT_MAX_ACTIVE_UPLOADS | Some n \<Rightarrow> n)
          then throwM (nodeOpError 429 UPLOAD_LIMIT ''Space has too many active node uploads'')
          else bindM (createLeaseDrivenUpload input now None) (\<lambda>u.
          bindM (replaceOrConflict repo scope None u) (\<lambda>_. returnM u)))
      (\<lambda>u s'. kept s s' \<and> upload_ok sha (in_hash input) u) (\<lambda>_. safe s) s1"
      using new kept_safe [OF k1] unfolding wp_if wp_throwM by simp
  qed
qed

lemma validate_bytes_ok:
  assumes "input_ok input" and "validateHash (in_hash input) = Inr ()"
    and "upload_ok sha (in_hash input) u" and "kept s s0"
  shows "wp (validate_uploaded_bytes input u (clampLeaseDuration (in_leaseDurationMs input)) (in_now input) b)
    (result_ok input s) (\<lambda>_. safe s) s0"
proof (cases "validateLeaseDrivenUpload sha (in_hash input) b (in_limits input)")
  case (Inl e)
  then show ?thesis
    using kept_safe [OF assms(4)] by (simp add: validate_uploaded_bytes_def observe_validation [OF assms(1)] wp_simps)
next
  case (Inr r)
  show ?thesis
  proof (cases r)
    case (Inl rejection)
    then show ?thesis
      using Inr replace_rejected_ok [OF assms(1,2) _ assms(4)] assms(3)
      by (simp add: validate_uploaded_bytes_def observe_validation [OF assms(1)] wp_simps upload_ok_def)
  next
    case v: (Inr v)
    have g: "genuine_validation sha (in_hash input) v" using Inr v validated_genuine by simp
    have "wp (bindM (stage_or_conflict input u v) (\<lambda>upload'. publishValidatedLeaseDrivenUpload input upload' v
        (clampLeaseDuration (in_leaseDurationMs input)) (in_now input) (Some b))) (result_ok input s) (\<lambda>_. safe s) s0"
      by (rule wp_kept [OF stage_ok [OF assms(1,2) g kept_inv [OF assms(4)] assms(3)] assms(4)])
        (auto simp: upload_ok_def intro!: publish_ok [OF assms(1,2) _ g])
    then show ?thesis
      using Inr v by (simp add: validate_uploaded_bytes_def observe_validation [OF assms(1)] wp_bindM [of "liftM _"] wp_liftM)
  qed
qed

lemma continue_ok:
  assumes "input_ok input" and "validateHash (in_hash input) = Inr ()"
    and "upload_ok sha (in_hash input) u" and "kept s s0"
  shows "wp (continue_upload input u (clampLeaseDuration (in_leaseDurationMs input)) (in_now input))
    (result_ok input s) (\<lambda>_. safe s) s0"
proof -
  have temp: "temporary_key (lu_temporaryObjectKey u)" using assms(3) by (simp add: upload_ok_def)
  have read: "wp (bindM (readTemporaryUploadBytes repo scope (lu_temporaryObjectKey u)) (\<lambda>bytes.
        case bytes of None \<Rightarrow> returnM (awaiting_result u)
        | Some b \<Rightarrow> validate_uploaded_bytes input u (clampLeaseDuration (in_leaseDurationMs input)) (in_now input) b))
      (result_ok input s) (\<lambda>_. safe s) s1" if "kept s s1" for s1
    by (rule wp_kept [OF read_temporary_bytes_kept [OF kept_inv [OF that] temp] that])
      (auto simp: wp_simps split: option.splits intro: awaiting_result_ok [OF _ assms(3)] validate_bytes_ok [OF assms(1-3)])
  show ?thesis
    unfolding continue_upload_def inputD [OF assms(1)]
    by (rule wp_kept [OF read_temporary_kept [OF kept_inv [OF assms(4)] temp] assms(4)])
      (use assms(3) read in \<open>auto simp: wp_throwM wp_returnM kept_safe upload_ok_def split: option.splits
        intro: awaiting_result_ok [OF _ assms(3)] restart_ok [OF assms(1,2) temp] publish_ok [OF assms(1,2) temp]
          replace_rejected_ok [OF assms(1,2) temp]\<close>)
qed

lemma validate_orphan_ok:
  assumes "input_ok input" and "validateHash (in_hash input) = Inr ()"
    and "upload_ok sha (in_hash input) u" and "inv s"
  shows "wp (validate_orphan input u)
    (\<lambda>(u', v) s'. kept s s' \<and> upload_ok sha (in_hash input) u' \<and> genuine_validation sha (in_hash input) v) (\<lambda>_. safe s) s"
  unfolding validate_orphan_def inputD [OF assms(1)]
proof (rule wp_kept [OF read_bytes_kept [OF assms(4,2)] kept_refl [OF assms(4)]])
  fix bytes s1
  assume k1: "kept s s1"
  have staged: "wp (bindM (stage_or_conflict input u v) (\<lambda>upload'. returnM (upload', v)))
      (\<lambda>(u', v) s'. kept s s' \<and> upload_ok sha (in_hash input) u' \<and> genuine_validation sha (in_hash input) v)
      (\<lambda>_. safe s) s1" if "genuine_validation sha (in_hash input) v" for v
    by (rule wp_kept [OF stage_ok [OF assms(1,2) that kept_inv [OF k1] assms(3)] k1])
      (use that in \<open>auto simp: wp_simps\<close>)
  show "wp (case bytes of None \<Rightarrow> throwM (nodeOpError 503 STORAGE ''Canonical object disappeared during recovery'')
      | Some b \<Rightarrow> bindM (observeLeaseDrivenNodeValidation input b) (\<lambda>validated. case validated of
           Inl _ \<Rightarrow> throwM (nodeOpError 503 STORAGE ''Canonical orphan failed integrity validation'')
         | Inr v \<Rightarrow> bindM (stage_or_conflict input u v) (\<lambda>upload'. returnM (upload', v))))
      (\<lambda>(u', v) s'. kept s s' \<and> upload_ok sha (in_hash input) u' \<and> genuine_validation sha (in_hash input) v)
      (\<lambda>_. safe s) s1"
    using staged validated_genuine kept_safe [OF k1]
    by (auto simp: observe_validation [OF assms(1)] wp_bindM [of "liftM _"] wp_liftM wp_throwM split: option.splits sum.splits)
qed

lemma recover_ok:
  assumes "input_ok input" and "validateHash (in_hash input) = Inr ()"
    and "\<forall>u. found = Some u \<longrightarrow> upload_ok sha (in_hash input) u" and "kept s s0"
  shows "wp (recover_canonical input found (clampLeaseDuration (in_leaseDurationMs input)) (in_now input))
    (result_ok input s) (\<lambda>_. safe s) s0"
proof -
  have found: "wp (case found of Some u \<Rightarrow> returnM u
      | None \<Rightarrow> bindM (createLeaseDrivenUpload input (in_now input) None) (\<lambda>u.
           bindM (replaceOrConflict repo scope None u) (\<lambda>_. returnM u)))
      (\<lambda>u s'. kept s0 s' \<and> upload_ok sha (in_hash input) u) (\<lambda>_ s'. safe s0 s') s0"
    using new_upload_ok [OF assms(1,2) kept_inv [OF assms(4)]] assms(3) kept_refl [OF kept_inv [OF assms(4)]]
    by (cases found) (auto simp: wp_returnM)
  show ?thesis
    unfolding recover_canonical_def inputD [OF assms(1)]
  proof (rule wp_kept [OF found assms(4)])
    fix u s1
    assume k1: "kept s s1" and u: "upload_ok sha (in_hash input) u"
    have valid: "wp (case lu_validation u of Some v \<Rightarrow> returnM (u, v) | None \<Rightarrow> validate_orphan input u)
        (\<lambda>r s'. kept s1 s' \<and> (upload_ok sha (in_hash input) (fst r) \<and> genuine_validation sha (in_hash input) (snd r)))
        (\<lambda>_ s'. safe s1 s') s1"
      using validate_orphan_ok [OF assms(1,2) u kept_inv [OF k1]] u kept_refl [OF kept_inv [OF k1]]
      by (auto simp: wp_returnM upload_ok_def split: option.splits elim!: wp_mono)
    show "wp (bindM (case lu_validation u of Some v \<Rightarrow> returnM (u, v) | None \<Rightarrow> validate_orphan input u)
        (\<lambda>(upload', validation). publishValidatedLeaseDrivenUpload input upload' validation
           (clampLeaseDuration (in_leaseDurationMs input)) (in_now input) None)) (result_ok input s) (\<lambda>_. safe s) s1"
      by (rule wp_kept [OF valid k1]) (auto simp: upload_ok_def intro!: publish_ok [OF assms(1,2)])
  qed
qed

lemma committed_ok:
  assumes "input_ok input" and "validateHash (in_hash input) = Inr ()" and "kept s s0"
    and "lease_of s0 (in_hash input) \<noteq> None" and "canonical \<noteq> None \<Longrightarrow> stored s0 (in_hash input)"
  shows "wp (lease_committed_node input e canonical (clampLeaseDuration (in_leaseDurationMs input)))
    (result_ok input s) (\<lambda>_. safe s) s0"
proof (cases "canonical = None")
  case True
  then show ?thesis using kept_safe [OF assms(3)] by (simp add: lease_committed_node_def wp_simps)
next
  case False
  let ?lease = "nextNodeLease (Some e) (clampLeaseDuration (in_leaseDurationMs input)) (in_now input)"
  have "wp (bindM (renewNodeLease repo scope (in_hash input) ?lease) (\<lambda>_.
        returnM (Ready (lease_result (in_hash input) ?lease)))) (result_ok input s) (\<lambda>_. safe s) s0"
    unfolding wp_bindM
    by (rule wp_mono [OF renew [OF kept_inv [OF assms(3)] assms(2,4) assms(5) [OF False]]])
      (use assms False in \<open>auto simp: wp_simps result_ok_def lease_result_def kept_def safe_def next_lease_expiry
        intro: rel_trans\<close>)
  then show ?thesis using False by (auto simp: lease_committed_node_def inputD [OF assms(1)] Let_def)
qed

lemma uncommitted_ok:
  assumes "input_ok input" and "validateHash (in_hash input) = Inr ()" and "kept s s0"
  shows "wp (lease_uncommitted_node input canonical (clampLeaseDuration (in_leaseDurationMs input)))
    (result_ok input s) (\<lambda>_. safe s) s0"
  unfolding lease_uncommitted_node_def inputD [OF assms(1)]
proof (rule wp_kept [OF read_upload_kept [OF kept_inv [OF assms(3)] assms(2)] assms(3)])
  let ?d = "clampLeaseDuration (in_leaseDurationMs input)"
  fix found s1
  assume k1: "kept s s1" and ok: "\<forall>u. found = Some u \<longrightarrow> upload_ok sha (in_hash input) u"
  have "wp (bindM (find_or_create_upload input found (in_now input)) (\<lambda>upload.
        continue_upload input upload ?d (in_now input))) (result_ok input s) (\<lambda>_. safe s) s1"
    by (rule wp_kept [OF find_or_create_ok [OF assms(1,2) kept_inv [OF k1] ok] k1])
      (rule continue_ok [OF assms(1,2)])
  then show "wp (if canonical \<noteq> None then recover_canonical input found ?d (in_now input)
      else bindM (find_or_create_upload input found (in_now input)) (\<lambda>upload.
        continue_upload input upload ?d (in_now input))) (result_ok input s) (\<lambda>_. safe s) s1"
    using recover_ok [OF assms(1,2) ok k1] by simp
qed

text \<open>
  The lease-driven upload, whatever fails on the way: the repository's invariant is kept, and
  a result means what it says.
\<close>

lemma lease_driven_upload_ok:
  assumes "input_ok input" and "inv s"
  shows "wp (leaseDrivenNodeUpload input) (result_ok input s) (\<lambda>_. safe s) s"
proof (cases "validateHash (in_hash input)")
  case (Inl e)
  then show ?thesis
    using kept_safe [OF kept_refl [OF assms(2)]]
    by (simp add: leaseDrivenNodeUpload_def validateLeaseHash_def wp_simps)
next
  case (Inr u)
  then have hash: "validateHash (in_hash input) = Inr ()" by simp
  let ?d = "clampLeaseDuration (in_leaseDurationMs input)"
  let ?rest = "\<lambda>existing canonical. case existing of Some e \<Rightarrow> lease_committed_node input e canonical ?d
      | None \<Rightarrow> lease_uncommitted_node input canonical ?d"
  have "wp (bindM (readCanonicalNodeLease repo scope (in_hash input)) (\<lambda>existing.
      bindM (readCanonicalObject repo scope (in_hash input)) (?rest existing))) (result_ok input s) (\<lambda>_. safe s) s"
  proof (rule wp_kept [OF read_lease_kept [OF assms(2) hash] kept_refl [OF assms(2)]])
    fix existing :: "canonicalNodeLeaseRecord option" and s1
    assume k1: "kept s s1" and ex: "map_option (\<lambda>x. \<lparr>leaseStartedAt = leaseStartedAt x, leaseExpiresAt = leaseExpiresAt x\<rparr>)
        existing = lease_of s (in_hash input)"
    show "wp (bindM (readCanonicalObject repo scope (in_hash input)) (?rest existing)) (result_ok input s) (\<lambda>_. safe s) s1"
    proof (rule wp_kept [OF read_object_kept [OF kept_inv [OF k1] hash] k1])
      fix canonical :: "canonicalOrphanObject option" and s2
      assume k2: "kept s s2" and c: "(canonical \<noteq> None) = stored s1 (in_hash input)"
      have same: "lease_of s2 = lease_of s" "stored s2 = stored s1" using k1 k2 by (simp_all add: kept_def)
      have "wp (lease_committed_node input e canonical ?d) (result_ok input s) (\<lambda>_. safe s) s2" if "existing = Some e" for e
        by (rule committed_ok [OF assms(1) hash k2]) (use ex [symmetric] c same that in auto)
      then show "wp (?rest existing canonical) (result_ok input s) (\<lambda>_. safe s) s2"
        using uncommitted_ok [OF assms(1) hash k2] by (cases existing) auto
    qed
  qed
  then show ?thesis
    unfolding leaseDrivenNodeUpload_def Let_def inputD [OF assms(1)] validateLeaseHash_def hash
    by (simp add: wp_bindM [of "returnM _"] wp_returnM)
qed

end

end
