(* ===== verification/Js_Values.thy ===== *)
theory Js_Values
  imports Prelude
begin

text \<open>
  The JavaScript values a request body can hold after \<open>JSON.parse\<close>, and \<open>undefined\<close> for a
  missing property.  A number carries its mathematical value when that is an integer, and the
  text \<open>String(n)\<close> prints; that is all the modelled code asks of it.
\<close>

datatype jsval =
    Undefined
  | Null
  | Boolean bool
  | Number "int option" string
  | Str string
  | Arr "jsval list"
  | Obj "(string \<times> jsval) list"

text \<open>\<open>Number.isSafeInteger(v)\<close> and the value it then has.\<close>

definition safe_integer :: "jsval \<Rightarrow> int option" where
  "safe_integer v = (case v of
       Number (Some n) _ \<Rightarrow> if isSafeInteger n then Some n else None
     | _ \<Rightarrow> None)"

text \<open>\<open>String(v)\<close>; the elements of an array are joined by commas, its \<open>null\<close>s print empty.\<close>

fun join :: "string \<Rightarrow> string list \<Rightarrow> string" where
  "join sep [] = []"
| "join sep [x] = x"
| "join sep (x # y # xs) = x @ sep @ join sep (y # xs)"

fun js_String :: "jsval \<Rightarrow> string" where
  "js_String Undefined = ''undefined''"
| "js_String Null = ''null''"
| "js_String (Boolean b) = (if b then ''true'' else ''false'')"
| "js_String (Number _ shown) = shown"
| "js_String (Str s) = s"
| "js_String (Arr vs) = join '','' (map (\<lambda>v. if v = Null \<or> v = Undefined then [] else js_String v) vs)"
| "js_String (Obj _) = ''[object Object]''"

text \<open>\<open>o.key\<close> on an object: the last binding of a key counts.\<close>

definition js_get :: "jsval \<Rightarrow> string \<Rightarrow> jsval" where
  "js_get v key = (case v of
       Obj fields \<Rightarrow> (case map_of (rev fields) key of Some x \<Rightarrow> x | None \<Rightarrow> Undefined)
     | _ \<Rightarrow> Undefined)"

text \<open>\<open>Object.entries(o)\<close> for keys that are not array indices: one entry a key, in the order of
  first insertion, with the last value.\<close>

definition js_entries :: "(string \<times> jsval) list \<Rightarrow> (string \<times> jsval) list" where
  "js_entries fields = map (\<lambda>key. (key, the (map_of (rev fields) key))) (rev (remdups (rev (map fst fields))))"

lemma remdups_rev_distinct [simp]: "distinct (rev (remdups (rev xs)))"
  by simp

lemma js_entries_distinct: "distinct (map fst (js_entries fields))"
  by (simp add: js_entries_def o_def)

end
