(* ===== verification/Root_Refs.thy ===== *)
theory Root_Refs
  imports Js_Values Service_Errors Codec_Validation
begin

text \<open>
  Root references, \<^verbatim>\<open>packages/service/src/root-refs.ts\<close>: the request body and its
  canonicalization, the update \<open>applyRootRefsUpdate\<close> over a repository record, and the bounded
  retry around it.  \<open>JSON.parse\<close> and SHA-256 are parameters.
\<close>

section \<open>Limits and codes\<close>

definition CAS_MAX_REQUEST_ID_LENGTH :: nat where "CAS_MAX_REQUEST_ID_LENGTH = 256"
definition CAS_MAX_ROOT_REF_CHANGES :: nat where "CAS_MAX_ROOT_REF_CHANGES = 1000"
definition CAS_MAX_ROOT_REF_DELTA :: int where "CAS_MAX_ROOT_REF_DELTA = 1000000"

definition ROOT_REF_INVALID :: string where "ROOT_REF_INVALID = ''ROOT_REF_INVALID''"
definition NODE_NOT_FOUND :: string where "NODE_NOT_FOUND = ''NODE_NOT_FOUND''"
definition NODE_NOT_READY :: string where "NODE_NOT_READY = ''NODE_NOT_READY''"
definition NEGATIVE_AGGREGATE :: string where "NEGATIVE_AGGREGATE = ''NEGATIVE_AGGREGATE''"
definition IDEMPOTENCY_CONFLICT :: string where "IDEMPOTENCY_CONFLICT = ''IDEMPOTENCY_CONFLICT''"
definition ROOT_REF_BUSY :: string where "ROOT_REF_BUSY = ''ROOT_REF_BUSY''"

definition invalid_refs :: "string \<Rightarrow> exn" where
  "invalid_refs message = RootRefsValidationError 400 ROOT_REF_INVALID message"

section \<open>The request body\<close>

text \<open>\<open>/"([0-9a-f]{64})"\s*:/\<close> at the start of a text: the hash and the text after the match.\<close>

definition match_hash_key :: "string \<Rightarrow> (string \<times> string) option" where
  "match_hash_key s =
     (case s of
        [] \<Rightarrow> None
      | q # rest \<Rightarrow>
          let hash = take 64 rest; after = drop 64 rest in
          if q = CHR 0x22 \<and> length hash = 64 \<and> list_all is_lower_hex hash then
            (case after of
               [] \<Rightarrow> None
             | q' # after' \<Rightarrow>
                 if q' \<noteq> CHR 0x22 then None
                 else (case dropWhile is_js_space after' of
                         c # tail \<Rightarrow> if c = CHR '':'' then Some (hash, tail) else None
                       | [] \<Rightarrow> None))
          else None)"

text \<open>All matches of the global regular expression, from left to right.\<close>

lemma dropWhile_length: "length (dropWhile P xs) \<le> length xs"
  by (induction xs) auto

lemma match_hash_key_shorter: "match_hash_key s = Some (h, tail) \<Longrightarrow> length tail < length s"
proof -
  assume m: "match_hash_key s = Some (h, tail)"
  then obtain q rest q' after' where s: "s = q # rest" "drop 64 rest = q' # after'" "dropWhile is_js_space after' = CHR '':'' # tail"
    by (auto simp: match_hash_key_def Let_def split: list.splits if_splits)
  have "length after' < length rest" using arg_cong [OF s(2), of length] by simp
  moreover have "length tail < length after'"
    using dropWhile_length [of is_js_space after'] by (simp add: s(3))
  ultimately show ?thesis by (simp add: s(1))
qed

function hash_keys :: "string \<Rightarrow> string list" where
  "hash_keys s =
     (case match_hash_key s of
        Some (hash, tail) \<Rightarrow> hash # hash_keys tail
      | None \<Rightarrow> (case s of [] \<Rightarrow> [] | _ # rest \<Rightarrow> hash_keys rest))"
  by pat_completeness auto
termination
  by (relation "measure length") (auto simp: match_hash_key_shorter)

declare hash_keys.simps [simp del]

fun first_duplicate :: "string list \<Rightarrow> string list \<Rightarrow> string option" where
  "first_duplicate seen [] = None"
| "first_duplicate seen (x # xs) = (if x \<in> set seen then Some x else first_duplicate (x # seen) xs)"

definition parseRootRefsBody :: "(string \<Rightarrow> jsval option) \<Rightarrow> string \<Rightarrow> exn + jsval \<times> jsval" where
  "parseRootRefsBody json_parse text =
     (case first_duplicate [] (hash_keys text) of
        Some hash \<Rightarrow> Inl (invalid_refs (''duplicate JSON key: '' @ hash))
      | None \<Rightarrow>
          (case json_parse text of
             None \<Rightarrow> Inl (invalid_refs ''request body is not valid JSON'')
           | Some (Obj kvs) \<Rightarrow> Inr (js_get (Obj kvs) ''requestId'', js_get (Obj kvs) ''changes'')
           | Some _ \<Rightarrow> Inl (invalid_refs ''request body must be an object'')))"

section \<open>Canonicalization\<close>

record canonicalRootRefsUpdate =
  cu_requestId :: string
  cu_changesJson :: string
  cu_payloadHash :: string
  cu_entries :: "(string \<times> int) list"

text \<open>\<open>JSON.stringify(Object.fromEntries(entries))\<close> for hash keys and small integers.\<close>

definition changes_json :: "(string \<times> int) list \<Rightarrow> string" where
  "changes_json entries =
     ''{'' @ join '','' (map (\<lambda>(hash, delta). [CHR 0x22] @ hash @ [CHR 0x22] @ '':'' @ show_int delta) entries) @ ''}''"

definition sha256Hex :: "(bytes \<Rightarrow> bytes) \<Rightarrow> string \<Rightarrow> string" where
  "sha256Hex sha256 value = concat (map byte_to_hex (sha256 (textEncode value)))"

text \<open>One change: its hash and its delta are checked in this order.\<close>

definition check_change :: "string \<times> jsval \<Rightarrow> exn + string \<times> int" where
  "check_change change =
     (case change of (hash, delta) \<Rightarrow>
        case validateHash hash of
          Inl _ \<Rightarrow> Inl (invalid_refs (''invalid hash: '' @ hash))
        | Inr _ \<Rightarrow>
            (case safe_integer delta of
               None \<Rightarrow> Inl (invalid_refs (''invalid delta for '' @ hash @ '': '' @ js_String delta))
             | Some n \<Rightarrow>
                 if n = 0 then Inl (invalid_refs (''invalid delta for '' @ hash @ '': '' @ js_String delta))
                 else if \<bar>n\<bar> > CAS_MAX_ROOT_REF_DELTA
                 then Inl (invalid_refs (''delta for '' @ hash @ '' exceeds the per-hash bound''))
                 else Inr (hash, n)))"

fun check_changes :: "(string \<times> jsval) list \<Rightarrow> exn + (string \<times> int) list" where
  "check_changes [] = Inr []"
| "check_changes (change # rest) =
     bindE (check_change change) (\<lambda>entry. bindE (check_changes rest) (\<lambda>entries. Inr (entry # entries)))"

definition canonicalizeRootRefsUpdate ::
  "(bytes \<Rightarrow> bytes) \<Rightarrow> jsval \<Rightarrow> jsval \<Rightarrow> exn + canonicalRootRefsUpdate" where
  "canonicalizeRootRefsUpdate sha256 requestId changes =
     (case requestId of
        Str rid \<Rightarrow>
          if rid = [] then Inl (invalid_refs ''requestId must be a non-empty string'')
          else if length rid > CAS_MAX_REQUEST_ID_LENGTH
          then Inl (invalid_refs ''requestId exceeds 256 characters'')
          else
            (case changes of
               Obj kvs \<Rightarrow>
                 bindE (check_changes (js_entries kvs)) (\<lambda>entries.
                 if entries = [] then Inl (invalid_refs ''changes must not be empty'')
                 else if length entries > CAS_MAX_ROOT_REF_CHANGES
                 then Inl (invalid_refs ''changes exceeds the limit of 1000'')
                 else
                   let sorted_entries = sort_key fst entries;
                       text = changes_json sorted_entries
                   in Inr \<lparr>cu_requestId = rid, cu_changesJson = text,
                           cu_payloadHash = sha256Hex sha256 text, cu_entries = sorted_entries\<rparr>)
             | _ \<Rightarrow> Inl (invalid_refs ''changes must be an object''))
      | _ \<Rightarrow> Inl (invalid_refs ''requestId must be a non-empty string''))"

text \<open>The change a list of entries makes to the count of one hash.\<close>

definition change_of :: "(string \<times> int) list \<Rightarrow> string \<Rightarrow> int" where
  "change_of entries h = sum_list (map snd (filter (\<lambda>(h', _). h' = h) entries))"

section \<open>The repository\<close>

datatype commitOutcome = Committed | Revision_conflict

record rootRefCommitPlan =
  rp_scope :: appSpaceScope
  rp_requestId :: string
  rp_payloadHash :: string
  rp_changesJson :: string
  rp_entries :: "(string \<times> int) list"
  rp_expectedRevision :: int
  rp_revision :: int
  rp_projections :: "(string \<times> int option) list"
  rp_appliedAt :: int

record 's rootRefRepository =
  findRequest :: "appSpaceScope \<Rightarrow> string \<Rightarrow> ('s, exn, (string \<times> int) option) prog"
  readNodes :: "appSpaceScope \<Rightarrow> string list \<Rightarrow> ('s, exn, (string \<times> int) list) prog"
  findUnreadyNode :: "appSpaceScope \<Rightarrow> string list \<Rightarrow> ('s, exn, string option) prog"
  readAppState :: "appSpaceScope \<Rightarrow> ('s, exn, int \<times> (string \<times> int) list) prog"
  commit :: "rootRefCommitPlan \<Rightarrow> ('s, exn, commitOutcome) prog"

record rootRefsUpdateResult =
  rr_idempotent :: bool
  rr_revision :: int

section \<open>The update\<close>

definition repositoryCall :: "('s, exn, 'a) prog \<Rightarrow> ('s, exn, 'a) prog" where
  "repositoryCall operation = catchM operation (\<lambda>error. case error of
       RootRefsValidationError _ _ _ \<Rightarrow> throwM error
     | RootRefsRetryableError _ \<Rightarrow> throwM error
     | _ \<Rightarrow> throwM (RootRefsRetryableError (exn_message error)))"

text \<open>The checks on every entry; \<open>nodes\<close> is the map of the nodes that were found.\<close>

fun check_entries :: "(string \<times> int) list \<Rightarrow> (string \<times> int) list \<Rightarrow> exn + unit" where
  "check_entries nodes [] = Inr ()"
| "check_entries nodes ((hash, delta) # rest) =
     (case map_of (rev nodes) hash of
        None \<Rightarrow> Inl (RootRefsValidationError 404 NODE_NOT_FOUND (''node '' @ hash @ '' not found''))
      | Some rootRefCount \<Rightarrow>
          if rootRefCount + delta < 0
          then Inl (RootRefsValidationError 409 NEGATIVE_AGGREGATE (''root ref count would go negative for '' @ hash))
          else if \<not> isSafeInteger (rootRefCount + delta)
          then Inl (invalid_refs (''root ref count would overflow for '' @ hash))
          else check_entries nodes rest)"

text \<open>\<open>entries.map(\<dots>)\<close> with its check that the projection agrees with the aggregate.\<close>

fun plan_projections ::
  "(string \<times> int) list \<Rightarrow> (string \<times> int) list \<Rightarrow> (string \<times> int) list \<Rightarrow> exn + (string \<times> int option) list" where
  "plan_projections nodes balances [] = Inr []"
| "plan_projections nodes balances ((hash, delta) # rest) =
     (let bal = (case map_of (rev balances) hash of None \<Rightarrow> 0 | Some n \<Rightarrow> n) in
      if Some bal \<noteq> map_of (rev nodes) hash
      then Inl (RootRefsValidationError 409 ROOT_REF_BUSY ''Root Ref projection differs from aggregate'')
      else bindE (plan_projections nodes balances rest) (\<lambda>projections.
        Inr ((hash, if bal + delta = 0 then None else Some (bal + delta)) # projections)))"

text \<open>The part after the readiness check: plan and commit.\<close>

definition plan_and_commit ::
  "'s rootRefRepository \<Rightarrow> appSpaceScope \<Rightarrow> canonicalRootRefsUpdate \<Rightarrow> ('s, exn, int) prog \<Rightarrow> (string \<times> int) list
   \<Rightarrow> ('s, exn, rootRefsUpdateResult) prog" where
  "plan_and_commit repository scope canonical now nodes =
     bindM (repositoryCall (readAppState repository scope)) (\<lambda>(appRevision, balances).
     if \<not> isSafeInteger (appRevision + 1)
     then throwM (RootRefsValidationError 409 ROOT_REF_BUSY ''App revision exhausted'')
     else
     bindM (liftM (plan_projections nodes balances (cu_entries canonical))) (\<lambda>projections.
     bindM now (\<lambda>appliedAt.
     bindM (repositoryCall (commit repository
              \<lparr>rp_scope = scope, rp_requestId = cu_requestId canonical, rp_payloadHash = cu_payloadHash canonical,
               rp_changesJson = cu_changesJson canonical, rp_entries = cu_entries canonical,
               rp_expectedRevision = appRevision, rp_revision = appRevision + 1,
               rp_projections = projections, rp_appliedAt = appliedAt\<rparr>)) (\<lambda>outcome.
     if outcome = Revision_conflict
     then throwM (RootRefsRetryableError ''App revision allocation lost a conflict'')
     else returnM \<lparr>rr_idempotent = False, rr_revision = appRevision + 1\<rparr>))))"

definition applyRootRefsUpdate ::
  "'s rootRefRepository \<Rightarrow> appSpaceScope \<Rightarrow> canonicalRootRefsUpdate \<Rightarrow> ('s, exn, int) prog
   \<Rightarrow> ('s, exn, rootRefsUpdateResult) prog" where
  "applyRootRefsUpdate repository scope canonical now =
     bindM (repositoryCall (findRequest repository scope (cu_requestId canonical))) (\<lambda>existing.
     case existing of
       Some (payloadHash, revision) \<Rightarrow>
         if payloadHash \<noteq> cu_payloadHash canonical
         then throwM (RootRefsValidationError 409 IDEMPOTENCY_CONFLICT ''requestId reused with a different payload'')
         else returnM \<lparr>rr_idempotent = True, rr_revision = revision\<rparr>
     | None \<Rightarrow>
         bindM (repositoryCall (readNodes repository scope (map fst (cu_entries canonical)))) (\<lambda>nodes.
         bindM (liftM (check_entries nodes (cu_entries canonical))) (\<lambda>_.
         let positiveHashes = map fst (filter (\<lambda>(_, delta). delta > 0) (cu_entries canonical)) in
         bindM (if positiveHashes = [] then returnM None
                else repositoryCall (findUnreadyNode repository scope positiveHashes)) (\<lambda>unreadyHash.
         case unreadyHash of
           Some hash \<Rightarrow> throwM (RootRefsValidationError 409 NODE_NOT_READY (''node '' @ hash @ '' is not ready''))
         | None \<Rightarrow> plan_and_commit repository scope canonical now nodes))))"

section \<open>Retries\<close>

record rootRefsRetryOptions =
  ro_maxAttempts :: "int option"
  ro_baseDelayMs :: "int option"
  ro_maxDelayMs :: "int option"
  ro_jitter :: "bool option"

definition default_retry_options :: rootRefsRetryOptions where
  "default_retry_options = \<lparr>ro_maxAttempts = Some 5, ro_baseDelayMs = Some 25, ro_maxDelayMs = Some 800, ro_jitter = Some True\<rparr>"

definition option_or_default :: "(rootRefsRetryOptions \<Rightarrow> 'a option) \<Rightarrow> rootRefsRetryOptions \<Rightarrow> 'a" where
  "option_or_default field options = (case field options of Some x \<Rightarrow> x | None \<Rightarrow> the (field default_retry_options))"

text \<open>
  The delay before the next attempt.  \<open>Math.random()\<close> is a multiple \<open>r\<close> of \<open>2 ^ -53\<close> in
  \<open>[0, 1)\<close>, so \<open>Math.floor(delay * (0.5 + Math.random() * 0.5))\<close> is the quotient below.
\<close>

definition retry_delay :: "rootRefsRetryOptions \<Rightarrow> nat \<Rightarrow> int \<Rightarrow> int" where
  "retry_delay options attempt r =
     (let delay = min (option_or_default ro_maxDelayMs options) (option_or_default ro_baseDelayMs options * 2 ^ (attempt - 1))
      in if option_or_default ro_jitter options then delay * (2 ^ 53 + r) div 2 ^ 54 else delay)"

definition retryable :: "exn \<Rightarrow> bool" where
  "retryable error = (case error of RootRefsRetryableError _ \<Rightarrow> True | _ \<Rightarrow> False)"

text \<open>The loop from the given attempt on; the last admissible attempt throws what it gets.\<close>

function retry_loop ::
  "('s, exn, 'a) prog \<Rightarrow> rootRefsRetryOptions \<Rightarrow> ('s, exn, int) prog \<Rightarrow> (int \<Rightarrow> ('s, exn, unit) prog) \<Rightarrow> nat
   \<Rightarrow> ('s, exn, 'a) prog" where
  "retry_loop operation options random sleep attempt =
     catchM operation (\<lambda>error.
       if \<not> retryable error \<or> int attempt \<ge> option_or_default ro_maxAttempts options then throwM error
       else
       bindM random (\<lambda>r.
       bindM (sleep (retry_delay options attempt r)) (\<lambda>_.
       retry_loop operation options random sleep (attempt + 1))))"
  by pat_completeness auto
termination
  by (relation "measure (\<lambda>(_, options, _, _, attempt). nat (option_or_default ro_maxAttempts options - int attempt))") auto

declare retry_loop.simps [simp del]

definition withRootRefsRetry ::
  "('s, exn, 'a) prog \<Rightarrow> rootRefsRetryOptions \<Rightarrow> ('s, exn, int) prog \<Rightarrow> (int \<Rightarrow> ('s, exn, unit) prog) \<Rightarrow> ('s, exn, 'a) prog" where
  "withRootRefsRetry operation options random sleep = retry_loop operation options random sleep 1"

end
