(* ===== verification/Store.thy ===== *)
theory Store
  imports Cf_Node_Lease Lease_Contract Root_Refs
begin

text \<open>
  The invariant of a Space's durable state, across the database and the bucket:

  \<^item> the node graph (\<open>graph_ok\<close>): every node row describes a genuine canonical node with its
    hash, its edges are that node's children in order, both ends of every edge exist, and the
    two reference counts are the number of edges to the node and its root-reference balance;
  \<^item> uploads (\<open>uploads_ok\<close>): staged validations are genuine, temporary keys are temporary;
  \<^item> the usage projection is exact (\<open>usage_exact\<close>);
  \<^item> canonical objects have the digest their key says (\<open>objects_ok\<close>);
  \<^item> durability (\<open>durable\<close>): a node that is referenced by a parent or a root, or leased, has
    its canonical object.

  The lemmas here are about single statements; the adapters' theories put them together.
\<close>

section \<open>Keys\<close>

text \<open>Scopes as the control plane issues them: an App id has no slash.\<close>

definition scope_ok :: "appSpaceScope \<Rightarrow> bool" where
  "scope_ok sc \<longleftrightarrow> CHR ''/'' \<notin> set (appId sc)"

lemma canonical_node_key [simp]: "canonical_key (node_object_key sc h)"
  by (simp add: canonical_key_def node_object_key_def appCanonicalNodeKey_def)

lemma temporary_not_canonical: "temporary_key k \<Longrightarrow> \<not> canonical_key k"
proof
  assume t: "temporary_key k" and c: "canonical_key k"
  have "take 5 k = take 5 (take 9 k)" by simp
  with t c show False by (simp add: temporary_key_def canonical_key_def)
qed

lemma append_slash_inject:
  assumes "xs @ CHR ''/'' # ys = xs' @ CHR ''/'' # ys'" and "CHR ''/'' \<notin> set xs" and "CHR ''/'' \<notin> set xs'"
  shows "xs = xs' \<and> ys = ys'"
proof -
  have tw: "takeWhile (\<lambda>c. c \<noteq> CHR ''/'') (zs @ CHR ''/'' # ws) = zs" if "CHR ''/'' \<notin> set zs" for zs ws :: string
    using that by (subst takeWhile_append2) auto
  from tw [OF assms(2), of ys] tw [OF assms(3), of ys'] assms(1) show ?thesis by auto
qed

lemma node_object_key_inject:
  assumes "node_object_key sc h = node_object_key sc' h'" and "scope_ok sc" and "scope_ok sc'"
    and "length h = length h'"
  shows "sc = sc' \<and> h = h'"
proof -
  have "appId sc @ CHR ''/'' # (''spaces/'' @ spaceId sc @ ''/nodes-v2/'' @ h)
      = appId sc' @ CHR ''/'' # (''spaces/'' @ spaceId sc' @ ''/nodes-v2/'' @ h')"
    using assms(1) by (simp add: node_object_key_def appCanonicalNodeKey_def)
  from append_slash_inject [OF this] assms(2,3) have app: "appId sc = appId sc'"
    and rest: "spaceId sc @ ''/nodes-v2/'' @ h = spaceId sc' @ ''/nodes-v2/'' @ h'"
    unfolding scope_ok_def by simp_all
  have "(spaceId sc @ ''/nodes-v2/'') @ h = (spaceId sc' @ ''/nodes-v2/'') @ h'" using rest by simp
  then have "spaceId sc @ ''/nodes-v2/'' = spaceId sc' @ ''/nodes-v2/''" "h = h'"
    using assms(4) append_eq_append_conv by metis+
  with app show ?thesis by (auto intro: appSpaceScope.equality)
qed

section \<open>The node graph\<close>

definition has_refs :: "node_key \<Rightarrow> string list \<Rightarrow> db \<Rightarrow> bool" where
  "has_refs k refs d \<longleftrightarrow> (\<forall>i. map_of (cas_edges d) (k, i) = (if i < length refs then Some (refs ! i) else None))"

definition child_edges :: "node_key \<Rightarrow> db \<Rightarrow> int" where
  "child_edges k d = sum_where (\<lambda>(p, i). fst p = fst k) (\<lambda>c. if c = snd k then 1 else 0) (cas_edges d)"

definition balance :: "node_key \<Rightarrow> db \<Rightarrow> int" where
  "balance k d = (case map_of (cas_app_root_refs d) k of None \<Rightarrow> 0 | Some n \<Rightarrow> n)"

text \<open>The metadata of a row and its edges are those of a canonical node with this hash.\<close>

definition node_genuine :: "(bytes \<Rightarrow> bytes) \<Rightarrow> db \<Rightarrow> node_key \<Rightarrow> node_row \<Rightarrow> bool" where
  "node_genuine sha d k r \<longleftrightarrow> scope_ok (fst k) \<and> ready r \<and>
     (\<exists>n refs. genuine sha (snd k) n (content_size r) (content_type r) refs \<and> has_refs k refs d
        \<and> (\<forall>m. canonical_stored_bytes r = Some m \<longrightarrow> m = n))"

definition nodes_genuine :: "(bytes \<Rightarrow> bytes) \<Rightarrow> db \<Rightarrow> bool" where
  "nodes_genuine sha d \<longleftrightarrow> (\<forall>k r. map_of (cas_nodes d) k = Some r \<longrightarrow> node_genuine sha d k r)"

definition edges_closed :: "db \<Rightarrow> bool" where
  "edges_closed d \<longleftrightarrow> keys_distinct (cas_edges d) \<and>
     (\<forall>k i c. map_of (cas_edges d) (k, i) = Some c \<longrightarrow>
        map_of (cas_nodes d) k \<noteq> None \<and> map_of (cas_nodes d) (fst k, c) \<noteq> None)"

lemma edges_closedD:
  assumes "edges_closed d" and "map_of (cas_edges d) (k, i) = Some c"
  shows "map_of (cas_nodes d) k \<noteq> None" and "map_of (cas_nodes d) (fst k, c) \<noteq> None"
  using assms unfolding edges_closed_def by blast+

lemma edges_closedI:
  assumes "keys_distinct (cas_edges d)"
    and "\<And>k i c. map_of (cas_edges d) (k, i) = Some c \<Longrightarrow> map_of (cas_nodes d) k \<noteq> None \<and> map_of (cas_nodes d) (fst k, c) \<noteq> None"
  shows "edges_closed d"
  using assms unfolding edges_closed_def by blast

definition child_counts :: "db \<Rightarrow> bool" where
  "child_counts d \<longleftrightarrow> (\<forall>k r. map_of (cas_nodes d) k = Some r \<longrightarrow> child_ref_count r = child_edges k d)"

definition root_counts :: "db \<Rightarrow> bool" where
  "root_counts d \<longleftrightarrow> keys_distinct (cas_app_root_refs d)
     \<and> (\<forall>k n. map_of (cas_app_root_refs d) k = Some n \<longrightarrow> n > 0 \<and> map_of (cas_nodes d) k \<noteq> None)
     \<and> (\<forall>k r. map_of (cas_nodes d) k = Some r \<longrightarrow> root_ref_count r = balance k d)"

definition graph_ok :: "(bytes \<Rightarrow> bytes) \<Rightarrow> db \<Rightarrow> bool" where
  "graph_ok sha d \<longleftrightarrow> nodes_genuine sha d \<and> edges_closed d \<and> child_counts d \<and> root_counts d"

section \<open>Uploads\<close>

definition upload_row_ok :: "(bytes \<Rightarrow> bytes) \<Rightarrow> node_key \<Rightarrow> upload_row \<Rightarrow> bool" where
  "upload_row_ok sha k u \<longleftrightarrow> temporary_key (ur_temporary_object_key u)
     \<and> (\<forall>v. ur_validation u = Some v \<longrightarrow>
          genuine sha (snd k) (uv_stored_bytes v) (uv_content_size v) (uv_content_type v) (uv_refs_json v))"

definition uploads_ok :: "(bytes \<Rightarrow> bytes) \<Rightarrow> db \<Rightarrow> bool" where
  "uploads_ok sha d \<longleftrightarrow> keys_distinct (cas_node_uploads d)
     \<and> (\<forall>k u. map_of (cas_node_uploads d) k = Some u \<longrightarrow> upload_row_ok sha k u)
     \<and> (\<forall>k \<in> fst ` set (cas_node_upload_cleanup d). temporary_key (snd k))"

section \<open>The root-reference log\<close>

text \<open>
  Each App's events are numbered \<open>1 \<dots> revision\<close>; every request row names its event and every
  event has its request row; and the balances are the sums of the events' changes.
\<close>

definition app_revision :: "string \<Rightarrow> db \<Rightarrow> int" where
  "app_revision app d = (case map_of (cas_app_root_revisions d) app of None \<Rightarrow> 0 | Some n \<Rightarrow> n)"

definition request_matches :: "string \<Rightarrow> int \<Rightarrow> event_row \<Rightarrow> db \<Rightarrow> bool" where
  "request_matches app i ev d \<longleftrightarrow>
     map_of (cas_app_root_requests d) (\<lparr>appId = app, spaceId = ev_scope_space ev\<rparr>, ev_request_id ev)
       = Some \<lparr>rq_payload_hash = ev_payload_hash ev, rq_revision = i, rq_applied_at = ev_applied_at ev\<rparr>"

definition log_balance :: "node_key \<Rightarrow> db \<Rightarrow> int" where
  "log_balance k d = sum_where (\<lambda>(app, _). app = appId (fst k))
     (\<lambda>ev. if ev_scope_space ev = spaceId (fst k) then change_of (ev_changes_json ev) (snd k) else 0)
     (cas_app_root_events d)"

definition root_log_ok :: "db \<Rightarrow> bool" where
  "root_log_ok d \<longleftrightarrow> keys_distinct (cas_app_root_revisions d) \<and> keys_distinct (cas_app_root_events d)
     \<and> keys_distinct (cas_app_root_requests d)
     \<and> (\<forall>app. 0 \<le> app_revision app d)
     \<and> (\<forall>app i. map_of (cas_app_root_events d) (app, i) \<noteq> None \<longleftrightarrow> 1 \<le> i \<and> i \<le> app_revision app d)
     \<and> (\<forall>app i ev. map_of (cas_app_root_events d) (app, i) = Some ev \<longrightarrow> request_matches app i ev d)
     \<and> (\<forall>sc rid q. map_of (cas_app_root_requests d) (sc, rid) = Some q \<longrightarrow>
          (\<exists>ev. map_of (cas_app_root_events d) (appId sc, rq_revision q) = Some ev
             \<and> ev_scope_space ev = spaceId sc \<and> ev_request_id ev = rid))
     \<and> (\<forall>k. balance k d = log_balance k d)"

definition db_ok :: "(bytes \<Rightarrow> bytes) \<Rightarrow> db \<Rightarrow> bool" where
  "db_ok sha d \<longleftrightarrow> usage_exact d \<and> graph_ok sha d \<and> uploads_ok sha d \<and> root_log_ok d"

section \<open>The invariant across database and bucket\<close>

definition objects_ok :: "(bytes \<Rightarrow> bytes) \<Rightarrow> (string \<Rightarrow> bytes option) \<Rightarrow> bool" where
  "objects_ok sha c \<longleftrightarrow> (\<forall>sc h body. scope_ok sc \<longrightarrow> validateHash h = Inr () \<longrightarrow>
     c (node_object_key sc h) = Some body \<longrightarrow> hashToHex (sha body) = Inr h)"

definition protected :: "int \<Rightarrow> node_row \<Rightarrow> bool" where
  "protected now r \<longleftrightarrow> child_ref_count r > 0 \<or> root_ref_count r > 0 \<or> lease_expires_at r > now"

definition durable :: "int \<Rightarrow> db \<Rightarrow> (string \<Rightarrow> bytes option) \<Rightarrow> bool" where
  "durable now d c \<longleftrightarrow> (\<forall>k r. map_of (cas_nodes d) k = Some r \<longrightarrow> protected now r \<longrightarrow>
     c (node_object_key (fst k) (snd k)) \<noteq> None)"

definition world_ok :: "(bytes \<Rightarrow> bytes) \<Rightarrow> ('b \<Rightarrow> string \<Rightarrow> bytes option) \<Rightarrow> 'b cf_world \<Rightarrow> bool" where
  "world_ok sha contents w \<longleftrightarrow> db_ok sha (w_db w) \<and> objects_ok sha (contents (w_bucket w))
     \<and> durable (w_clock w) (w_db w) (contents (w_bucket w))"

text \<open>What an operation on one Space leaves alone: every row and object of every other Space.\<close>

definition rows_elsewhere :: "appSpaceScope \<Rightarrow> db \<Rightarrow> db \<Rightarrow> bool" where
  "rows_elsewhere sc d d' \<longleftrightarrow>
     (\<forall>k. fst k \<noteq> sc \<longrightarrow> map_of (cas_nodes d') k = map_of (cas_nodes d) k
        \<and> (\<forall>i. map_of (cas_edges d') (k, i) = map_of (cas_edges d) (k, i))
        \<and> map_of (cas_upload_reservations d') k = map_of (cas_upload_reservations d) k
        \<and> map_of (cas_node_uploads d') k = map_of (cas_node_uploads d) k
        \<and> balance k d' = balance k d)"

definition elsewhere_same ::
  "('b \<Rightarrow> string \<Rightarrow> bytes option) \<Rightarrow> appSpaceScope \<Rightarrow> 'b cf_world \<Rightarrow> 'b cf_world \<Rightarrow> bool" where
  "elsewhere_same contents sc w w' \<longleftrightarrow> w_clock w' = w_clock w \<and> rows_elsewhere sc (w_db w) (w_db w')
     \<and> (\<forall>x. (\<forall>h. x \<noteq> node_object_key sc h) \<longrightarrow> contents (w_bucket w') x = contents (w_bucket w) x)"

lemma rows_elsewhere_refl [simp]: "rows_elsewhere sc d d"
  by (simp add: rows_elsewhere_def)

lemma rows_elsewhere_trans: "rows_elsewhere sc d d' \<Longrightarrow> rows_elsewhere sc d' d'' \<Longrightarrow> rows_elsewhere sc d d''"
  unfolding rows_elsewhere_def by simp

lemma elsewhere_refl: "elsewhere_same c sc w w"
  by (simp add: elsewhere_same_def)

lemma elsewhere_trans:
  "elsewhere_same c sc w w' \<Longrightarrow> elsewhere_same c sc w' w'' \<Longrightarrow> elsewhere_same c sc w w''"
  unfolding elsewhere_same_def using rows_elsewhere_trans by auto

section \<open>Statements outside the graph\<close>

text \<open>The graph only reads nodes, edges and the root-reference projection.\<close>

lemma graph_ok_cong:
  assumes "cas_nodes d' = cas_nodes d" "cas_edges d' = cas_edges d" "cas_app_root_refs d' = cas_app_root_refs d"
  shows "graph_ok sha d' = graph_ok sha d"
  using assms unfolding graph_ok_def nodes_genuine_def node_genuine_def has_refs_def edges_closed_def child_counts_def
    child_edges_def root_counts_def balance_def by simp

lemma uploads_ok_cong:
  assumes "cas_node_uploads d' = cas_node_uploads d" "cas_node_upload_cleanup d' = cas_node_upload_cleanup d"
  shows "uploads_ok sha d' = uploads_ok sha d"
  using assms by (simp add: uploads_ok_def)

lemma root_log_ok_cong:
  assumes "cas_app_root_revisions d' = cas_app_root_revisions d" "cas_app_root_events d' = cas_app_root_events d"
    "cas_app_root_requests d' = cas_app_root_requests d" "cas_app_root_refs d' = cas_app_root_refs d"
  shows "root_log_ok d' = root_log_ok d"
  using assms unfolding root_log_ok_def app_revision_def request_matches_def balance_def log_balance_def by simp

lemma db_okI_graph:
  assumes "db_ok sha d" and "usage_exact d'" and "graph_ok sha d'"
    and "cas_node_uploads d' = cas_node_uploads d" "cas_node_upload_cleanup d' = cas_node_upload_cleanup d"
    and "cas_app_root_revisions d' = cas_app_root_revisions d" "cas_app_root_events d' = cas_app_root_events d"
    and "cas_app_root_requests d' = cas_app_root_requests d" "cas_app_root_refs d' = cas_app_root_refs d"
  shows "db_ok sha d'"
  using assms uploads_ok_cong [of d' d] root_log_ok_cong [of d' d] by (simp add: db_ok_def)

lemma db_ok_parts:
  assumes "db_ok sha d"
  shows "usage_exact d" "graph_ok sha d" "uploads_ok sha d" "root_log_ok d"
  using assms by (simp_all add: db_ok_def)

lemma db_ok_distinct: "db_ok sha d \<Longrightarrow> keys_distinct (cas_nodes d)"
  using db_ok_parts(1) usage_exactD(1) by blast

lemma empty_db_ok [simp]: "db_ok sha empty_db"
  by (simp add: db_ok_def graph_ok_def nodes_genuine_def edges_closed_def child_counts_def root_counts_def
      uploads_ok_def root_log_ok_def app_revision_def balance_def log_balance_def)
    (simp add: empty_db_def)

section \<open>Changing one node row\<close>

text \<open>A row that still describes the same node and has the same reference counts.\<close>

definition same_node :: "node_row \<Rightarrow> node_row \<Rightarrow> bool" where
  "same_node r r' \<longleftrightarrow> content_size r' = content_size r \<and> content_type r' = content_type r \<and> ready r' = ready r
     \<and> child_ref_count r' = child_ref_count r \<and> root_ref_count r' = root_ref_count r
     \<and> (canonical_stored_bytes r' = canonical_stored_bytes r \<or> canonical_stored_bytes r' = None)"

lemma graph_same_node:
  assumes ok: "graph_ok sha d" and row: "map_of (cas_nodes d) k = Some r" and same: "same_node r r'"
    and nodes: "map_of (cas_nodes d') = (map_of (cas_nodes d))(k \<mapsto> r')"
    and rest: "cas_edges d' = cas_edges d" "cas_app_root_refs d' = cas_app_root_refs d"
  shows "graph_ok sha d'"
proof -
  have edges: "has_refs k' refs d' = has_refs k' refs d" "child_edges k' d' = child_edges k' d"
    "balance k' d' = balance k' d" for k' refs
    using rest by (simp_all add: has_refs_def child_edges_def balance_def)
  have "nodes_genuine sha d'"
    using ok row same
    by (auto simp: graph_ok_def nodes_genuine_def node_genuine_def nodes edges same_node_def) fastforce+
  moreover have "edges_closed d'" using ok row by (auto simp: graph_ok_def edges_closed_def nodes rest)
  moreover have "child_counts d'"
    using ok row same by (auto simp: graph_ok_def child_counts_def nodes edges same_node_def)
  moreover have "root_counts d'"
    using ok row same by (auto simp: graph_ok_def root_counts_def nodes edges rest same_node_def)
  ultimately show ?thesis by (simp add: graph_ok_def)
qed

lemma update_node_db_ok:
  assumes ok: "db_ok sha d" and upd: "update_node k f d = Some (d', n)"
    and same: "\<And>r. map_of (cas_nodes d) k = Some r \<Longrightarrow> same_node r (f r)"
  shows "db_ok sha d'"
proof -
  obtain t where d': "d' = d\<lparr>cas_nodes := update_row k f (cas_nodes d), cas_space_usage := t\<rparr>"
    using update_node_Some [OF upd] by blast
  have graph: "graph_ok sha d'"
  proof (cases "map_of (cas_nodes d) k")
    case None
    then show ?thesis
      using graph_ok_cong [of d' d] db_ok_parts(2) [OF ok] by (simp add: d' update_row_absent)
  next
    case (Some r)
    then show ?thesis
      by (intro graph_same_node [OF db_ok_parts(2) [OF ok] Some same [OF Some]]) (simp_all add: d' table_simps)
  qed
  show ?thesis
    by (rule db_okI_graph [OF ok update_node_exact [OF db_ok_parts(1) [OF ok] upd] graph]) (simp_all add: d')
qed

lemma update_node_elsewhere:
  assumes "update_node k f d = Some (d', n)"
  shows "rows_elsewhere (fst k) d d'"
proof -
  obtain t where d': "d' = d\<lparr>cas_nodes := update_row k f (cas_nodes d), cas_space_usage := t\<rparr>"
    using update_node_Some [OF assms] by blast
  show ?thesis by (auto simp: rows_elsewhere_def d' table_simps balance_def)
qed

text \<open>Statements on reservations and sessions keep the invariant.\<close>

lemma upsert_reservation_db_ok:
  assumes "db_ok sha d" and "upsert_reservation k r f d = Some (d', n)"
  shows "db_ok sha d'"
proof -
  have "graph_ok sha d' = graph_ok sha d"
    using upsert_reservation_Some [OF assms(2)] by (intro graph_ok_cong) auto
  then show ?thesis
    using upsert_reservation_Some [OF assms(2)] upsert_reservation_exact [OF db_ok_parts(1) [OF assms(1)] assms(2)]
      db_ok_parts(2) [OF assms(1)] by (intro db_okI_graph [OF assms(1)]) auto
qed

lemma delete_reservation_db_ok:
  assumes "db_ok sha d" and "delete_reservation k d = Some (d', n)"
  shows "db_ok sha d'"
proof -
  have "graph_ok sha d' = graph_ok sha d"
    using delete_reservation_Some [OF assms(2)] by (intro graph_ok_cong) auto
  then show ?thesis
    using delete_reservation_Some [OF assms(2)] delete_reservation_exact [OF db_ok_parts(1) [OF assms(1)] assms(2)]
      db_ok_parts(2) [OF assms(1)] by (intro db_okI_graph [OF assms(1)]) auto
qed

text \<open>Statements on the upload tables: the graph and the usage projection do not see them.\<close>

lemma uploads_db_ok:
  assumes "db_ok sha d" and "uploads_ok sha d'"
    and "d' = d\<lparr>cas_node_uploads := cas_node_uploads d', cas_node_upload_cleanup := cas_node_upload_cleanup d',
      cas_direct_upload_sessions := cas_direct_upload_sessions d'\<rparr>"
  shows "db_ok sha d'"
proof -
  have same: "cas_nodes d' = cas_nodes d" "cas_edges d' = cas_edges d" "cas_app_root_refs d' = cas_app_root_refs d"
    "cas_upload_reservations d' = cas_upload_reservations d" "cas_space_usage d' = cas_space_usage d"
    "cas_app_root_revisions d' = cas_app_root_revisions d" "cas_app_root_events d' = cas_app_root_events d"
    "cas_app_root_requests d' = cas_app_root_requests d"
    by (subst assms(3), simp)+
  then show ?thesis
    using assms(1,2) usage_exact_cong [of d' d] graph_ok_cong [of d' d sha] root_log_ok_cong [of d' d]
    by (simp add: db_ok_def)
qed

lemma absent_node_no_edges:
  assumes "edges_closed d" and "map_of (cas_nodes d) k = None"
  shows "map_of (cas_edges d) (k, i) = None" and "child_edges k d = 0"
proof -
  show "map_of (cas_edges d) (k, i) = None"
    using edges_closedD(1) [OF assms(1), of k i] assms(2) by (cases "map_of (cas_edges d) (k, i)") auto
  show "child_edges k d = 0"
    unfolding child_edges_def
  proof (rule sum_where_zero_on)
    fix e c
    assume e: "(e, c) \<in> set (cas_edges d)" "case e of (p, i) \<Rightarrow> fst p = fst k"
    obtain p i where "e = (p, i)" by (cases e)
    then have "map_of (cas_edges d) (p, i) = Some c" "fst p = fst k"
      using assms(1) e by (simp_all add: edges_closed_def mem_table_iff)
    then have "map_of (cas_nodes d) (fst k, c) \<noteq> None"
      using edges_closedD(2) [OF assms(1)] by metis
    then show "(if c = snd k then 1 else (0 :: int)) = 0" using assms(2) by (cases k) auto
  qed
qed

lemma root_countsD:
  assumes "root_counts d"
  shows "map_of (cas_app_root_refs d) k = Some n \<Longrightarrow> n > 0 \<and> map_of (cas_nodes d) k \<noteq> None"
    and "map_of (cas_nodes d) k = Some r \<Longrightarrow> root_ref_count r = balance k d"
  using assms unfolding root_counts_def by blast+

lemma absent_node_no_balance: "root_counts d \<Longrightarrow> map_of (cas_nodes d) k = None \<Longrightarrow> balance k d = 0"
  using root_countsD(1) [of d k] by (auto simp: balance_def split: option.splits)

section \<open>The upload tables\<close>

lemma uploads_okD:
  assumes "uploads_ok sha d"
  shows "map_of (cas_node_uploads d) k = Some u \<Longrightarrow> upload_row_ok sha k u"
    and "(c, n) \<in> set (cas_node_upload_cleanup d) \<Longrightarrow> temporary_key (snd c)"
  using assms by (auto simp: uploads_ok_def)

text \<open>\<open>upload_change sc d d'\<close>: a statement that changed the upload tables of the Space only.\<close>

definition upload_change :: "(bytes \<Rightarrow> bytes) \<Rightarrow> appSpaceScope \<Rightarrow> db \<Rightarrow> db \<Rightarrow> bool" where
  "upload_change sha sc d d' \<longleftrightarrow> db_ok sha d' \<and> rows_elsewhere sc d d' \<and> cas_nodes d' = cas_nodes d"

lemma upload_change_refl: "db_ok sha d \<Longrightarrow> upload_change sha sc d d"
  by (simp add: upload_change_def)

lemma upload_change_trans: "upload_change sha sc d d' \<Longrightarrow> upload_change sha sc d' d'' \<Longrightarrow> upload_change sha sc d d''"
  unfolding upload_change_def using rows_elsewhere_trans by auto

lemma upload_table_change:
  assumes ok: "db_ok sha d" and d': "d' = d\<lparr>cas_node_uploads := t\<rparr>"
    and dist: "keys_distinct t" and t: "map_of t = (map_of (cas_node_uploads d))(k := x)"
    and x: "\<And>u. x = Some u \<Longrightarrow> upload_row_ok sha k u"
  shows "upload_change sha (fst k) d d'"
proof -
  have "uploads_ok sha d'"
    unfolding uploads_ok_def
  proof (intro conjI allI impI ballI)
    fix k' u
    assume "map_of (cas_node_uploads d') k' = Some u"
    then show "upload_row_ok sha k' u"
      using uploads_okD(1) [OF db_ok_parts(3) [OF ok], of k' u] x by (auto simp: d' t split: if_splits)
  qed (use dist db_ok_parts(3) [OF ok] in \<open>auto simp: d' uploads_ok_def\<close>)
  then have "db_ok sha d'" by (rule uploads_db_ok [OF ok]) (simp add: d')
  then show ?thesis by (auto simp: upload_change_def rows_elsewhere_def d' t balance_def)
qed

lemma insert_upload_change:
  assumes "db_ok sha d" and "insert_upload k u d = Some (d', n)" and "upload_row_ok sha k u"
  shows "upload_change sha (fst k) d d'"
proof (cases "map_of (cas_node_uploads d) k")
  case None
  then show ?thesis
    using assms db_ok_parts(3) [OF assms(1)]
    by (intro upload_table_change [where x = "Some u" and t = "insert_row k u (cas_node_uploads d)"])
      (auto simp: insert_upload_def table_simps uploads_ok_def split: if_splits)
next
  case (Some v)
  then show ?thesis using assms by (simp add: insert_upload_def upload_change_refl)
qed

lemma update_upload_change:
  assumes "db_ok sha d" and "update_upload k g f d = Some (d', n)"
    and "\<And>u. map_of (cas_node_uploads d) k = Some u \<Longrightarrow> upload_row_ok sha k u \<Longrightarrow> upload_row_ok sha k (f u)"
  shows "upload_change sha (fst k) d d'"
proof (cases "map_of (cas_node_uploads d) k")
  case None
  then show ?thesis using assms by (simp add: update_upload_def upload_change_refl)
next
  case (Some u)
  show ?thesis
  proof (cases "ur_generation u = g")
    case True
    then show ?thesis
      using assms Some db_ok_parts(3) [OF assms(1)] uploads_okD(1) [OF db_ok_parts(3) [OF assms(1)] Some]
      by (intro upload_table_change [where x = "Some (f u)" and t = "update_row k f (cas_node_uploads d)"])
        (auto simp: update_upload_def table_simps uploads_ok_def split: if_splits)
  next
    case False
    then show ?thesis using assms Some by (simp add: update_upload_def upload_change_refl)
  qed
qed

lemma delete_upload_change:
  assumes "db_ok sha d" and "delete_upload_row k g d = Some (d', n)"
  shows "upload_change sha (fst k) d d'"
proof (cases "upload_matches k g d")
  case True
  then show ?thesis
    using assms db_ok_parts(3) [OF assms(1)]
    by (intro upload_table_change [where x = None and t = "delete_row k (cas_node_uploads d)"])
      (auto simp: delete_upload_row_def upload_matches_def table_simps uploads_ok_def split: if_splits option.splits)
next
  case False
  then show ?thesis
    using assms by (auto simp: delete_upload_row_def upload_matches_def upload_change_refl split: if_splits option.splits)
qed

lemma cleanup_table_change:
  assumes ok: "db_ok sha d" and d': "d' = d\<lparr>cas_node_upload_cleanup := t\<rparr>"
    and t: "fst ` set t \<subseteq> insert c (fst ` set (cas_node_upload_cleanup d))"
    and c: "c \<in> fst ` set t \<Longrightarrow> temporary_key (snd c)"
  shows "upload_change sha sc d d'"
proof -
  have old: "\<forall>k \<in> fst ` set (cas_node_upload_cleanup d). temporary_key (snd k)"
    using db_ok_parts(3) [OF ok] by (simp add: uploads_ok_def)
  have "\<forall>k \<in> fst ` set t. temporary_key (snd k)"
  proof
    fix k
    assume k: "k \<in> fst ` set t"
    show "temporary_key (snd k)"
    proof (cases "k = c")
      case False
      then show ?thesis using k t old by blast
    qed (use k c in simp)
  qed
  then have "uploads_ok sha d'"
    using db_ok_parts(3) [OF ok] by (simp add: uploads_ok_def d')
  then have "db_ok sha d'" by (rule uploads_db_ok [OF ok]) (simp add: d')
  then show ?thesis by (simp add: upload_change_def rows_elsewhere_def d' balance_def)
qed

lemma enqueue_cleanup_change:
  assumes "db_ok sha d" and "enqueue_cleanup k g d = Some (d', n)"
  shows "upload_change sha sc d d'"
proof (cases "upload_matches k g d")
  case True
  then obtain u where u: "map_of (cas_node_uploads d) k = Some u" "ur_generation u = g"
    by (auto simp: upload_matches_def split: option.splits)
  have temp: "temporary_key (ur_temporary_object_key u)"
    using uploads_okD(1) [OF db_ok_parts(3) [OF assms(1)] u(1)] by (simp add: upload_row_ok_def)
  let ?c = "(fst k, ur_temporary_object_key u)" and ?t = "cas_node_upload_cleanup d"
  let ?t' = "if map_of ?t ?c = None then insert_row ?c (ur_cleanup_at u) ?t else update_row ?c (\<lambda>_. ur_cleanup_at u) ?t"
  have d': "d' = d\<lparr>cas_node_upload_cleanup := ?t'\<rparr>"
    using assms(2) u by (simp add: enqueue_cleanup_def Let_def)
  have "fst ` set (update_row ?c (\<lambda>_. ur_cleanup_at u) ?t) = fst ` set ?t"
    by (metis keys_update_row list.set_map)
  then have "fst ` set ?t' \<subseteq> insert ?c (fst ` set ?t)" by (auto simp: insert_row_def)
  then show ?thesis using temp by (intro cleanup_table_change [OF assms(1) d', where c = ?c]) simp_all
next
  case False
  then show ?thesis
    using assms by (auto simp: enqueue_cleanup_def upload_matches_def upload_change_refl split: if_splits option.splits)
qed

lemma delete_cleanup_change:
  assumes "db_ok sha d" and "delete_cleanup c d = Some (d', n)"
  shows "upload_change sha sc d d'"
proof -
  have d': "d' = d\<lparr>cas_node_upload_cleanup := delete_row c (cas_node_upload_cleanup d)\<rparr>"
    using assms(2) by (simp add: delete_cleanup_def)
  have "uploads_ok sha d'"
    using db_ok_parts(3) [OF assms(1)] by (auto simp: uploads_ok_def d' delete_row_def)
  then have "db_ok sha d'" by (rule uploads_db_ok [OF assms(1)]) (simp add: d')
  then show ?thesis by (simp add: upload_change_def rows_elsewhere_def d' balance_def)
qed

lemma reservation_change:
  assumes "db_ok sha d" and "upsert_reservation k r f d = Some (d', n) \<or> delete_reservation k d = Some (d', n)"
  shows "upload_change sha (fst k) d d'"
  unfolding upload_change_def
proof (intro conjI)
  show "db_ok sha d'" using assms upsert_reservation_db_ok delete_reservation_db_ok by blast
  show "cas_nodes d' = cas_nodes d"
    using assms(2) upsert_reservation_Some [of k r f d d' n] delete_reservation_Some [of k d d' n] by auto
  have other: "map_of (cas_upload_reservations d') k' = map_of (cas_upload_reservations d) k'" if "k' \<noteq> k" for k'
    using assms(2) that upsert_reservation_Some [of k r f d d' n] delete_reservation_Some [of k d d' n]
    by (auto simp: table_simps split: if_splits)
  show "rows_elsewhere (fst k) d d'"
    unfolding rows_elsewhere_def
  proof (intro allI impI)
    fix k' :: node_key
    assume "fst k' \<noteq> fst k"
    then have "k' \<noteq> k" by auto
    moreover have "cas_nodes d' = cas_nodes d \<and> cas_edges d' = cas_edges d \<and> cas_node_uploads d' = cas_node_uploads d
        \<and> cas_app_root_refs d' = cas_app_root_refs d"
      using assms(2) upsert_reservation_Some [of k r f d d' n] delete_reservation_Some [of k d d' n] by auto
    ultimately show "map_of (cas_nodes d') k' = map_of (cas_nodes d) k'
        \<and> (\<forall>i. map_of (cas_edges d') (k', i) = map_of (cas_edges d) (k', i))
        \<and> map_of (cas_upload_reservations d') k' = map_of (cas_upload_reservations d) k'
        \<and> map_of (cas_node_uploads d') k' = map_of (cas_node_uploads d) k' \<and> balance k' d' = balance k' d"
      using other by (simp add: balance_def)
  qed
qed

lemma reserve_staged_change:
  assumes "db_ok sha d" and "reserve_staged k g n d = Some (d', m)"
  shows "upload_change sha (fst k) d d'"
  using assms reservation_change [OF assms(1), of k]
  by (auto simp: reserve_staged_def Let_def upload_change_refl split: option.splits if_splits)

end
