(* ===== verification/Commit_Batch.thy ===== *)
theory Commit_Batch
  imports Store
begin

text \<open>
  The atomic batch that publishes a node: the row, its edges, the children's reference counts,
  and the end of its reservation.  Between the statements the graph invariant is broken; the
  lemmas below follow it through the batch.
\<close>

section \<open>One edge\<close>

lemma add_child_ref_simps [simp]:
  "child_ref_count (add_child_ref n r) = child_ref_count r + n"
  "content_size (add_child_ref n r) = content_size r" "content_type (add_child_ref n r) = content_type r"
  "lease_started_at (add_child_ref n r) = lease_started_at r" "lease_expires_at (add_child_ref n r) = lease_expires_at r"
  "root_ref_count (add_child_ref n r) = root_ref_count r" "ready (add_child_ref n r) = ready r"
  "canonical_stored_bytes (add_child_ref n r) = canonical_stored_bytes r"
  "canonical_observed_at (add_child_ref n r) = canonical_observed_at r"
  by (simp_all add: add_child_ref_def)

lemma add_child_ref_add: "add_child_ref m (add_child_ref n r) = add_child_ref (n + m) r"
  by (simp add: add_child_ref_def)

lemma add_child_ref_zero [simp]: "add_child_ref 0 r = r"
  by (simp add: add_child_ref_def)

lemma map_add_child_ref_zero [simp]: "map_option (add_child_ref 0) x = x"
  by (cases x) simp_all

text \<open>The tables a publication leaves alone.\<close>

definition other_tables_same :: "db \<Rightarrow> db \<Rightarrow> bool" where
  "other_tables_same d d' \<longleftrightarrow> cas_node_uploads d' = cas_node_uploads d
     \<and> cas_node_upload_cleanup d' = cas_node_upload_cleanup d
     \<and> cas_app_root_revisions d' = cas_app_root_revisions d \<and> cas_app_root_events d' = cas_app_root_events d
     \<and> cas_app_root_requests d' = cas_app_root_requests d \<and> cas_app_root_refs d' = cas_app_root_refs d"

lemma other_tables_refl [simp]: "other_tables_same d d"
  by (simp add: other_tables_same_def)

lemma other_tables_trans: "other_tables_same d d' \<Longrightarrow> other_tables_same d' d'' \<Longrightarrow> other_tables_same d d''"
  by (simp add: other_tables_same_def)

text \<open>What the loop over the children keeps and where it has got to: the first \<open>pre\<close> edges are in.\<close>

definition publishing :: "node_key \<Rightarrow> string list \<Rightarrow> db \<Rightarrow> bool" where
  "publishing k pre d \<longleftrightarrow> usage_exact d \<and> edges_closed d \<and> child_counts d \<and> has_refs k pre d
     \<and> map_of (cas_nodes d) k \<noteq> None"

lemma edge_step:
  assumes pub: "publishing k pre d" and child: "map_of (cas_nodes d) (fst k, c) \<noteq> None"
    and run: "batch (edge_statements k (length pre) c) d = Some (d', ns)"
  shows "publishing k (pre @ [c]) d' \<and> other_tables_same d d'
    \<and> cas_upload_reservations d' = cas_upload_reservations d
    \<and> (\<forall>k' j. k' \<noteq> k \<longrightarrow> map_of (cas_edges d') (k', j) = map_of (cas_edges d) (k', j))
    \<and> map_of (cas_nodes d') = (map_of (cas_nodes d))((fst k, c) := map_option (add_child_ref 1) (map_of (cas_nodes d) (fst k, c)))"
proof -
  let ?e = "d\<lparr>cas_edges := insert_row (k, length pre) c (cas_edges d)\<rparr>"
  have fresh: "map_of (cas_edges d) (k, length pre) = None"
    using pub by (simp add: publishing_def has_refs_def)
  from run fresh obtain n where upd: "update_node (fst k, c) (add_child_ref 1) ?e = Some (d', n)"
    by (auto simp: edge_statements_def insert_edge_def split: option.splits prod.splits)
  obtain t where d': "d' = ?e\<lparr>cas_nodes := update_row (fst k, c) (add_child_ref 1) (cas_nodes d), cas_space_usage := t\<rparr>"
    using update_node_Some [OF upd] by auto
  have "usage_exact ?e" using pub usage_exact_cong [of ?e d] by (simp add: publishing_def)
  then have exact: "usage_exact d'" using update_node_exact [OF _ upd] by blast
  have edges: "map_of (cas_edges d') = (map_of (cas_edges d))((k, length pre) \<mapsto> c)"
    by (simp add: d' map_of_insert_row [OF fresh])
  have nodes: "map_of (cas_nodes d') = (map_of (cas_nodes d))((fst k, c) := map_option (add_child_ref 1) (map_of (cas_nodes d) (fst k, c)))"
    by (simp add: d' table_simps)
  have counts: "child_edges k' d' = child_edges k' d + (if k' = (fst k, c) then 1 else 0)" for k'
    by (cases k') (simp add: child_edges_def d' sum_where_insert_row)
  have closed: "edges_closed d" using pub by (simp add: publishing_def)
  have kept: "map_of (cas_nodes d') x \<noteq> None \<longleftrightarrow> map_of (cas_nodes d) x \<noteq> None" for x by (simp add: nodes)
  have "edges_closed d'"
  proof (rule edges_closedI)
    show "keys_distinct (cas_edges d')" using closed fresh by (simp add: d' edges_closed_def)
    fix p i x
    assume "map_of (cas_edges d') (p, i) = Some x"
    then show "map_of (cas_nodes d') p \<noteq> None \<and> map_of (cas_nodes d') (fst p, x) \<noteq> None"
      using edges_closedD [OF closed, of p i x] pub child unfolding kept edges
      by (auto simp: publishing_def split: if_splits)
  qed
  moreover have "child_counts d'"
    using pub child by (auto simp: child_counts_def publishing_def nodes counts)
  moreover have "has_refs k (pre @ [c]) d'"
    using pub by (auto simp: has_refs_def edges publishing_def nth_append)
  moreover have "map_of (cas_nodes d') k \<noteq> None"
    using pub by (auto simp: nodes publishing_def)
  ultimately show ?thesis
    using exact nodes unfolding edges publishing_def by (simp add: other_tables_same_def d')
qed

section \<open>All edges\<close>

lemma batch_append_Some:
  assumes "batch (xs @ ys) d = Some (d', ns)"
  obtains e ms where "batch xs d = Some (e, ms)" and "\<exists>ms'. batch ys e = Some (d', ms')"
  using assms by (auto simp: batch_append split: option.splits prod.splits)

lemma edges_loop:
  assumes "publishing k pre d" and "\<forall>c \<in> set rs. map_of (cas_nodes d) (fst k, c) \<noteq> None"
    and "batch (concat (map (\<lambda>(i, c). edge_statements k i c) (enumerate (length pre) rs))) d = Some (d', ns)"
  shows "publishing k (pre @ rs) d' \<and> other_tables_same d d'
    \<and> cas_upload_reservations d' = cas_upload_reservations d
    \<and> (\<forall>k' j. k' \<noteq> k \<longrightarrow> map_of (cas_edges d') (k', j) = map_of (cas_edges d) (k', j))
    \<and> (\<forall>k'. map_of (cas_nodes d') k'
         = map_option (add_child_ref (if fst k' = fst k then int (count_list rs (snd k')) else 0)) (map_of (cas_nodes d) k'))"
  using assms
proof (induction rs arbitrary: pre d ns)
  case Nil
  then show ?case by simp
next
  case (Cons c rs)
  have "batch (edge_statements k (length pre) c
      @ concat (map (\<lambda>(i, c). edge_statements k i c) (enumerate (length (pre @ [c])) rs))) d = Some (d', ns)"
    using Cons.prems(3) by simp
  then obtain e ms where e: "batch (edge_statements k (length pre) c) d = Some (e, ms)"
    and rest: "\<exists>ms'. batch (concat (map (\<lambda>(i, c). edge_statements k i c) (enumerate (length (pre @ [c])) rs))) e = Some (d', ms')"
    by (rule batch_append_Some)
  have step: "publishing k (pre @ [c]) e" "other_tables_same d e"
    "cas_upload_reservations e = cas_upload_reservations d"
    "\<And>k' j. k' \<noteq> k \<Longrightarrow> map_of (cas_edges e) (k', j) = map_of (cas_edges d) (k', j)"
    "map_of (cas_nodes e) = (map_of (cas_nodes d))((fst k, c) := map_option (add_child_ref 1) (map_of (cas_nodes d) (fst k, c)))"
    using edge_step [OF Cons.prems(1) _ e] Cons.prems(2) by simp_all
  have "\<forall>c' \<in> set rs. map_of (cas_nodes e) (fst k, c') \<noteq> None"
    using Cons.prems(2) by (auto simp: step(5))
  with Cons.IH [OF step(1)] rest have IH: "publishing k ((pre @ [c]) @ rs) d'" "other_tables_same e d'"
    "cas_upload_reservations d' = cas_upload_reservations e"
    "\<And>k' j. k' \<noteq> k \<Longrightarrow> map_of (cas_edges d') (k', j) = map_of (cas_edges e) (k', j)"
    "\<And>k'. map_of (cas_nodes d') k'
         = map_option (add_child_ref (if fst k' = fst k then int (count_list rs (snd k')) else 0)) (map_of (cas_nodes e) k')"
    by blast+
  have nodes: "map_of (cas_nodes d') k'
       = map_option (add_child_ref (if fst k' = fst k then int (count_list (c # rs) (snd k')) else 0)) (map_of (cas_nodes d) k')" for k'
    by (cases k') (auto simp: IH(5) step(5) option.map_comp o_def add_child_ref_add add.commute)
  show ?case
    using IH(1,3,4) other_tables_trans [OF step(2) IH(2)] nodes step(3,4) by simp
qed

section \<open>The whole batch\<close>

text \<open>The node rows after the publication.\<close>

definition published_rows :: "node_key \<Rightarrow> node_row \<Rightarrow> string list \<Rightarrow> (node_key \<Rightarrow> node_row option) \<Rightarrow> node_key \<Rightarrow> node_row option" where
  "published_rows k r refs m k' =
     (if k' = k then Some r
      else map_option (add_child_ref (if fst k' = fst k then int (count_list refs (snd k')) else 0)) (m k'))"

lemma delete_session_Some:
  assumes "delete_session k p d = Some (d', n)"
  shows "\<exists>t. d' = d\<lparr>cas_direct_upload_sessions := t\<rparr>"
proof -
  have "\<exists>t. d = d\<lparr>cas_direct_upload_sessions := t\<rparr>" by (rule exI [of _ "cas_direct_upload_sessions d"]) simp
  then show ?thesis using assms by (auto simp: delete_session_def split: option.splits if_splits)
qed

lemma insert_publishing:
  assumes ok: "db_ok sha d" and ins: "insert_node k r d = Some (e1, n)" and zero: "child_ref_count r = 0"
  shows "publishing k [] e1"
  unfolding publishing_def
proof (intro conjI)
  obtain t where none: "map_of (cas_nodes d) k = None"
    and e1: "e1 = d\<lparr>cas_nodes := insert_row k r (cas_nodes d), cas_space_usage := t\<rparr>"
    using insert_node_Some [OF ins] by blast
  have closed: "edges_closed d" and counts: "child_counts d"
    using db_ok_parts(2) [OF ok] by (simp_all add: graph_ok_def)
  have nodes: "map_of (cas_nodes e1) = (map_of (cas_nodes d))(k \<mapsto> r)" by (simp add: e1 table_simps none)
  have edges: "cas_edges e1 = cas_edges d" by (simp add: e1)
  show "usage_exact e1" using insert_node_exact [OF db_ok_parts(1) [OF ok] ins] .
  show "edges_closed e1"
    using closed edges_closedD [OF closed] by (intro edges_closedI) (auto simp: nodes edges edges_closed_def)
  show "has_refs k [] e1" using absent_node_no_edges(1) [OF closed none] by (simp add: has_refs_def edges)
  have "child_edges k' e1 = child_edges k' d" for k' by (simp add: child_edges_def edges)
  then show "child_counts e1"
    using counts absent_node_no_edges(2) [OF closed none] zero by (auto simp: child_counts_def nodes)
  show "map_of (cas_nodes e1) k \<noteq> None" by (simp add: nodes)
qed

text \<open>After the loop the graph invariant holds again.\<close>

lemma published_graph_ok:
  assumes ok: "graph_ok sha d" and none: "map_of (cas_nodes d) k = None"
    and pub: "publishing k refs d2"
    and rows: "map_of (cas_nodes d2) = published_rows k r refs (map_of (cas_nodes d))"
    and edges: "\<And>k' j. k' \<noteq> k \<Longrightarrow> map_of (cas_edges d2) (k', j) = map_of (cas_edges d) (k', j)"
    and roots: "cas_app_root_refs d2 = cas_app_root_refs d"
    and gen: "scope_ok (fst k)" "genuine sha (snd k) n (content_size r) (content_type r) refs"
    and r: "ready r" "canonical_stored_bytes r = Some n" "root_ref_count r = 0"
  shows "graph_ok sha d2"
  unfolding graph_ok_def
proof (intro conjI)
  have g: "root_counts d" "nodes_genuine sha d" using ok by (simp_all add: graph_ok_def)
  show "nodes_genuine sha d2"
    unfolding nodes_genuine_def
  proof (intro allI impI)
    fix k' r'
    assume row: "map_of (cas_nodes d2) k' = Some r'"
    show "node_genuine sha d2 k' r'"
    proof (cases "k' = k")
      case True
      then show ?thesis
        using row gen pub r by (auto simp: node_genuine_def publishing_def rows published_rows_def)
    next
      case False
      then obtain r0 m where r0: "map_of (cas_nodes d) k' = Some r0" "r' = add_child_ref m r0"
        using row by (auto simp: rows published_rows_def)
      have "has_refs k' refs' d2 = has_refs k' refs' d" for refs'
        using edges [OF False] by (simp add: has_refs_def)
      then show ?thesis using g(2) r0 by (auto simp: nodes_genuine_def node_genuine_def)
    qed
  qed
  have bal: "balance k' d2 = balance k' d" for k' using roots by (simp add: balance_def)
  show "root_counts d2"
    unfolding root_counts_def roots
  proof (intro conjI allI impI)
    show "keys_distinct (cas_app_root_refs d)" using g(1) by (simp add: root_counts_def)
    fix k' m
    assume "map_of (cas_app_root_refs d) k' = Some m"
    then show "0 < m" "map_of (cas_nodes d2) k' \<noteq> None"
      using root_countsD(1) [OF g(1), of k'] by (auto simp: rows published_rows_def)
  next
    fix k' r'
    assume "map_of (cas_nodes d2) k' = Some r'"
    then show "root_ref_count r' = balance k' d2"
      using root_countsD(2) [OF g(1), of k'] absent_node_no_balance [OF g(1) none] r
      by (auto simp: rows published_rows_def bal split: if_splits)
  qed
qed (use pub in \<open>auto simp: publishing_def\<close>)

lemma commit_batch:
  assumes ok: "db_ok sha d" and sc: "scope_ok sc"
    and gen: "genuine sha (nc_hash c) (nc_storedBytes c) (nc_contentSize c) (nc_contentType c) (nc_refs c)"
    and children: "\<forall>x \<in> set (nc_refs c). map_of (cas_nodes d) (sc, x) \<noteq> None"
    and run: "batch (commit_statements sc c [] now) d = Some (d', ns)"
  shows "db_ok sha d' \<and> map_of (cas_nodes d) (sc, nc_hash c) = None
    \<and> map_of (cas_nodes d') = published_rows (sc, nc_hash c) (new_node_row c now) (nc_refs c) (map_of (cas_nodes d))
    \<and> (\<forall>k' j. k' \<noteq> (sc, nc_hash c) \<longrightarrow> map_of (cas_edges d') (k', j) = map_of (cas_edges d) (k', j))
    \<and> other_tables_same d d'
    \<and> map_of (cas_upload_reservations d') = (map_of (cas_upload_reservations d))((sc, nc_hash c) := None)"
proof -
  let ?k = "(sc, nc_hash c)" and ?r = "new_node_row c now"
  let ?edges = "concat (map (\<lambda>(i, x). edge_statements ?k i x) (enumerate 0 (nc_refs c)))"
  from run obtain d1 n1 ms where ins: "insert_node ?k ?r d = Some (d1, n1)"
    and r1: "batch (?edges @ [delete_reservation ?k, delete_session ?k (\<lambda>_. True)]) d1 = Some (d', ms)"
    by (auto simp: commit_statements_def split: option.splits prod.splits)
  from batch_append_Some [OF r1] obtain d2 ms2 where e: "batch ?edges d1 = Some (d2, ms2)"
    and r2: "\<exists>ms'. batch [delete_reservation ?k, delete_session ?k (\<lambda>_. True)] d2 = Some (d', ms')" by blast
  then obtain d3 n3 n4 where del: "delete_reservation ?k d2 = Some (d3, n3)"
    and ses: "delete_session ?k (\<lambda>_. True) d3 = Some (d', n4)"
    by (auto split: option.splits prod.splits)
  obtain t1 where none: "map_of (cas_nodes d) ?k = None"
    and d1: "d1 = d\<lparr>cas_nodes := insert_row ?k ?r (cas_nodes d), cas_space_usage := t1\<rparr>"
    using insert_node_Some [OF ins] by blast
  have nodes1: "map_of (cas_nodes d1) = (map_of (cas_nodes d))(?k \<mapsto> ?r)" by (simp add: d1 table_simps none)
  have pub1: "publishing ?k [] d1" using insert_publishing [OF ok ins] by (simp add: new_node_row_def)
  have ch1: "\<forall>x \<in> set (nc_refs c). map_of (cas_nodes d1) (fst ?k, x) \<noteq> None" using children by (simp add: nodes1)
  have pub2: "publishing ?k (nc_refs c) d2" and ot2: "other_tables_same d1 d2"
    and res2: "cas_upload_reservations d2 = cas_upload_reservations d1"
    and edges2: "\<And>k' j. k' \<noteq> ?k \<Longrightarrow> map_of (cas_edges d2) (k', j) = map_of (cas_edges d) (k', j)"
    and nodes2: "\<And>k'. map_of (cas_nodes d2) k'
       = map_option (add_child_ref (if fst k' = fst ?k then int (count_list (nc_refs c) (snd k')) else 0)) (map_of (cas_nodes d1) k')"
    using edges_loop [OF pub1 ch1, of d2 ms2] e by (auto simp: d1)
  have "nc_hash c \<notin> set (nc_refs c)" using children none by auto
  then have rows: "map_of (cas_nodes d2) = published_rows ?k ?r (nc_refs c) (map_of (cas_nodes d))"
    by (auto simp: fun_eq_iff published_rows_def nodes2 nodes1 count_list_0_iff)
  obtain t3 where d3: "d3 = d2\<lparr>cas_upload_reservations := delete_row ?k (cas_upload_reservations d2), cas_space_usage := t3\<rparr>"
    using delete_reservation_Some [OF del] by blast
  obtain t4 where d': "d' = d3\<lparr>cas_direct_upload_sessions := t4\<rparr>" using delete_session_Some [OF ses] by blast
  have ot: "other_tables_same d d'" using ot2 by (simp add: other_tables_same_def d' d3 d1)
  have same: "cas_nodes d' = cas_nodes d2" "cas_edges d' = cas_edges d2" "cas_app_root_refs d' = cas_app_root_refs d2"
    by (simp_all add: d' d3)
  have "graph_ok sha d2"
    by (rule published_graph_ok [OF db_ok_parts(2) [OF ok] none pub2 rows edges2])
      (use ot2 sc gen in \<open>auto simp: other_tables_same_def d1 new_node_row_def\<close>)
  moreover have "usage_exact d'"
    using delete_reservation_exact [OF _ del] pub2 usage_exact_cong [of d' d3] by (simp add: d' publishing_def)
  ultimately have "db_ok sha d'"
    using graph_ok_cong [OF same, of sha] ot by (intro db_okI_graph [OF ok]) (simp_all add: other_tables_same_def)
  moreover have "map_of (cas_upload_reservations d') = (map_of (cas_upload_reservations d))(?k := None)"
    by (simp add: d' d3 res2 table_simps) (simp add: d1)
  ultimately show ?thesis
    using none rows edges2 ot same by simp
qed

end
