(* ===== verification/Cf_Lease_Correct.thy ===== *)
theory Cf_Lease_Correct
  imports Commit_Batch
begin

text \<open>
  The Cloudflare adapter fulfils the contract of the lease kernel: for every bucket that obeys
  \<open>object_store\<close> and every Space, \<open>CloudflareNodeLeaseRepository\<close> is a \<open>lease_repository\<close>
  with the invariant \<open>world_ok\<close>, and it touches nothing of any other Space.
\<close>

section \<open>Parts of the world the invariant does not see\<close>

lemma world_ok_irrelevant [simp]:
  "world_ok sha c (w\<lparr>w_deliveries := x\<rparr>) = world_ok sha c w"
  "world_ok sha c (w\<lparr>w_readyCache := y\<rparr>) = world_ok sha c w"
  "world_ok sha c (w\<lparr>w_uuids := z\<rparr>) = world_ok sha c w"
  by (simp_all add: world_ok_def)

lemma elsewhere_irrelevant [simp]:
  "elsewhere_same c sc w (w'\<lparr>w_deliveries := x\<rparr>) = elsewhere_same c sc w w'"
  "elsewhere_same c sc w (w'\<lparr>w_readyCache := y\<rparr>) = elsewhere_same c sc w w'"
  "elsewhere_same c sc w (w'\<lparr>w_uuids := z\<rparr>) = elsewhere_same c sc w w'"
  by (simp_all add: elsewhere_same_def)

section \<open>Views\<close>

definition space_lease :: "appSpaceScope \<Rightarrow> 'b cf_world \<Rightarrow> string \<Rightarrow> nodeLeaseRecord option" where
  "space_lease sc w h = map_option (\<lambda>r. \<lparr>leaseStartedAt = lease_started_at r, leaseExpiresAt = lease_expires_at r\<rparr>)
     (map_of (cas_nodes (w_db w)) (sc, h))"

definition space_stored ::
  "('b \<Rightarrow> string \<Rightarrow> bytes option) \<Rightarrow> appSpaceScope \<Rightarrow> 'b cf_world \<Rightarrow> string \<Rightarrow> bool" where
  "space_stored contents sc w h \<longleftrightarrow> contents (w_bucket w) (node_object_key sc h) \<noteq> None"

text \<open>Nothing of the Space is lost: committed nodes stay committed, stored objects keep their bytes.\<close>

definition nodes_grow ::
  "('b \<Rightarrow> string \<Rightarrow> bytes option) \<Rightarrow> appSpaceScope \<Rightarrow> 'b cf_world \<Rightarrow> 'b cf_world \<Rightarrow> bool" where
  "nodes_grow contents sc w w' \<longleftrightarrow>
     (\<forall>h. map_of (cas_nodes (w_db w)) (sc, h) \<noteq> None \<longrightarrow> map_of (cas_nodes (w_db w')) (sc, h) \<noteq> None)
     \<and> (\<forall>h body. contents (w_bucket w) (node_object_key sc h) = Some body
          \<longrightarrow> contents (w_bucket w') (node_object_key sc h) = Some body)"

lemma nodes_grow_refl: "nodes_grow c sc w w"
  by (simp add: nodes_grow_def)

lemma nodes_grow_trans: "nodes_grow c sc w w' \<Longrightarrow> nodes_grow c sc w' w'' \<Longrightarrow> nodes_grow c sc w w''"
  unfolding nodes_grow_def by blast

lemma nodes_grow_irrelevant [simp]:
  "nodes_grow c sc w (w'\<lparr>w_deliveries := x\<rparr>) = nodes_grow c sc w w'"
  "nodes_grow c sc w (w'\<lparr>w_readyCache := y\<rparr>) = nodes_grow c sc w w'"
  "nodes_grow c sc w (w'\<lparr>w_uuids := z\<rparr>) = nodes_grow c sc w w'"
  by (simp_all add: nodes_grow_def)

text \<open>What an operation of the lease adapter does to the rest of the world.\<close>

definition lease_moves ::
  "('b \<Rightarrow> string \<Rightarrow> bytes option) \<Rightarrow> appSpaceScope \<Rightarrow> 'b cf_world \<Rightarrow> 'b cf_world \<Rightarrow> bool" where
  "lease_moves contents sc w w' \<longleftrightarrow> elsewhere_same contents sc w w' \<and> nodes_grow contents sc w w'"

lemma lease_moves_refl: "lease_moves c sc w w"
  by (simp add: lease_moves_def elsewhere_refl nodes_grow_refl)

lemma lease_moves_trans: "lease_moves c sc w w' \<Longrightarrow> lease_moves c sc w' w'' \<Longrightarrow> lease_moves c sc w w''"
  unfolding lease_moves_def using elsewhere_trans nodes_grow_trans by blast

lemma node_key_same_scope: "node_object_key sc h = node_object_key sc h' \<longleftrightarrow> h = h'"
  by (simp add: node_object_key_def appCanonicalNodeKey_def)

lemma ready_row_map: "db_ok sha d \<Longrightarrow> ready_row k d = map_of (cas_nodes d) k"
  unfolding ready_row_def
  by (auto simp: db_ok_def graph_ok_def nodes_genuine_def node_genuine_def split: option.splits)

locale space_store = object_store bucket contents sha256
  for bucket :: "'b r2_bucket" and contents :: "'b \<Rightarrow> string \<Rightarrow> bytes option" and sha256 :: "bytes \<Rightarrow> bytes" +
  fixes scope :: appSpaceScope
  assumes scope_valid: "scope_ok scope"
begin

text \<open>What every operation guarantees, and what one that changes no node and no object does.\<close>

definition moved :: "'b cf_world \<Rightarrow> 'b cf_world \<Rightarrow> bool" where
  "moved w w' \<longleftrightarrow> world_ok sha256 contents w' \<and> lease_moves contents scope w w'"

definition still :: "'b cf_world \<Rightarrow> 'b cf_world \<Rightarrow> bool" where
  "still w w' \<longleftrightarrow> moved w w' \<and> space_lease scope w' = space_lease scope w
     \<and> space_stored contents scope w' = space_stored contents scope w"

lemma moved_trans: "moved w w' \<Longrightarrow> moved w' w'' \<Longrightarrow> moved w w''"
  unfolding moved_def using lease_moves_trans by blast

lemma still_trans: "still w w' \<Longrightarrow> still w' w'' \<Longrightarrow> still w w''"
  unfolding still_def using moved_trans by auto

lemma still_refl: "world_ok sha256 contents w \<Longrightarrow> still w w"
  by (simp add: still_def moved_def lease_moves_refl)

lemma still_moved: "still w w' \<Longrightarrow> moved w w'"
  by (simp add: still_def)

lemma still_ok: "still w w' \<Longrightarrow> world_ok sha256 contents w'"
  by (simp add: still_def moved_def)

lemma still_deliveries: "world_ok sha256 contents w \<Longrightarrow> still w (w\<lparr>w_deliveries := ds\<rparr>)"
  by (simp add: still_def moved_def lease_moves_def elsewhere_refl nodes_grow_refl space_lease_def space_stored_def fun_eq_iff)

lemma still_cache: "world_ok sha256 contents w \<Longrightarrow> still w (w\<lparr>w_readyCache := c\<rparr>)"
  by (simp add: still_def moved_def lease_moves_def elsewhere_refl nodes_grow_refl space_lease_def space_stored_def fun_eq_iff)

lemma still_bucket:
  assumes "world_ok sha256 contents w" and "contents b = contents (w_bucket w)"
  shows "still w (w\<lparr>w_bucket := b\<rparr>)"
  using assms(1)
  by (simp add: still_def moved_def world_ok_def lease_moves_def elsewhere_same_def nodes_grow_def space_lease_def space_stored_def assms(2) fun_eq_iff)

section \<open>D1 calls\<close>

text \<open>A query changes nothing.\<close>

lemma query_still:
  assumes "world_ok sha256 contents w"
  shows "wp (d1 (query f)) (\<lambda>r w'. still w w' \<and> r = f (w_db w)) (\<lambda>_ w'. still w w') w"
  by (rule wp_d1_query) (simp_all add: still_deliveries [OF assms])

text \<open>A statement that only changes uploads, reservations or sessions of the Space.\<close>

lemma change_still:
  assumes ok: "world_ok sha256 contents w"
    and ch: "upload_change sha256 scope (w_db w) d"
  shows "still w (w\<lparr>w_deliveries := ds, w_db := d\<rparr>)"
  using assms
  by (simp add: still_def moved_def world_ok_def lease_moves_def elsewhere_same_def nodes_grow_def upload_change_def space_lease_def
      space_stored_def durable_def fun_eq_iff)

lemma statement_still:
  assumes ok: "world_ok sha256 contents w"
    and st: "\<And>d n. st (w_db w) = Some (d, n) \<Longrightarrow> upload_change sha256 scope (w_db w) d"
  shows "wp (d1 st) (\<lambda>_ w'. still w w') (\<lambda>_ w'. still w w') w"
proof (rule wp_d1)
  show "still w (w\<lparr>w_deliveries := ds\<rparr>)" for ds using ok by (rule still_deliveries)
qed (rule change_still [OF ok], erule st)+

text \<open>A batch of such statements.\<close>

lemma batch_change:
  assumes "batch sts d = Some (d', ns)" and "db_ok sha256 d"
    and "\<And>st e e' n. st \<in> set sts \<Longrightarrow> db_ok sha256 e \<Longrightarrow> st e = Some (e', n) \<Longrightarrow> upload_change sha256 scope e e'"
  shows "upload_change sha256 scope d d'"
proof (rule batch_invariant [OF assms(1), where P = "upload_change sha256 scope d"])
  show "upload_change sha256 scope d d" using assms(2) by (rule upload_change_refl)
  fix st e e' n
  assume a: "st \<in> set sts" "upload_change sha256 scope d e" "st e = Some (e', n)"
  then have "upload_change sha256 scope e e'" using assms(3) [OF a(1) _ a(3)] by (simp add: upload_change_def)
  with a(2) show "upload_change sha256 scope d e'" by (rule upload_change_trans)
qed

lemma world_db_ok: "world_ok sha256 contents w \<Longrightarrow> db_ok sha256 (w_db w)"
  by (simp add: world_ok_def)

section \<open>R2 calls\<close>

lemma head_still:
  assumes "world_ok sha256 contents w"
  shows "wp (r2 (r2_head bucket (node_object_key scope h)))
    (\<lambda>r w'. still w w' \<and> head_reply sha256 (contents (w_bucket w) (node_object_key scope h)) r) (\<lambda>_ w'. still w w') w"
  unfolding wp_r2
  by (rule wp_mono [OF head_law [of "node_object_key scope h" "w_bucket w"]])
    (use still_bucket [OF assms] in auto)

lemma get_still:
  assumes "world_ok sha256 contents w"
  shows "wp (r2 (r2_get bucket (node_object_key scope h)))
    (\<lambda>r w'. still w w' \<and> r = contents (w_bucket w) (node_object_key scope h)) (\<lambda>_ w'. still w w') w"
  unfolding wp_r2
  by (rule wp_mono [OF get_law [of "node_object_key scope h" "w_bucket w"]])
    (use still_bucket [OF assms] in auto)

lemma temporary_still:
  assumes "world_ok sha256 contents w" and "temporary_key k"
  shows "wp (r2 (r2_head bucket k)) (\<lambda>_ w'. still w w') (\<lambda>_ w'. still w w') w"
    and "wp (r2 (r2_get bucket k)) (\<lambda>_ w'. still w w') (\<lambda>_ w'. still w w') w"
    and "wp (r2 (r2_delete bucket k)) (\<lambda>_ w'. still w w') (\<lambda>_ w'. still w w') w"
  unfolding wp_r2 using still_bucket [OF assms(1)] temporary_not_canonical [OF assms(2)]
  by (auto intro: wp_mono [OF temporary_head] wp_mono [OF temporary_get] wp_mono [OF temporary_delete])

text \<open>Storing an object under the hash of its body.\<close>

lemma stored_object_moved:
  assumes ok: "world_ok sha256 contents w" and hash: "validateHash h = Inr ()"
    and body: "hashToHex (sha256 body) = Inr h"
    and none: "contents (w_bucket w) (node_object_key scope h) = None"
    and c: "contents b = (contents (w_bucket w))(node_object_key scope h \<mapsto> body)"
  shows "moved w (w\<lparr>w_bucket := b\<rparr>)"
proof -
  have "objects_ok sha256 (contents b)"
    unfolding objects_ok_def
  proof (intro allI impI)
    fix sc h' body'
    assume a: "scope_ok sc" "validateHash h' = Inr ()" "contents b (node_object_key sc h') = Some body'"
    show "hashToHex (sha256 body') = Inr h'"
    proof (cases "node_object_key sc h' = node_object_key scope h")
      case True
      then have "h' = h" using node_object_key_inject [OF True a(1) scope_valid] a(2) hash by (simp add: validateHash_ok)
      then show ?thesis using True a(3) body by (simp add: c)
    next
      case False
      then show ?thesis using a ok by (simp add: c world_ok_def objects_ok_def)
    qed
  qed
  moreover have "durable (w_clock w) (w_db w) (contents b)"
    using ok by (auto simp: world_ok_def durable_def c)
  ultimately show ?thesis
    using ok none by (auto simp: moved_def world_ok_def lease_moves_def elsewhere_same_def nodes_grow_def c)
qed

section \<open>The laws of the contract\<close>

lemma cf_read_lease:
  assumes "world_ok sha256 contents w"
  shows "wp (cf_readCanonicalNodeLease scope h)
    (\<lambda>r w'. still w w' \<and> map_option (\<lambda>x. \<lparr>leaseStartedAt = leaseStartedAt x, leaseExpiresAt = leaseExpiresAt x\<rparr>) r
       = space_lease scope w h) (\<lambda>_ w'. still w w') w"
  unfolding cf_readCanonicalNodeLease_def
  by (rule wp_mono [OF query_still [OF assms]])
    (auto simp: space_lease_def ready_row_map [OF world_db_ok [OF assms]] option.map_comp o_def)

lemma head_reply_none: "head_reply sha c r \<Longrightarrow> r \<noteq> None \<longleftrightarrow> c \<noteq> None"
  by (auto simp: head_reply_def split: option.splits)

lemma cf_read_object:
  assumes ok: "world_ok sha256 contents w"
  shows "wp (cf_readCanonicalObject bucket scope h)
    (\<lambda>r w'. still w w' \<and> (r \<noteq> None \<longleftrightarrow> space_stored contents scope w h)) (\<lambda>_ w'. still w w') w"
  unfolding cf_readCanonicalObject_def wp_bindM [of "r2 _"]
proof (rule wp_mono [OF head_still [OF ok, of h]])
  fix r w'
  assume a: "still w w' \<and> head_reply sha256 (contents (w_bucket w) (node_object_key scope h)) r"
  then have "r \<noteq> None \<longleftrightarrow> space_stored contents scope w h"
    using head_reply_none [of sha256 "contents (w_bucket w) (node_object_key scope h)" r] by (simp add: space_stored_def)
  then show "wp (case r of None \<Rightarrow> returnM None
     | Some (sz, checksum) \<Rightarrow>
         (case checksum of
            None \<Rightarrow> returnM (Some \<lparr>co_storedBytes = sz, co_sha256Hex = None\<rparr>)
          | Some digest \<Rightarrow> bindM (liftM (codec (hashToHex digest)))
              (\<lambda>hex. returnM (Some \<lparr>co_storedBytes = sz, co_sha256Hex = Some hex\<rparr>))))
     (\<lambda>r w'. still w w' \<and> (r \<noteq> None \<longleftrightarrow> space_stored contents scope w h)) (\<lambda>_ w'. still w w') w'"
    using a by (auto simp: wp_simps split: option.splits sum.splits)
qed

lemma cf_read_bytes:
  assumes "world_ok sha256 contents w"
  shows "wp (cf_readCanonicalBytes bucket scope h)
    (\<lambda>r w'. still w w' \<and> r = contents (w_bucket w) (node_object_key scope h)) (\<lambda>_ w'. still w w') w"
  unfolding cf_readCanonicalBytes_def by (rule get_still [OF assms])

lemma cf_node_ready:
  assumes ok: "world_ok sha256 contents w"
  shows "wp (cf_isNodeReady bucket scope h)
    (\<lambda>r w'. still w w' \<and> (r \<longleftrightarrow> space_lease scope w h \<noteq> None \<and> space_stored contents scope w h)) (\<lambda>_ w'. still w w') w"
  unfolding cf_isNodeReady_def wp_bindM [of "d1 _"]
proof (rule wp_mono [OF query_still [OF ok]])
  fix row w1
  assume a: "still w w1 \<and> row = ready_row (scope, h) (w_db w)"
  then have row: "row \<noteq> None \<longleftrightarrow> space_lease scope w h \<noteq> None"
    by (simp add: space_lease_def ready_row_map [OF world_db_ok [OF ok]])
  have "wp (bindM (r2 (r2_head bucket (node_object_key scope h))) (\<lambda>object.
      if object \<noteq> None then bindM (cache_ready h) (\<lambda>_. returnM True) else returnM False))
    (\<lambda>r w'. still w w' \<and> (r \<longleftrightarrow> space_stored contents scope w h)) (\<lambda>_ w'. still w w') w1"
    unfolding wp_bindM [of "r2 _"]
  proof (rule wp_mono [OF head_still [OF still_ok, of w w1 h]])
    fix object w2
    assume b: "still w1 w2 \<and> head_reply sha256 (contents (w_bucket w1) (node_object_key scope h)) object"
    then have "still w w2" using a still_trans by blast
    moreover have "object \<noteq> None \<longleftrightarrow> space_stored contents scope w h"
      using b a head_reply_none unfolding still_def space_stored_def fun_eq_iff by metis
    ultimately show "wp (if object \<noteq> None then bindM (cache_ready h) (\<lambda>_. returnM True) else returnM False)
        (\<lambda>r w'. still w w' \<and> (r \<longleftrightarrow> space_stored contents scope w h)) (\<lambda>_ w'. still w w') w2"
      using still_trans [OF _ still_cache [OF still_ok]] by (auto simp: wp_simps)
  qed (use a still_trans in blast)+
  then show "wp (if row = None then returnM False else bindM (r2 (r2_head bucket (node_object_key scope h))) (\<lambda>object.
      if object \<noteq> None then bindM (cache_ready h) (\<lambda>_. returnM True) else returnM False))
    (\<lambda>r w'. still w w' \<and> (r \<longleftrightarrow> space_lease scope w h \<noteq> None \<and> space_stored contents scope w h)) (\<lambda>_ w'. still w w') w1"
    using a row by (auto simp: wp_returnM elim: wp_mono)
qed simp

lemma cf_read_upload:
  assumes ok: "world_ok sha256 contents w"
  shows "wp (cf_readLeaseDrivenUpload scope h)
    (\<lambda>r w'. still w w' \<and> (\<forall>u. r = Some u \<longrightarrow> upload_ok sha256 h u)) (\<lambda>_ w'. still w w') w"
  unfolding cf_readLeaseDrivenUpload_def
proof (rule wp_mono [OF query_still [OF ok]])
  fix r w'
  assume a: "still w w' \<and> r = map_option (upload_record h) (map_of (cas_node_uploads (w_db w)) (scope, h))"
  have "upload_ok sha256 h u" if r: "r = Some u" for u
  proof -
    obtain x where x: "map_of (cas_node_uploads (w_db w)) (scope, h) = Some x" "u = upload_record h x"
      using a r by (cases "map_of (cas_node_uploads (w_db w)) (scope, h)") auto
    have "upload_row_ok sha256 (scope, h) x"
      using uploads_okD(1) [OF db_ok_parts(3) [OF world_db_ok [OF ok]] x(1)] .
    then show ?thesis by (auto simp: x upload_ok_def upload_record_def upload_row_ok_def genuine_validation_def)
  qed
  with a show "still w w' \<and> (\<forall>u. r = Some u \<longrightarrow> upload_ok sha256 h u)" by blast
qed simp

lemma upload_columns_ok: "upload_ok sha h u \<Longrightarrow> upload_row_ok sha (sc, h) (upload_columns u)"
  by (auto simp: upload_ok_def upload_row_ok_def upload_columns_def validation_columns_def genuine_validation_def)

lemma cf_replace:
  assumes ok: "world_ok sha256 contents w" and u: "upload_ok sha256 h u"
  shows "wp (cf_replaceLeaseDrivenUpload scope expected u) (\<lambda>_ w'. still w w') (\<lambda>_ w'. still w w') w"
proof (cases expected)
  case None
  have "wp (d1 (insert_upload (scope, lu_hash u) (upload_columns u))) (\<lambda>_ w'. still w w') (\<lambda>_ w'. still w w') w"
  proof (rule statement_still [OF ok])
    fix d n
    assume "insert_upload (scope, lu_hash u) (upload_columns u) (w_db w) = Some (d, n)"
    from insert_upload_change [OF world_db_ok [OF ok] this upload_columns_ok] u
    show "upload_change sha256 scope (w_db w) d" by (simp add: upload_ok_def)
  qed
  then show ?thesis by (simp add: cf_replaceLeaseDrivenUpload_def None wp_simps)
next
  case (Some g)
  let ?k = "(scope, lu_hash u)"
  have "wp (d1 (batch [enqueue_cleanup ?k g, update_upload ?k g (\<lambda>_. upload_columns u)]))
      (\<lambda>_ w'. still w w') (\<lambda>_ w'. still w w') w"
  proof (rule statement_still [OF ok])
    fix d n
    assume "batch [enqueue_cleanup ?k g, update_upload ?k g (\<lambda>_. upload_columns u)] (w_db w) = Some (d, n)"
    then show "upload_change sha256 scope (w_db w) d"
    proof (rule batch_change [OF _ world_db_ok [OF ok]])
      fix st e e' n
      assume st: "st \<in> set [enqueue_cleanup ?k g, update_upload ?k g (\<lambda>_. upload_columns u)]"
        and e: "db_ok sha256 e" and run: "st e = Some (e', n)"
      have "upload_row_ok sha256 ?k (upload_columns u)" using u upload_columns_ok by (auto simp: upload_ok_def)
      then show "upload_change sha256 scope e e'"
        using st run enqueue_cleanup_change [OF e] update_upload_change [OF e, of ?k g "\<lambda>_. upload_columns u" e' n] by auto
    qed
  qed
  then show ?thesis by (simp add: cf_replaceLeaseDrivenUpload_def Some wp_simps)
qed

lemma cf_stage:
  assumes ok: "world_ok sha256 contents w" and v: "genuine_validation sha256 h v"
  shows "wp (cf_stageLeaseDrivenUploadValidation scope h g v) (\<lambda>_ w'. still w w') (\<lambda>_ w'. still w w') w"
proof -
  let ?k = "(scope, h)" and ?f = "\<lambda>u. u\<lparr>ur_validation := Some (validation_columns v)\<rparr>"
  have "wp (d1 (batch [update_upload ?k g ?f, reserve_staged ?k g (lv_storedBytes v)]))
      (\<lambda>_ w'. still w w') (\<lambda>_ w'. still w w') w"
  proof (rule statement_still [OF ok])
    fix d n
    assume "batch [update_upload ?k g ?f, reserve_staged ?k g (lv_storedBytes v)] (w_db w) = Some (d, n)"
    then show "upload_change sha256 scope (w_db w) d"
    proof (rule batch_change [OF _ world_db_ok [OF ok]])
      fix st e e' n
      assume st: "st \<in> set [update_upload ?k g ?f, reserve_staged ?k g (lv_storedBytes v)]"
        and e: "db_ok sha256 e" and run: "st e = Some (e', n)"
      have "upload_row_ok sha256 ?k u \<Longrightarrow> upload_row_ok sha256 ?k (?f u)" for u
        using v by (auto simp: upload_row_ok_def genuine_validation_def validation_columns_def)
      then show "upload_change sha256 scope e e'"
        using st run update_upload_change [OF e, of ?k g ?f e' n] reserve_staged_change [OF e, of ?k] by auto
    qed
  qed
  then show ?thesis by (simp add: cf_stageLeaseDrivenUploadValidation_def wp_simps)
qed

lemma cf_delete_temporary:
  assumes ok: "world_ok sha256 contents w" and k: "temporary_key k"
  shows "wp (cf_deleteTemporaryUploadObject bucket scope k) (\<lambda>_ w'. still w w') (\<lambda>_ w'. still w w') w"
  unfolding cf_deleteTemporaryUploadObject_def wp_bindM [of "r2 _"]
proof (rule wp_mono [OF temporary_still(3) [OF ok k]])
  fix x :: unit and w1
  assume a: "still w w1"
  have "wp (d1 (delete_cleanup (scope, k))) (\<lambda>_ w'. still w1 w') (\<lambda>_ w'. still w1 w') w1"
    by (rule statement_still [OF still_ok [OF a]]) (rule delete_cleanup_change [OF world_db_ok [OF still_ok [OF a]]])
  then show "wp (bindM (d1 (delete_cleanup (scope, k))) (\<lambda>_. returnM ())) (\<lambda>_ w'. still w w') (\<lambda>_ w'. still w w') w1"
    using still_trans [OF a] by (auto simp: wp_simps elim: wp_mono)
qed

lemma cf_delete_upload:
  assumes ok: "world_ok sha256 contents w"
  shows "wp (cf_deleteLeaseDrivenUpload scope h g) (\<lambda>_ w'. still w w') (\<lambda>_ w'. still w w') w"
proof -
  have "wp (d1 (delete_upload_row (scope, h) g)) (\<lambda>_ w'. still w w') (\<lambda>_ w'. still w w') w"
  proof (rule statement_still [OF ok])
    show "upload_change sha256 scope (w_db w) d" if "delete_upload_row (scope, h) g (w_db w) = Some (d, n)" for d n
      using delete_upload_change [OF world_db_ok [OF ok] that] by simp
  qed
  then show ?thesis by (simp add: cf_deleteLeaseDrivenUpload_def wp_simps)
qed

lemma cf_put_bytes:
  assumes ok: "world_ok sha256 contents w" and hash: "validateHash h = Inr ()"
  shows "wp (cf_putVerifiedCanonicalBytes bucket sha256 scope h body)
    (\<lambda>_ w'. moved w w' \<and> space_lease scope w' = space_lease scope w
       \<and> space_stored contents scope w' = (space_stored contents scope w)(h := True)) (\<lambda>_ w'. moved w w') w"
  unfolding cf_putVerifiedCanonicalBytes_def wp_bindM [of "r2 _"] wp_r2
proof (rule wp_mono [OF put_law [of "node_object_key scope h" body h "w_bucket w"]])
  show "canonical_key (node_object_key scope h)" by simp
  fix e b
  assume "contents b = contents (w_bucket w) \<or> contents (w_bucket w) (node_object_key scope h) = None
    \<and> hashToHex (sha256 body) = Inr h \<and> contents b = (contents (w_bucket w))(node_object_key scope h \<mapsto> body)"
  then show "moved w (w\<lparr>w_bucket := b\<rparr>)"
    using stored_object_moved [OF ok hash] still_moved [OF still_bucket [OF ok]] by blast
next
  fix stored b
  assume a: "if stored then contents (w_bucket w) (node_object_key scope h) = None \<and> hashToHex (sha256 body) = Inr h
      \<and> contents b = (contents (w_bucket w))(node_object_key scope h \<mapsto> body)
    else contents (w_bucket w) (node_object_key scope h) \<noteq> None \<and> contents b = contents (w_bucket w)"
  have lease: "space_lease scope (w\<lparr>w_bucket := b\<rparr>) = space_lease scope w" by (simp add: space_lease_def fun_eq_iff)
  show "wp (if stored then returnM () else check_existing_object bucket sha256 scope h)
    (\<lambda>_ w'. moved w w' \<and> space_lease scope w' = space_lease scope w
       \<and> space_stored contents scope w' = (space_stored contents scope w)(h := True)) (\<lambda>_ w'. moved w w') (w\<lparr>w_bucket := b\<rparr>)"
  proof (cases stored)
    case True
    then show ?thesis
      using a stored_object_moved [OF ok hash] lease
      by (auto simp: wp_simps space_stored_def fun_eq_iff node_key_same_scope)
  next
    case False
    then have s: "still w (w\<lparr>w_bucket := b\<rparr>)" and st: "space_stored contents scope w h"
      using a still_bucket [OF ok] by (auto simp: space_stored_def)
    have fin: "moved w w' \<and> space_lease scope w' = space_lease scope w
       \<and> space_stored contents scope w' = (space_stored contents scope w)(h := True)" if "still (w\<lparr>w_bucket := b\<rparr>) w'" for w'
      using still_trans [OF s that] st by (auto simp: still_def fun_eq_iff)
    show ?thesis
      unfolding check_existing_object_def wp_bindM [of "cf_readCanonicalBytes _ _ _"] using False fin
      by (auto intro!: wp_mono [OF cf_read_bytes [OF still_ok [OF s], of h]] simp: wp_simps split: option.splits sum.splits)
  qed
qed

lemma cf_renew:
  assumes ok: "world_ok sha256 contents w" and lease: "space_lease scope w h \<noteq> None"
    and st: "space_stored contents scope w h"
  shows "wp (cf_renewNodeLease scope h new)
    (\<lambda>_ w'. moved w w' \<and> space_stored contents scope w' = space_stored contents scope w
       \<and> space_lease scope w' = (space_lease scope w)(h \<mapsto> new)) (\<lambda>_ w'. moved w w') w"
proof -
  have fin: "moved w w' \<and> space_stored contents scope w' = space_stored contents scope w
       \<and> space_lease scope w' = (space_lease scope w)(h \<mapsto> new)"
    if upd: "update_node (scope, h) (set_lease new) (w_db w) = Some (d, n)" and w': "w' = w\<lparr>w_deliveries := ds, w_db := d\<rparr>"
    for d n ds w'
  proof -
    obtain t where d: "d = (w_db w)\<lparr>cas_nodes := update_row (scope, h) (set_lease new) (cas_nodes (w_db w)), cas_space_usage := t\<rparr>"
      using update_node_Some [OF upd] by blast
    have nodes: "map_of (cas_nodes d) = (map_of (cas_nodes (w_db w)))((scope, h)
        := map_option (set_lease new) (map_of (cas_nodes (w_db w)) (scope, h)))" by (simp add: d table_simps)
    have "db_ok sha256 d"
      by (rule update_node_db_ok [OF world_db_ok [OF ok] upd]) (simp add: same_node_def set_lease_def)
    moreover have "durable (w_clock w) d (contents (w_bucket w))"
      using ok st by (auto simp: world_ok_def durable_def nodes space_stored_def)
    moreover have "rows_elsewhere scope (w_db w) d" using update_node_elsewhere [OF upd] by simp
    ultimately have "moved w w'"
      using ok by (simp add: w' moved_def world_ok_def lease_moves_def elsewhere_same_def nodes_grow_def nodes)
    moreover have "space_lease scope w' = (space_lease scope w)(h \<mapsto> new)"
      using lease by (auto simp: w' space_lease_def nodes set_lease_def fun_eq_iff)
    ultimately show ?thesis by (simp add: w' space_stored_def fun_eq_iff)
  qed
  show ?thesis
    unfolding cf_renewNodeLease_def wp_bindM wp_returnM_cont
    by (rule wp_d1) (use fin still_moved [OF still_deliveries [OF ok]] in blast)+
qed

lemma cf_count:
  assumes "world_ok sha256 contents w"
  shows "wp (cf_countLeaseDrivenUploads scope) (\<lambda>_ w'. still w w') (\<lambda>_ w'. still w w') w"
  unfolding cf_countLeaseDrivenUploads_def by (rule wp_mono [OF query_still [OF assms]]) auto

lemma cf_read_temporary:
  assumes "world_ok sha256 contents w" and "temporary_key k"
  shows "wp (cf_readTemporaryUploadObject bucket scope k) (\<lambda>_ w'. still w w') (\<lambda>_ w'. still w w') w"
    and "wp (cf_readTemporaryUploadBytes bucket scope k) (\<lambda>_ w'. still w w') (\<lambda>_ w'. still w w') w"
  using temporary_still [OF assms]
  by (simp_all add: cf_readTemporaryUploadObject_def cf_readTemporaryUploadBytes_def wp_bindM wp_returnM_cont)

lemma cache_still:
  assumes "P w" and "\<And>w c. P w \<Longrightarrow> P (w\<lparr>w_readyCache := c\<rparr>)"
  shows "wp (bindM (cache_ready h) (\<lambda>_. forM hs cache_ready)) (\<lambda>_. P) E w"
  using assms by (auto simp: wp_simps intro!: wp_forM)

text \<open>
  The publication of a node: the batch keeps the database's invariant, and what it protects has
  its object, because the node's own object and those of its children are stored.
\<close>

lemma published_durable:
  assumes dur: "durable now d c" and none: "map_of (cas_nodes d) (sc, h) = None"
    and own: "c (node_object_key sc h) \<noteq> None" and kids: "\<forall>x \<in> set refs. c (node_object_key sc x) \<noteq> None"
    and rows: "map_of (cas_nodes d') = published_rows (sc, h) r refs (map_of (cas_nodes d))"
  shows "durable now d' c"
  unfolding durable_def
proof (intro allI impI)
  fix k r'
  assume k: "map_of (cas_nodes d') k = Some r'" and p: "protected now r'"
  show "c (node_object_key (fst k) (snd k)) \<noteq> None"
  proof (cases "k = (sc, h) \<or> fst k = sc \<and> snd k \<in> set refs")
    case True
    then show ?thesis using own kids by (cases k) auto
  next
    case False
    then have "map_of (cas_nodes d) k = Some r'"
      using k by (auto simp: rows published_rows_def count_list_0_iff split: if_splits)
    then show ?thesis using dur p unfolding durable_def by blast
  qed
qed

lemma cf_commit:
  assumes ok: "world_ok sha256 contents w" and h: "nc_hash c = h" and st: "space_stored contents scope w h"
    and gen: "genuine sha256 h (nc_storedBytes c) (nc_contentSize c) (nc_contentType c) (nc_refs c)"
    and kids: "\<forall>x \<in> set (nc_refs c). space_lease scope w x \<noteq> None \<and> space_stored contents scope w x"
  shows "wp (cf_commitNewNode scope c [])
    (\<lambda>_ w'. moved w w' \<and> space_stored contents scope w' = space_stored contents scope w
       \<and> space_lease scope w' = (space_lease scope w)(h \<mapsto> nc_lease c)) (\<lambda>_ w'. moved w w') w"
    (is "wp _ (\<lambda>_. ?Q) _ _")
proof -
  have fin: "?Q (w\<lparr>w_deliveries := ds, w_db := d\<rparr>)"
    if run: "batch (commit_statements scope c [] (w_clock w)) (w_db w) = Some (d, n)" for d n ds
  proof -
    have rows_exist: "\<forall>x \<in> set (nc_refs c). map_of (cas_nodes (w_db w)) (scope, x) \<noteq> None"
      using kids by (auto simp: space_lease_def)
    note b = commit_batch [OF world_db_ok [OF ok] scope_valid _ rows_exist run, unfolded h, OF gen]
    have "durable (w_clock w) d (contents (w_bucket w))"
      using published_durable [of "w_clock w" "w_db w" "contents (w_bucket w)" scope h "nc_refs c" d] b ok st kids
      by (simp add: world_ok_def space_stored_def)
    moreover have "rows_elsewhere scope (w_db w) d"
      using b by (auto simp: rows_elsewhere_def published_rows_def other_tables_same_def balance_def)
    ultimately have "moved w (w\<lparr>w_deliveries := ds, w_db := d\<rparr>)"
      using ok b by (simp add: moved_def world_ok_def lease_moves_def elsewhere_same_def nodes_grow_def published_rows_def)
    moreover have "space_lease scope (w\<lparr>w_deliveries := ds, w_db := d\<rparr>) = (space_lease scope w)(h \<mapsto> nc_lease c)"
      using b by (auto simp: space_lease_def published_rows_def new_node_row_def fun_eq_iff option.map_comp o_def)
    ultimately show ?thesis by (simp add: space_stored_def fun_eq_iff)
  qed
  have cache: "?Q (w'\<lparr>w_readyCache := x\<rparr>)" if "?Q w'" for w' x
    using that by (simp add: moved_def lease_moves_def space_lease_def space_stored_def fun_eq_iff)
  show ?thesis
    unfolding cf_commitNewNode_def wp_bindM [of date_now] wp_date_now wp_bindM [of "d1 _"]
  proof (rule wp_d1)
    fix ds
    show "moved w (w\<lparr>w_deliveries := ds\<rparr>)" by (rule still_moved [OF still_deliveries [OF ok]])
    fix d ns
    assume run: "batch (commit_statements scope c [] (w_clock w)) (w_db w) = Some (d, ns)"
    show "moved w (w\<lparr>w_deliveries := ds, w_db := d\<rparr>)" using fin [OF run] by blast
    show "wp (bindM (cache_ready (nc_hash c)) (\<lambda>_. forM (nc_refs c) cache_ready)) (\<lambda>_. ?Q) (\<lambda>_ w'. moved w w')
        (w\<lparr>w_deliveries := ds, w_db := d\<rparr>)"
      by (rule cache_still [where P = ?Q]) (rule fin [OF run], erule cache)
  qed
qed


end

section \<open>The adapter is a lease repository\<close>

sublocale space_store \<subseteq> lease: lease_repository "cloudflareNodeLeaseRepository bucket sha256" sha256 scope
  "world_ok sha256 contents" "space_lease scope" "space_stored contents scope" "lease_moves contents scope"
proof (unfold_locales, goal_cases)
  case 1
  show ?case by (rule lease_moves_refl)
next
  case (2 s s' s'')
  then show ?case by (rule lease_moves_trans)
next
  case (3 s h)
  then show ?case using cf_read_lease [of s h]
    by (auto simp: cloudflareNodeLeaseRepository_def still_def moved_def elim!: wp_mono)
next
  case (4 s h)
  then show ?case using cf_read_object [of s h]
    by (auto simp: cloudflareNodeLeaseRepository_def still_def moved_def elim!: wp_mono)
next
  case (5 s h)
  then show ?case using cf_read_bytes [of s h]
    by (auto simp: cloudflareNodeLeaseRepository_def space_stored_def still_def moved_def elim!: wp_mono)
next
  case (6 s h)
  then show ?case using cf_node_ready [of s h]
    by (auto simp: cloudflareNodeLeaseRepository_def still_def moved_def elim!: wp_mono)
next
  case (7 s h)
  then show ?case using cf_renew [of s h]
    by (auto simp: cloudflareNodeLeaseRepository_def still_def moved_def elim!: wp_mono)
next
  case (8 s)
  then show ?case using cf_count [of s]
    by (auto simp: cloudflareNodeLeaseRepository_def still_def moved_def elim!: wp_mono)
next
  case (9 s h)
  then show ?case using cf_read_upload [of s h]
    by (auto simp: cloudflareNodeLeaseRepository_def still_def moved_def elim!: wp_mono)
next
  case (10 s h u expected)
  then show ?case using cf_replace [of s h u expected]
    by (auto simp: cloudflareNodeLeaseRepository_def still_def moved_def elim!: wp_mono)
next
  case (11 s h v g)
  then show ?case using cf_stage [of s h v g]
    by (auto simp: cloudflareNodeLeaseRepository_def still_def moved_def elim!: wp_mono)
next
  case (12 s k)
  then show ?case using cf_read_temporary(1) [of s k]
    by (auto simp: cloudflareNodeLeaseRepository_def still_def moved_def elim!: wp_mono)
next
  case (13 s k)
  then show ?case using cf_read_temporary(2) [of s k]
    by (auto simp: cloudflareNodeLeaseRepository_def still_def moved_def elim!: wp_mono)
next
  case (14 s k)
  then show ?case using cf_delete_temporary [of s k]
    by (auto simp: cloudflareNodeLeaseRepository_def still_def moved_def elim!: wp_mono)
next
  case (15 s h g)
  then show ?case using cf_delete_upload [of s h g]
    by (auto simp: cloudflareNodeLeaseRepository_def still_def moved_def elim!: wp_mono)
next
  case (16 s h b)
  then show ?case using cf_put_bytes [of s h b]
    by (auto simp: cloudflareNodeLeaseRepository_def still_def moved_def elim!: wp_mono)
next
  case (17 s h c)
  then show ?case using cf_commit [of s c h]
    by (auto simp: cloudflareNodeLeaseRepository_def cf_commitUploadedCanonicalNode_def still_def moved_def elim!: wp_mono)
qed

end
