(* ===== verification/Cf_Node_Gc.thy ===== *)
theory Cf_Node_Gc
  imports Node_Gc Cf_Lease_Correct
begin

text \<open>
  The D1/R2 adapter of the collector, \<^verbatim>\<open>packages/service-cloudflare/src/node-gc.ts\<close>, and the
  proof that it fulfils the collector's contract: the deletion batch keeps the invariant of the
  store, and a collection touches only nodes without root reference, live lease or live
  reservation.
\<close>

section \<open>CloudflareNodeGcRepository\<close>

definition reserved_after :: "node_key \<Rightarrow> int \<Rightarrow> db \<Rightarrow> bool" where
  "reserved_after k t d \<longleftrightarrow>
     (case map_of (cas_upload_reservations d) k of None \<Rightarrow> False | Some r \<Rightarrow> rs_expires_at r > t)"

definition expired_unreferenced :: "appSpaceScope \<Rightarrow> int \<Rightarrow> db \<Rightarrow> string list" where
  "expired_unreferenced scope t d =
     map (\<lambda>((_, h), _). h) (filter (\<lambda>((sc, h), r). sc = scope \<and> child_ref_count r = 0 \<and> root_ref_count r = 0
       \<and> lease_expires_at r \<le> t \<and> \<not> reserved_after (sc, h) t d) (cas_nodes d))"

definition cf_findExpiredUnreferenced :: "appSpaceScope \<Rightarrow> int \<Rightarrow> int \<Rightarrow> ('b cf_world, exn, string list) prog" where
  "cf_findExpiredUnreferenced scope t maxNodes =
     d1 (query (\<lambda>d. take (nat maxNodes) (expired_unreferenced scope t d)))"

text \<open>\<open>SELECT child_hash, COUNT(*) \<dots> GROUP BY child_hash\<close>.\<close>

definition grouped_children :: "node_key \<Rightarrow> db \<Rightarrow> (string \<times> int) list" where
  "grouped_children k d =
     (let cs = map snd (edge_rows k d) in map (\<lambda>c. (c, int (count_list cs c))) (sort (remdups cs)))"

definition cf_readStillExpiredUnreferenced ::
  "appSpaceScope \<Rightarrow> string \<Rightarrow> int \<Rightarrow> ('b cf_world, exn, nodeGcDeletion option) prog" where
  "cf_readStillExpiredUnreferenced scope hash t =
     bindM (d1 (query (\<lambda>d. if reserved_after (scope, hash) t d then None else map_of (cas_nodes d) (scope, hash)))) (\<lambda>fresh.
     case fresh of
       None \<Rightarrow> returnM None
     | Some r \<Rightarrow>
         if child_ref_count r > 0 \<or> root_ref_count r > 0 \<or> lease_expires_at r > t then returnM None
         else
         bindM (d1 (query (grouped_children (scope, hash)))) (\<lambda>edges.
         returnM (Some \<lparr>gd_hash = hash, gd_contentSize = content_size r, gd_childReferences = edges\<rparr>)))"

definition clear_observation :: "int \<Rightarrow> node_row \<Rightarrow> node_row" where
  "clear_observation now r = r\<lparr>canonical_stored_bytes := None, canonical_observed_at := Some now\<rparr>"

definition cf_deleteCanonicalContent ::
  "'b r2_bucket \<Rightarrow> appSpaceScope \<Rightarrow> string \<Rightarrow> ('b cf_world, exn, unit) prog" where
  "cf_deleteCanonicalContent bucket scope hash =
     bindM (r2 (r2_delete bucket (node_object_key scope hash))) (\<lambda>_.
     bindM date_now (\<lambda>now.
     bindM (d1 (update_node (scope, hash) (clear_observation now))) (\<lambda>_. returnM ())))"

definition delete_edges :: "node_key \<Rightarrow> (db, int) statement" where
  "delete_edges k d =
     Some (d\<lparr>cas_edges := filter (\<lambda>((p, _), _). p \<noteq> k) (cas_edges d)\<rparr>, int (length (edge_rows k d)))"

definition deletion_statements :: "appSpaceScope \<Rightarrow> nodeGcDeletion \<Rightarrow> (db, int) statement list" where
  "deletion_statements scope x =
     [delete_edges (scope, gd_hash x), delete_node (scope, gd_hash x)]
     @ map (\<lambda>(child, n). update_node (scope, child) (add_child_ref (- n))) (gd_childReferences x)"

definition cf_commitDeletion :: "appSpaceScope \<Rightarrow> nodeGcDeletion \<Rightarrow> ('b cf_world, exn, unit) prog" where
  "cf_commitDeletion scope x = bindM (d1 (batch (deletion_statements scope x))) (\<lambda>_. returnM ())"

definition cloudflareNodeGcRepository :: "'b r2_bucket \<Rightarrow> 'b cf_world nodeGcRepository" where
  "cloudflareNodeGcRepository bucket =
     \<lparr>findExpiredUnreferenced = cf_findExpiredUnreferenced,
      readStillExpiredUnreferenced = cf_readStillExpiredUnreferenced,
      deleteCanonicalContent = cf_deleteCanonicalContent bucket,
      commitDeletion = cf_commitDeletion\<rparr>"

section \<open>Counting the edges of a node\<close>

text \<open>How often a hash occurs in a grouped list of child references.\<close>

definition pending :: "appSpaceScope \<Rightarrow> (string \<times> int) list \<Rightarrow> node_key \<Rightarrow> int" where
  "pending sc ps k = (if fst k = sc then sum_list (map (\<lambda>(c, n). if c = snd k then n else 0) ps) else 0)"

lemma pending_Nil [simp]: "pending sc [] k = 0"
  by (simp add: pending_def)

lemma pending_Cons: "pending sc ((c, n) # ps) k = (if k = (sc, c) then n else 0) + pending sc ps k"
  by (cases k) (auto simp: pending_def)

lemma pending_grouped:
  "pending sc (map (\<lambda>c. (c, f c)) cs) k = (if fst k = sc \<and> snd k \<in> set cs then f (snd k) else 0)" if "distinct cs"
  using that by (induction cs) (auto simp: pending_Cons)

lemma edges_of_parent:
  "sum_where (\<lambda>(p, i). p = k) (\<lambda>c. if c = x then 1 else 0) t
     = (int (count_list (map snd (map (\<lambda>((_, i), c). (i, c)) (filter (\<lambda>((p, _), _). p = k) t))) x))"
  by (induction t) (auto simp: sum_where_Cons split: prod.splits)

lemma sum_where_filter:
  "sum_where p g (filter (\<lambda>(k, v). q k) t) = sum_where p g t - sum_where (\<lambda>k. p k \<and> \<not> q k) g t"
  by (induction t) (auto simp: sum_where_Cons split: prod.splits)

lemma grouped_pending: "pending (fst k) (grouped_children k d) k' = (if fst k' = fst k
    then sum_where (\<lambda>(p, i). p = k) (\<lambda>c. if c = snd k' then 1 else 0) (cas_edges d) else 0)"
  by (auto simp: grouped_children_def Let_def pending_grouped edges_of_parent edge_rows_def count_list_0_iff)

section \<open>The deletion batch\<close>

text \<open>Between the statements, a child's count still includes the references not yet subtracted.\<close>

definition unlinking :: "appSpaceScope \<Rightarrow> (string \<times> int) list \<Rightarrow> db \<Rightarrow> bool" where
  "unlinking sc ps d \<longleftrightarrow> usage_exact d
     \<and> (\<forall>k r. map_of (cas_nodes d) k = Some r \<longrightarrow> child_ref_count r = child_edges k d + pending sc ps k)"

lemma unlink_loop:
  assumes "unlinking sc ps d"
    and "batch (map (\<lambda>(child, n). update_node (sc, child) (add_child_ref (- n))) ps) d = Some (d', ns)"
  shows "unlinking sc [] d' \<and> (\<exists>t u. d' = d\<lparr>cas_nodes := t, cas_space_usage := u\<rparr>)
    \<and> (\<forall>k. map_of (cas_nodes d') k = map_option (add_child_ref (- pending sc ps k)) (map_of (cas_nodes d) k))"
  using assms
proof (induction ps arbitrary: d ns)
  case Nil
  have "\<exists>t u. d = d\<lparr>cas_nodes := t, cas_space_usage := u\<rparr>"
    by (intro exI [of _ "cas_nodes d"] exI [of _ "cas_space_usage d"]) simp
  with Nil show ?case by (simp add: option.map_ident)
next
  case (Cons p ps)
  obtain c n where p: "p = (c, n)" by (cases p)
  from Cons.prems(2) obtain e m ms where upd: "update_node (sc, c) (add_child_ref (- n)) d = Some (e, m)"
    and rest: "batch (map (\<lambda>(child, n). update_node (sc, child) (add_child_ref (- n))) ps) e = Some (d', ms)"
    by (auto simp: p split: option.splits prod.splits)
  obtain u where e: "e = d\<lparr>cas_nodes := update_row (sc, c) (add_child_ref (- n)) (cas_nodes d), cas_space_usage := u\<rparr>"
    using update_node_Some [OF upd] by blast
  have nodes: "map_of (cas_nodes e) = (map_of (cas_nodes d))((sc, c) := map_option (add_child_ref (- n)) (map_of (cas_nodes d) (sc, c)))"
    by (simp add: e table_simps)
  have edges: "child_edges k e = child_edges k d" for k by (simp add: child_edges_def e)
  have "usage_exact e" using update_node_exact [OF _ upd] Cons.prems(1) by (simp add: unlinking_def)
  moreover have "child_ref_count r = child_edges k e + pending sc ps k" if "map_of (cas_nodes e) k = Some r" for k r
    using Cons.prems(1) that by (auto simp: unlinking_def nodes edges p pending_Cons split: if_splits)
  ultimately have "unlinking sc ps e" by (simp add: unlinking_def)
  from Cons.IH [OF this rest] have IH: "unlinking sc [] d'" "\<exists>t u. d' = e\<lparr>cas_nodes := t, cas_space_usage := u\<rparr>"
    "\<And>k. map_of (cas_nodes d') k = map_option (add_child_ref (- pending sc ps k)) (map_of (cas_nodes e) k)" by blast+
  have "\<exists>t u. d' = d\<lparr>cas_nodes := t, cas_space_usage := u\<rparr>" using IH(2) by (auto simp: e)
  moreover have "map_of (cas_nodes d') k = map_option (add_child_ref (- pending sc (p # ps) k)) (map_of (cas_nodes d) k)" for k
    by (simp add: IH(3) nodes p pending_Cons option.map_comp o_def add_child_ref_add)
  ultimately show ?case using IH(1) by blast
qed

lemma map_of_delete_edges:
  "map_of (filter (\<lambda>((p, _), _). p \<noteq> k) t) (k', j) = (if k' = k then None else map_of t (k', j))"
  by (induction t) auto

lemma keys_distinct_filter: "keys_distinct t \<Longrightarrow> keys_distinct (filter p t)"
  unfolding keys_distinct_def by (induction t) auto

text \<open>The rows after the node \<open>k\<close> is gone.\<close>

definition removed_rows :: "node_key \<Rightarrow> (string \<times> int) list \<Rightarrow> (node_key \<Rightarrow> node_row option) \<Rightarrow> node_key \<Rightarrow> node_row option" where
  "removed_rows k ps m k' =
     (if k' = k then None else map_option (add_child_ref (- pending (fst k) ps k')) (m k'))"

lemma removed_graph_ok:
  assumes ok: "graph_ok sha d" and zero: "root_ref_count r = 0" "map_of (cas_nodes d) k = Some r" "child_edges k d = 0"
    and rows: "map_of (cas_nodes d') = removed_rows k ps (map_of (cas_nodes d))"
    and edges: "cas_edges d' = filter (\<lambda>((p, _), _). p \<noteq> k) (cas_edges d)"
    and counts: "child_counts d'" and roots: "cas_app_root_refs d' = cas_app_root_refs d"
  shows "graph_ok sha d'"
  unfolding graph_ok_def
proof (intro conjI)
  have g: "nodes_genuine sha d" "edges_closed d" "root_counts d" using ok by (simp_all add: graph_ok_def)
  have em: "map_of (cas_edges d') (k', j) = (if k' = k then None else map_of (cas_edges d) (k', j))" for k' j
    by (simp add: edges map_of_delete_edges)
  have exists: "map_of (cas_nodes d') k' \<noteq> None \<longleftrightarrow> k' \<noteq> k \<and> map_of (cas_nodes d) k' \<noteq> None" for k'
    by (simp add: rows removed_rows_def)
  show "nodes_genuine sha d'"
    unfolding nodes_genuine_def
  proof (intro allI impI)
    fix k' r'
    assume "map_of (cas_nodes d') k' = Some r'"
    then obtain r0 m where r0: "k' \<noteq> k" "map_of (cas_nodes d) k' = Some r0" "r' = add_child_ref m r0"
      by (auto simp: rows removed_rows_def split: if_splits)
    then have "has_refs k' refs d' = has_refs k' refs d" for refs by (simp add: has_refs_def em)
    then show "node_genuine sha d' k' r'"
      using g(1) r0 by (auto simp: nodes_genuine_def node_genuine_def)
  qed
  show "edges_closed d'"
  proof (rule edges_closedI)
    show "keys_distinct (cas_edges d')" using g(2) by (simp add: edges keys_distinct_filter edges_closed_def)
    fix p i c
    assume "map_of (cas_edges d') (p, i) = Some c"
    then have pc: "p \<noteq> k" "map_of (cas_edges d) (p, i) = Some c" by (auto simp: em split: if_splits)
    have "(fst p, c) \<noteq> k"
    proof
      assume kc: "(fst p, c) = k"
      have "((p, i), c) \<in> set (cas_edges d)" using pc(2) by (rule map_of_SomeD)
      then have "1 \<le> child_edges k d" unfolding child_edges_def
        using sum_where_ge [of "cas_edges d" "\<lambda>(p, i). fst p = fst k" "\<lambda>c. if c = snd k then 1 else 0" "(p, i)" c] kc by auto
      then show False using zero(3) by simp
    qed
    then show "map_of (cas_nodes d') p \<noteq> None \<and> map_of (cas_nodes d') (fst p, c) \<noteq> None"
      unfolding exists using edges_closedD [OF g(2) pc(2)] pc(1) by blast
  qed
  show "root_counts d'"
    unfolding root_counts_def roots
  proof (intro conjI allI impI)
    show "keys_distinct (cas_app_root_refs d)" using g(3) by (simp add: root_counts_def)
    fix k' n
    assume n: "map_of (cas_app_root_refs d) k' = Some n"
    then show "0 < n" using root_countsD(1) [OF g(3)] by blast
    moreover have "balance k d = 0" using root_countsD(2) [OF g(3) zero(2)] zero(1) by simp
    ultimately show "map_of (cas_nodes d') k' \<noteq> None"
      using n root_countsD(1) [OF g(3) n] unfolding exists by (auto simp: balance_def)
  next
    fix k' r'
    assume "map_of (cas_nodes d') k' = Some r'"
    then show "root_ref_count r' = balance k' d'"
      using root_countsD(2) [OF g(3), of k'] roots by (auto simp: rows removed_rows_def balance_def split: if_splits)
  qed
qed (rule counts)

lemma deletion_batch:
  assumes ok: "db_ok sha d" and row: "map_of (cas_nodes d) (sc, gd_hash x) = Some r"
    and zero: "child_ref_count r = 0" "root_ref_count r = 0"
    and refs: "gd_childReferences x = grouped_children (sc, gd_hash x) d"
    and run: "batch (deletion_statements sc x) d = Some (d', ns)"
  shows "db_ok sha d' \<and> map_of (cas_nodes d') = removed_rows (sc, gd_hash x) (gd_childReferences x) (map_of (cas_nodes d))
    \<and> cas_edges d' = filter (\<lambda>((p, _), _). p \<noteq> (sc, gd_hash x)) (cas_edges d)
    \<and> other_tables_same d d' \<and> cas_upload_reservations d' = cas_upload_reservations d"
proof -
  let ?k = "(sc, gd_hash x)" and ?ps = "gd_childReferences x"
  let ?e = "d\<lparr>cas_edges := filter (\<lambda>((p, _), _). p \<noteq> ?k) (cas_edges d)\<rparr>"
  from run obtain d1 n1 ms where del: "delete_node ?k ?e = Some (d1, n1)"
    and rest: "batch (map (\<lambda>(child, n). update_node (sc, child) (add_child_ref (- n))) ?ps) d1 = Some (d', ms)"
    by (auto simp: deletion_statements_def delete_edges_def split: option.splits prod.splits)
  obtain u where d1: "d1 = ?e\<lparr>cas_nodes := delete_row ?k (cas_nodes d), cas_space_usage := u\<rparr>"
    using delete_node_Some [OF del] by auto
  have nodes1: "map_of (cas_nodes d1) = (map_of (cas_nodes d))(?k := None)" by (simp add: d1 table_simps)
  have counts: "child_counts d" and none: "child_edges ?k d = 0"
    using db_ok_parts(2) [OF ok] row zero(1) by (auto simp: graph_ok_def child_counts_def)
  have split: "child_edges k' d = child_edges k' d1 + pending sc ?ps k'" for k'
  proof -
    have "(\<lambda>(p, i). (case (p, i) of (p, i) \<Rightarrow> fst p = fst k') \<and> \<not> p \<noteq> ?k)
        = (\<lambda>(p, i :: nat). fst k' = sc \<and> p = ?k)" by auto
    then have "child_edges k' d1 = child_edges k' d - sum_where (\<lambda>(p, i). fst k' = sc \<and> p = ?k) (\<lambda>c. if c = snd k' then 1 else 0) (cas_edges d)"
      using sum_where_filter [of "\<lambda>(p, i). fst p = fst k'" "\<lambda>c. if c = snd k' then 1 else 0" "\<lambda>(p, i). p \<noteq> ?k" "cas_edges d"]
      by (simp add: child_edges_def d1 case_prod_unfold)
    moreover have "pending sc ?ps k' = sum_where (\<lambda>(p, i). fst k' = sc \<and> p = ?k) (\<lambda>c. if c = snd k' then 1 else 0) (cas_edges d)"
      using grouped_pending [of ?k d k'] by (auto simp: refs case_prod_unfold sum_where_none)
    ultimately show ?thesis by simp
  qed
  have "usage_exact ?e" using db_ok_parts(1) [OF ok] usage_exact_cong [of ?e d] by simp
  then have "unlinking sc ?ps d1"
    using delete_node_exact [OF _ del] counts split by (auto simp: unlinking_def nodes1 child_counts_def split: if_splits)
  from unlink_loop [OF this rest] obtain t v where fin: "unlinking sc [] d'" and d': "d' = d1\<lparr>cas_nodes := t, cas_space_usage := v\<rparr>"
    and rows1: "\<And>k. map_of (cas_nodes d') k = map_option (add_child_ref (- pending sc ?ps k)) (map_of (cas_nodes d1) k)" by blast
  have rows: "map_of (cas_nodes d') = removed_rows ?k ?ps (map_of (cas_nodes d))"
    by (auto simp: fun_eq_iff rows1 nodes1 removed_rows_def)
  have edges: "cas_edges d' = filter (\<lambda>((p, _), _). p \<noteq> ?k) (cas_edges d)" by (simp add: d' d1)
  have other: "other_tables_same d d'" by (simp add: other_tables_same_def d' d1)
  have "child_counts d'" using fin by (simp add: unlinking_def child_counts_def)
  then have "graph_ok sha d'"
    using removed_graph_ok [OF db_ok_parts(2) [OF ok] zero(2) row none rows edges] other by (simp add: other_tables_same_def)
  then have "db_ok sha d'"
    using fin other by (intro db_okI_graph [OF ok]) (simp_all add: unlinking_def other_tables_same_def)
  then show ?thesis using rows edges other by (simp add: d' d1)
qed

section \<open>What survives a collection\<close>

text \<open>A node a collection at time \<open>t\<close> may remove: no root reference, no live lease, no live reservation.\<close>

definition doomed :: "int \<Rightarrow> node_key \<Rightarrow> db \<Rightarrow> bool" where
  "doomed t k d \<longleftrightarrow> \<not> reserved_after k t d
     \<and> (\<exists>r. map_of (cas_nodes d) k = Some r \<and> root_ref_count r = 0 \<and> lease_expires_at r \<le> t)"

definition survivor_row :: "node_row \<Rightarrow> node_row \<Rightarrow> bool" where
  "survivor_row r r' \<longleftrightarrow> content_size r' = content_size r \<and> content_type r' = content_type r
     \<and> lease_started_at r' = lease_started_at r \<and> lease_expires_at r' = lease_expires_at r
     \<and> root_ref_count r' = root_ref_count r \<and> ready r' = ready r"

definition collected ::
  "int \<Rightarrow> ('b \<Rightarrow> string \<Rightarrow> bytes option) \<Rightarrow> appSpaceScope \<Rightarrow> 'b cf_world \<Rightarrow> 'b cf_world \<Rightarrow> bool" where
  "collected t contents sc w w' \<longleftrightarrow> elsewhere_same contents sc w w'
     \<and> other_tables_same (w_db w) (w_db w')
     \<and> cas_upload_reservations (w_db w') = cas_upload_reservations (w_db w)
     \<and> (\<forall>h. contents (w_bucket w') (node_object_key sc h) = contents (w_bucket w) (node_object_key sc h)
          \<or> contents (w_bucket w') (node_object_key sc h) = None \<and> doomed t (sc, h) (w_db w))
     \<and> (\<forall>h. map_of (cas_nodes (w_db w)) (sc, h) \<noteq> None \<longrightarrow> map_of (cas_nodes (w_db w')) (sc, h) = None
          \<longrightarrow> doomed t (sc, h) (w_db w))
     \<and> (\<forall>h r'. map_of (cas_nodes (w_db w')) (sc, h) = Some r' \<longrightarrow>
          (\<exists>r. map_of (cas_nodes (w_db w)) (sc, h) = Some r \<and> survivor_row r r')
          \<and> (\<forall>i. map_of (cas_edges (w_db w')) ((sc, h), i) = map_of (cas_edges (w_db w)) ((sc, h), i)))"

lemma survivor_refl [simp]: "survivor_row r r"
  by (simp add: survivor_row_def)

lemma collected_refl: "collected t c sc w w"
  by (auto simp: collected_def elsewhere_refl)

lemma collected_doomed:
  assumes "collected t c sc w w'" and "doomed t (sc, h) (w_db w')"
  shows "doomed t (sc, h) (w_db w)"
  using assms unfolding collected_def doomed_def reserved_after_def survivor_row_def by fastforce

lemma collected_trans:
  assumes a: "collected t c sc w w'" and b: "collected t c sc w' w''"
  shows "collected t c sc w w''"
  unfolding collected_def
proof (intro conjI allI impI)
  show "elsewhere_same c sc w w''" using a b elsewhere_trans unfolding collected_def by blast
  show "other_tables_same (w_db w) (w_db w'')" using a b other_tables_trans unfolding collected_def by blast
  show "cas_upload_reservations (w_db w'') = cas_upload_reservations (w_db w)" using a b by (simp add: collected_def)
  fix h
  show "c (w_bucket w'') (node_object_key sc h) = c (w_bucket w) (node_object_key sc h)
      \<or> c (w_bucket w'') (node_object_key sc h) = None \<and> doomed t (sc, h) (w_db w)"
    using a b collected_doomed [OF a, of h] unfolding collected_def by metis
  show "doomed t (sc, h) (w_db w)"
    if "map_of (cas_nodes (w_db w)) (sc, h) \<noteq> None" "map_of (cas_nodes (w_db w'')) (sc, h) = None"
    using a b that collected_doomed [OF a, of h] unfolding collected_def by blast
  fix r''
  assume r'': "map_of (cas_nodes (w_db w'')) (sc, h) = Some r''"
  with b obtain r' where r': "map_of (cas_nodes (w_db w')) (sc, h) = Some r'" "survivor_row r' r''"
    "\<And>i. map_of (cas_edges (w_db w'')) ((sc, h), i) = map_of (cas_edges (w_db w')) ((sc, h), i)" unfolding collected_def by blast
  with a obtain r where r: "map_of (cas_nodes (w_db w)) (sc, h) = Some r" "survivor_row r r'"
    "\<And>i. map_of (cas_edges (w_db w')) ((sc, h), i) = map_of (cas_edges (w_db w)) ((sc, h), i)" unfolding collected_def by blast
  then show "\<exists>r. map_of (cas_nodes (w_db w)) (sc, h) = Some r \<and> survivor_row r r''"
    "\<And>i. map_of (cas_edges (w_db w'')) ((sc, h), i) = map_of (cas_edges (w_db w)) ((sc, h), i)"
    using r' by (auto simp: survivor_row_def)
qed

text \<open>The totals the collector reports on.\<close>

definition space_nodes :: "appSpaceScope \<Rightarrow> 'b cf_world \<Rightarrow> int" where
  "space_nodes sc w = sum_where (of_space sc) (\<lambda>_. 1) (cas_nodes (w_db w))"

definition space_content :: "appSpaceScope \<Rightarrow> 'b cf_world \<Rightarrow> int" where
  "space_content sc w = sum_where (of_space sc) content_size (cas_nodes (w_db w))"

definition deletion_ok :: "int \<Rightarrow> appSpaceScope \<Rightarrow> 'b cf_world \<Rightarrow> nodeGcDeletion \<Rightarrow> bool" where
  "deletion_ok t sc w x \<longleftrightarrow> \<not> reserved_after (sc, gd_hash x) t (w_db w)
     \<and> gd_childReferences x = grouped_children (sc, gd_hash x) (w_db w)
     \<and> (\<exists>r. map_of (cas_nodes (w_db w)) (sc, gd_hash x) = Some r \<and> child_ref_count r = 0 \<and> root_ref_count r = 0
          \<and> lease_expires_at r \<le> t \<and> gd_contentSize x = content_size r)"

lemma deletion_doomed: "deletion_ok t sc w x \<Longrightarrow> doomed t (sc, gd_hash x) (w_db w)"
  by (auto simp: deletion_ok_def doomed_def)

text \<open>An aggregate the reference counts do not enter, after a row is gone.\<close>

lemma sum_where_removed:
  assumes t: "keys_distinct t" and t': "keys_distinct t'" and v: "map_of t k = Some v"
    and g: "\<And>x n. g (f n x) = g x"
    and rows: "\<And>k'. map_of t' k' = (if k' = k then None else map_option (f (q k')) (map_of t k'))"
  shows "sum_where p g t' = sum_where p g t - (if p k then g v else (0 :: int))"
proof -
  let ?h = "\<lambda>k'. if p k' then g (the (map_of t k')) else 0"
  have dom: "dom (map_of t') = dom (map_of t) - {k}" by (auto simp: rows split: if_splits)
  have "sum_where p g t' = (\<Sum>k' \<in> dom (map_of t) - {k}. ?h k')"
    unfolding sum_where_dom [OF t'] dom by (intro sum.cong) (auto simp: rows g)
  also have "\<dots> = (\<Sum>k' \<in> dom (map_of t). ?h k') - ?h k"
    using v by (subst sum_diff1) (auto simp: finite_dom_map_of)
  finally show ?thesis using v by (simp add: sum_where_dom [OF t])
qed

text \<open>Calls that leave database rows and objects as they are.\<close>

lemma collected_same:
  assumes "w_db w' = w_db w" and "c (w_bucket w') = c (w_bucket w)" and "w_clock w' = w_clock w"
  shows "collected t c sc w w'"
  using assms by (auto simp: collected_def elsewhere_same_def)

text \<open>Counts are numbers of edges and balances, so they are never negative.\<close>

lemma row_counts_nonneg:
  assumes "db_ok sha d" and "map_of (cas_nodes d) k = Some r"
  shows "0 \<le> child_ref_count r" and "0 \<le> root_ref_count r"
proof -
  have g: "child_counts d" "root_counts d" using db_ok_parts(2) [OF assms(1)] by (simp_all add: graph_ok_def)
  show "0 \<le> child_ref_count r"
    using g(1) assms(2) by (auto simp: child_counts_def child_edges_def intro!: sum_where_nonneg)
  show "0 \<le> root_ref_count r"
    using root_countsD(2) [OF g(2) assms(2)] root_countsD(1) [OF g(2), of k]
    by (auto simp: balance_def split: option.splits)
qed

context space_store
begin

definition gc_inv :: "int \<Rightarrow> 'b cf_world \<Rightarrow> bool" where
  "gc_inv t w \<longleftrightarrow> world_ok sha256 contents w \<and> w_clock w = t"

text \<open>A step of a collection that leaves all rows in place and the deletion valid.\<close>

definition gc_quiet :: "int \<Rightarrow> 'b cf_world \<Rightarrow> 'b cf_world \<Rightarrow> bool" where
  "gc_quiet t w w' \<longleftrightarrow> gc_inv t w' \<and> collected t contents scope w w'
     \<and> space_nodes scope w' = space_nodes scope w \<and> space_content scope w' = space_content scope w
     \<and> (\<forall>x. deletion_ok t scope w x \<longrightarrow> deletion_ok t scope w' x)"

lemma gc_quiet_trans: "gc_quiet t w w' \<Longrightarrow> gc_quiet t w' w'' \<Longrightarrow> gc_quiet t w w''"
  unfolding gc_quiet_def using collected_trans by auto

lemma gc_quiet_same:
  assumes "gc_inv t w" and "w_db w' = w_db w" and "w_bucket w' = w_bucket w" and "w_clock w' = w_clock w"
  shows "gc_quiet t w w'"
  using assms collected_same [of w' w contents t scope]
  by (auto simp: gc_quiet_def gc_inv_def world_ok_def space_nodes_def space_content_def deletion_ok_def)

lemma gc_query:
  assumes "gc_inv t w"
  shows "wp (d1 (query f)) (\<lambda>r w'. gc_quiet t w w' \<and> w_db w' = w_db w \<and> r = f (w_db w)) (\<lambda>_ w'. gc_quiet t w w') w"
  by (rule wp_d1_query) (simp_all add: gc_quiet_same [OF assms])

lemma cf_find:
  assumes "gc_inv t w" and "0 < n"
  shows "wp (cf_findExpiredUnreferenced scope t n) (\<lambda>cs w'. gc_quiet t w w' \<and> int (length cs) \<le> n) (\<lambda>_ w'. gc_quiet t w w') w"
  unfolding cf_findExpiredUnreferenced_def
  by (rule wp_mono [OF gc_query [OF assms(1)]]) (use assms(2) in auto)

lemma cf_read_still:
  assumes "gc_inv t w"
  shows "wp (cf_readStillExpiredUnreferenced scope h t)
    (\<lambda>r w'. gc_quiet t w w' \<and> (\<forall>x. r = Some x \<longrightarrow> gd_hash x = h \<and> deletion_ok t scope w' x)) (\<lambda>_ w'. gc_quiet t w w') w"
  unfolding cf_readStillExpiredUnreferenced_def wp_bindM [of "d1 (query (\<lambda>d. if _ d then _ else _ d))"]
proof (rule wp_mono [OF gc_query [OF assms]])
  let ?post = "\<lambda>r w'. gc_quiet t w w' \<and> (\<forall>x. r = Some x \<longrightarrow> gd_hash x = h \<and> deletion_ok t scope w' x)"
  fix fresh w1
  assume a: "gc_quiet t w w1 \<and> w_db w1 = w_db w
    \<and> fresh = (if reserved_after (scope, h) t (w_db w) then None else map_of (cas_nodes (w_db w)) (scope, h))"
  then have i: "gc_inv t w1" by (simp add: gc_quiet_def)
  have nonneg: "0 \<le> child_ref_count r \<and> 0 \<le> root_ref_count r" if "map_of (cas_nodes (w_db w)) (scope, h) = Some r" for r
    using assms that row_counts_nonneg by (auto simp: gc_inv_def world_ok_def)
  have edges: "wp (bindM (d1 (query (grouped_children (scope, h)))) (\<lambda>edges.
        returnM (Some \<lparr>gd_hash = h, gd_contentSize = content_size r, gd_childReferences = edges\<rparr>))) ?post (\<lambda>_ w'. gc_quiet t w w') w1"
    if fresh: "fresh = Some r" and cold: "\<not> (child_ref_count r > 0 \<or> root_ref_count r > 0 \<or> lease_expires_at r > t)" for r
  proof -
    have row: "\<not> reserved_after (scope, h) t (w_db w)" "map_of (cas_nodes (w_db w)) (scope, h) = Some r"
      using a fresh by (auto split: if_splits)
    have tr: "gc_quiet t w1 w2 \<Longrightarrow> gc_quiet t w w2" for w2 using a gc_quiet_trans by blast
    show ?thesis
      unfolding wp_bindM
      by (rule wp_mono [OF gc_query [OF i]])
        (use a row cold nonneg [OF row(2)] tr in \<open>auto simp: wp_simps deletion_ok_def\<close>)
  qed
  then show "wp (case fresh of None \<Rightarrow> returnM None
     | Some r \<Rightarrow>
         if child_ref_count r > 0 \<or> root_ref_count r > 0 \<or> lease_expires_at r > t then returnM None
         else
         bindM (d1 (query (grouped_children (scope, h)))) (\<lambda>edges.
         returnM (Some \<lparr>gd_hash = h, gd_contentSize = content_size r, gd_childReferences = edges\<rparr>))) ?post (\<lambda>_ w'. gc_quiet t w w') w1"
    using a by (auto simp: wp_simps split: option.splits)
qed simp

text \<open>Removing the object of a node that may be collected.\<close>

lemma same_node_object:
  assumes ok: "world_ok sha256 contents w" and r: "map_of (cas_nodes (w_db w)) k = Some r"
    and h: "map_of (cas_nodes (w_db w)) (scope, h) \<noteq> None"
    and same: "node_object_key (fst k) (snd k) = node_object_key scope h"
  shows "k = (scope, h)"
proof -
  obtain r0 where r0: "map_of (cas_nodes (w_db w)) (scope, h) = Some r0" using h by auto
  have gen: "nodes_genuine sha256 (w_db w)" using db_ok_parts(2) [OF world_db_ok [OF ok]] by (simp add: graph_ok_def)
  have "scope_ok (fst k)" "validateHash (snd k) = Inr ()" "validateHash h = Inr ()"
    using gen r r0 genuine_hash_ok unfolding nodes_genuine_def node_genuine_def by fastforce+
  then show ?thesis
    using node_object_key_inject [OF same _ scope_valid] by (cases k) (simp add: validateHash_ok)
qed

lemma object_removed:
  assumes i: "gc_inv t w" and x: "deletion_ok t scope w x"
    and b: "contents b = contents (w_bucket w) \<or> contents b = (contents (w_bucket w))(node_object_key scope (gd_hash x) := None)"
  shows "gc_quiet t w (w\<lparr>w_bucket := b\<rparr>)"
proof -
  have ok: "world_ok sha256 contents w" and clock: "w_clock w = t" using i by (simp_all add: gc_inv_def)
  have obj: "objects_ok sha256 (contents b)"
    using ok b by (auto simp: world_ok_def objects_ok_def split: if_splits)
  have dur: "durable t (w_db w) (contents b)"
    unfolding durable_def
  proof (intro allI impI)
    fix k r
    assume r: "map_of (cas_nodes (w_db w)) k = Some r" "protected t r"
    have old: "contents (w_bucket w) (node_object_key (fst k) (snd k)) \<noteq> None"
      using ok r clock unfolding world_ok_def durable_def by blast
    have "node_object_key (fst k) (snd k) \<noteq> node_object_key scope (gd_hash x)"
    proof
      assume "node_object_key (fst k) (snd k) = node_object_key scope (gd_hash x)"
      from same_node_object [OF ok r(1) _ this] x have "k = (scope, gd_hash x)" by (auto simp: deletion_ok_def)
      then show False using r x by (auto simp: deletion_ok_def protected_def)
    qed
    then show "contents b (node_object_key (fst k) (snd k)) \<noteq> None" using old b by auto
  qed
  have "elsewhere_same contents scope w (w\<lparr>w_bucket := b\<rparr>)"
    using b by (auto simp: elsewhere_same_def)
  then have "collected t contents scope w (w\<lparr>w_bucket := b\<rparr>)"
    using b deletion_doomed [OF x] by (auto simp: collected_def node_key_same_scope split: if_splits)
  then show ?thesis
    using ok clock obj dur
    by (simp add: gc_quiet_def gc_inv_def world_ok_def space_nodes_def space_content_def deletion_ok_def)
qed

lemma observation_cleared:
  assumes i: "gc_inv t w" and upd: "update_node (scope, h) (clear_observation now) (w_db w) = Some (d, n)"
  shows "gc_quiet t w (w\<lparr>w_deliveries := ds, w_db := d\<rparr>)"
proof -
  have ok: "world_ok sha256 contents w" and clock: "w_clock w = t" using i by (simp_all add: gc_inv_def)
  obtain u where d: "d = (w_db w)\<lparr>cas_nodes := update_row (scope, h) (clear_observation now) (cas_nodes (w_db w)), cas_space_usage := u\<rparr>"
    using update_node_Some [OF upd] by blast
  have nodes: "map_of (cas_nodes d) = (map_of (cas_nodes (w_db w)))((scope, h)
        := map_option (clear_observation now) (map_of (cas_nodes (w_db w)) (scope, h)))" by (simp add: d table_simps)
  have "db_ok sha256 d"
    by (rule update_node_db_ok [OF world_db_ok [OF ok] upd]) (simp add: same_node_def clear_observation_def)
  moreover have "durable t d (contents (w_bucket w))"
    unfolding durable_def
  proof (intro allI impI)
    fix k r
    assume "map_of (cas_nodes d) k = Some r" "protected t r"
    then obtain r0 where "map_of (cas_nodes (w_db w)) k = Some r0" "protected t r0"
      by (auto simp: nodes protected_def clear_observation_def split: if_splits)
    then show "contents (w_bucket w) (node_object_key (fst k) (snd k)) \<noteq> None"
      using ok clock unfolding world_ok_def durable_def by blast
  qed
  ultimately have inv: "gc_inv t (w\<lparr>w_deliveries := ds, w_db := d\<rparr>)"
    using ok clock by (simp add: gc_inv_def world_ok_def)
  have col: "collected t contents scope w (w\<lparr>w_deliveries := ds, w_db := d\<rparr>)"
    using update_node_elsewhere [OF upd]
    by (auto simp: collected_def elsewhere_same_def other_tables_same_def nodes survivor_row_def clear_observation_def)
      (simp_all add: d)
  have dist: "keys_distinct (cas_nodes (w_db w))" using db_ok_distinct [OF world_db_ok [OF ok]] .
  have totals: "space_nodes scope (w\<lparr>w_deliveries := ds, w_db := d\<rparr>) = space_nodes scope w"
    "space_content scope (w\<lparr>w_deliveries := ds, w_db := d\<rparr>) = space_content scope w"
    using dist by (cases "map_of (cas_nodes (w_db w)) (scope, h)";
        simp add: space_nodes_def space_content_def d table_simps update_row_absent clear_observation_def)+
  have "deletion_ok t scope (w\<lparr>w_deliveries := ds, w_db := d\<rparr>) x" if "deletion_ok t scope w x" for x
    using that by (auto simp: deletion_ok_def nodes clear_observation_def)
      (simp_all add: d reserved_after_def grouped_children_def edge_rows_def)
  then show ?thesis using inv col totals by (simp add: gc_quiet_def)
qed

lemma cf_delete_content:
  assumes i: "gc_inv t w" and x: "deletion_ok t scope w x"
  shows "wp (cf_deleteCanonicalContent bucket scope (gd_hash x)) (\<lambda>_ w'. gc_quiet t w w') (\<lambda>_ w'. gc_quiet t w w') w"
  unfolding cf_deleteCanonicalContent_def wp_bindM [of "r2 _"] wp_r2
proof (rule wp_mono [OF delete_law [of "node_object_key scope (gd_hash x)" "w_bucket w"]])
  show "canonical_key (node_object_key scope (gd_hash x))" by simp
  fix y :: unit and b
  assume "contents b = (contents (w_bucket w))(node_object_key scope (gd_hash x) := None)"
  then have q: "gc_quiet t w (w\<lparr>w_bucket := b\<rparr>)" using object_removed [OF i x] by blast
  then have i1: "gc_inv t (w\<lparr>w_bucket := b\<rparr>)" by (simp add: gc_quiet_def)
  show "wp (bindM date_now (\<lambda>now. bindM (d1 (update_node (scope, gd_hash x) (clear_observation now))) (\<lambda>_. returnM ())))
      (\<lambda>_ w'. gc_quiet t w w') (\<lambda>_ w'. gc_quiet t w w') (w\<lparr>w_bucket := b\<rparr>)"
    unfolding wp_bindM wp_date_now wp_returnM_cont
  proof (rule wp_d1)
    show "gc_quiet t w (w\<lparr>w_bucket := b\<rparr>\<lparr>w_deliveries := ds\<rparr>)" for ds
      by (rule gc_quiet_trans [OF q gc_quiet_same [OF i1]]) simp_all
  qed (rule gc_quiet_trans [OF q observation_cleared [OF i1]], assumption)+
qed (use object_removed [OF i x] in blast)

lemma node_deleted:
  assumes i: "gc_inv t w" and x: "deletion_ok t scope w x"
    and run: "batch (deletion_statements scope x) (w_db w) = Some (d, ns)"
  shows "gc_inv t (w\<lparr>w_deliveries := ds, w_db := d\<rparr>) \<and> collected t contents scope w (w\<lparr>w_deliveries := ds, w_db := d\<rparr>)
    \<and> space_nodes scope (w\<lparr>w_deliveries := ds, w_db := d\<rparr>) = space_nodes scope w - 1
    \<and> space_content scope (w\<lparr>w_deliveries := ds, w_db := d\<rparr>) = space_content scope w - gd_contentSize x"
proof -
  have ok: "world_ok sha256 contents w" and clock: "w_clock w = t" using i by (simp_all add: gc_inv_def)
  let ?k = "(scope, gd_hash x)"
  obtain r where r: "map_of (cas_nodes (w_db w)) ?k = Some r" "child_ref_count r = 0" "root_ref_count r = 0"
    "gd_contentSize x = content_size r" and refs: "gd_childReferences x = grouped_children ?k (w_db w)"
    using x by (auto simp: deletion_ok_def)
  note b = deletion_batch [OF world_db_ok [OF ok] r(1,2,3) refs run]
  then have rows: "map_of (cas_nodes d) = removed_rows ?k (gd_childReferences x) (map_of (cas_nodes (w_db w)))"
    and edges: "cas_edges d = filter (\<lambda>((p, _), _). p \<noteq> ?k) (cas_edges (w_db w))" by blast+
  have prev: "\<exists>r0. k \<noteq> ?k \<and> map_of (cas_nodes (w_db w)) k = Some r0 \<and> r' = add_child_ref (- pending scope (gd_childReferences x) k) r0"
    if "map_of (cas_nodes d) k = Some r'" for k r' using that by (auto simp: rows removed_rows_def split: if_splits)
  have pos: "0 \<le> pending scope (gd_childReferences x) k" for k
    using grouped_pending [of ?k "w_db w" k] by (auto simp: refs intro!: sum_where_nonneg)
  have "durable t d (contents (w_bucket w))"
    unfolding durable_def
  proof (intro allI impI)
    fix k r'
    assume r': "map_of (cas_nodes d) k = Some r'" "protected t r'"
    then obtain r0 where "map_of (cas_nodes (w_db w)) k = Some r0" "protected t r0"
      using prev [OF r'(1)] pos [of k] by (auto simp: protected_def)
    then show "contents (w_bucket w) (node_object_key (fst k) (snd k)) \<noteq> None"
      using ok clock unfolding world_ok_def durable_def by blast
  qed
  then have inv: "gc_inv t (w\<lparr>w_deliveries := ds, w_db := d\<rparr>)" using ok clock b by (simp add: gc_inv_def world_ok_def)
  have apart: "rows_elsewhere scope (w_db w) d"
    unfolding rows_elsewhere_def using b
    by (auto simp: rows removed_rows_def pending_def edges map_of_delete_edges other_tables_same_def balance_def option.map_ident)
  have col: "collected t contents scope w (w\<lparr>w_deliveries := ds, w_db := d\<rparr>)"
    using b apart deletion_doomed [OF x] prev
    by (auto simp: collected_def elsewhere_same_def survivor_row_def rows removed_rows_def edges map_of_delete_edges split: if_splits)
  have "sum_where (of_space scope) g (cas_nodes d) = sum_where (of_space scope) g (cas_nodes (w_db w)) - g r"
    if g: "\<And>r n. g (add_child_ref n r) = g r" for g :: "node_row \<Rightarrow> int"
    using sum_where_removed [OF db_ok_distinct [OF world_db_ok [OF ok]] db_ok_distinct r(1), of sha256 d g add_child_ref
        "\<lambda>k. - pending scope (gd_childReferences x) k" "of_space scope"] b g
    by (simp add: rows removed_rows_def of_space_def)
  then show ?thesis using inv col r(4) by (simp add: space_nodes_def space_content_def)
qed

lemma cf_commit_deletion:
  assumes i: "gc_inv t w" and x: "deletion_ok t scope w x"
  shows "wp (cf_commitDeletion scope x)
    (\<lambda>_ w'. gc_inv t w' \<and> collected t contents scope w w' \<and> space_nodes scope w' = space_nodes scope w - 1
       \<and> space_content scope w' = space_content scope w - gd_contentSize x)
    (\<lambda>_ w'. gc_inv t w' \<and> collected t contents scope w w') w"
  unfolding cf_commitDeletion_def wp_bindM wp_returnM_cont
proof (rule wp_d1)
  fix ds e
  show "gc_inv t (w\<lparr>w_deliveries := ds\<rparr>) \<and> collected t contents scope w (w\<lparr>w_deliveries := ds\<rparr>)"
    using gc_quiet_same [OF i, of "w\<lparr>w_deliveries := ds\<rparr>"] by (simp add: gc_quiet_def)
qed (use node_deleted [OF i x] in blast)+

end

section \<open>The adapter is a collector's repository\<close>

sublocale space_store \<subseteq> gc: gc_repository "cloudflareNodeGcRepository bucket" scope "gc_inv t" t "deletion_ok t scope"
  "space_nodes scope" "space_content scope" "collected t contents scope" for t
proof (unfold_locales, goal_cases)
  case 1
  show ?case by (rule collected_refl)
next
  case (2 s s' s'')
  then show ?case by (rule collected_trans)
next
  case (3 s n)
  then show ?case using cf_find [of t s n]
    by (auto simp: cloudflareNodeGcRepository_def gc_quiet_def elim!: wp_mono)
next
  case (4 s h)
  then show ?case using cf_read_still [of t s h]
    by (auto simp: cloudflareNodeGcRepository_def gc_quiet_def elim!: wp_mono)
next
  case (5 s d)
  then show ?case using cf_delete_content [of t s d]
    by (auto simp: cloudflareNodeGcRepository_def gc_quiet_def elim!: wp_mono)
next
  case (6 s d)
  then show ?case using cf_commit_deletion [of t s d] by (simp add: cloudflareNodeGcRepository_def)
qed

end
