(* ===== verification/Node_Read.thy ===== *)
theory Node_Read
  imports Service_Errors
begin

text \<open>
  Reads, \<^verbatim>\<open>packages/service/src/node-read.ts\<close> and \<^verbatim>\<open>node-usage.ts\<close>: content with an optional
  byte range, metadata, and the usage of a Space, each over a repository record.
\<close>

section \<open>Ranges\<close>

definition is_digit :: "char \<Rightarrow> bool" where
  "is_digit c \<longleftrightarrow> (let n = of_char c :: nat in 48 \<le> n \<and> n \<le> 57)"

text \<open>The value of a string of decimal digits.\<close>

fun decimal_value :: "nat \<Rightarrow> string \<Rightarrow> nat" where
  "decimal_value acc [] = acc"
| "decimal_value acc (c # cs) = decimal_value (10 * acc + (of_char c - 48)) cs"

definition number_of_digits :: "string \<Rightarrow> int option" where
  "number_of_digits ds = (if ds = [] then None else Some (int (decimal_value 0 ds)))"

text \<open>\<open>/^bytes=(\d*)-(\d*)$/\<close>: the two groups.\<close>

definition match_range :: "string \<Rightarrow> (string \<times> string) option" where
  "match_range header =
     (if take 6 header \<noteq> ''bytes='' then None
      else
        let rest = drop 6 header; first = takeWhile is_digit rest in
        case dropWhile is_digit rest of
          [] \<Rightarrow> None
        | c # final \<Rightarrow> if c = CHR ''-'' \<and> list_all is_digit final then Some (first, final) else None)"

definition rangeNotSatisfiable :: "int \<Rightarrow> exn" where
  "rangeNotSatisfiable csize =
     NodeOpError 416 INVALID_REQUEST ''Range is not satisfiable'' [(''Content-Range'', ''bytes */'' @ show_int csize)]"

definition parseNodeContentRange :: "string option \<Rightarrow> int \<Rightarrow> exn + (int \<times> int) option" where
  "parseNodeContentRange header csize =
     (case header of
        None \<Rightarrow> Inr None
      | Some h \<Rightarrow>
          (case match_range h of
             None \<Rightarrow> Inl (rangeNotSatisfiable csize)
           | Some (g1, g2) \<Rightarrow>
               if g1 = [] \<and> g2 = [] \<or> csize = 0 then Inl (rangeNotSatisfiable csize)
               else
                 let first = number_of_digits g1; final = number_of_digits g2 in
                 if (case first of Some n \<Rightarrow> \<not> isSafeInteger n \<or> n < 0 | None \<Rightarrow> False)
                   \<or> (case final of Some n \<Rightarrow> \<not> isSafeInteger n \<or> n < 0 | None \<Rightarrow> False)
                 then Inl (rangeNotSatisfiable csize)
                 else
                   (case first of
                      None \<Rightarrow>
                        (case final of
                           None \<Rightarrow> Inl (rangeNotSatisfiable csize)
                         | Some l \<Rightarrow>
                             if l = 0 then Inl (rangeNotSatisfiable csize)
                             else Inr (Some (csize - min l csize, min l csize)))
                    | Some f \<Rightarrow>
                        if f \<ge> csize \<or> (case final of Some l \<Rightarrow> l < f | None \<Rightarrow> False)
                        then Inl (rangeNotSatisfiable csize)
                        else
                          let end_at = (case final of None \<Rightarrow> csize - 1 | Some l \<Rightarrow> min l (csize - 1))
                          in Inr (Some (f, end_at - f + 1)))))"

text \<open>A range that is accepted is a non-empty part of the content.\<close>

lemma range_within:
  assumes "parseNodeContentRange header csize = Inr (Some (offset, len))" and "0 \<le> csize"
  shows "0 \<le> offset" and "0 < len" and "offset + len \<le> csize"
  using assms
  by (auto simp: parseNodeContentRange_def Let_def number_of_digits_def split: option.splits if_splits)

section \<open>Content and metadata\<close>

record nodeReadRecord =
  nr_contentSize :: int
  nr_contentType :: string
  nr_leaseStartedAt :: int
  nr_leaseExpiresAt :: int
  nr_childRefCount :: int
  nr_rootRefCount :: int

record 's nodeReadRepository =
  readNode :: "appSpaceScope \<Rightarrow> string \<Rightarrow> ('s, exn, nodeReadRecord option) prog"
  readOrderedRefs :: "appSpaceScope \<Rightarrow> string \<Rightarrow> ('s, exn, string list) prog"
  readCanonicalRange :: "appSpaceScope \<Rightarrow> string \<Rightarrow> int \<Rightarrow> int \<Rightarrow> ('s, exn, bytes list option) prog"

record nodeContentStream =
  ns_body :: "bytes list"
  ns_contentType :: string
  ns_contentSize :: int
  ns_refs :: "string list"
  ns_range :: "(int \<times> int) option"

definition readNodeContent ::
  "'s nodeReadRepository \<Rightarrow> appSpaceScope \<Rightarrow> string \<Rightarrow> string option \<Rightarrow> ('s, exn, nodeContentStream option) prog" where
  "readNodeContent repository scope hash rangeHeader =
     bindM (readNode repository scope hash) (\<lambda>node.
     case node of
       None \<Rightarrow> returnM None
     | Some n \<Rightarrow>
         bindM (readOrderedRefs repository scope hash) (\<lambda>refs.
         bindM (liftM (parseNodeContentRange rangeHeader (nr_contentSize n))) (\<lambda>requestedRange.
         let logicalOffset = (case requestedRange of Some (offset, _) \<Rightarrow> offset | None \<Rightarrow> 0);
             logicalLength = (case requestedRange of Some (_, len) \<Rightarrow> len | None \<Rightarrow> nr_contentSize n);
             physicalOffset = int HEADER_SIZE + int (length (textEncode (nr_contentType n))) + int (length refs) * int HASH_SIZE in
         bindM (readCanonicalRange repository scope hash (physicalOffset + logicalOffset) logicalLength) (\<lambda>body.
         returnM (case body of
             None \<Rightarrow> None
           | Some b \<Rightarrow> Some \<lparr>ns_body = b, ns_contentType = nr_contentType n, ns_contentSize = nr_contentSize n, ns_refs = refs,
               ns_range = map_option (\<lambda>_. (logicalOffset, logicalOffset + logicalLength - 1)) requestedRange\<rparr>)))))"

record nodeMetadata =
  nm_hash :: string
  nm_size :: int
  nm_contentType :: string
  nm_refs :: "string list"
  nm_leaseStartedAt :: int
  nm_leaseExpiresAt :: int
  nm_childRefCount :: int
  nm_rootRefCount :: int

definition readNodeMetadata ::
  "'s nodeReadRepository \<Rightarrow> appSpaceScope \<Rightarrow> string \<Rightarrow> ('s, exn, nodeMetadata option) prog" where
  "readNodeMetadata repository scope hash =
     bindM (readNode repository scope hash) (\<lambda>node.
     case node of
       None \<Rightarrow> returnM None
     | Some n \<Rightarrow>
         bindM (readOrderedRefs repository scope hash) (\<lambda>refs.
         returnM (Some \<lparr>nm_hash = hash, nm_size = nr_contentSize n, nm_contentType = nr_contentType n, nm_refs = refs,
           nm_leaseStartedAt = nr_leaseStartedAt n, nm_leaseExpiresAt = nr_leaseExpiresAt n,
           nm_childRefCount = nr_childRefCount n, nm_rootRefCount = nr_rootRefCount n\<rparr>)))"

section \<open>Usage\<close>

record nodeUsageEntry =
  nu_hash :: string
  nu_contentSize :: int
  nu_leaseExpiresAt :: int

record 's nodeUsageRepository =
  listNodes :: "appSpaceScope \<Rightarrow> ('s, exn, nodeUsageEntry list) prog"
  readCanonicalStoredBytes :: "appSpaceScope \<Rightarrow> string \<Rightarrow> ('s, exn, int option) prog"
  readReservedBytes :: "appSpaceScope \<Rightarrow> ('s, exn, int) prog"

record casUsage =
  us_nodeCount :: int
  us_readyContentBytes :: int
  us_readyStoredBytes :: int
  us_reservedBytes :: int
  us_notReadyNodeCount :: int
  us_leasedNodeCount :: int

text \<open>The loop over the nodes with its four accumulators.\<close>

fun usage_loop ::
  "'s nodeUsageRepository \<Rightarrow> appSpaceScope \<Rightarrow> nodeUsageEntry list \<Rightarrow> int \<times> int \<times> int \<times> int
   \<Rightarrow> ('s, exn, int \<times> int \<times> int \<times> int) prog" where
  "usage_loop repository scope [] acc = returnM acc"
| "usage_loop repository scope (node # nodes) (content, stored, notReady, leased) =
     bindM (readCanonicalStoredBytes repository scope (nu_hash node)) (\<lambda>storedBytes.
     usage_loop repository scope nodes
       (content + nu_contentSize node,
        (case storedBytes of None \<Rightarrow> stored | Some n \<Rightarrow> stored + n),
        (case storedBytes of None \<Rightarrow> notReady + 1 | Some _ \<Rightarrow> notReady),
        (if nu_leaseExpiresAt node > 0 then leased + 1 else leased)))"

definition readNodeUsage :: "'s nodeUsageRepository \<Rightarrow> appSpaceScope \<Rightarrow> ('s, exn, casUsage) prog" where
  "readNodeUsage repository scope =
     bindM (listNodes repository scope) (\<lambda>nodes.
     bindM (usage_loop repository scope nodes (0, 0, 0, 0)) (\<lambda>(content, stored, notReady, leased).
     bindM (readReservedBytes repository scope) (\<lambda>reserved.
     returnM \<lparr>us_nodeCount = int (length nodes), us_readyContentBytes = content, us_readyStoredBytes = stored,
              us_reservedBytes = reserved, us_notReadyNodeCount = notReady, us_leasedNodeCount = leased\<rparr>)))"

end
