(* ===== verification/Cf_Node_Read.thy ===== *)
theory Cf_Node_Read
  imports Node_Read Cf_Lease_Correct
begin

text \<open>
  The D1/R2 adapters of the reads, \<^verbatim>\<open>packages/service-cloudflare/src/node-read.ts\<close> and
  \<^verbatim>\<open>node-usage.ts\<close>, and what a read returns on a store that satisfies the invariant.
\<close>

section \<open>The adapters\<close>

definition cf_readNode :: "appSpaceScope \<Rightarrow> string \<Rightarrow> ('b cf_world, exn, nodeReadRecord option) prog" where
  "cf_readNode scope hash = d1 (query (\<lambda>d. map_option (\<lambda>r.
     \<lparr>nr_contentSize = content_size r, nr_contentType = content_type r,
      nr_leaseStartedAt = lease_started_at r, nr_leaseExpiresAt = lease_expires_at r,
      nr_childRefCount = child_ref_count r, nr_rootRefCount = root_ref_count r\<rparr>) (map_of (cas_nodes d) (scope, hash))))"

definition cf_readOrderedRefs :: "appSpaceScope \<Rightarrow> string \<Rightarrow> ('b cf_world, exn, string list) prog" where
  "cf_readOrderedRefs scope hash = d1 (query (select_refs (scope, hash)))"

definition cf_readCanonicalRange ::
  "'b r2_bucket \<Rightarrow> appSpaceScope \<Rightarrow> string \<Rightarrow> int \<Rightarrow> int \<Rightarrow> ('b cf_world, exn, bytes list option) prog" where
  "cf_readCanonicalRange bucket scope hash offset len = r2 (r2_get_range bucket (node_object_key scope hash) offset len)"

definition cloudflareNodeReadRepository :: "'b r2_bucket \<Rightarrow> 'b cf_world nodeReadRepository" where
  "cloudflareNodeReadRepository bucket =
     \<lparr>readNode = cf_readNode, readOrderedRefs = cf_readOrderedRefs, readCanonicalRange = cf_readCanonicalRange bucket\<rparr>"

definition cf_listNodes :: "appSpaceScope \<Rightarrow> ('b cf_world, exn, nodeUsageEntry list) prog" where
  "cf_listNodes scope = d1 (query (\<lambda>d. map (\<lambda>((_, h), r).
     \<lparr>nu_hash = h, nu_contentSize = content_size r, nu_leaseExpiresAt = lease_expires_at r\<rparr>)
     (filter (\<lambda>((sc, _), _). sc = scope) (cas_nodes d))))"

definition cf_readCanonicalStoredBytes ::
  "'b r2_bucket \<Rightarrow> appSpaceScope \<Rightarrow> string \<Rightarrow> ('b cf_world, exn, int option) prog" where
  "cf_readCanonicalStoredBytes bucket scope hash =
     bindM (r2 (r2_head bucket (node_object_key scope hash))) (\<lambda>object. returnM (map_option fst object))"

definition cf_readReservedBytes :: "appSpaceScope \<Rightarrow> ('b cf_world, exn, int) prog" where
  "cf_readReservedBytes scope = d1 (query (\<lambda>d. sum_where (of_space scope) rs_stored_bytes (cas_upload_reservations d)))"

definition cloudflareNodeUsageRepository :: "'b r2_bucket \<Rightarrow> 'b cf_world nodeUsageRepository" where
  "cloudflareNodeUsageRepository bucket =
     \<lparr>listNodes = cf_listNodes, readCanonicalStoredBytes = cf_readCanonicalStoredBytes bucket,
      readReservedBytes = cf_readReservedBytes\<rparr>"

section \<open>The edges in order\<close>

lemma parent_rows:
  fixes t :: "((node_key \<times> nat) \<times> string) list"
  shows "map_of (map (\<lambda>((_, i), c). (i, c)) (filter (\<lambda>((p, _), _). p = k) t)) i = map_of t (k, i)"
    and "keys_distinct t \<Longrightarrow> distinct (map fst (map (\<lambda>((_, i), c). (i, c)) (filter (\<lambda>((p, _), _). p = k) t)))"
  unfolding keys_distinct_def by (induction t) (auto simp: image_iff)

lemma sorted_rows_enumerate:
  assumes dist: "distinct (map fst rows)" and rows: "\<And>i. map_of rows i = (if i < length xs then Some (xs ! i) else None)"
  shows "map snd (sort_key fst rows) = xs"
proof -
  let ?s = "sort_key fst rows"
  have "fst ` set rows = {..< length xs}"
  proof -
    have "fst ` set rows = dom (map_of rows)" by (simp add: dom_map_of_conv_image_fst)
    also have "\<dots> = {..< length xs}" by (auto simp: rows split: if_splits)
    finally show ?thesis .
  qed
  then have keys: "map fst ?s = [0..<length xs]"
    by (intro sorted_distinct_set_unique) (use dist in \<open>auto simp: distinct_map lessThan_atLeast0\<close>)
  then have len: "length ?s = length xs" by (metis length_map length_upt minus_nat.diff_0)
  show ?thesis
  proof (rule nth_equalityI)
    fix i
    assume i: "i < length (map snd ?s)"
    then have "fst (?s ! i) = i" using arg_cong [OF keys, of "\<lambda>l. l ! i"] len by simp
    moreover have "?s ! i \<in> set rows" using i nth_mem [of i ?s] by simp
    ultimately have "(i, snd (?s ! i)) \<in> set rows" by (metis prod.collapse)
    then have "map_of rows i = Some (snd (?s ! i))" using dist by (simp add: map_of_is_SomeI)
    then show "map snd ?s ! i = xs ! i" using i len rows [of i] by simp
  qed (use len in simp)
qed

lemma select_refs_eq:
  assumes "keys_distinct (cas_edges d)" and "has_refs k refs d"
  shows "select_refs k d = refs"
  unfolding select_refs_def
  by (rule sorted_rows_enumerate)
    (use assms parent_rows [where k = k and t = "cas_edges d"] in \<open>simp_all add: edge_rows_def has_refs_def\<close>)

section \<open>What a read returns\<close>

text \<open>No two byte strings have this digest: SHA-256 is a parameter, and this is what content addressing rests on.\<close>

definition collision_free_at :: "(bytes \<Rightarrow> bytes) \<Rightarrow> string \<Rightarrow> bool" where
  "collision_free_at sha h \<longleftrightarrow> (\<forall>a b. hashToHex (sha a) = Inr h \<longrightarrow> hashToHex (sha b) = Inr h \<longrightarrow> a = b)"

text \<open>The stream is the content of the stored node \<open>body\<close>, or the requested part of it.\<close>

definition serves :: "bytes \<Rightarrow> nodeContentStream \<Rightarrow> bool" where
  "serves body s \<longleftrightarrow> (\<exists>hs content. node_shape (int (length content)) (ns_contentType s) hs
     \<and> body = node_bytes (ns_contentType s) hs content
     \<and> ns_contentSize s = int (length content) \<and> ns_refs s = hex_of_hashes hs
     \<and> (case ns_range s of
           None \<Rightarrow> concat (ns_body s) = content
         | Some (a, b) \<Rightarrow> 0 \<le> a \<and> a \<le> b \<and> b < int (length content)
             \<and> concat (ns_body s) = take (nat (b - a + 1)) (drop (nat a) content)))"

lemma drop_prefix:
  assumes "node_shape (int (length content)) ct hs" and "0 \<le> a"
    and "off = 24 + int (length ct) + 32 * int (length hs) + a"
  shows "drop (nat off) (node_bytes ct hs content) = drop (nat a) content"
proof -
  let ?p = "node_prefix (int (length content)) ct hs"
  have "int (length ?p) = 24 + int (length ct) + 32 * int (length hs)"
    using length_node_bytes [OF assms(1)] by (simp add: node_bytes_def)
  then have "nat off = length ?p + nat a" using assms(2,3) by linarith
  then show ?thesis by (simp add: node_bytes_def)
qed

text \<open>A read leaves the database, the objects and the clock as they are.\<close>

definition store_same :: "('b \<Rightarrow> string \<Rightarrow> bytes option) \<Rightarrow> 'b cf_world \<Rightarrow> 'b cf_world \<Rightarrow> bool" where
  "store_same contents w w' \<longleftrightarrow> w_db w' = w_db w \<and> contents (w_bucket w') = contents (w_bucket w) \<and> w_clock w' = w_clock w"

context space_store
begin

lemma committed_node:
  assumes ok: "world_ok sha256 contents w" and free: "collision_free_at sha256 h"
    and row: "map_of (cas_nodes (w_db w)) (scope, h) = Some r"
    and body: "contents (w_bucket w) (node_object_key scope h) = Some body"
  shows "\<exists>hs content. node_shape (int (length content)) (content_type r) hs \<and> body = node_bytes (content_type r) hs content
    \<and> content_size r = int (length content) \<and> select_refs (scope, h) (w_db w) = hex_of_hashes hs"
proof -
  have graph: "graph_ok sha256 (w_db w)" using db_ok_parts(2) [OF world_db_ok [OF ok]] .
  then obtain n refs where gen: "genuine sha256 h n (content_size r) (content_type r) refs" "has_refs (scope, h) refs (w_db w)"
    using row unfolding graph_ok_def nodes_genuine_def node_genuine_def by force
  have hash: "validateHash h = Inr ()" using genuine_hash_ok [OF gen(1)] .
  have "hashToHex (sha256 body) = Inr h"
    using ok body hash scope_valid unfolding world_ok_def objects_ok_def by blast
  moreover obtain hs and content :: bytes where g: "node_shape (int (length content)) (content_type r) hs"
    "hashToHex (sha256 (node_bytes (content_type r) hs content)) = Inr h" "content_size r = int (length content)" "refs = hex_of_hashes hs"
    using gen(1) unfolding genuine_def by blast
  ultimately have "body = node_bytes (content_type r) hs content" using free unfolding collision_free_at_def by blast
  moreover have "select_refs (scope, h) (w_db w) = refs"
    using graph gen(2) by (intro select_refs_eq) (auto simp: graph_ok_def edges_closed_def)
  ultimately show ?thesis using g by blast
qed

lemma read_query:
  assumes "store_same contents w w1"
  shows "wp (d1 (query f)) (\<lambda>r w'. store_same contents w w' \<and> r = f (w_db w)) (\<lambda>_ w'. store_same contents w w') w1"
  using assms by (intro wp_d1_query) (simp_all add: store_same_def)

lemma read_range:
  assumes "store_same contents w w1" and "0 \<le> off" and "0 < len"
  shows "wp (cf_readCanonicalRange bucket scope h off len)
    (\<lambda>r w'. store_same contents w w' \<and> map_option concat r
       = map_option (\<lambda>body. take (nat len) (drop (nat off) body)) (contents (w_bucket w) (node_object_key scope h)))
    (\<lambda>_ w'. store_same contents w w') w1"
  unfolding cf_readCanonicalRange_def wp_r2
  by (rule wp_mono [OF get_range_law [OF canonical_node_key assms(2,3)]]) (use assms(1) in \<open>auto simp: store_same_def\<close>)

text \<open>The slice that is asked of the bucket is the slice of the content.\<close>

lemma served_slice:
  assumes ok: "world_ok sha256 contents w" and free: "collision_free_at sha256 h"
    and row: "map_of (cas_nodes (w_db w)) (scope, h) = Some r" and nonempty: "0 < content_size r"
    and range: "parseNodeContentRange header (content_size r) = Inr requested"
    and off: "off = (case requested of Some (offset, _) \<Rightarrow> offset | None \<Rightarrow> 0)"
    and len: "len = (case requested of Some (_, len) \<Rightarrow> len | None \<Rightarrow> content_size r)"
    and body: "contents (w_bucket w) (node_object_key scope h) = Some body"
    and chunks: "concat b = take (nat len) (drop (nat (int HEADER_SIZE + int (length (textEncode (content_type r)))
       + int (length (select_refs (scope, h) (w_db w))) * int HASH_SIZE + off)) body)"
  shows "serves body \<lparr>ns_body = b, ns_contentType = content_type r, ns_contentSize = content_size r,
      ns_refs = select_refs (scope, h) (w_db w), ns_range = map_option (\<lambda>_. (off, off + len - 1)) requested\<rparr>"
proof -
  obtain hs content where node: "node_shape (int (length content)) (content_type r) hs" "body = node_bytes (content_type r) hs content"
    "content_size r = int (length content)" "select_refs (scope, h) (w_db w) = hex_of_hashes hs"
    using committed_node [OF ok free row body] by blast
  have bounds: "0 \<le> off" "0 < len" "off + len \<le> int (length content)"
    using range_within [of header "content_size r"] range nonempty off len node(3) by (auto split: option.splits)
  have "length (textEncode (content_type r)) = length (content_type r)"
    using node(1) by (simp add: node_shape_def validateContentType_ok length_textEncode_ascii printable_is_ascii)
  then have "concat b = take (nat len) (drop (nat off) content)"
    unfolding chunks node(2,4) by (subst drop_prefix [OF node(1) bounds(1)]) (simp_all add: HEADER_SIZE_def HASH_SIZE_def hex_of_hashes_def)
  then show ?thesis
    using node bounds off len unfolding serves_def
    by (intro exI [of _ hs] exI [of _ content]) (auto split: option.splits)
qed

text \<open>
  A read of a non-empty node changes nothing and returns the content the node's hash stands for,
  or the requested range of it; it returns nothing only if the row or the object is missing.
\<close>

definition read_result :: "'b cf_world \<Rightarrow> string \<Rightarrow> nodeContentStream option \<Rightarrow> bool" where
  "read_result w h r \<longleftrightarrow> (case r of
        None \<Rightarrow> map_of (cas_nodes (w_db w)) (scope, h) = None \<or> contents (w_bucket w) (node_object_key scope h) = None
      | Some s \<Rightarrow> map_of (cas_nodes (w_db w)) (scope, h) \<noteq> None
          \<and> (\<exists>body. contents (w_bucket w) (node_object_key scope h) = Some body \<and> serves body s))"

lemma read_content_ok:
  assumes ok: "world_ok sha256 contents w" and free: "collision_free_at sha256 h"
    and nonempty: "\<And>r. map_of (cas_nodes (w_db w)) (scope, h) = Some r \<Longrightarrow> 0 < content_size r"
  shows "wp (readNodeContent (cloudflareNodeReadRepository bucket) scope h header)
    (\<lambda>r w'. store_same contents w w' \<and> read_result w h r) (\<lambda>_ w'. store_same contents w w') w"
proof -
  let ?E = "\<lambda>_ w'. store_same contents w w'"
  have fetch: "wp (bindM (cf_readCanonicalRange bucket scope h (phys + off) len) (\<lambda>body.
         returnM (case body of
             None \<Rightarrow> None
           | Some b \<Rightarrow> Some \<lparr>ns_body = b, ns_contentType = content_type r, ns_contentSize = content_size r,
               ns_refs = select_refs (scope, h) (w_db w),
               ns_range = map_option (\<lambda>_. (off, off + len - 1)) requested\<rparr>)))
      (\<lambda>r w'. store_same contents w w' \<and> read_result w h r) ?E w1"
    if w1: "store_same contents w w1" and row: "map_of (cas_nodes (w_db w)) (scope, h) = Some r"
      and range: "parseNodeContentRange header (content_size r) = Inr requested"
      and off: "off = (case requested of Some (offset, _) \<Rightarrow> offset | None \<Rightarrow> 0)"
      and len: "len = (case requested of Some (_, len) \<Rightarrow> len | None \<Rightarrow> content_size r)"
      and phys: "phys = int HEADER_SIZE + int (length (textEncode (content_type r)))
        + int (length (select_refs (scope, h) (w_db w))) * int HASH_SIZE" for w1 r requested off len phys
  proof -
    have "0 \<le> off" "0 < len"
      using range_within [of header "content_size r"] range nonempty [OF row] off len by (auto split: option.splits)
    then have bounds: "0 \<le> phys + off" "0 < len" by (simp_all add: phys)
    show ?thesis
      unfolding wp_bindM wp_returnM_cont
    proof (rule wp_mono [OF read_range [OF w1 bounds]])
      fix b w2
      assume b: "store_same contents w w2 \<and> map_option concat b
        = map_option (\<lambda>body. take (nat len) (drop (nat (phys + off)) body)) (contents (w_bucket w) (node_object_key scope h))"
      then show "store_same contents w w2 \<and> read_result w h (case b of None \<Rightarrow> None
           | Some b \<Rightarrow> Some \<lparr>ns_body = b, ns_contentType = content_type r, ns_contentSize = content_size r,
               ns_refs = select_refs (scope, h) (w_db w), ns_range = map_option (\<lambda>_. (off, off + len - 1)) requested\<rparr>)"
        using served_slice [OF ok free row nonempty [OF row] range off len] unfolding phys
        using row by (cases "contents (w_bucket w) (node_object_key scope h)") (auto simp: read_result_def)
    qed
  qed
  have same: "store_same contents w w" by (simp add: store_same_def)
  show ?thesis
    unfolding readNodeContent_def cloudflareNodeReadRepository_def nodeReadRepository.simps
    unfolding wp_bindM [of "cf_readNode _ _"]
    unfolding cf_readNode_def
  proof (rule wp_mono [OF read_query [OF same]], goal_cases)
    case (1 node w1)
    then show ?case
    proof (cases "map_of (cas_nodes (w_db w)) (scope, h)")
      case None
      then show ?thesis using 1 by (simp add: wp_simps read_result_def)
    next
      case (Some r)
      have "wp (cf_readOrderedRefs scope h) (\<lambda>refs w2. store_same contents w w2 \<and> refs = select_refs (scope, h) (w_db w)) ?E w1"
        unfolding cf_readOrderedRefs_def using 1 by (intro read_query) blast
      note refs = wp_mono [OF this]
      show ?thesis
        unfolding conjunct2 [OF 1] Some option.map option.case wp_bindM [of "cf_readOrderedRefs _ _"] Let_def nodeReadRecord.simps
        by (rule refs) (use fetch [OF _ Some] in \<open>auto simp: wp_bindM [of "liftM _"] wp_liftM split: sum.split\<close>)
    qed
  qed simp
qed

section \<open>What a usage scan returns\<close>

definition object_bytes :: "'b cf_world \<Rightarrow> string \<Rightarrow> int" where
  "object_bytes w h = (case contents (w_bucket w) (node_object_key scope h) of None \<Rightarrow> 0 | Some b \<Rightarrow> int (length b))"

definition object_missing :: "'b cf_world \<Rightarrow> string \<Rightarrow> bool" where
  "object_missing w h \<longleftrightarrow> contents (w_bucket w) (node_object_key scope h) = None"

lemma usage_loop_ok:
  assumes "store_same contents w w1"
  shows "wp (usage_loop (cloudflareNodeUsageRepository bucket) scope nodes (c, st, nr, l))
    (\<lambda>r w'. store_same contents w w' \<and> r = (c + sum_list (map nu_contentSize nodes), st + sum_list (map (\<lambda>n. object_bytes w (nu_hash n)) nodes),
       nr + int (length (filter (\<lambda>n. object_missing w (nu_hash n)) nodes)), l + int (length (filter (\<lambda>n. nu_leaseExpiresAt n > 0) nodes))))
    (\<lambda>_ w'. store_same contents w w') w1"
  using assms
proof (induction nodes arbitrary: c st nr l w1)
  case Nil
  then show ?case by (simp add: wp_simps)
next
  case (Cons n nodes)
  let ?key = "node_object_key scope (nu_hash n)"
  have "wp (readCanonicalStoredBytes (cloudflareNodeUsageRepository bucket) scope (nu_hash n))
      (\<lambda>r w'. store_same contents w w' \<and> r = map_option (\<lambda>b. int (length b)) (contents (w_bucket w) ?key)) (\<lambda>_ w'. store_same contents w w') w1"
    unfolding cloudflareNodeUsageRepository_def nodeUsageRepository.simps cf_readCanonicalStoredBytes_def wp_bindM wp_returnM_cont wp_r2
    by (rule wp_mono [OF head_law [OF canonical_node_key]])
      (use Cons.prems in \<open>auto simp: store_same_def head_reply_def split: option.splits\<close>)
  note step = wp_mono [OF this]
  show ?case
    unfolding usage_loop.simps wp_bindM [of "readCanonicalStoredBytes _ _ _"]
  proof (rule step)
    fix r w2
    assume r: "store_same contents w w2 \<and> r = map_option (\<lambda>b. int (length b)) (contents (w_bucket w) ?key)"
    then have "store_same contents w w2" by simp
    note IH = wp_mono [OF Cons.IH [OF this]]
    have obj: "object_bytes w (nu_hash n) = (case r of None \<Rightarrow> 0 | Some m \<Rightarrow> m)" "object_missing w (nu_hash n) \<longleftrightarrow> r = None"
      using r by (auto simp: object_bytes_def object_missing_def split: option.splits)
    show "wp (usage_loop (cloudflareNodeUsageRepository bucket) scope nodes (c + nu_contentSize n,
        (case r of None \<Rightarrow> st | Some m \<Rightarrow> st + m), (case r of None \<Rightarrow> nr + 1 | Some _ \<Rightarrow> nr),
        (if nu_leaseExpiresAt n > 0 then l + 1 else l)))
      (\<lambda>r w'. store_same contents w w' \<and> r = (c + sum_list (map nu_contentSize (n # nodes)), st + sum_list (map (\<lambda>n. object_bytes w (nu_hash n)) (n # nodes)),
       nr + int (length (filter (\<lambda>n. object_missing w (nu_hash n)) (n # nodes))), l + int (length (filter (\<lambda>n. nu_leaseExpiresAt n > 0) (n # nodes)))))
      (\<lambda>_ w'. store_same contents w w') w2"
      by (rule IH) (use r obj in \<open>auto split: option.splits\<close>)
  qed
qed

lemma space_rows_sums:
  fixes t :: "(node_key \<times> node_row) list"
  defines "rows \<equiv> map (\<lambda>((_, h), r). \<lparr>nu_hash = h, nu_contentSize = content_size r, nu_leaseExpiresAt = lease_expires_at r\<rparr>)
     (filter (\<lambda>((sc, _), _). sc = scope) t)"
  shows "int (length rows) = sum_where (of_space scope) (\<lambda>_. 1) t"
    and "sum_list (map nu_contentSize rows) = sum_where (of_space scope) content_size t"
    and "int (length (filter (\<lambda>n. nu_leaseExpiresAt n > 0) rows)) = sum_where (of_space scope) (\<lambda>r. if lease_expires_at r > 0 then 1 else 0) t"
  unfolding rows_def by (induction t) (auto simp: sum_where_Cons of_space_def)

lemma sum_where_usage_fields:
  "ready_content_bytes (sum_where p g t) = sum_where p (\<lambda>v. ready_content_bytes (g v)) t"
  "leased_node_count (sum_where p g t) = sum_where p (\<lambda>v. leased_node_count (g v)) t"
  by (induction t) (auto simp: sum_where_Cons usage_ops)

lemma usage_total_scan:
  "ready_content_bytes (usage_total sc d) = sum_where (of_space sc) content_size (cas_nodes d)"
  "leased_node_count (usage_total sc d) = sum_where (of_space sc) (\<lambda>r. if lease_expires_at r > 0 then 1 else 0) (cas_nodes d)"
  by (simp_all add: usage_total_def plus_usage_def sum_where_usage_fields node_usage_def reservation_usage_def sum_where_zero)

lemma usage_scan_ok:
  "wp (readNodeUsage (cloudflareNodeUsageRepository bucket) scope)
    (\<lambda>r w'. store_same contents w w' \<and> us_nodeCount r = node_count (usage_total scope (w_db w))
       \<and> us_readyContentBytes r = ready_content_bytes (usage_total scope (w_db w))
       \<and> us_reservedBytes r = reserved_bytes (usage_total scope (w_db w))
       \<and> us_leasedNodeCount r = leased_node_count (usage_total scope (w_db w)))
    (\<lambda>_ w'. store_same contents w w') w"
proof -
  let ?repo = "cloudflareNodeUsageRepository bucket"
  let ?rows = "\<lambda>d. map (\<lambda>((_, h), r). \<lparr>nu_hash = h, nu_contentSize = content_size r, nu_leaseExpiresAt = lease_expires_at r\<rparr>)
     (filter (\<lambda>((sc, _), _). sc = scope) (cas_nodes d))"
  let ?E = "\<lambda>_ w'. store_same contents w w'"
  let ?Q = "\<lambda>r w'. store_same contents w w' \<and> us_nodeCount r = node_count (usage_total scope (w_db w))
       \<and> us_readyContentBytes r = ready_content_bytes (usage_total scope (w_db w))
       \<and> us_reservedBytes r = reserved_bytes (usage_total scope (w_db w))
       \<and> us_leasedNodeCount r = leased_node_count (usage_total scope (w_db w))"
  have same: "store_same contents w w" by (simp add: store_same_def)
  have list: "wp (listNodes ?repo scope) (\<lambda>r w'. store_same contents w w' \<and> r = ?rows (w_db w)) ?E w"
    unfolding cloudflareNodeUsageRepository_def nodeUsageRepository.simps cf_listNodes_def by (rule read_query [OF same])
  have reserved: "wp (readReservedBytes ?repo scope) (\<lambda>r w'. store_same contents w w' \<and> r = reserved_bytes (usage_total scope (w_db w))) ?E w1"
    if "store_same contents w w1" for w1
    unfolding reserved_total cloudflareNodeUsageRepository_def nodeUsageRepository.simps cf_readReservedBytes_def by (rule read_query [OF that])
  show ?thesis
    unfolding readNodeUsage_def wp_bindM [of "listNodes _ _"]
  proof (rule wp_mono [OF list])
    fix nodes w1
    assume a: "store_same contents w w1 \<and> nodes = ?rows (w_db w)"
    show "wp (bindM (usage_loop ?repo scope nodes (0, 0, 0, 0)) (\<lambda>(content, stored, notReady, leased).
       bindM (readReservedBytes ?repo scope) (\<lambda>reserved.
       returnM \<lparr>us_nodeCount = int (length nodes), us_readyContentBytes = content, us_readyStoredBytes = stored,
              us_reservedBytes = reserved, us_notReadyNodeCount = notReady, us_leasedNodeCount = leased\<rparr>))) ?Q ?E w1"
      unfolding wp_bindM [of "usage_loop _ _ _ _"]
    proof (rule wp_mono [OF usage_loop_ok [OF conjunct1 [OF a]]], goal_cases)
      case (1 totals w2)
      note sums = space_rows_sums [of "cas_nodes (w_db w)", folded conjunct2 [OF a]]
      show ?case
        unfolding conjunct2 [OF 1] prod.case wp_bindM wp_returnM_cont
        by (rule wp_mono [OF reserved [OF conjunct1 [OF 1]]]) (simp_all add: sums node_count_total usage_total_scan)
    qed simp
  qed simp
qed

end

end
