(* ===== verification/Root_Refs_Contract.thy ===== *)
theory Root_Refs_Contract
  imports Root_Refs
begin

text \<open>
  What a root-reference update relies on and what it guarantees.  The locale
  \<open>root_ref_repository\<close> is the contract of a \<open>RootRefRepository\<close> for one Space, over five views
  of the state: the recorded requests, the balances, the aggregate counts of the nodes, the App's
  revision and the stored objects.  A commit that fails may or may not have taken effect; inside
  the locale it is proved that an update and its retries apply a request at most once, and that
  the answer says the truth.
\<close>

text \<open>Only a retryable error leaves open whether the update was applied.\<close>

definition validation_error :: "exn \<Rightarrow> bool" where
  "validation_error e = (case e of RootRefsValidationError _ _ _ \<Rightarrow> True | _ \<Rightarrow> False)"

lemma validation_error_simps [simp]:
  "\<not> validation_error (PlainError m)" "\<not> validation_error (StorageError m)" "\<not> validation_error (TypeErr m)"
  "\<not> validation_error (RootRefsRetryableError m)"
  by (simp_all add: validation_error_def)

lemma wp_repositoryCall:
  assumes "wp m Q (\<lambda>e s'. \<not> validation_error e \<and> E s') s"
  shows "wp (repositoryCall m) Q (\<lambda>e s'. retryable e \<and> E s') s"
  unfolding repositoryCall_def wp_catchM
  by (rule wp_mono [OF assms]) (auto simp: wp_simps validation_error_def retryable_def split: exn.splits)

section \<open>The contract\<close>

text \<open>The views of the state, and the two ways an operation may move it.\<close>

locale root_ref_views =
  fixes inv :: "'s \<Rightarrow> bool"
    and request_of :: "'s \<Rightarrow> string \<Rightarrow> (string \<times> int) option"
    and balance_of :: "'s \<Rightarrow> string \<Rightarrow> int"
    and count_of :: "'s \<Rightarrow> string \<Rightarrow> int option"
    and revision_of :: "'s \<Rightarrow> int"
    and stored :: "'s \<Rightarrow> string \<Rightarrow> bool"
    and rel :: "'s \<Rightarrow> 's \<Rightarrow> bool"
begin

definition unmoved :: "'s \<Rightarrow> 's \<Rightarrow> bool" where
  "unmoved s s' \<longleftrightarrow> inv s' \<and> rel s s' \<and> request_of s' = request_of s \<and> balance_of s' = balance_of s
     \<and> count_of s' = count_of s \<and> revision_of s' = revision_of s \<and> stored s' = stored s"

definition applied :: "'s \<Rightarrow> canonicalRootRefsUpdate \<Rightarrow> 's \<Rightarrow> bool" where
  "applied s c s' \<longleftrightarrow> inv s' \<and> rel s s'
     \<and> request_of s' = (request_of s)(cu_requestId c \<mapsto> (cu_payloadHash c, revision_of s + 1))
     \<and> balance_of s' = (\<lambda>h. balance_of s h + change_of (cu_entries c) h)
     \<and> revision_of s' = revision_of s + 1 \<and> stored s' = stored s"

text \<open>A plan made from the current state.\<close>

definition plan_ok :: "'s \<Rightarrow> rootRefCommitPlan \<Rightarrow> bool" where
  "plan_ok s p \<longleftrightarrow> request_of s (rp_requestId p) = None \<and> distinct (map fst (rp_entries p))
     \<and> rp_expectedRevision p = revision_of s \<and> rp_revision p = revision_of s + 1
     \<and> rp_projections p = map (\<lambda>(h, n). (h, if balance_of s h + n = 0 then None else Some (balance_of s h + n))) (rp_entries p)
     \<and> (\<forall>(h, n) \<in> set (rp_entries p). count_of s h = Some (balance_of s h) \<and> 0 \<le> balance_of s h + n \<and> (0 < n \<longrightarrow> stored s h))"

end

locale root_ref_repository = root_ref_views inv request_of balance_of count_of revision_of stored rel
  for inv :: "'s \<Rightarrow> bool"
    and request_of :: "'s \<Rightarrow> string \<Rightarrow> (string \<times> int) option"
    and balance_of :: "'s \<Rightarrow> string \<Rightarrow> int"
    and count_of :: "'s \<Rightarrow> string \<Rightarrow> int option"
    and revision_of :: "'s \<Rightarrow> int"
    and stored :: "'s \<Rightarrow> string \<Rightarrow> bool"
    and rel :: "'s \<Rightarrow> 's \<Rightarrow> bool" +
  fixes repo :: "'s rootRefRepository"
    and scope :: appSpaceScope
  assumes root_rel_refl: "rel s s"
    and root_rel_trans: "rel s s' \<Longrightarrow> rel s' s'' \<Longrightarrow> rel s s''"
    and find_request: "inv s \<Longrightarrow>
      wp (findRequest repo scope rid) (\<lambda>r s'. unmoved s s' \<and> r = request_of s rid)
        (\<lambda>e s'. \<not> validation_error e \<and> unmoved s s') s"
    and read_nodes: "inv s \<Longrightarrow>
      wp (readNodes repo scope hs) (\<lambda>r s'. unmoved s s' \<and> (\<forall>h \<in> set hs. map_of (rev r) h = count_of s h))
        (\<lambda>e s'. \<not> validation_error e \<and> unmoved s s') s"
    and find_unready: "inv s \<Longrightarrow>
      wp (findUnreadyNode repo scope hs) (\<lambda>r s'. unmoved s s' \<and> (r = None \<longrightarrow> (\<forall>h \<in> set hs. stored s h)))
        (\<lambda>e s'. \<not> validation_error e \<and> unmoved s s') s"
    and read_state: "inv s \<Longrightarrow>
      wp (readAppState repo scope) (\<lambda>r s'. unmoved s s' \<and> fst r = revision_of s
           \<and> (\<forall>h. (case map_of (rev (snd r)) h of None \<Rightarrow> 0 | Some n \<Rightarrow> n) = balance_of s h))
        (\<lambda>e s'. \<not> validation_error e \<and> unmoved s s') s"
    and commit_law: "inv s \<Longrightarrow> plan_ok s p \<Longrightarrow> rp_scope p = scope \<Longrightarrow>
      cu_requestId c = rp_requestId p \<Longrightarrow> cu_payloadHash c = rp_payloadHash p \<Longrightarrow> cu_entries c = rp_entries p \<Longrightarrow>
      wp (commit repo p) (\<lambda>r s'. if r = Committed then applied s c s' else unmoved s s')
        (\<lambda>e s'. \<not> validation_error e \<and> (unmoved s s' \<or> applied s c s')) s"
begin

lemma unmoved_refl: "inv s \<Longrightarrow> unmoved s s"
  by (simp add: unmoved_def root_rel_refl)

lemma unmoved_trans: "unmoved s s' \<Longrightarrow> unmoved s' s'' \<Longrightarrow> unmoved s s''"
  unfolding unmoved_def using root_rel_trans by auto

lemma unmoved_inv: "unmoved s s' \<Longrightarrow> inv s'"
  by (simp add: unmoved_def)

lemma applied_inv: "applied s c s' \<Longrightarrow> inv s'"
  by (simp add: applied_def)

lemma applied_request: "applied s c s' \<Longrightarrow> request_of s' (cu_requestId c) = Some (cu_payloadHash c, revision_of s + 1)"
  by (simp add: applied_def)

lemma unmoved_applied: "unmoved s s' \<Longrightarrow> applied s' c s'' \<Longrightarrow> applied s c s''"
  unfolding unmoved_def applied_def using root_rel_trans by auto

lemma applied_unmoved: "applied s c s' \<Longrightarrow> unmoved s' s'' \<Longrightarrow> applied s c s''"
  unfolding unmoved_def applied_def using root_rel_trans by auto

text \<open>What an answer and what an error say about the state.\<close>

definition answer_ok :: "'s \<Rightarrow> canonicalRootRefsUpdate \<Rightarrow> rootRefsUpdateResult \<Rightarrow> 's \<Rightarrow> bool" where
  "answer_ok s c r s' \<longleftrightarrow> request_of s' (cu_requestId c) = Some (cu_payloadHash c, rr_revision r)
     \<and> (unmoved s s' \<or> request_of s (cu_requestId c) = None \<and> applied s c s')"

definition error_ok :: "'s \<Rightarrow> canonicalRootRefsUpdate \<Rightarrow> exn \<Rightarrow> 's \<Rightarrow> bool" where
  "error_ok s c e s' \<longleftrightarrow>
     (unmoved s s' \<and> (\<forall>n. request_of s (cu_requestId c) = Some (cu_payloadHash c, n) \<longrightarrow> retryable e)
      \<or> request_of s (cu_requestId c) = None \<and> applied s c s' \<and> retryable e)"

lemma unmoved_request: "unmoved s s' \<Longrightarrow> request_of s' = request_of s"
  by (simp add: unmoved_def)

lemma answer_after_unmoved: "unmoved s s1 \<Longrightarrow> answer_ok s1 c r s' \<Longrightarrow> answer_ok s c r s'"
  unfolding answer_ok_def using unmoved_trans unmoved_applied unmoved_request by metis

lemma error_after_unmoved: "unmoved s s1 \<Longrightarrow> error_ok s1 c e s' \<Longrightarrow> error_ok s c e s'"
  unfolding error_ok_def using unmoved_trans unmoved_applied unmoved_request by metis

lemma answer_after_applied:
  "applied s c s1 \<Longrightarrow> request_of s (cu_requestId c) = None \<Longrightarrow> answer_ok s1 c r s' \<Longrightarrow> answer_ok s c r s'"
  unfolding answer_ok_def using applied_unmoved [of s c s1 s'] by (auto simp: applied_def)

lemma error_after_applied:
  assumes "applied s c s1" and "request_of s (cu_requestId c) = None" and "error_ok s1 c e s'"
  shows "error_ok s c e s'"
proof -
  have "request_of s1 (cu_requestId c) = Some (cu_payloadHash c, revision_of s + 1)" using assms(1) by (simp add: applied_def)
  then show ?thesis using assms applied_unmoved [OF assms(1), of s'] unfolding error_ok_def by auto
qed

text \<open>One step of the kernel that only reads.\<close>

lemma wp_read:
  assumes "wp m (\<lambda>x s'. unmoved s1 s' \<and> P x) (\<lambda>e s'. \<not> validation_error e \<and> unmoved s1 s') s1" and "unmoved s s1"
    and "\<And>x s'. unmoved s s' \<Longrightarrow> P x \<Longrightarrow> wp (f x) (answer_ok s c) (error_ok s c) s'"
  shows "wp (bindM (repositoryCall m) f) (answer_ok s c) (error_ok s c) s1"
  unfolding wp_bindM
proof (rule wp_mono [OF wp_repositoryCall [OF assms(1)]])
  show "wp (f x) (answer_ok s c) (error_ok s c) s'" if "unmoved s1 s' \<and> P x" for x s'
    using that assms(2,3) unmoved_trans by blast
  show "error_ok s c e s'" if "retryable e \<and> unmoved s1 s'" for e s'
    using that unmoved_trans [OF assms(2)] by (auto simp: error_ok_def)
qed

section \<open>The update\<close>

lemma plan_projections_ok:
  assumes "plan_projections nodes balances es = Inr ps"
    and "\<forall>h. (case map_of (rev balances) h of None \<Rightarrow> 0 | Some n \<Rightarrow> n) = b h"
  shows "ps = map (\<lambda>(h, n). (h, if b h + n = 0 then None else Some (b h + n))) es
    \<and> (\<forall>(h, n) \<in> set es. map_of (rev nodes) h = Some (b h))"
  using assms(1)
proof (induction es arbitrary: ps)
  case (Cons e es)
  then show ?case using assms(2) by (cases e) (auto simp: Let_def split: if_splits)
qed simp

lemma check_entries_ok:
  "check_entries nodes es = Inr u \<Longrightarrow> (h, n) \<in> set es \<Longrightarrow> \<exists>k. map_of (rev nodes) h = Some k \<and> 0 \<le> k + n"
  by (induction nodes es rule: check_entries.induct) (auto split: option.splits if_splits)

lemma plan_and_commit_ok:
  assumes s: "unmoved s s1" and new: "request_of s (cu_requestId c) = None" and dist: "distinct (map fst (cu_entries c))"
    and now: "\<And>s. inv s \<Longrightarrow> wp now (\<lambda>_ s'. unmoved s s') (\<lambda>_ _. False) s"
    and nodes: "\<forall>h \<in> set (map fst (cu_entries c)). map_of (rev nodes) h = count_of s h"
    and checked: "check_entries nodes (cu_entries c) = Inr ()"
    and ready: "\<forall>(h, n) \<in> set (cu_entries c). 0 < n \<longrightarrow> stored s h"
  shows "wp (plan_and_commit repo scope c now nodes) (answer_ok s c) (error_ok s c) s1"
  unfolding plan_and_commit_def
proof (rule wp_read [OF read_state [OF unmoved_inv [OF s]] s])
  fix st :: "int \<times> (string \<times> int) list" and s2
  assume s2: "unmoved s s2" and st: "fst st = revision_of s1
      \<and> (\<forall>h. (case map_of (rev (snd st)) h of None \<Rightarrow> 0 | Some n \<Rightarrow> n) = balance_of s1 h)"
  obtain rev bals where st2: "st = (rev, bals)" by (cases st)
  have view: "revision_of s1 = revision_of s" "balance_of s1 = balance_of s" using s by (simp_all add: unmoved_def)
  have revision: "rev = revision_of s" using st view by (simp add: st2)
  have quiet: "error_ok s c e s'" if "unmoved s s'" for e s' using that new by (simp add: error_ok_def)
  have "wp (bindM now (\<lambda>appliedAt. bindM (repositoryCall (commit repo
              \<lparr>rp_scope = scope, rp_requestId = cu_requestId c, rp_payloadHash = cu_payloadHash c,
               rp_changesJson = cu_changesJson c, rp_entries = cu_entries c,
               rp_expectedRevision = rev, rp_revision = rev + 1,
               rp_projections = ps, rp_appliedAt = appliedAt\<rparr>)) (\<lambda>outcome.
     if outcome = Revision_conflict
     then throwM (RootRefsRetryableError ''App revision allocation lost a conflict'')
     else returnM \<lparr>rr_idempotent = False, rr_revision = rev + 1\<rparr>))) (answer_ok s c) (error_ok s c) s2"
    if ps: "plan_projections nodes bals (cu_entries c) = Inr ps" for ps
    unfolding wp_bindM [of now]
  proof (rule wp_mono [OF now [OF unmoved_inv [OF s2]]])
    fix t s3
    assume "unmoved s2 s3"
    then have s3: "unmoved s s3" by (rule unmoved_trans [OF s2])
    let ?p = "\<lparr>rp_scope = scope, rp_requestId = cu_requestId c, rp_payloadHash = cu_payloadHash c,
               rp_changesJson = cu_changesJson c, rp_entries = cu_entries c,
               rp_expectedRevision = rev, rp_revision = rev + 1, rp_projections = ps, rp_appliedAt = t\<rparr>"
    have proj: "ps = map (\<lambda>(h, n). (h, if balance_of s h + n = 0 then None else Some (balance_of s h + n))) (cu_entries c)
        \<and> (\<forall>(h, n) \<in> set (cu_entries c). map_of (List.rev nodes) h = Some (balance_of s h))"
      by (rule plan_projections_ok [OF ps]) (use st view in \<open>simp add: st2\<close>)
    have "\<forall>(h, n) \<in> set (cu_entries c). count_of s h = Some (balance_of s h) \<and> 0 \<le> balance_of s h + n \<and> (0 < n \<longrightarrow> stored s h)"
      using proj nodes ready check_entries_ok [OF checked] by fastforce
    moreover have view3: "balance_of s3 = balance_of s" "request_of s3 = request_of s" "count_of s3 = count_of s"
      "revision_of s3 = revision_of s" "stored s3 = stored s" using s3 by (simp_all add: unmoved_def)
    ultimately have "plan_ok s3 ?p" unfolding plan_ok_def view3 using new dist conjunct1 [OF proj] revision by simp
    note commit = wp_repositoryCall [OF commit_law [OF unmoved_inv [OF s3] this, of c, simplified]]
    show "wp (bindM (repositoryCall (commit repo ?p)) (\<lambda>outcome. if outcome = Revision_conflict
          then throwM (RootRefsRetryableError ''App revision allocation lost a conflict'')
          else returnM \<lparr>rr_idempotent = False, rr_revision = rev + 1\<rparr>)) (answer_ok s c) (error_ok s c) s3"
      unfolding wp_bindM
    proof (rule wp_mono [OF commit])
      fix outcome s4
      assume o: "if outcome = Committed then applied s3 c s4 else unmoved s3 s4"
      show "wp (if outcome = Revision_conflict then throwM (RootRefsRetryableError ''App revision allocation lost a conflict'')
          else returnM \<lparr>rr_idempotent = False, rr_revision = rev + 1\<rparr>) (answer_ok s c) (error_ok s c) s4"
        using o unmoved_applied [OF s3, of c s4] unmoved_trans [OF s3, of s4] new revision quiet applied_request [of s c s4]
        by (cases outcome) (auto simp: wp_simps answer_ok_def)
    qed (use unmoved_applied [OF s3] unmoved_trans [OF s3] new in \<open>auto simp: error_ok_def\<close>)
  qed simp
  then show "wp (case st of (appRevision, balances) \<Rightarrow> if \<not> isSafeInteger (appRevision + 1)
     then throwM (RootRefsValidationError 409 ROOT_REF_BUSY ''App revision exhausted'')
     else bindM (liftM (plan_projections nodes balances (cu_entries c))) (\<lambda>projections.
     bindM now (\<lambda>appliedAt. bindM (repositoryCall (commit repo
              \<lparr>rp_scope = scope, rp_requestId = cu_requestId c, rp_payloadHash = cu_payloadHash c,
               rp_changesJson = cu_changesJson c, rp_entries = cu_entries c,
               rp_expectedRevision = appRevision, rp_revision = appRevision + 1,
               rp_projections = projections, rp_appliedAt = appliedAt\<rparr>)) (\<lambda>outcome.
     if outcome = Revision_conflict
     then throwM (RootRefsRetryableError ''App revision allocation lost a conflict'')
     else returnM \<lparr>rr_idempotent = False, rr_revision = appRevision + 1\<rparr>)))) (answer_ok s c) (error_ok s c) s2"
    using quiet [OF s2] by (auto simp: st2 wp_throwM wp_bindM [of "liftM _"] wp_liftM split: sum.splits)
qed

lemma update_ok:
  assumes i: "inv s" and dist: "distinct (map fst (cu_entries c))"
    and now: "\<And>s. inv s \<Longrightarrow> wp now (\<lambda>_ s'. unmoved s s') (\<lambda>_ _. False) s"
  shows "wp (applyRootRefsUpdate repo scope c now) (answer_ok s c) (error_ok s c) s"
  unfolding applyRootRefsUpdate_def
proof (rule wp_read [OF find_request [OF i] unmoved_refl [OF i]])
  fix existing :: "(string \<times> int) option" and s1
  assume s1: "unmoved s s1" and ex: "existing = request_of s (cu_requestId c)"
  have quiet: "error_ok s c e s'" if "unmoved s s'" "\<forall>n. existing \<noteq> Some (cu_payloadHash c, n)" for e s'
    using that ex by (simp add: error_ok_def)
  let ?pos = "map fst (filter (\<lambda>(_, delta). delta > 0) (cu_entries c))"
  let ?ready = "\<lambda>nodes. bindM (if ?pos = [] then returnM None else repositoryCall (findUnreadyNode repo scope ?pos)) (\<lambda>unready.
        case unready of
          Some hash \<Rightarrow> throwM (RootRefsValidationError 409 NODE_NOT_READY (''node '' @ hash @ '' is not ready''))
        | None \<Rightarrow> plan_and_commit repo scope c now nodes)"
  have "wp (?ready nodes) (answer_ok s c) (error_ok s c) s2"
    if new: "existing = None" and s2: "unmoved s s2" and checked: "check_entries nodes (cu_entries c) = Inr ()"
      and nodes: "\<forall>h \<in> set (map fst (cu_entries c)). map_of (rev nodes) h = count_of s h" for nodes s2
  proof -
    have new': "request_of s (cu_requestId c) = None" using new ex by simp
    have fin: "wp (case r of Some hash \<Rightarrow> throwM (RootRefsValidationError 409 NODE_NOT_READY (''node '' @ hash @ '' is not ready''))
        | None \<Rightarrow> plan_and_commit repo scope c now nodes) (answer_ok s c) (error_ok s c) s3"
      if "unmoved s s3" "r = None \<longrightarrow> (\<forall>h \<in> set ?pos. stored s h)" for r s3
    proof (cases r)
      case None
      then have "\<forall>(h, n) \<in> set (cu_entries c). 0 < n \<longrightarrow> stored s h" using that(2) by force
      then show ?thesis using plan_and_commit_ok [OF that(1) new' dist now nodes checked] None by simp
    qed (use quiet [OF that(1)] new in \<open>simp add: wp_simps\<close>)
    show ?thesis
    proof (cases "?pos = []")
      case True
      then show ?thesis using fin [OF s2, of None] by (simp add: wp_bindM [of "returnM _"] wp_returnM)
    next
      case False
      have "stored s2 = stored s" using s2 by (simp add: unmoved_def)
      then show ?thesis using wp_read [OF find_unready [OF unmoved_inv [OF s2]] s2, of ?pos _ c] fin False by simp
    qed
  qed
  note ready = this
  have fresh: "wp (bindM (repositoryCall (readNodes repo scope (map fst (cu_entries c)))) (\<lambda>nodes.
        bindM (liftM (check_entries nodes (cu_entries c))) (\<lambda>_. ?ready nodes))) (answer_ok s c) (error_ok s c) s1"
    if new: "existing = None"
  proof (rule wp_read [OF read_nodes [OF unmoved_inv [OF s1]] s1])
    fix nodes :: "(string \<times> int) list" and s2
    assume s2: "unmoved s s2" and n: "\<forall>h \<in> set (map fst (cu_entries c)). map_of (rev nodes) h = count_of s1 h"
    have "count_of s1 = count_of s" using s1 by (simp add: unmoved_def)
    then show "wp (bindM (liftM (check_entries nodes (cu_entries c))) (\<lambda>_. ?ready nodes)) (answer_ok s c) (error_ok s c) s2"
      using ready [OF new s2 _, of nodes] quiet [OF s2] new n
      by (auto simp: wp_bindM [of "liftM _"] wp_liftM split: sum.splits)
  qed
  show "wp (case existing of
       Some (payloadHash, revision) \<Rightarrow>
         if payloadHash \<noteq> cu_payloadHash c
         then throwM (RootRefsValidationError 409 IDEMPOTENCY_CONFLICT ''requestId reused with a different payload'')
         else returnM \<lparr>rr_idempotent = True, rr_revision = revision\<rparr>
     | None \<Rightarrow> bindM (repositoryCall (readNodes repo scope (map fst (cu_entries c)))) (\<lambda>nodes.
        bindM (liftM (check_entries nodes (cu_entries c))) (\<lambda>_. let positiveHashes = ?pos in
         bindM (if positiveHashes = [] then returnM None
                else repositoryCall (findUnreadyNode repo scope positiveHashes)) (\<lambda>unreadyHash.
         case unreadyHash of
           Some hash \<Rightarrow> throwM (RootRefsValidationError 409 NODE_NOT_READY (''node '' @ hash @ '' is not ready''))
         | None \<Rightarrow> plan_and_commit repo scope c now nodes)))) (answer_ok s c) (error_ok s c) s1"
  proof (cases existing)
    case None
    then show ?thesis using fresh by (simp add: Let_def)
  next
    case (Some q)
    then show ?thesis
      using s1 ex quiet [OF s1] by (cases q) (auto simp: wp_simps answer_ok_def unmoved_request)
  qed
qed

section \<open>The retries\<close>

lemma retry_ok:
  assumes i: "inv s" and dist: "distinct (map fst (cu_entries c))"
    and now: "\<And>s. inv s \<Longrightarrow> wp now (\<lambda>_ s'. unmoved s s') (\<lambda>_ _. False) s"
    and random: "\<And>s. inv s \<Longrightarrow> wp random (\<lambda>_ s'. unmoved s s') (\<lambda>_ _. False) s"
    and sleep: "\<And>s ms. inv s \<Longrightarrow> wp (sleep ms) (\<lambda>_ s'. unmoved s s') (\<lambda>_ _. False) s"
  shows "wp (retry_loop (applyRootRefsUpdate repo scope c now) options random sleep attempt) (answer_ok s c) (error_ok s c) s"
  using i
proof (induction "nat (option_or_default ro_maxAttempts options - int attempt)" arbitrary: attempt s rule: less_induct)
  case (less attempt s)
  let ?again = "retry_loop (applyRootRefsUpdate repo scope c now) options random sleep (attempt + 1)"
  let ?last = "\<lambda>e. \<not> retryable e \<or> int attempt \<ge> option_or_default ro_maxAttempts options"
  have again: "wp (bindM random (\<lambda>r. bindM (sleep (retry_delay options attempt r)) (\<lambda>_. ?again)))
      (answer_ok s c) (error_ok s c) s1" if e: "error_ok s c e s1" "\<not> ?last e" for e s1
  proof -
    have i1: "inv s1" using e(1) unmoved_inv applied_inv by (auto simp: error_ok_def)
    have "unmoved s s1 \<or> request_of s (cu_requestId c) = None \<and> applied s c s1" using e(1) by (auto simp: error_ok_def)
    then have lift: "answer_ok s1 c r s' \<Longrightarrow> answer_ok s c r s'" "error_ok s1 c x s' \<Longrightarrow> error_ok s c x s'" for r x s'
      using answer_after_unmoved answer_after_applied error_after_unmoved error_after_applied by blast+
    have "wp (bindM random (\<lambda>r. bindM (sleep (retry_delay options attempt r)) (\<lambda>_. ?again))) (answer_ok s1 c) (error_ok s1 c) s1"
      unfolding wp_bindM
    proof (rule wp_mono [OF random [OF i1]])
      fix r s2
      assume s2: "unmoved s1 s2"
      show "wp (sleep (retry_delay options attempt r)) (\<lambda>_. wp ?again (answer_ok s1 c) (error_ok s1 c)) (error_ok s1 c) s2"
      proof (rule wp_mono [OF sleep [OF unmoved_inv [OF s2]]])
        fix u :: unit and s3
        assume "unmoved s2 s3"
        then have s3: "unmoved s1 s3" by (rule unmoved_trans [OF s2])
        show "wp ?again (answer_ok s1 c) (error_ok s1 c) s3"
          by (rule wp_mono [OF less.hyps [OF _ unmoved_inv [OF s3]]])
            (use e(2) answer_after_unmoved [OF s3] error_after_unmoved [OF s3] in auto)
      qed simp
    qed simp
    then show ?thesis by (rule wp_mono) (use lift in blast)+
  qed
  show ?case
    unfolding retry_loop.simps [of "applyRootRefsUpdate repo scope c now" options random sleep attempt] wp_catchM
    by (rule wp_mono [OF update_ok [OF less.prems dist now]]) (use again in \<open>auto simp: wp_throwM\<close>)
qed

end

end
