(* ===== verification/Cf_Root_Refs.thy ===== *)
theory Cf_Root_Refs
  imports Root_Refs_Contract Cf_Lease_Correct
begin

text \<open>
  The D1/R2 adapter of root references, \<^verbatim>\<open>packages/service-cloudflare/src/root-refs.ts\<close> and
  \<^verbatim>\<open>root-cutover.ts\<close>: \<open>CloudflareRootRefRepository\<close> with its one-batch commit, and the proof
  that the batch keeps the whole invariant of the store, event log included.
\<close>

section \<open>CloudflareRootRefRepository\<close>

definition assertRootRefCutover :: "('b cf_world, exn, unit) prog" where
  "assertRootRefCutover =
     bindM (d1 (query cas_app_root_cutover)) (\<lambda>marker.
     if marker then returnM ()
     else
     bindM (d1 (query legacy_root_rows)) (\<lambda>legacy.
     if legacy then throwM (PlainError ''Root Ref offline cutover required'') else returnM ()))"

definition cf_findRequest :: "appSpaceScope \<Rightarrow> string \<Rightarrow> ('b cf_world, exn, (string \<times> int) option) prog" where
  "cf_findRequest scope requestId =
     bindM assertRootRefCutover (\<lambda>_.
     d1 (query (\<lambda>d. map_option (\<lambda>q. (rq_payload_hash q, rq_revision q)) (map_of (cas_app_root_requests d) (scope, requestId)))))"

fun cf_readNodes :: "appSpaceScope \<Rightarrow> string list \<Rightarrow> ('b cf_world, exn, (string \<times> int) list) prog" where
  "cf_readNodes scope [] = returnM []"
| "cf_readNodes scope (hash # hashes) =
     bindM (d1 (query (\<lambda>d. map_option root_ref_count (map_of (cas_nodes d) (scope, hash))))) (\<lambda>row.
     bindM (cf_readNodes scope hashes) (\<lambda>nodes.
     returnM (case row of Some n \<Rightarrow> (hash, n) # nodes | None \<Rightarrow> nodes)))"

fun cf_findUnreadyNode :: "'b r2_bucket \<Rightarrow> appSpaceScope \<Rightarrow> string list \<Rightarrow> ('b cf_world, exn, string option) prog" where
  "cf_findUnreadyNode bucket scope [] = returnM None"
| "cf_findUnreadyNode bucket scope (hash # hashes) =
     bindM (r2 (r2_head bucket (node_object_key scope hash))) (\<lambda>object.
     if object = None then returnM (Some hash) else cf_findUnreadyNode bucket scope hashes)"

definition cf_readAppState :: "appSpaceScope \<Rightarrow> ('b cf_world, exn, int \<times> (string \<times> int) list) prog" where
  "cf_readAppState scope =
     bindM (d1 (query (app_revision (appId scope)))) (\<lambda>revision.
     bindM (d1 (query (\<lambda>d. map (\<lambda>((_, h), n). (h, n)) (filter (\<lambda>((sc, _), _). sc = scope) (cas_app_root_refs d))))) (\<lambda>rows.
     returnM (revision, rows)))"

definition insert_revision :: "string \<Rightarrow> (db, int) statement" where
  "insert_revision app d =
     (if map_of (cas_app_root_revisions d) app \<noteq> None then Some (d, 0)
      else Some (d\<lparr>cas_app_root_revisions := insert_row app 0 (cas_app_root_revisions d)\<rparr>, 1))"

text \<open>\<open>CASE WHEN revision = ? THEN ? ELSE NULL END\<close> on a \<open>NOT NULL\<close> column with a \<open>CHECK\<close>.\<close>

definition advance_revision :: "string \<Rightarrow> int \<Rightarrow> int \<Rightarrow> (db, int) statement" where
  "advance_revision app expected new d =
     (case map_of (cas_app_root_revisions d) app of
        None \<Rightarrow> Some (d, 0)
      | Some n \<Rightarrow>
          if n = expected \<and> new \<ge> 0
          then Some (d\<lparr>cas_app_root_revisions := update_row app (\<lambda>_. new) (cas_app_root_revisions d)\<rparr>, 1)
          else None)"

definition add_root_ref :: "int \<Rightarrow> node_row \<Rightarrow> node_row" where
  "add_root_ref n r = r\<lparr>root_ref_count := root_ref_count r + n\<rparr>"

definition delete_root_ref :: "node_key \<Rightarrow> (db, int) statement" where
  "delete_root_ref k d =
     Some (d\<lparr>cas_app_root_refs := delete_row k (cas_app_root_refs d)\<rparr>,
           if map_of (cas_app_root_refs d) k = None then 0 else 1)"

definition upsert_root_ref :: "node_key \<Rightarrow> int \<Rightarrow> (db, int) statement" where
  "upsert_root_ref k n d =
     (if n \<le> 0 then None
      else Some (d\<lparr>cas_app_root_refs :=
        (if map_of (cas_app_root_refs d) k = None then insert_row k n (cas_app_root_refs d)
         else update_row k (\<lambda>_. n) (cas_app_root_refs d))\<rparr>, 1))"

text \<open>The two statements of one entry.\<close>

definition entry_statements :: "appSpaceScope \<Rightarrow> (string \<times> int option) list \<Rightarrow> string \<times> int \<Rightarrow> (db, int) statement list" where
  "entry_statements scope projections entry =
     (case entry of (hash, delta) \<Rightarrow>
        [update_node (scope, hash) (add_root_ref delta),
         (case the (map_of projections hash) of
            None \<Rightarrow> delete_root_ref (scope, hash)
          | Some n \<Rightarrow> upsert_root_ref (scope, hash) n)])"

definition insert_event :: "string \<Rightarrow> int \<Rightarrow> event_row \<Rightarrow> (db, int) statement" where
  "insert_event app revision ev d =
     (if map_of (cas_app_root_events d) (app, revision) \<noteq> None \<or> revision \<le> 0
        \<or> list_ex (\<lambda>((app', _), ev'). app' = app \<and> ev_scope_space ev' = ev_scope_space ev
             \<and> ev_request_id ev' = ev_request_id ev) (cas_app_root_events d)
      then None
      else Some (d\<lparr>cas_app_root_events := insert_row (app, revision) ev (cas_app_root_events d)\<rparr>, 1))"

definition insert_request :: "node_key \<Rightarrow> request_row \<Rightarrow> (db, int) statement" where
  "insert_request k q d =
     (if map_of (cas_app_root_requests d) k \<noteq> None then None
      else Some (d\<lparr>cas_app_root_requests := insert_row k q (cas_app_root_requests d)\<rparr>, 1))"

definition root_commit_statements :: "rootRefCommitPlan \<Rightarrow> (db, int) statement list" where
  "root_commit_statements plan =
     (let scope = rp_scope plan in
      [insert_revision (appId scope), advance_revision (appId scope) (rp_expectedRevision plan) (rp_revision plan)]
      @ concat (map (entry_statements scope (rp_projections plan)) (rp_entries plan))
      @ [insert_event (appId scope) (rp_revision plan)
           \<lparr>ev_scope_space = spaceId scope, ev_request_id = rp_requestId plan, ev_payload_hash = rp_payloadHash plan,
            ev_changes_json = rp_entries plan, ev_applied_at = rp_appliedAt plan\<rparr>,
         insert_request (scope, rp_requestId plan)
           \<lparr>rq_payload_hash = rp_payloadHash plan, rq_revision = rp_revision plan, rq_applied_at = rp_appliedAt plan\<rparr>])"

text \<open>A plan without the projection of an entry makes the code read a property of \<open>undefined\<close>.\<close>

definition cf_commit :: "rootRefCommitPlan \<Rightarrow> ('b cf_world, exn, commitOutcome) prog" where
  "cf_commit plan =
     (if list_all (\<lambda>(hash, _). map_of (rp_projections plan) hash \<noteq> None) (rp_entries plan)
      then bindM (d1 (batch (root_commit_statements plan))) (\<lambda>_. returnM Committed)
      else throwM (TypeErr ''Cannot read properties of undefined''))"

definition cloudflareRootRefRepository :: "'b r2_bucket \<Rightarrow> 'b cf_world rootRefRepository" where
  "cloudflareRootRefRepository bucket =
     \<lparr>findRequest = cf_findRequest, readNodes = cf_readNodes, findUnreadyNode = cf_findUnreadyNode bucket,
      readAppState = cf_readAppState, commit = cf_commit\<rparr>"

definition executeRootRefsUpdate ::
  "'b r2_bucket \<Rightarrow> appSpaceScope \<Rightarrow> canonicalRootRefsUpdate \<Rightarrow> ('b cf_world, exn, rootRefsUpdateResult) prog" where
  "executeRootRefsUpdate bucket scope canonical =
     applyRootRefsUpdate (cloudflareRootRefRepository bucket) scope canonical date_now"

section \<open>The entries of a commit\<close>

lemma add_root_ref_simps [simp]:
  "root_ref_count (add_root_ref n r) = root_ref_count r + n"
  "content_size (add_root_ref n r) = content_size r" "content_type (add_root_ref n r) = content_type r"
  "lease_started_at (add_root_ref n r) = lease_started_at r" "lease_expires_at (add_root_ref n r) = lease_expires_at r"
  "child_ref_count (add_root_ref n r) = child_ref_count r" "ready (add_root_ref n r) = ready r"
  "canonical_stored_bytes (add_root_ref n r) = canonical_stored_bytes r"
  by (simp_all add: add_root_ref_def)

lemma add_root_ref_add: "add_root_ref m (add_root_ref n r) = add_root_ref (n + m) r"
  by (simp add: add_root_ref_def)

lemma add_root_ref_zero [simp]: "add_root_ref 0 r = r"
  by (simp add: add_root_ref_def)

lemma map_add_root_ref_zero [simp]: "map_option (add_root_ref 0) x = x"
  by (cases x) simp_all

lemma change_of_Nil [simp]: "change_of [] h = 0"
  by (simp add: change_of_def)

lemma change_of_Cons: "change_of ((h', n) # es) h = (if h' = h then n else 0) + change_of es h"
  by (simp add: change_of_def)

lemma change_of_absent: "h \<notin> set (map fst es) \<Longrightarrow> change_of es h = 0"
  by (induction es) (auto simp: change_of_Cons)

text \<open>The projection rows: distinct, and positive.\<close>

definition refs_wf :: "db \<Rightarrow> bool" where
  "refs_wf d \<longleftrightarrow> keys_distinct (cas_app_root_refs d) \<and> (\<forall>k n. map_of (cas_app_root_refs d) k = Some n \<longrightarrow> n > 0)"

definition scope_change :: "appSpaceScope \<Rightarrow> (string \<times> int) list \<Rightarrow> node_key \<Rightarrow> int" where
  "scope_change sc es k = (if fst k = sc then change_of es (snd k) else 0)"

lemma scope_change_Nil [simp]: "scope_change sc [] k = 0"
  by (simp add: scope_change_def)

lemma scope_change_Cons: "scope_change sc ((h, n) # es) k = (if k = (sc, h) then n else 0) + scope_change sc es k"
  by (cases k) (auto simp: scope_change_def change_of_Cons)

lemma entry_step:
  assumes exact: "usage_exact d" and wf: "refs_wf d"
    and proj: "map_of ps h = Some (if balance (sc, h) d + n = 0 then None else Some (balance (sc, h) d + n))"
    and run: "batch (entry_statements sc ps (h, n)) d = Some (e, ns)"
  shows "usage_exact e \<and> refs_wf e
    \<and> (\<exists>t u v. e = d\<lparr>cas_nodes := t, cas_space_usage := u, cas_app_root_refs := v\<rparr>)
    \<and> (\<forall>k. map_of (cas_nodes e) k = map_option (add_root_ref (if k = (sc, h) then n else 0)) (map_of (cas_nodes d) k))
    \<and> (\<forall>k. balance k e = balance k d + (if k = (sc, h) then n else 0))"
proof -
  let ?b = "balance (sc, h) d + n"
  from run obtain d1 m ms where upd: "update_node (sc, h) (add_root_ref n) d = Some (d1, m)"
    and prj: "(if ?b = 0 then delete_root_ref (sc, h) else upsert_root_ref (sc, h) ?b) d1 = Some (e, ms)"
    by (auto simp: entry_statements_def proj split: option.splits prod.splits if_splits)
  obtain u where d1: "d1 = d\<lparr>cas_nodes := update_row (sc, h) (add_root_ref n) (cas_nodes d), cas_space_usage := u\<rparr>"
    using update_node_Some [OF upd] by blast
  obtain v where e: "e = d1\<lparr>cas_app_root_refs := v\<rparr>"
    and v: "map_of v = (map_of (cas_app_root_refs d))((sc, h) := if ?b = 0 then None else Some ?b)"
    and dist: "keys_distinct v" and pos: "?b \<noteq> 0 \<Longrightarrow> 0 < ?b"
    using prj wf by (auto simp: delete_root_ref_def upsert_root_ref_def d1 refs_wf_def table_simps split: if_splits)
  have "usage_exact e" using update_node_exact [OF exact upd] usage_exact_cong [of e d1] by (simp add: e)
  moreover have "refs_wf e" using wf dist pos by (auto simp: refs_wf_def e v split: if_splits)
  moreover have "\<exists>t u v. e = d\<lparr>cas_nodes := t, cas_space_usage := u, cas_app_root_refs := v\<rparr>" by (auto simp: e d1)
  moreover have "balance k e = balance k d + (if k = (sc, h) then n else 0)" for k by (auto simp: balance_def e v)
  moreover have "map_of (cas_nodes e) k = map_option (add_root_ref (if k = (sc, h) then n else 0)) (map_of (cas_nodes d) k)" for k
    by (simp add: e d1 table_simps)
  ultimately show ?thesis by blast
qed

lemma entries_loop:
  assumes "usage_exact d" and "refs_wf d" and "distinct (map fst es)"
    and "\<forall>(h, n) \<in> set es. map_of ps h = Some (if balance (sc, h) d + n = 0 then None else Some (balance (sc, h) d + n))"
    and "batch (concat (map (entry_statements sc ps) es)) d = Some (d', ns)"
  shows "usage_exact d' \<and> refs_wf d'
    \<and> (\<exists>t u v. d' = d\<lparr>cas_nodes := t, cas_space_usage := u, cas_app_root_refs := v\<rparr>)
    \<and> (\<forall>k. map_of (cas_nodes d') k = map_option (add_root_ref (scope_change sc es k)) (map_of (cas_nodes d) k))
    \<and> (\<forall>k. balance k d' = balance k d + scope_change sc es k)"
  using assms
proof (induction es arbitrary: d ns)
  case Nil
  have "\<exists>t u v. d = d\<lparr>cas_nodes := t, cas_space_usage := u, cas_app_root_refs := v\<rparr>"
    by (intro exI [of _ "cas_nodes d"] exI [of _ "cas_space_usage d"] exI [of _ "cas_app_root_refs d"]) simp
  with Nil show ?case by (simp add: option.map_ident)
next
  case (Cons x es)
  obtain h n where x: "x = (h, n)" by (cases x)
  have "batch (entry_statements sc ps (h, n) @ concat (map (entry_statements sc ps) es)) d = Some (d', ns)"
    using Cons.prems(5) by (simp add: x)
  then obtain e ms ms' where e: "batch (entry_statements sc ps (h, n)) d = Some (e, ms)"
    and rest: "batch (concat (map (entry_statements sc ps) es)) e = Some (d', ms')" using batch_append_Some by metis
  have step: "usage_exact e" "refs_wf e" "\<exists>t u v. e = d\<lparr>cas_nodes := t, cas_space_usage := u, cas_app_root_refs := v\<rparr>"
    "\<And>k. map_of (cas_nodes e) k = map_option (add_root_ref (if k = (sc, h) then n else 0)) (map_of (cas_nodes d) k)"
    "\<And>k. balance k e = balance k d + (if k = (sc, h) then n else 0)"
    using entry_step [OF Cons.prems(1,2) _ e] Cons.prems(4) by (auto simp: x)
  have later: "\<forall>(h', n') \<in> set es. map_of ps h' = Some (if balance (sc, h') e + n' = 0 then None else Some (balance (sc, h') e + n'))"
    using Cons.prems(3,4) by (force simp: x step(5))
  from Cons.IH [OF step(1,2) _ later rest] Cons.prems(3)
  have IH: "usage_exact d'" "refs_wf d'" "\<exists>t u v. d' = e\<lparr>cas_nodes := t, cas_space_usage := u, cas_app_root_refs := v\<rparr>"
    "\<And>k. map_of (cas_nodes d') k = map_option (add_root_ref (scope_change sc es k)) (map_of (cas_nodes e) k)"
    "\<And>k. balance k d' = balance k e + scope_change sc es k" by auto
  obtain t u v where d': "d' = e\<lparr>cas_nodes := t, cas_space_usage := u, cas_app_root_refs := v\<rparr>" using IH(3) by blast
  obtain t1 u1 v1 where "e = d\<lparr>cas_nodes := t1, cas_space_usage := u1, cas_app_root_refs := v1\<rparr>" using step(3) by blast
  then have "d' = d\<lparr>cas_nodes := t, cas_space_usage := u, cas_app_root_refs := v\<rparr>" by (simp add: d')
  then have shape: "\<exists>t u v. d' = d\<lparr>cas_nodes := t, cas_space_usage := u, cas_app_root_refs := v\<rparr>" by blast
  have "map_of (cas_nodes d') k = map_option (add_root_ref (scope_change sc (x # es) k)) (map_of (cas_nodes d) k)" for k
    by (simp add: IH(4) step(4) x scope_change_Cons option.map_comp o_def add_root_ref_add)
  moreover have "balance k d' = balance k d + scope_change sc (x # es) k" for k
    by (simp add: IH(5) step(5) x scope_change_Cons)
  ultimately show ?case using IH(1,2) shape by blast
qed

section \<open>The event log\<close>

lemma root_log_okD:
  assumes "root_log_ok d"
  shows "keys_distinct (cas_app_root_revisions d)" "keys_distinct (cas_app_root_events d)" "keys_distinct (cas_app_root_requests d)"
    and "0 \<le> app_revision app d"
    and "map_of (cas_app_root_events d) (app, i) \<noteq> None \<longleftrightarrow> 1 \<le> i \<and> i \<le> app_revision app d"
    and "map_of (cas_app_root_events d) (app, i) = Some ev \<Longrightarrow> request_matches app i ev d"
    and "map_of (cas_app_root_requests d) (sc, rid) = Some q \<Longrightarrow>
          \<exists>ev. map_of (cas_app_root_events d) (appId sc, rq_revision q) = Some ev \<and> ev_scope_space ev = spaceId sc \<and> ev_request_id ev = rid"
    and "balance k d = log_balance k d"
  using assms unfolding root_log_ok_def by blast+

text \<open>One event and its request row are appended, the revision advances, the balances move.\<close>

lemma root_log_append:
  assumes ok: "root_log_ok d" and rev: "n = app_revision (appId sc) d + 1"
    and fresh: "map_of (cas_app_root_requests d) (sc, rid) = None"
    and ev: "ev_scope_space ev = spaceId sc" "ev_request_id ev = rid"
    and q: "q = \<lparr>rq_payload_hash = ev_payload_hash ev, rq_revision = n, rq_applied_at = ev_applied_at ev\<rparr>"
    and revisions: "keys_distinct (cas_app_root_revisions d')"
      "map_of (cas_app_root_revisions d') = (map_of (cas_app_root_revisions d))(appId sc \<mapsto> n)"
    and events: "cas_app_root_events d' = insert_row (appId sc, n) ev (cas_app_root_events d)"
    and requests: "cas_app_root_requests d' = insert_row (sc, rid) q (cas_app_root_requests d)"
    and bal: "\<And>k. balance k d' = balance k d + scope_change sc (ev_changes_json ev) k"
  shows "root_log_ok d'"
proof -
  note D = root_log_okD [OF ok]
  have new: "map_of (cas_app_root_events d) (appId sc, n) = None" using D(5) [of "appId sc" n] rev by auto
  have em: "map_of (cas_app_root_events d') = (map_of (cas_app_root_events d))((appId sc, n) \<mapsto> ev)"
    unfolding events by (rule map_of_insert_row [OF new])
  have rm: "map_of (cas_app_root_requests d') = (map_of (cas_app_root_requests d))((sc, rid) \<mapsto> q)"
    unfolding requests by (rule map_of_insert_row [OF fresh])
  have rv: "app_revision app d' = (if app = appId sc then n else app_revision app d)" for app
    by (simp add: app_revision_def revisions)
  have sc: "\<lparr>appId = appId sc, spaceId = spaceId sc\<rparr> = sc" by simp
  have old: "request_matches app i x d'" if m: "map_of (cas_app_root_events d) (app, i) = Some x" for app i x
    using D(6) [OF m] fresh unfolding request_matches_def rm by auto
  have log: "log_balance k d' = log_balance k d + scope_change sc (ev_changes_json ev) k" for k
  proof -
    have "fst k = sc \<longleftrightarrow> appId sc = appId (fst k) \<and> spaceId sc = spaceId (fst k)" by (auto intro: appSpaceScope.equality)
    then show ?thesis by (simp add: log_balance_def events sum_where_insert_row ev scope_change_def)
  qed
  show ?thesis
    unfolding root_log_ok_def
  proof (intro conjI allI impI)
    show "keys_distinct (cas_app_root_revisions d')" by (rule revisions)
    show "keys_distinct (cas_app_root_events d')" unfolding events by (rule keys_distinct_insert_row [OF D(2) new])
    show "keys_distinct (cas_app_root_requests d')" unfolding requests by (rule keys_distinct_insert_row [OF D(3) fresh])
    show "0 \<le> app_revision app d'" for app using D(4) [of app] D(4) [of "appId sc"] by (simp add: rv rev)
    show "map_of (cas_app_root_events d') (app, i) \<noteq> None \<longleftrightarrow> 1 \<le> i \<and> i \<le> app_revision app d'" for app i
      using D(5) [of app i] D(4) [of "appId sc"] by (auto simp: em rv rev)
    show "request_matches app i x d'" if "map_of (cas_app_root_events d') (app, i) = Some x" for app i x
      using that old [of app i x] ev by (auto simp: em rm request_matches_def q sc split: if_splits)
    show "\<exists>x. map_of (cas_app_root_events d') (appId sc', rq_revision q') = Some x
        \<and> ev_scope_space x = spaceId sc' \<and> ev_request_id x = rid'"
      if r: "map_of (cas_app_root_requests d') (sc', rid') = Some q'" for sc' rid' q'
    proof (cases "(sc', rid') = (sc, rid)")
      case True
      then show ?thesis using r ev by (auto simp: rm em q)
    next
      case False
      then have r0: "map_of (cas_app_root_requests d) (sc', rid') = Some q'" using r by (auto simp: rm)
      obtain x where x: "map_of (cas_app_root_events d) (appId sc', rq_revision q') = Some x"
        "ev_scope_space x = spaceId sc'" "ev_request_id x = rid'" using D(7) [OF r0] by blast
      have "(appId sc', rq_revision q') \<noteq> (appId sc, n)" using x(1) new by auto
      then show ?thesis using x by (auto simp: em)
    qed
    show "balance k d' = log_balance k d'" for k using D(8) [of k] by (simp add: bal log)
  qed
qed

section \<open>The whole commit\<close>

lemma moved_graph_ok:
  assumes ok: "graph_ok sha d" and wf: "refs_wf d'"
    and rows: "\<And>k. map_of (cas_nodes d') k = map_option (add_root_ref (g k)) (map_of (cas_nodes d) k)"
    and bal: "\<And>k. balance k d' = balance k d + g k"
    and exist: "\<And>k. g k \<noteq> 0 \<Longrightarrow> map_of (cas_nodes d) k \<noteq> None"
    and edges: "cas_edges d' = cas_edges d"
  shows "graph_ok sha d'"
  unfolding graph_ok_def
proof (intro conjI)
  have g: "nodes_genuine sha d" "edges_closed d" "child_counts d" "root_counts d" using ok by (simp_all add: graph_ok_def)
  have same: "has_refs k refs d' = has_refs k refs d" "child_edges k d' = child_edges k d" for k refs
    by (simp_all add: has_refs_def child_edges_def edges)
  have ex: "map_of (cas_nodes d') k \<noteq> None \<longleftrightarrow> map_of (cas_nodes d) k \<noteq> None" for k by (simp add: rows)
  show "nodes_genuine sha d'"
    unfolding nodes_genuine_def
  proof (intro allI impI)
    fix k r
    assume "map_of (cas_nodes d') k = Some r"
    then obtain r0 where r0: "map_of (cas_nodes d) k = Some r0" "r = add_root_ref (g k) r0" by (auto simp: rows)
    then have "node_genuine sha d k r0" using g(1) by (simp add: nodes_genuine_def)
    then show "node_genuine sha d' k r" unfolding node_genuine_def same r0(2) add_root_ref_simps .
  qed
  show "edges_closed d'" using g(2) unfolding edges_closed_def ex edges by blast
  show "child_counts d'" using g(3) unfolding child_counts_def same by (auto simp: rows)
  show "root_counts d'"
    unfolding root_counts_def
  proof (intro conjI allI impI)
    show "keys_distinct (cas_app_root_refs d')" using wf by (simp add: refs_wf_def)
    fix k n
    assume n: "map_of (cas_app_root_refs d') k = Some n"
    then show "0 < n" using wf by (auto simp: refs_wf_def)
    show "map_of (cas_nodes d') k \<noteq> None"
    proof (cases "g k = 0")
      case True
      then have "balance k d = n" using bal [of k] n by (simp add: balance_def)
      then have "map_of (cas_app_root_refs d) k \<noteq> None" using \<open>0 < n\<close> by (auto simp: balance_def split: option.splits)
      then show ?thesis using root_countsD(1) [OF g(4)] unfolding ex by blast
    qed (use exist ex in blast)
  next
    fix k r
    assume "map_of (cas_nodes d') k = Some r"
    then obtain r0 where r0: "map_of (cas_nodes d) k = Some r0" "r = add_root_ref (g k) r0" by (auto simp: rows)
    then show "root_ref_count r = balance k d'" using root_countsD(2) [OF g(4) r0(1)] bal [of k] by simp
  qed
qed

lemma revision_statements:
  assumes dist: "keys_distinct (cas_app_root_revisions d)" and exp: "app_revision app d = expected"
    and run: "batch [insert_revision app, advance_revision app expected n] d = Some (e, ns)"
  shows "\<exists>t. e = d\<lparr>cas_app_root_revisions := t\<rparr> \<and> keys_distinct t
    \<and> map_of t = (map_of (cas_app_root_revisions d))(app \<mapsto> n)"
  using assms
  by (cases "map_of (cas_app_root_revisions d) app")
    (auto simp: insert_revision_def advance_revision_def app_revision_def table_simps fun_eq_iff
      split: if_splits option.splits)

lemma root_commit_batch:
  assumes ok: "db_ok sha d" and sc: "rp_scope p = sc"
    and fresh: "map_of (cas_app_root_requests d) (sc, rp_requestId p) = None"
    and dist: "distinct (map fst (rp_entries p))"
    and rev: "rp_expectedRevision p = app_revision (appId sc) d" "rp_revision p = app_revision (appId sc) d + 1"
    and proj: "\<forall>(h, n) \<in> set (rp_entries p).
      map_of (rp_projections p) h = Some (if balance (sc, h) d + n = 0 then None else Some (balance (sc, h) d + n))"
    and exist: "\<forall>(h, n) \<in> set (rp_entries p). map_of (cas_nodes d) (sc, h) \<noteq> None"
    and run: "batch (root_commit_statements p) d = Some (d', ns)"
  shows "db_ok sha d'
    \<and> (\<forall>k. map_of (cas_nodes d') k = map_option (add_root_ref (scope_change sc (rp_entries p) k)) (map_of (cas_nodes d) k))
    \<and> (\<forall>k. balance k d' = balance k d + scope_change sc (rp_entries p) k)
    \<and> app_revision (appId sc) d' = rp_revision p
    \<and> map_of (cas_app_root_requests d') = (map_of (cas_app_root_requests d))((sc, rp_requestId p) \<mapsto>
        \<lparr>rq_payload_hash = rp_payloadHash p, rq_revision = rp_revision p, rq_applied_at = rp_appliedAt p\<rparr>)
    \<and> cas_edges d' = cas_edges d \<and> cas_node_uploads d' = cas_node_uploads d
    \<and> cas_upload_reservations d' = cas_upload_reservations d"
proof -
  let ?ev = "\<lparr>ev_scope_space = spaceId sc, ev_request_id = rp_requestId p, ev_payload_hash = rp_payloadHash p,
            ev_changes_json = rp_entries p, ev_applied_at = rp_appliedAt p\<rparr>"
  let ?q = "\<lparr>rq_payload_hash = rp_payloadHash p, rq_revision = rp_revision p, rq_applied_at = rp_appliedAt p\<rparr>"
  let ?loop = "concat (map (entry_statements sc (rp_projections p)) (rp_entries p))"
  let ?g = "scope_change sc (rp_entries p)"
  have "batch ([insert_revision (appId sc), advance_revision (appId sc) (rp_expectedRevision p) (rp_revision p)]
      @ (?loop @ [insert_event (appId sc) (rp_revision p) ?ev, insert_request (sc, rp_requestId p) ?q])) d = Some (d', ns)"
    using run by (simp add: root_commit_statements_def sc Let_def)
  from batch_append_Some [OF this] obtain d1 ms1 ms2 where
    b1: "batch [insert_revision (appId sc), advance_revision (appId sc) (rp_expectedRevision p) (rp_revision p)] d = Some (d1, ms1)"
    and r1: "batch (?loop @ [insert_event (appId sc) (rp_revision p) ?ev, insert_request (sc, rp_requestId p) ?q]) d1 = Some (d', ms2)"
    by metis
  from batch_append_Some [OF r1] obtain d2 ms3 ms4 where b2: "batch ?loop d1 = Some (d2, ms3)"
    and b3: "batch [insert_event (appId sc) (rp_revision p) ?ev, insert_request (sc, rp_requestId p) ?q] d2 = Some (d', ms4)" by metis
  have log: "root_log_ok d" and graph: "graph_ok sha d" using db_ok_parts [OF ok] by simp_all
  obtain t where d1: "d1 = d\<lparr>cas_app_root_revisions := t\<rparr>" and t: "keys_distinct t"
    "map_of t = (map_of (cas_app_root_revisions d))(appId sc \<mapsto> rp_revision p)"
    using revision_statements [OF root_log_okD(1) [OF log] rev(1) [symmetric] b1] by blast
  have bal1: "balance k d1 = balance k d" for k by (simp add: balance_def d1)
  have nodes1: "cas_nodes d1 = cas_nodes d" by (simp add: d1)
  have exact1: "usage_exact d1" using db_ok_parts(1) [OF ok] usage_exact_cong [of d1 d] by (simp add: d1)
  have wf1: "refs_wf d1" using graph by (auto simp: refs_wf_def d1 graph_ok_def root_counts_def)
  have proj1: "\<forall>(h, n) \<in> set (rp_entries p).
      map_of (rp_projections p) h = Some (if balance (sc, h) d1 + n = 0 then None else Some (balance (sc, h) d1 + n))"
    unfolding bal1 by (rule proj)
  from entries_loop [OF exact1 wf1 dist proj1 b2, unfolded bal1 nodes1]
  obtain t2 u2 v2 where exact: "usage_exact d2" and wf: "refs_wf d2"
    and d2: "d2 = d1\<lparr>cas_nodes := t2, cas_space_usage := u2, cas_app_root_refs := v2\<rparr>"
    and rows: "\<And>k. map_of (cas_nodes d2) k = map_option (add_root_ref (?g k)) (map_of (cas_nodes d) k)"
    and bal: "\<And>k. balance k d2 = balance k d + ?g k" by blast
  have d': "d' = d2\<lparr>cas_app_root_events := insert_row (appId sc, rp_revision p) ?ev (cas_app_root_events d),
      cas_app_root_requests := insert_row (sc, rp_requestId p) ?q (cas_app_root_requests d)\<rparr>"
    using b3 by (auto simp: insert_event_def insert_request_def d2 d1 split: if_splits)
  have bal': "balance k d' = balance k d + ?g k" for k using bal [of k] by (simp add: balance_def d')
  have rows': "map_of (cas_nodes d') k = map_option (add_root_ref (?g k)) (map_of (cas_nodes d) k)" for k
    using rows [of k] by (simp add: d')
  have touched: "map_of (cas_nodes d) k \<noteq> None" if "?g k \<noteq> 0" for k
  proof -
    have "fst k = sc" "snd k \<in> set (map fst (rp_entries p))"
      using that change_of_absent [of "snd k" "rp_entries p"] by (auto simp: scope_change_def split: if_splits)
    then show ?thesis using exist by (cases k) auto
  qed
  have "graph_ok sha d'"
    by (rule moved_graph_ok [OF graph _ rows' bal' touched]) (use wf in \<open>simp_all add: d' d2 d1 refs_wf_def\<close>)
  moreover have "root_log_ok d'"
    by (rule root_log_append [OF log rev(2) fresh, where ev = ?ev and q = ?q]) (use t bal' in \<open>simp_all add: d' d2 d1\<close>)
  moreover have "usage_exact d'" using exact usage_exact_cong [of d' d2] by (simp add: d')
  moreover have "uploads_ok sha d'" using db_ok_parts(3) [OF ok] uploads_ok_cong [of d' d sha] by (simp add: d' d2 d1)
  ultimately have "db_ok sha d'" by (simp add: db_ok_def)
  moreover have "app_revision (appId sc) d' = rp_revision p" by (simp add: app_revision_def d' d2 d1 t)
  moreover have "map_of (cas_app_root_requests d') = (map_of (cas_app_root_requests d))((sc, rp_requestId p) \<mapsto> ?q)"
    by (simp add: d' map_of_insert_row [OF fresh])
  ultimately show ?thesis using rows' bal' by (simp add: d' d2 d1)
qed

section \<open>The views of the contract\<close>

definition request_view :: "appSpaceScope \<Rightarrow> 'b cf_world \<Rightarrow> string \<Rightarrow> (string \<times> int) option" where
  "request_view sc w rid = map_option (\<lambda>q. (rq_payload_hash q, rq_revision q)) (map_of (cas_app_root_requests (w_db w)) (sc, rid))"

definition balance_view :: "appSpaceScope \<Rightarrow> 'b cf_world \<Rightarrow> string \<Rightarrow> int" where
  "balance_view sc w h = balance (sc, h) (w_db w)"

definition count_view :: "appSpaceScope \<Rightarrow> 'b cf_world \<Rightarrow> string \<Rightarrow> int option" where
  "count_view sc w h = map_option root_ref_count (map_of (cas_nodes (w_db w)) (sc, h))"

definition revision_view :: "appSpaceScope \<Rightarrow> 'b cf_world \<Rightarrow> int" where
  "revision_view sc w = app_revision (appId sc) (w_db w)"

text \<open>An update moves root references only: objects, edges and everything else of the rows stay.\<close>

definition rooted :: "('b \<Rightarrow> string \<Rightarrow> bytes option) \<Rightarrow> appSpaceScope \<Rightarrow> 'b cf_world \<Rightarrow> 'b cf_world \<Rightarrow> bool" where
  "rooted contents sc w w' \<longleftrightarrow> w_clock w \<le> w_clock w' \<and> rows_elsewhere sc (w_db w) (w_db w')
     \<and> contents (w_bucket w') = contents (w_bucket w) \<and> cas_edges (w_db w') = cas_edges (w_db w)
     \<and> (\<forall>k. map_option (\<lambda>r. r\<lparr>root_ref_count := 0\<rparr>) (map_of (cas_nodes (w_db w')) k)
          = map_option (\<lambda>r. r\<lparr>root_ref_count := 0\<rparr>) (map_of (cas_nodes (w_db w)) k))"

lemma rooted_refl: "rooted c sc w w"
  by (simp add: rooted_def)

lemma rooted_trans: "rooted c sc w w' \<Longrightarrow> rooted c sc w' w'' \<Longrightarrow> rooted c sc w w''"
  unfolding rooted_def using rows_elsewhere_trans by auto

text \<open>\<open>setTimeout\<close>: the clock moves on.\<close>

definition sleep_for :: "int \<Rightarrow> (('d, 'b) world, exn, unit) prog" where
  "sleep_for ms w = (Inr (), w\<lparr>w_clock := w_clock w + max 0 ms\<rparr>)"

lemma world_ok_later: "world_ok sha c w \<Longrightarrow> w_clock w \<le> t \<Longrightarrow> world_ok sha c (w\<lparr>w_clock := t\<rparr>)"
  unfolding world_ok_def durable_def protected_def by fastforce

sublocale space_store \<subseteq> root_views: root_ref_views "world_ok sha256 contents" "request_view scope" "balance_view scope"
  "count_view scope" "revision_view scope" "space_stored contents scope" "rooted contents scope" .

context space_store
begin

lemma root_unmoved_same:
  assumes "world_ok sha256 contents w" and "w_db w' = w_db w" and "contents (w_bucket w') = contents (w_bucket w)"
    and "w_clock w \<le> w_clock w'"
  shows "root_views.unmoved w w'"
proof -
  have "world_ok sha256 contents w'"
    using world_ok_later [OF assms(1,4)] assms(2,3) by (simp add: world_ok_def)
  then show ?thesis
    using assms by (simp add: root_views.unmoved_def rooted_def request_view_def balance_view_def count_view_def
      revision_view_def space_stored_def fun_eq_iff)
qed

lemma root_unmoved_trans: "root_views.unmoved w w' \<Longrightarrow> root_views.unmoved w' w'' \<Longrightarrow> root_views.unmoved w w''"
  unfolding root_views.unmoved_def using rooted_trans by auto

lemma root_unmoved_ok: "root_views.unmoved w w' \<Longrightarrow> world_ok sha256 contents w'"
  by (simp add: root_views.unmoved_def)

lemma d1_error: "wp (d1 st) (\<lambda>_ _. True) (\<lambda>e _. \<not> validation_error e) w"
  by (auto simp: wp_def d1_def Let_def validation_error_def split: prod.splits option.splits if_splits)

lemma root_query:
  assumes "world_ok sha256 contents w"
  shows "wp (d1 (query f)) (\<lambda>r w'. root_views.unmoved w w' \<and> r = f (w_db w))
    (\<lambda>e w'. \<not> validation_error e \<and> root_views.unmoved w w') w"
proof -
  have "wp (d1 (query f)) (\<lambda>r w'. root_views.unmoved w w' \<and> r = f (w_db w)) (\<lambda>_ w'. root_views.unmoved w w') w"
    by (rule wp_d1_query) (simp_all add: root_unmoved_same [OF assms])
  from wp_conj [OF this d1_error] show ?thesis by (rule wp_mono) auto
qed

text \<open>Sequencing after a query.\<close>

lemma root_query_then:
  assumes "root_views.unmoved w w1"
    and "\<And>w'. root_views.unmoved w w' \<Longrightarrow> wp (f (g (w_db w1))) Q (\<lambda>e w'. \<not> validation_error e \<and> root_views.unmoved w w') w'"
  shows "wp (bindM (d1 (query g)) f) Q (\<lambda>e w'. \<not> validation_error e \<and> root_views.unmoved w w') w1"
  unfolding wp_bindM
  by (rule wp_mono [OF root_query [OF root_unmoved_ok [OF assms(1)]]]) (use assms root_unmoved_trans in blast)+

lemma root_unmoved_refl: "world_ok sha256 contents w \<Longrightarrow> root_views.unmoved w w"
  by (rule root_unmoved_same) simp_all

lemma root_request_same: "root_views.unmoved w w' \<Longrightarrow> request_view scope w' = request_view scope w"
  by (simp add: root_views.unmoved_def)

lemma cf_find_request:
  assumes "world_ok sha256 contents w"
  shows "wp (cf_findRequest scope rid) (\<lambda>r w'. root_views.unmoved w w' \<and> r = request_view scope w rid)
    (\<lambda>e w'. \<not> validation_error e \<and> root_views.unmoved w w') w"
proof -
  let ?E = "\<lambda>e w'. \<not> validation_error e \<and> root_views.unmoved w w'"
  let ?q = "\<lambda>d. map_option (\<lambda>q. (rq_payload_hash q, rq_revision q)) (map_of (cas_app_root_requests d) (scope, rid))"
  have look: "wp (d1 (query ?q)) (\<lambda>r w'. root_views.unmoved w w' \<and> r = request_view scope w rid) ?E w1" if "root_views.unmoved w w1" for w1
    by (rule wp_mono [OF root_query [OF root_unmoved_ok [OF that]]])
      (use root_unmoved_trans [OF that] root_request_same [OF that] in \<open>auto simp: request_view_def fun_eq_iff\<close>)
  have cut: "wp assertRootRefCutover (\<lambda>_ w'. root_views.unmoved w w') ?E w"
    unfolding assertRootRefCutover_def
    by (rule root_query_then [OF root_unmoved_refl [OF assms]])
      (auto simp: wp_returnM wp_throwM intro!: root_query_then)
  show ?thesis
    unfolding cf_findRequest_def wp_bindM by (rule wp_mono [OF cut]) (use look in auto)
qed

definition found_nodes :: "'b cf_world \<Rightarrow> string list \<Rightarrow> (string \<times> int) list" where
  "found_nodes w hs = concat (map (\<lambda>h. case count_view scope w h of None \<Rightarrow> [] | Some n \<Rightarrow> [(h, n)]) hs)"

lemma cf_read_nodes:
  assumes "root_views.unmoved w w1"
  shows "wp (cf_readNodes scope hs) (\<lambda>r w'. root_views.unmoved w w' \<and> r = found_nodes w hs)
    (\<lambda>e w'. \<not> validation_error e \<and> root_views.unmoved w w') w1"
  using assms
proof (induction hs arbitrary: w1)
  case Nil
  then show ?case by (simp add: wp_simps found_nodes_def)
next
  case (Cons h hs)
  let ?row = "map_option root_ref_count (map_of (cas_nodes (w_db w1)) (scope, h))"
  have "count_view scope w1 = count_view scope w" using Cons.prems by (simp add: root_views.unmoved_def)
  then have row: "?row = count_view scope w h" by (simp add: count_view_def fun_eq_iff)
  show ?case
    unfolding cf_readNodes.simps
  proof (rule root_query_then [OF Cons.prems])
    fix w2
    assume w2: "root_views.unmoved w w2"
    show "wp (bindM (cf_readNodes scope hs) (\<lambda>nodes. returnM (case ?row of Some n \<Rightarrow> (h, n) # nodes | None \<Rightarrow> nodes)))
      (\<lambda>r w'. root_views.unmoved w w' \<and> r = found_nodes w (h # hs))
      (\<lambda>e w'. \<not> validation_error e \<and> root_views.unmoved w w') w2"
      unfolding wp_bindM row
      by (rule wp_mono [OF Cons.IH [OF w2]]) (simp_all add: wp_simps found_nodes_def split: option.split)
  qed
qed

lemma map_of_rev_eq:
  assumes "\<And>h n. (h, n) \<in> set r \<Longrightarrow> f h = Some n" and "\<And>n. f h = Some n \<Longrightarrow> (h, n) \<in> set r"
  shows "map_of (rev r) h = f h"
proof (cases "map_of (rev r) h")
  case None
  then have "h \<notin> fst ` set r" by (simp add: map_of_eq_None_iff)
  then show ?thesis using None assms(2) by (cases "f h") force+
next
  case (Some n)
  then have "(h, n) \<in> set r" using map_of_SomeD by fastforce
  then show ?thesis using Some assms(1) by simp
qed

lemma cf_read_nodes_law:
  assumes "world_ok sha256 contents w"
  shows "wp (cf_readNodes scope hs) (\<lambda>r w'. root_views.unmoved w w' \<and> (\<forall>h \<in> set hs. map_of (rev r) h = count_view scope w h))
    (\<lambda>e w'. \<not> validation_error e \<and> root_views.unmoved w w') w"
proof (rule wp_mono [OF cf_read_nodes [OF root_unmoved_refl [OF assms]]])
  fix r w'
  assume a: "root_views.unmoved w w' \<and> r = found_nodes w hs"
  have "map_of (rev r) h = count_view scope w h" if "h \<in> set hs" for h
    by (rule map_of_rev_eq) (use a that in \<open>auto simp: found_nodes_def split: option.splits\<close>)
  with a show "root_views.unmoved w w' \<and> (\<forall>h \<in> set hs. map_of (rev r) h = count_view scope w h)" by blast
qed blast

lemma cf_find_unready:
  assumes "root_views.unmoved w w1"
  shows "wp (cf_findUnreadyNode bucket scope hs)
    (\<lambda>r w'. root_views.unmoved w w' \<and> (r = None \<longrightarrow> (\<forall>h \<in> set hs. space_stored contents scope w h)))
    (\<lambda>e w'. \<not> validation_error e \<and> root_views.unmoved w w') w1"
  using assms
proof (induction hs arbitrary: w1)
  case Nil
  then show ?case by (simp add: wp_simps)
next
  case (Cons h hs)
  have same: "space_stored contents scope w1 = space_stored contents scope w" using Cons.prems by (simp add: root_views.unmoved_def)
  have step: "root_views.unmoved w (w1\<lparr>w_bucket := b\<rparr>)" if "contents b = contents (w_bucket w1)" for b
    by (rule root_unmoved_trans [OF Cons.prems root_unmoved_same [OF root_unmoved_ok [OF Cons.prems]]]) (simp_all add: that)
  have head: "wp (r2_head bucket (node_object_key scope h))
      (\<lambda>r b. contents b = contents (w_bucket w1) \<and> head_reply sha256 (contents (w_bucket w1) (node_object_key scope h)) r)
      (\<lambda>e b. \<not> validation_error e \<and> contents b = contents (w_bucket w1)) (w_bucket w1)"
    by (rule wp_mono [OF wp_conj [OF head_law [OF canonical_node_key] head_error]]) auto
  show ?case
    unfolding cf_findUnreadyNode.simps wp_bindM [of "r2 _"] wp_r2
  proof (rule wp_mono [OF head])
    fix object b
    assume a: "contents b = contents (w_bucket w1) \<and> head_reply sha256 (contents (w_bucket w1) (node_object_key scope h)) object"
    then have "object \<noteq> None \<longleftrightarrow> space_stored contents scope w h"
      using head_reply_none [of sha256 "contents (w_bucket w1) (node_object_key scope h)" object]
      by (simp add: same [symmetric] space_stored_def)
    then show "wp (if object = None then returnM (Some h) else cf_findUnreadyNode bucket scope hs)
        (\<lambda>r w'. root_views.unmoved w w' \<and> (r = None \<longrightarrow> (\<forall>h \<in> set (h # hs). space_stored contents scope w h)))
        (\<lambda>e w'. \<not> validation_error e \<and> root_views.unmoved w w') (w1\<lparr>w_bucket := b\<rparr>)"
      using Cons.IH [OF step [of b]] step [of b] a by (auto simp: wp_returnM elim!: wp_mono)
  qed (use step in auto)
qed

lemma map_of_rev_distinct: "distinct (map fst xs) \<Longrightarrow> map_of (rev xs) = map_of xs"
  by (rule map_of_eqI) (auto simp: rev_map [symmetric] map_of_eq_Some_iff)

lemma map_of_space_rows:
  "map_of (map (\<lambda>((_, h), n). (h, n)) (filter (\<lambda>((sc', _), _). sc' = sc) t)) h = map_of t (sc, h)"
  by (induction t) auto

lemma distinct_space_rows:
  "keys_distinct t \<Longrightarrow> distinct (map fst (map (\<lambda>((_, h), n). (h, n)) (filter (\<lambda>((sc', _), _). sc' = sc) t)))"
  unfolding keys_distinct_def by (induction t) (auto simp: image_iff)

lemma cf_read_state:
  assumes "world_ok sha256 contents w"
  shows "wp (cf_readAppState scope) (\<lambda>r w'. root_views.unmoved w w' \<and> fst r = revision_view scope w
      \<and> (\<forall>h. (case map_of (rev (snd r)) h of None \<Rightarrow> 0 | Some n \<Rightarrow> n) = balance_view scope w h))
    (\<lambda>e w'. \<not> validation_error e \<and> root_views.unmoved w w') w"
  unfolding cf_readAppState_def
proof (rule root_query_then [OF root_unmoved_refl [OF assms]])
  let ?rows = "\<lambda>d. map (\<lambda>((_, h), n). (h, n)) (filter (\<lambda>((sc, _), _). sc = scope) (cas_app_root_refs d))"
  fix w1
  assume w1: "root_views.unmoved w w1"
  have "db_ok sha256 (w_db w1)" using root_unmoved_ok [OF w1] by (simp add: world_ok_def)
  then have "keys_distinct (cas_app_root_refs (w_db w1))"
    using db_ok_parts(2) by (auto simp: graph_ok_def root_counts_def)
  then have "map_of (rev (?rows (w_db w1))) = map_of (?rows (w_db w1))"
    by (intro map_of_rev_distinct distinct_space_rows)
  then have bal: "(case map_of (rev (?rows (w_db w1))) h of None \<Rightarrow> 0 | Some n \<Rightarrow> n) = balance_view scope w1 h" for h
    by (simp add: map_of_space_rows balance_view_def balance_def)
  have same: "balance_view scope w1 = balance_view scope w" using w1 by (simp add: root_views.unmoved_def)
  show "wp (bindM (d1 (query ?rows)) (\<lambda>rows. returnM (app_revision (appId scope) (w_db w), rows)))
     (\<lambda>r w'. root_views.unmoved w w' \<and> fst r = revision_view scope w
      \<and> (\<forall>h. (case map_of (rev (snd r)) h of None \<Rightarrow> 0 | Some n \<Rightarrow> n) = balance_view scope w h))
    (\<lambda>e w'. \<not> validation_error e \<and> root_views.unmoved w w') w1"
    by (rule root_query_then [OF w1]) (simp add: wp_simps revision_view_def bal same)
qed

text \<open>The commit of a plan made from the current state.\<close>

lemma plan_projection:
  assumes "root_views.plan_ok w p" and "(h, n) \<in> set (rp_entries p)"
  shows "map_of (rp_projections p) h = Some (if balance (scope, h) (w_db w) + n = 0 then None else Some (balance (scope, h) (w_db w) + n))"
    and "map_of (cas_nodes (w_db w)) (scope, h) \<noteq> None" and "0 < n \<Longrightarrow> space_stored contents scope w h"
proof -
  let ?f = "\<lambda>(h, n). (h, if balance_view scope w h + n = 0 then None else Some (balance_view scope w h + n))"
  have d: "distinct (map fst (rp_entries p))" and ps: "rp_projections p = map ?f (rp_entries p)"
    using assms(1) by (simp_all add: root_views.plan_ok_def)
  have "distinct (map fst (map ?f (rp_entries p)))" using d by (simp add: o_def case_prod_unfold)
  moreover have "?f (h, n) \<in> set (map ?f (rp_entries p))" using assms(2) by force
  ultimately have "map_of (map ?f (rp_entries p)) h = Some (snd (?f (h, n)))" by (intro map_of_is_SomeI) auto
  then show "map_of (rp_projections p) h = Some (if balance (scope, h) (w_db w) + n = 0 then None else Some (balance (scope, h) (w_db w) + n))"
    unfolding ps by (simp add: balance_view_def)
  have "count_view scope w h \<noteq> None" "0 < n \<longrightarrow> space_stored contents scope w h"
    using assms unfolding root_views.plan_ok_def by fastforce+
  then show "map_of (cas_nodes (w_db w)) (scope, h) \<noteq> None" "0 < n \<Longrightarrow> space_stored contents scope w h"
    by (auto simp: count_view_def)
qed

lemma rooted_durable:
  assumes dur: "durable t d c" and pos: "\<And>k. 0 < g k \<Longrightarrow> c (node_object_key (fst k) (snd k)) \<noteq> None"
    and rows: "\<And>k. map_of (cas_nodes d') k = map_option (add_root_ref (g k)) (map_of (cas_nodes d) k)"
  shows "durable t d' c"
  unfolding durable_def
proof (intro allI impI)
  fix k r
  assume "map_of (cas_nodes d') k = Some r" and p: "protected t r"
  then obtain r0 where r0: "map_of (cas_nodes d) k = Some r0" "r = add_root_ref (g k) r0" by (auto simp: rows)
  show "c (node_object_key (fst k) (snd k)) \<noteq> None"
  proof (cases "0 < g k")
    case False
    then have "protected t r0" using p by (auto simp: r0(2) protected_def)
    then show ?thesis using dur r0(1) unfolding durable_def by blast
  qed (rule pos)
qed

lemma scope_change_pos: "0 < scope_change sc es k \<Longrightarrow> distinct (map fst es) \<Longrightarrow> fst k = sc \<and> (snd k, scope_change sc es k) \<in> set es"
proof (induction es)
  case (Cons x es)
  obtain h n where x: "x = (h, n)" by (cases x)
  have "scope_change sc es (sc, h) = 0"
    using Cons.prems(2) change_of_absent [of h es] by (simp add: x scope_change_def)
  then show ?case using Cons by (auto simp: x scope_change_Cons)
qed simp

lemma root_committed:
  assumes ok: "world_ok sha256 contents w" and plan: "root_views.plan_ok w p" and sc: "rp_scope p = scope"
    and c: "cu_requestId c = rp_requestId p" "cu_payloadHash c = rp_payloadHash p" "cu_entries c = rp_entries p"
    and run: "batch (root_commit_statements p) (w_db w) = Some (d, ns)"
  shows "root_views.applied w c (w\<lparr>w_deliveries := ds, w_db := d\<rparr>)"
proof -
  have facts: "map_of (cas_app_root_requests (w_db w)) (scope, rp_requestId p) = None" "distinct (map fst (rp_entries p))"
    "rp_expectedRevision p = app_revision (appId scope) (w_db w)" "rp_revision p = app_revision (appId scope) (w_db w) + 1"
    using plan by (simp_all add: root_views.plan_ok_def request_view_def revision_view_def)
  let ?g = "scope_change scope (rp_entries p)"
  have new: "db_ok sha256 d" "\<And>k. map_of (cas_nodes d) k = map_option (add_root_ref (?g k)) (map_of (cas_nodes (w_db w)) k)"
    "\<And>k. balance k d = balance k (w_db w) + ?g k" "app_revision (appId scope) d = rp_revision p"
    "map_of (cas_app_root_requests d) = (map_of (cas_app_root_requests (w_db w)))((scope, rp_requestId p) \<mapsto>
        \<lparr>rq_payload_hash = rp_payloadHash p, rq_revision = rp_revision p, rq_applied_at = rp_appliedAt p\<rparr>)"
    "cas_edges d = cas_edges (w_db w)" "cas_node_uploads d = cas_node_uploads (w_db w)"
    "cas_upload_reservations d = cas_upload_reservations (w_db w)"
    using root_commit_batch [OF world_db_ok [OF ok] sc facts _ _ run] plan_projection(1,2) [OF plan] by blast+
  have "contents (w_bucket w) (node_object_key (fst k) (snd k)) \<noteq> None" if "0 < ?g k" for k
    using scope_change_pos [OF that facts(2)] plan_projection(3) [OF plan _ that, of "snd k"] by (auto simp: space_stored_def)
  then have "durable (w_clock w) d (contents (w_bucket w))"
    using rooted_durable [OF _ _ new(2)] ok by (simp add: world_ok_def)
  then have "world_ok sha256 contents (w\<lparr>w_deliveries := ds, w_db := d\<rparr>)" using ok new(1) by (simp add: world_ok_def)
  moreover have "rows_elsewhere scope (w_db w) d"
    by (auto simp: rows_elsewhere_def new scope_change_def option.map_ident)
  moreover have "map_option (\<lambda>r. r\<lparr>root_ref_count := 0\<rparr>) (map_of (cas_nodes d) k)
      = map_option (\<lambda>r. r\<lparr>root_ref_count := 0\<rparr>) (map_of (cas_nodes (w_db w)) k)" for k
    by (simp add: new(2) option.map_comp o_def add_root_ref_def)
  ultimately show ?thesis
    using new(6) unfolding root_views.applied_def
    by (simp add: rooted_def request_view_def balance_view_def revision_view_def new(3,4,5) facts(4) c space_stored_def
      scope_change_def fun_eq_iff)
qed

lemma cf_commit_root:
  assumes ok: "world_ok sha256 contents w" and plan: "root_views.plan_ok w p" and sc: "rp_scope p = scope"
    and c: "cu_requestId c = rp_requestId p" "cu_payloadHash c = rp_payloadHash p" "cu_entries c = rp_entries p"
  shows "wp (cf_commit p) (\<lambda>r w'. if r = Committed then root_views.applied w c w' else root_views.unmoved w w')
    (\<lambda>e w'. \<not> validation_error e \<and> (root_views.unmoved w w' \<or> root_views.applied w c w')) w"
proof -
  have all: "list_all (\<lambda>(hash, _). map_of (rp_projections p) hash \<noteq> None) (rp_entries p)"
    using plan_projection(1) [OF plan] by (auto simp: list_all_iff)
  have "wp (d1 (batch (root_commit_statements p))) (\<lambda>_ w'. root_views.applied w c w')
      (\<lambda>_ w'. root_views.unmoved w w' \<or> root_views.applied w c w') w"
    by (rule wp_d1) (use root_committed [OF ok plan sc c] root_unmoved_same [OF ok] in auto)
  from wp_conj [OF this d1_error] show ?thesis
    using all by (auto simp: cf_commit_def wp_bindM wp_returnM_cont elim!: wp_mono)
qed

end

section \<open>The adapter is a root-reference repository\<close>

sublocale space_store \<subseteq> roots: root_ref_repository "world_ok sha256 contents" "request_view scope" "balance_view scope"
  "count_view scope" "revision_view scope" "space_stored contents scope" "rooted contents scope"
  "cloudflareRootRefRepository bucket" scope
proof (unfold_locales, goal_cases)
  case 1
  show ?case by (rule rooted_refl)
next
  case (2 s s' s'')
  then show ?case by (rule rooted_trans)
next
  case (3 s rid)
  then show ?case using cf_find_request [of s rid] by (simp add: cloudflareRootRefRepository_def)
next
  case (4 s hs)
  then show ?case using cf_read_nodes_law [of s hs] by (simp add: cloudflareRootRefRepository_def)
next
  case (5 s hs)
  then show ?case using cf_find_unready [OF root_unmoved_refl, of s hs] by (simp add: cloudflareRootRefRepository_def)
next
  case (6 s)
  then show ?case using cf_read_state [of s] by (simp add: cloudflareRootRefRepository_def)
next
  case (7 s p c)
  then show ?case using cf_commit_root [of s p c] by (simp add: cloudflareRootRefRepository_def)
qed

end
