(* ===== verification/Audit_Reads.thy ===== *)
theory Audit_Reads
  imports Cf_Root_Refs "HOL-Library.Product_Lexorder"
begin

text \<open>
  The audit reads of an App, \<^verbatim>\<open>packages/service-cloudflare/src/audit-reads.ts\<close>, and the Space
  listing built on them (\<^verbatim>\<open>listRootRefs\<close>): keyset pagination over the root-reference balances
  and over the event log.  A cursor is modelled by its fields; its base64 text is not.

  The theorems show that following the cursors returns every row exactly once, in order.
\<close>

definition CAS_AUDIT_DEFAULT_LIMIT :: int where "CAS_AUDIT_DEFAULT_LIMIT = 200"
definition CAS_AUDIT_MAX_LIMIT :: int where "CAS_AUDIT_MAX_LIMIT = 1000"

record appRootBalanceRow =
  br_spaceId :: string
  br_hash :: string
  br_count :: int

record refsCursor =
  rc_revision :: int
  rc_appId :: string
  rc_spaceFilter :: "string option"
  rc_lastSpace :: string
  rc_lastHash :: string

record appRootRefsPage =
  pg_revision :: int
  pg_refs :: "appRootBalanceRow list"
  pg_nextCursor :: "refsCursor option"

record appRootEventRow =
  er_revision :: int
  er_event :: event_row

record appRootEventsPage =
  ep_events :: "appRootEventRow list"
  ep_latestRevision :: int
  ep_nextAfter :: int

definition parseAuditLimit :: "int option \<Rightarrow> int option" where
  "parseAuditLimit value = (case value of
       None \<Rightarrow> Some CAS_AUDIT_DEFAULT_LIMIT
     | Some n \<Rightarrow> if isSafeInteger n \<and> n \<ge> 1 \<and> n \<le> CAS_AUDIT_MAX_LIMIT then Some n else None)"

text \<open>The fields of a decoded cursor text; \<open>None\<close> is a text that is not base64 of JSON.\<close>

definition decodeRefsCursor :: "jsval option \<Rightarrow> refsCursor option" where
  "decodeRefsCursor parsed =
     (case parsed of
        Some (Obj kvs) \<Rightarrow>
          let c = js_get (Obj kvs) in
          if safe_integer (c ''version'') = Some 2 \<and> c ''kind'' = Str ''refs'' then
            (case (safe_integer (c ''revision''), c ''appId'', c ''spaceFilter'', c ''lastSpace'', c ''lastHash'') of
               (Some revision, Str app, spaceFilter, Str lastSpace, Str lastHash) \<Rightarrow>
                 if revision < 0 then None
                 else (case spaceFilter of
                         Null \<Rightarrow> Some \<lparr>rc_revision = revision, rc_appId = app, rc_spaceFilter = None,
                                       rc_lastSpace = lastSpace, rc_lastHash = lastHash\<rparr>
                       | Str s \<Rightarrow> Some \<lparr>rc_revision = revision, rc_appId = app, rc_spaceFilter = Some s,
                                       rc_lastSpace = lastSpace, rc_lastHash = lastHash\<rparr>
                       | _ \<Rightarrow> None)
             | _ \<Rightarrow> None)
          else None
      | _ \<Rightarrow> None)"

definition encodeRefsCursor :: "refsCursor \<Rightarrow> jsval" where
  "encodeRefsCursor c = Obj
     [(''version'', Number (Some 2) ''2''), (''kind'', Str ''refs''),
      (''revision'', Number (Some (rc_revision c)) (show_int (rc_revision c))), (''appId'', Str (rc_appId c)),
      (''spaceFilter'', case rc_spaceFilter c of None \<Rightarrow> Null | Some s \<Rightarrow> Str s),
      (''lastSpace'', Str (rc_lastSpace c)), (''lastHash'', Str (rc_lastHash c))]"

definition snapshotChanged :: exn where
  "snapshotChanged = AuditReadError 409 ''ROOT_REF_SNAPSHOT_CHANGED'' ''App revision changed while reading''"

definition readAppRevision :: "string \<Rightarrow> ('b cf_world, exn, int) prog" where
  "readAppRevision app = d1 (query (\<lambda>d. case map_of (cas_app_root_revisions d) app of Some n \<Rightarrow> n | None \<Rightarrow> 0))"

section \<open>Balances\<close>

definition refs_position :: "appRootBalanceRow \<Rightarrow> string \<times> string" where
  "refs_position row = (br_spaceId row, br_hash row)"

text \<open>\<open>ORDER BY space_id, hash\<close> over the rows of the App, of one Space if a filter is given.\<close>

definition sorted_refs :: "string \<Rightarrow> string option \<Rightarrow> db \<Rightarrow> appRootBalanceRow list" where
  "sorted_refs app filt d = sort_key refs_position
     (map (\<lambda>((sc, h), n). \<lparr>br_spaceId = spaceId sc, br_hash = h, br_count = n\<rparr>)
        (filter (\<lambda>((sc, h), n). appId sc = app \<and> (case filt of None \<Rightarrow> True | Some s \<Rightarrow> spaceId sc = s))
           (cas_app_root_refs d)))"

definition refs_after :: "string \<Rightarrow> string option \<Rightarrow> string \<times> string \<Rightarrow> int \<Rightarrow> db \<Rightarrow> appRootBalanceRow list" where
  "refs_after app filt pos limit d = take (nat limit) (filter (\<lambda>row. refs_position row > pos) (sorted_refs app filt d))"

definition refs_page ::
  "string \<Rightarrow> string option \<Rightarrow> int \<Rightarrow> int \<Rightarrow> appRootBalanceRow list \<Rightarrow> appRootRefsPage" where
  "refs_page app filt limit revision rows =
     (let refs = take (nat limit) rows in
      \<lparr>pg_revision = revision, pg_refs = refs,
       pg_nextCursor =
         (if int (length rows) > limit \<and> refs \<noteq> []
          then Some \<lparr>rc_revision = revision, rc_appId = app, rc_spaceFilter = filt,
                     rc_lastSpace = br_spaceId (List.last refs), rc_lastHash = br_hash (List.last refs)\<rparr>
          else None)\<rparr>)"

text \<open>The four attempts at an unchanged revision.\<close>

fun read_refs_attempts ::
  "nat \<Rightarrow> string \<Rightarrow> string option \<Rightarrow> refsCursor option \<Rightarrow> int \<Rightarrow> ('b cf_world, exn, appRootRefsPage) prog" where
  "read_refs_attempts 0 app filt cursor limit = throwM snapshotChanged"
| "read_refs_attempts (Suc n) app filt cursor limit =
     bindM (readAppRevision app) (\<lambda>revision.
     if (case cursor of Some c \<Rightarrow> rc_revision c \<noteq> revision | None \<Rightarrow> False) then throwM snapshotChanged
     else
     bindM (d1 (query (refs_after app filt
        (case cursor of Some c \<Rightarrow> (rc_lastSpace c, rc_lastHash c) | None \<Rightarrow> ([], [])) (limit + 1)))) (\<lambda>rows.
     bindM (readAppRevision app) (\<lambda>again.
     if again \<noteq> revision then
       (if cursor \<noteq> None then throwM snapshotChanged else read_refs_attempts n app filt cursor limit)
     else returnM (refs_page app filt limit revision rows))))"

text \<open>\<open>input.cursor\<close>: absent, or a text with the value it decodes to.\<close>

definition listAppRootRefs ::
  "string \<Rightarrow> string option \<Rightarrow> int option \<Rightarrow> jsval option option \<Rightarrow> ('b cf_world, exn, appRootRefsPage) prog" where
  "listAppRootRefs app filt limitInput cursorInput =
     bindM assertRootRefCutover (\<lambda>_.
     case parseAuditLimit limitInput of
       None \<Rightarrow> throwM (AuditReadError 400 ''INVALID_REQUEST'' ''invalid list limit'')
     | Some limit \<Rightarrow>
         (let cursor = (case cursorInput of None \<Rightarrow> None | Some text \<Rightarrow> decodeRefsCursor text) in
          if cursorInput \<noteq> None \<and> cursor = None
          then throwM (AuditReadError 400 ''INVALID_CURSOR'' ''malformed cursor'')
          else if (case cursor of Some c \<Rightarrow> rc_appId c \<noteq> app \<or> rc_spaceFilter c \<noteq> filt | None \<Rightarrow> False)
          then throwM (AuditReadError 400 ''INVALID_CURSOR'' ''cursor scope differs'')
          else read_refs_attempts 4 app filt cursor limit))"

text \<open>\<open>listRootRefs\<close> of \<^verbatim>\<open>root-refs.ts\<close>; the empty cursor text is no cursor.\<close>

record rootRefsListing =
  ls_revision :: int
  ls_items :: "(string \<times> int) list"
  ls_nextCursor :: "refsCursor option"

definition listRootRefs ::
  "appSpaceScope \<Rightarrow> int \<Rightarrow> jsval option option \<Rightarrow> ('b cf_world, exn, rootRefsListing) prog" where
  "listRootRefs scope limit cursor =
     bindM (listAppRootRefs (appId scope) (Some (spaceId scope)) (Some limit) cursor) (\<lambda>page.
     returnM \<lparr>ls_revision = pg_revision page,
              ls_items = map (\<lambda>row. (br_hash row, br_count row)) (pg_refs page),
              ls_nextCursor = pg_nextCursor page\<rparr>)"

section \<open>Events\<close>

definition events_after ::
  "string \<Rightarrow> string option \<Rightarrow> int \<Rightarrow> int \<Rightarrow> db \<Rightarrow> appRootEventRow list" where
  "events_after app space after latest d = sort_key er_revision
     (map (\<lambda>((_, rev), ev). \<lparr>er_revision = rev, er_event = ev\<rparr>)
        (filter (\<lambda>((a, rev), ev). a = app \<and> rev > after \<and> rev \<le> latest
                   \<and> (case space of None \<Rightarrow> True | Some s \<Rightarrow> ev_scope_space ev = s))
           (cas_app_root_events d)))"

text \<open>
  \<open>parseChanges\<close> on the stored changes; a stored record is the list of its entries, so what
  remains of the check is that of each entry.
\<close>

definition parseChanges :: "(string \<times> int) list \<Rightarrow> exn + (string \<times> int) list" where
  "parseChanges changes =
     (if \<forall>(hash, delta) \<in> set changes. length hash = 64 \<and> list_all is_lower_hex hash \<and> isSafeInteger delta \<and> delta \<noteq> 0
      then Inr changes else Inl (PlainError ''invalid stored Root Ref delta''))"

fun parse_events :: "appRootEventRow list \<Rightarrow> exn + appRootEventRow list" where
  "parse_events [] = Inr []"
| "parse_events (row # rows) =
     bindE (parseChanges (ev_changes_json (er_event row))) (\<lambda>changes.
     bindE (parse_events rows) (\<lambda>rest. Inr (row\<lparr>er_event := (er_event row)\<lparr>ev_changes_json := changes\<rparr>\<rparr> # rest)))"

definition events_page :: "int \<Rightarrow> int \<Rightarrow> int \<Rightarrow> appRootEventRow list \<Rightarrow> exn + appRootEventsPage" where
  "events_page after limit latest rows =
     bindE (parse_events (take (nat limit) rows)) (\<lambda>events.
     Inr \<lparr>ep_events = events, ep_latestRevision = latest,
          ep_nextAfter = (if int (length rows) > limit then er_revision (List.last events) else max after latest)\<rparr>)"

definition listAppRootEvents ::
  "string \<Rightarrow> string option \<Rightarrow> int option \<Rightarrow> int option \<Rightarrow> ('b cf_world, exn, appRootEventsPage) prog" where
  "listAppRootEvents app space afterInput limitInput =
     bindM assertRootRefCutover (\<lambda>_.
     let after = (case afterInput of None \<Rightarrow> 0 | Some n \<Rightarrow> n) in
     case parseAuditLimit limitInput of
       None \<Rightarrow> throwM (AuditReadError 400 ''INVALID_REQUEST'' ''invalid event page'')
     | Some limit \<Rightarrow>
         if \<not> isSafeInteger after \<or> after < 0
         then throwM (AuditReadError 400 ''INVALID_REQUEST'' ''invalid event page'')
         else
         bindM (readAppRevision app) (\<lambda>latestRevision.
         bindM (d1 (query (\<lambda>d. take (nat (limit + 1)) (events_after app space after latestRevision d)))) (\<lambda>rows.
         liftM (events_page after limit latestRevision rows))))"

section \<open>Keyset pagination\<close>

text \<open>
  The pages of a strictly sorted list: cutting after the last row of a page and asking for what
  is greater gives the rest of the list.
\<close>

lemma keyset_page:
  fixes key :: "'a \<Rightarrow> 'k :: linorder"
  assumes sorted: "sorted (map key xs)" "distinct (map key xs)" and cut: "n < length xs" "0 < n"
  shows "filter (\<lambda>x. key x > key (List.last (take n xs))) xs = drop n xs"
proof -
  let ?m = "key (List.last (take n xs))"
  have last: "List.last (take n xs) = xs ! (n - 1)" using cut by (subst last_conv_nth) (auto simp: min_def)
  have strict: "sorted_wrt (<) (map key xs)" using sorted by (simp add: strict_sorted_iff)
  have low: "key x \<le> ?m" if x: "x \<in> set (take n xs)" for x
  proof -
    obtain i where "i < n" "x = xs ! i" using x cut(1) by (auto simp: in_set_conv_nth)
    moreover have "map key xs ! i \<le> map key xs ! (n - 1)"
      using sorted(1) \<open>i < n\<close> cut by (intro sorted_nth_mono) auto
    ultimately show ?thesis using cut by (simp add: last)
  qed
  have high: "?m < key x" if x: "x \<in> set (drop n xs)" for x
  proof -
    obtain i where "i < length (drop n xs)" "x = drop n xs ! i" using x unfolding in_set_conv_nth by blast
    then have "n + i < length xs" "x = xs ! (n + i)" by simp_all
    moreover have "map key xs ! (n - 1) < map key xs ! (n + i)"
      using sorted_wrt_nth_less [OF strict, of "n - 1" "n + i"] cut \<open>n + i < length xs\<close> by simp
    ultimately show ?thesis using cut by (simp add: last)
  qed
  have "filter (\<lambda>x. key x > ?m) xs = filter (\<lambda>x. key x > ?m) (take n xs) @ filter (\<lambda>x. key x > ?m) (drop n xs)"
    by (metis append_take_drop_id filter_append)
  also have "filter (\<lambda>x. key x > ?m) (take n xs) = []" using low by (auto simp: filter_empty_conv not_less)
  also have "filter (\<lambda>x. key x > ?m) (drop n xs) = drop n xs" using high by (auto intro: filter_True)
  finally show ?thesis by simp
qed

lemma filter_drop_above:
  fixes key :: "'a \<Rightarrow> 'k :: linorder"
  assumes "ys = filter (\<lambda>x. key x > pos) xs" and "y \<in> set ys"
  shows "filter (\<lambda>x. key x > key y) xs = filter (\<lambda>x. key x > key y) ys"
  using assms by (auto simp: intro!: filter_cong [OF refl])

lemma cursor_round_trip:
  "0 \<le> rc_revision c \<Longrightarrow> isSafeInteger (rc_revision c) \<Longrightarrow> decodeRefsCursor (Some (encodeRefsCursor c)) = Some c"
  by (cases c) (auto simp: decodeRefsCursor_def encodeRefsCursor_def js_get_def safe_integer_def isSafeInteger_iff split: option.splits)

section \<open>Following the cursors\<close>

text \<open>The rows a client still has to read: all of them, or those after the cursor.\<close>

definition refs_left :: "string \<Rightarrow> string option \<Rightarrow> db \<Rightarrow> refsCursor option \<Rightarrow> appRootBalanceRow list" where
  "refs_left app filt d cursor = filter (\<lambda>row. refs_position row >
     (case cursor of Some c \<Rightarrow> (rc_lastSpace c, rc_lastHash c) | None \<Rightarrow> ([], []))) (sorted_refs app filt d)"

text \<open>A client that reads pages, passing each page's cursor back, for at most \<open>n\<close> pages.\<close>

fun audit_walk ::
  "nat \<Rightarrow> string \<Rightarrow> string option \<Rightarrow> int \<Rightarrow> refsCursor option \<Rightarrow> 'b cf_world \<Rightarrow> appRootBalanceRow list option" where
  "audit_walk 0 app filt limit cursor w = None"
| "audit_walk (Suc n) app filt limit cursor w =
     (case listAppRootRefs app filt (Some limit) (map_option (\<lambda>c. Some (encodeRefsCursor c)) cursor) w of
        (Inl _, _) \<Rightarrow> None
      | (Inr page, w') \<Rightarrow>
          (case pg_nextCursor page of
             None \<Rightarrow> Some (pg_refs page)
           | Some c \<Rightarrow> map_option (\<lambda>rest. pg_refs page @ rest) (audit_walk n app filt limit (Some c) w')))"

lemma distinct_map_sort: "distinct (map f (sort_key g xs)) = distinct (map f xs)"
  by (simp add: distinct_map)

lemma refs_positions_distinct:
  assumes "keys_distinct (cas_app_root_refs d)"
  shows "distinct (map refs_position (sorted_refs app filt d))" and "sorted (map refs_position (sorted_refs app filt d))"
proof -
  define rows where "rows = filter (\<lambda>((sc, h), n). appId sc = app \<and> (case filt of None \<Rightarrow> True | Some s \<Rightarrow> spaceId sc = s)) (cas_app_root_refs d)"
  have inj: "inj_on (\<lambda>k :: node_key. (spaceId (fst k), snd k)) {k. appId (fst k) = app}"
    by (auto simp: inj_on_def intro!: appSpaceScope.equality)
  have "distinct (map fst rows)" using assms unfolding keys_distinct_def rows_def by (rule distinct_map_filter)
  moreover have "set (map fst rows) \<subseteq> {k. appId (fst k) = app}" by (auto simp: rows_def)
  ultimately have "distinct (map (\<lambda>k. (spaceId (fst k), snd k)) (map fst rows))"
    using inj inj_on_subset by (subst distinct_map) blast
  then have "distinct (map refs_position (map (\<lambda>((sc, h), n). \<lparr>br_spaceId = spaceId sc, br_hash = h, br_count = n\<rparr>) rows))"
    by (simp add: refs_position_def o_def case_prod_unfold)
  then show "distinct (map refs_position (sorted_refs app filt d))"
    unfolding sorted_refs_def rows_def [symmetric] distinct_map_sort .
  show "sorted (map refs_position (sorted_refs app filt d))" by (simp add: sorted_refs_def)
qed

lemma rest_after_page:
  assumes "keys_distinct (cas_app_root_refs d)" and "0 < n" and "n < length (refs_left app filt d cursor)"
    and "rc_lastSpace c = br_spaceId (List.last (take n (refs_left app filt d cursor)))"
    and "rc_lastHash c = br_hash (List.last (take n (refs_left app filt d cursor)))"
  shows "refs_left app filt d (Some c) = drop n (refs_left app filt d cursor)"
proof -
  let ?xs = "refs_left app filt d cursor" and ?y = "List.last (take n (refs_left app filt d cursor))"
  have "take n ?xs \<noteq> []" using assms(2,3) by auto
  then have "?y \<in> set (take n ?xs)" by (rule last_in_set)
  then have "?y \<in> set ?xs" by (rule in_set_takeD)
  then have "filter (\<lambda>x. refs_position x > refs_position ?y) (sorted_refs app filt d)
      = filter (\<lambda>x. refs_position x > refs_position ?y) ?xs"
    by (rule filter_drop_above [OF refs_left_def])
  then have "refs_left app filt d (Some c) = filter (\<lambda>x. refs_position x > refs_position ?y) ?xs"
    using assms(4,5) by (simp add: refs_left_def [of _ _ _ "Some c"] refs_position_def)
  also have "\<dots> = drop n ?xs"
    by (rule keyset_page)
      (use refs_positions_distinct [OF assms(1)] assms(2,3) in \<open>simp_all add: refs_left_def distinct_map_filter sorted_filter\<close>)
  finally show ?thesis .
qed

lemma quiet_query: "w_deliveries w = [] \<Longrightarrow> d1 (query f) w = (Inr (f (w_db w)), w)"
  by (simp add: d1_def next_delivery_def query_def)

lemma quiet_attempt:
  assumes "w_deliveries w = []" and "\<And>c. cursor = Some c \<Longrightarrow> rc_revision c = app_revision app (w_db w)"
  shows "read_refs_attempts (Suc n) app filt cursor limit w
    = (Inr (refs_page app filt limit (app_revision app (w_db w)) (take (nat (limit + 1)) (refs_left app filt (w_db w) cursor))), w)"
proof -
  have r: "readAppRevision app w = (Inr (app_revision app (w_db w)), w)"
    by (simp add: readAppRevision_def quiet_query [OF assms(1)] app_revision_def split: option.splits)
  have "\<not> (case cursor of Some c \<Rightarrow> rc_revision c \<noteq> app_revision app (w_db w) | None \<Rightarrow> False)"
    using assms(2) by (auto split: option.splits)
  then show ?thesis
    by (simp add: bindM_def r quiet_query [OF assms(1)] returnM_def refs_after_def refs_left_def)
qed

lemma quiet_page:
  assumes quiet: "w_deliveries w = []" and open_cutover: "cas_app_root_cutover (w_db w) \<or> \<not> legacy_root_rows (w_db w)"
    and limit: "1 \<le> limit" "limit \<le> CAS_AUDIT_MAX_LIMIT"
    and cursor: "\<And>c. cursor = Some c \<Longrightarrow> rc_revision c = app_revision app (w_db w) \<and> rc_appId c = app \<and> rc_spaceFilter c = filt"
    and revision: "0 \<le> app_revision app (w_db w)" "isSafeInteger (app_revision app (w_db w))"
  shows "listAppRootRefs app filt (Some limit) (map_option (\<lambda>c. Some (encodeRefsCursor c)) cursor) w
    = (Inr (refs_page app filt limit (app_revision app (w_db w)) (take (nat (limit + 1)) (refs_left app filt (w_db w) cursor))), w)"
proof -
  have "assertRootRefCutover w = (Inr (), w)"
    using open_cutover by (auto simp: assertRootRefCutover_def quiet_query [OF quiet] bindM_def returnM_def)
  moreover have "parseAuditLimit (Some limit) = Some limit"
    using limit by (simp add: parseAuditLimit_def CAS_AUDIT_MAX_LIMIT_def isSafeInteger_iff)
  moreover have "(case map_option (\<lambda>c. Some (encodeRefsCursor c)) cursor of None \<Rightarrow> None | Some text \<Rightarrow> decodeRefsCursor text) = cursor"
    using cursor revision by (auto simp: cursor_round_trip split: option.splits)
  moreover have "\<not> (case cursor of Some c \<Rightarrow> rc_appId c \<noteq> app \<or> rc_spaceFilter c \<noteq> filt | None \<Rightarrow> False)"
    using cursor by (auto split: option.splits)
  moreover have "read_refs_attempts 4 app filt cursor limit w
    = (Inr (refs_page app filt limit (app_revision app (w_db w)) (take (nat (limit + 1)) (refs_left app filt (w_db w) cursor))), w)"
    using quiet_attempt [OF quiet, of cursor app 3 filt limit] cursor by (simp del: read_refs_attempts.simps)
  ultimately show ?thesis by (cases cursor) (simp_all add: listAppRootRefs_def bindM_def Let_def)
qed

text \<open>A page and what its cursor leaves are together what was left before.\<close>

lemma page_splits:
  assumes "keys_distinct (cas_app_root_refs d)" and "1 \<le> limit"
    and page: "page = refs_page app filt limit rv (take (nat (limit + 1)) (refs_left app filt d cursor))"
  shows "pg_refs page = take (nat limit) (refs_left app filt d cursor)"
    and "pg_nextCursor page = None \<longleftrightarrow> int (length (refs_left app filt d cursor)) \<le> limit"
    and "pg_nextCursor page = Some c \<Longrightarrow> refs_left app filt d (Some c) = drop (nat limit) (refs_left app filt d cursor)
      \<and> rc_revision c = rv \<and> rc_appId c = app \<and> rc_spaceFilter c = filt"
proof -
  let ?xs = "refs_left app filt d cursor"
  have n: "nat (limit + 1) = Suc (nat limit)" using assms(2) by simp
  show refs: "pg_refs page = take (nat limit) ?xs" by (simp add: page refs_page_def Let_def n min_def)
  have longer: "int (length (take (nat (limit + 1)) ?xs)) > limit \<longleftrightarrow> nat limit < length ?xs" using assms(2) by auto
  show "pg_nextCursor page = None \<longleftrightarrow> int (length ?xs) \<le> limit"
    using assms(2) unfolding page refs_page_def Let_def longer by (auto simp: n min_def)
  assume "pg_nextCursor page = Some c"
  then have more: "nat limit < length ?xs" and c: "c = \<lparr>rc_revision = rv, rc_appId = app, rc_spaceFilter = filt,
      rc_lastSpace = br_spaceId (List.last (take (nat limit) ?xs)), rc_lastHash = br_hash (List.last (take (nat limit) ?xs))\<rparr>"
    using assms(2) unfolding page refs_page_def Let_def longer by (auto simp: n min_def split: if_splits)
  then show "refs_left app filt d (Some c) = drop (nat limit) ?xs
      \<and> rc_revision c = rv \<and> rc_appId c = app \<and> rc_spaceFilter c = filt"
    using rest_after_page [OF assms(1) _ more, of c] assms(2) by simp
qed

lemma walk_complete:
  assumes quiet: "w_deliveries w = []" and open_cutover: "cas_app_root_cutover (w_db w) \<or> \<not> legacy_root_rows (w_db w)"
    and limit: "1 \<le> limit" "limit \<le> CAS_AUDIT_MAX_LIMIT"
    and revision: "0 \<le> app_revision app (w_db w)" "isSafeInteger (app_revision app (w_db w))"
    and dist: "keys_distinct (cas_app_root_refs (w_db w))"
    and cursor: "\<And>c. cursor = Some c \<Longrightarrow> rc_revision c = app_revision app (w_db w) \<and> rc_appId c = app \<and> rc_spaceFilter c = filt"
    and fuel: "length (refs_left app filt (w_db w) cursor) < n"
  shows "audit_walk n app filt limit cursor w = Some (refs_left app filt (w_db w) cursor)"
  using cursor fuel
proof (induction n arbitrary: cursor)
  case 0
  then show ?case by simp
next
  case (Suc n)
  let ?xs = "refs_left app filt (w_db w) cursor"
  define page where "page = refs_page app filt limit (app_revision app (w_db w)) (take (nat (limit + 1)) ?xs)"
  note parts = page_splits [OF dist limit(1) page_def]
  have run: "listAppRootRefs app filt (Some limit) (map_option (\<lambda>c. Some (encodeRefsCursor c)) cursor) w = (Inr page, w)"
    unfolding page_def by (rule quiet_page [OF quiet open_cutover limit Suc.prems(1) revision])
  show ?case
  proof (cases "pg_nextCursor page")
    case None
    then show ?thesis using parts(1,2) by (simp add: run)
  next
    case (Some c)
    note c = parts(3) [OF Some]
    have "0 < nat limit" "nat limit < length ?xs" using parts(2) Some limit(1) by auto
    then have "length (refs_left app filt (w_db w) (Some c)) < n" using c Suc.prems(2) by simp
    then have "audit_walk n app filt limit (Some c) w = Some (refs_left app filt (w_db w) (Some c))"
      by (intro Suc.IH) (use c in auto)
    then show ?thesis using c parts(1) by (simp add: run Some)
  qed
qed

section \<open>The event log\<close>

text \<open>The events after a revision are all of them, in order and without a gap.\<close>

lemma events_consecutive:
  assumes log: "root_log_ok d" and "0 \<le> after"
  shows "map er_revision (events_after app None after (app_revision app d) d) = [after + 1..app_revision app d]"
proof (rule sorted_distinct_set_unique)
  define rows where "rows = filter (\<lambda>((a, rev), ev). a = app \<and> rev > after \<and> rev \<le> app_revision app d) (cas_app_root_events d)"
  have ev: "events_after app None after (app_revision app d) d
      = sort_key er_revision (map (\<lambda>((_, rev), ev). \<lparr>er_revision = rev, er_event = ev\<rparr>) rows)"
    by (simp add: events_after_def rows_def)
  have "distinct (map fst rows)"
    using log unfolding root_log_ok_def keys_distinct_def rows_def by (blast intro: distinct_map_filter)
  moreover have "inj_on snd (set (map fst rows))" by (auto simp: inj_on_def rows_def)
  ultimately have "distinct (map snd (map fst rows))" by (simp add: distinct_map comp_inj_on_iff)
  then show "distinct (map er_revision (events_after app None after (app_revision app d) d))"
    unfolding ev distinct_map_sort by (simp add: o_def case_prod_unfold)
  have "fst ` set rows = {(app, i) | i. after < i \<and> i \<le> app_revision app d}"
  proof -
    have "(app, i) \<in> fst ` set (cas_app_root_events d) \<longleftrightarrow> 1 \<le> i \<and> i \<le> app_revision app d" for i
      using log unfolding root_log_ok_def by (metis map_of_eq_None_iff)
    then show ?thesis using assms(2) by (force simp: rows_def image_iff)
  qed
  then have "snd ` fst ` set rows = {after + 1..app_revision app d}" by (force simp: image_iff)
  then show "set (map er_revision (events_after app None after (app_revision app d) d)) = set [after + 1..app_revision app d]"
    unfolding ev by (simp add: image_image case_prod_unfold)
qed (simp_all add: events_after_def)

end
