(* ===== verification/Do_Names.thy ===== *)
theory Do_Names
  imports Service_Errors
begin

text \<open>
  Names of Durable Objects, \<^verbatim>\<open>packages/service-cloudflare/src/do-names.ts\<close>, and the
  \<open>encodeURIComponent\<close> they are built with: a Space's object is found by its name alone, so two
  Spaces must never have the same one.
\<close>

definition uri_unreserved :: "char \<Rightarrow> bool" where
  "uri_unreserved c \<longleftrightarrow>
     (let n = of_char c :: nat in
      48 \<le> n \<and> n \<le> 57 \<or> 65 \<le> n \<and> n \<le> 90 \<or> 97 \<le> n \<and> n \<le> 122) \<or> c \<in> set ''-_.!~*()'' \<or> c = CHR 0x27"

definition upper_hex_digit :: "nat \<Rightarrow> char" where
  "upper_hex_digit n = (if n < 10 then char_of (48 + n) else char_of (55 + n))"

definition percent_byte :: "byte \<Rightarrow> string" where
  "percent_byte b = [CHR ''%'', upper_hex_digit (unat b div 16), upper_hex_digit (unat b mod 16)]"

definition encode_uri_char :: "char \<Rightarrow> string" where
  "encode_uri_char c = (if uri_unreserved c then [c] else concat (map percent_byte (textEncodeChar c)))"

definition encodeURIComponent :: "string \<Rightarrow> string" where
  "encodeURIComponent s = concat (map encode_uri_char s)"

definition canonicalComposite :: "string \<Rightarrow> string \<Rightarrow> exn + string" where
  "canonicalComposite app component =
     (if length app = 0 \<or> length component = 0 then Inl (TypeErr ''DO composite parts must not be empty'')
      else Inr (encodeURIComponent app @ ''|'' @ encodeURIComponent component))"

text \<open>The name of an App's root-reference object, as \<^verbatim>\<open>space-do.ts\<close> writes it.\<close>

definition app_root_refs_name :: "string \<Rightarrow> string" where
  "app_root_refs_name app = ''app-root-refs:'' @ encodeURIComponent app"

section \<open>The encoding is injective\<close>

lemma upper_hex_digit_code: "n < 16 \<Longrightarrow> of_char (upper_hex_digit n) = (if n < 10 then 48 + n else 55 + n)"
  by (simp add: upper_hex_digit_def)

lemma upper_hex_digit_inject:
  assumes "m < 16" and "n < 16" and "upper_hex_digit m = upper_hex_digit n"
  shows "m = n"
proof -
  have "(if m < 10 then 48 + m else 55 + m) = (if n < 10 then 48 + n else 55 + n)"
    using upper_hex_digit_code [OF assms(1)] upper_hex_digit_code [OF assms(2)] assms(3) by metis
  then show ?thesis by (simp split: if_splits)
qed

lemma percent_byte_inject: "percent_byte a = percent_byte b \<longleftrightarrow> a = b"
proof
  assume p: "percent_byte a = percent_byte b"
  have bound: "unat x div 16 < 16" for x :: byte using unat_byte_bound [of x] by (simp add: less_mult_imp_div_less)
  have "upper_hex_digit (unat a div 16) = upper_hex_digit (unat b div 16)"
    "upper_hex_digit (unat a mod 16) = upper_hex_digit (unat b mod 16)" using p by (simp_all add: percent_byte_def)
  then have "unat a div 16 = unat b div 16" "unat a mod 16 = unat b mod 16"
    using upper_hex_digit_inject bound by (metis, simp add: upper_hex_digit_inject)
  then have "unat a = unat b" by (metis div_mult_mod_eq)
  then show "a = b" by (rule unsigned_word_eqI)
qed simp

lemma percent_unreserved: "\<not> uri_unreserved (CHR ''%'')" and bar_unreserved: "\<not> uri_unreserved (CHR ''|'')"
  by code_simp+

lemma length_percent_byte [simp]: "length (percent_byte b) = 3"
  by (simp add: percent_byte_def)

lemma textEncodeChar_codes:
  "map unat (textEncodeChar c) = (if of_char c < (128 :: nat) then [of_char c] else [192 + of_char c div 64, 128 + of_char c mod 64])"
proof -
  have small: "unat (of_nat k :: byte) = k" if "k < 256" for k using that by (simp add: unat_of_nat)
  have "of_char c < (256 :: nat)" by simp
  then have "of_char c div 64 < (4 :: nat)" by (simp add: less_mult_imp_div_less)
  then have "192 + of_char c div 64 < (256 :: nat)" "128 + of_char c mod 64 < (256 :: nat)" by (simp_all add: trans_less_add1)
  then show ?thesis
    using small [of "of_char c"] small [of "192 + of_char c div 64"] small [of "128 + of_char c mod 64"]
    by (simp add: textEncodeChar_def Let_def del: of_nat_add)
qed

lemma textEncodeChar_inject: "textEncodeChar c = textEncodeChar d \<Longrightarrow> c = d"
proof -
  assume "textEncodeChar c = textEncodeChar d"
  then have "map unat (textEncodeChar c) = map unat (textEncodeChar d)" by simp
  have "of_char c = (of_char d :: nat)"
    if "of_char c div 64 = (of_char d div 64 :: nat) \<and> of_char c mod 64 = (of_char d mod 64 :: nat)"
    using that by (metis div_mult_mod_eq)
  with \<open>map unat (textEncodeChar c) = map unat (textEncodeChar d)\<close> have "of_char c = (of_char d :: nat)"
    unfolding textEncodeChar_codes by (simp split: if_splits)
  then show ?thesis by simp
qed

lemma textEncodeChar_Cons: "\<exists>b bs. textEncodeChar c = b # bs"
  by (simp add: textEncodeChar_def Let_def)

lemma textEncodeChar_first:
  assumes "textEncodeChar c = b # bs"
  shows "length bs = (if unat b < 128 then 0 else 1)"
  using arg_cong [OF assms, of "map unat"] unfolding textEncodeChar_codes
  by (auto split: if_splits dest: arg_cong [of _ _ length])

text \<open>A code unit can be read off the front of an encoded string.\<close>

lemma encode_uri_char_prefix:
  assumes "encode_uri_char c @ x = encode_uri_char d @ y"
  shows "c = d \<and> x = y"
proof (cases "uri_unreserved c \<or> uri_unreserved d")
  case True
  obtain b bs b' bs' where "textEncodeChar c = b # bs" "textEncodeChar d = b' # bs'"
    using textEncodeChar_Cons by meson
  with True assms percent_unreserved show ?thesis
    by (auto simp: encode_uri_char_def percent_byte_def split: if_splits)
next
  case False
  obtain b bs b' bs' where t: "textEncodeChar c = b # bs" "textEncodeChar d = b' # bs'"
    using textEncodeChar_Cons by meson
  have eq: "percent_byte b @ concat (map percent_byte bs) @ x = percent_byte b' @ concat (map percent_byte bs') @ y"
    using assms False by (simp add: encode_uri_char_def t)
  then have b: "b = b'" and rest: "concat (map percent_byte bs) @ x = concat (map percent_byte bs') @ y"
    by (simp_all add: percent_byte_inject append_eq_append_conv)
  have "length bs = length bs'" "length bs \<le> 1"
    using textEncodeChar_first [OF t(1)] textEncodeChar_first [OF t(2)] b by simp_all
  then have "bs = bs' \<and> x = y"
    using rest by (cases bs; cases bs') (auto simp: percent_byte_inject append_eq_append_conv)
  then show ?thesis using b t textEncodeChar_inject by simp
qed

lemma encodeURIComponent_inject: "encodeURIComponent s = encodeURIComponent t \<Longrightarrow> s = t"
proof (induction s arbitrary: t)
  case Nil
  then show ?case by (cases t) (auto simp: encodeURIComponent_def encode_uri_char_def textEncodeChar_def percent_byte_def Let_def split: if_splits)
next
  case (Cons c s)
  then show ?case
  proof (cases t)
    case Nil
    then show ?thesis using Cons.prems
      by (auto simp: encodeURIComponent_def encode_uri_char_def textEncodeChar_def percent_byte_def Let_def split: if_splits)
  next
    case (Cons d t')
    then show ?thesis
      using Cons.prems encode_uri_char_prefix [of c "encodeURIComponent s" d "encodeURIComponent t'"] Cons.IH [of t']
      by (simp add: encodeURIComponent_def)
  qed
qed

lemma bar_not_encoded: "CHR ''|'' \<notin> set (encodeURIComponent s)"
proof -
  have hex: "upper_hex_digit n \<noteq> CHR ''|''" if "n < 16" for n
    using upper_hex_digit_code [OF that] that by (auto split: if_splits)
  have "CHR ''|'' \<notin> set (percent_byte b)" for b
    using hex [of "unat b div 16"] hex [of "unat b mod 16"] unat_byte_bound [of b]
    by (auto simp: percent_byte_def less_mult_imp_div_less)
  then have "CHR ''|'' \<notin> set (encode_uri_char c)" for c
    using bar_unreserved by (auto simp: encode_uri_char_def)
  then show ?thesis by (simp add: encodeURIComponent_def)
qed

lemma append_bar_inject:
  assumes "xs @ CHR ''|'' # ys = xs' @ CHR ''|'' # ys'" and "CHR ''|'' \<notin> set xs" and "CHR ''|'' \<notin> set xs'"
  shows "xs = xs' \<and> ys = ys'"
proof -
  have tw: "takeWhile (\<lambda>c. c \<noteq> CHR ''|'') (zs @ CHR ''|'' # ws) = zs" if "CHR ''|'' \<notin> set zs" for zs ws :: string
    using that by (subst takeWhile_append2) auto
  from tw [OF assms(2), of ys] tw [OF assms(3), of ys'] assms(1) show ?thesis by auto
qed

lemma canonicalComposite_inject:
  assumes "canonicalComposite app component = Inr name" and "canonicalComposite app' component' = Inr name"
  shows "app = app' \<and> component = component'"
proof -
  have "encodeURIComponent app @ CHR ''|'' # encodeURIComponent component
      = encodeURIComponent app' @ CHR ''|'' # encodeURIComponent component'"
    using assms by (auto simp: canonicalComposite_def split: if_splits)
  from append_bar_inject [OF this bar_not_encoded bar_not_encoded] show ?thesis
    using encodeURIComponent_inject by blast
qed

end
