(* ===== verification/Space_Object.thy ===== *)
theory Space_Object
  imports Cf_Node_Gc Cf_Node_Read Audit_Reads Do_Names
begin

text \<open>
  The two Durable Objects of the data plane: the Space's mutation coordinator,
  \<^verbatim>\<open>packages/service-cloudflare/src/space-do.ts\<close>, and the App's root-reference object,
  \<^verbatim>\<open>domain-do.ts\<close>, with the upload presigner of \<^verbatim>\<open>r2-upload-presigner.ts\<close>.  A request handler is
  a computation over the world that returns a response; what a handler throws, the dispatcher
  turns into a response too.

  Of the JavaScript library, \<open>JSON.parse\<close>, \<open>Number\<close> of a text, the base64 text of cursors and
  \<open>Math.random\<close> are fields of \<open>runtime\<close>, and so is the signing function of the \<^verbatim>\<open>aws4fetch\<close>
  package: the theorems hold whatever they compute.  Spans and timings are not modelled.
\<close>

section \<open>Requests and responses\<close>

record do_request =
  hq_method :: string
  hq_pathname :: string
  hq_header :: "string \<Rightarrow> string option"
  hq_search :: "string \<Rightarrow> string option"
  hq_text :: string

datatype response_body = Json jsval | Body_stream "bytes list"

record do_response =
  hs_status :: nat
  hs_headers :: "(string \<times> string) list"
  hs_body :: response_body

record 'b runtime =
  rt_json_parse :: "string \<Rightarrow> jsval option"
  rt_number :: "string \<Rightarrow> jsval"
  rt_cursor_json :: "string \<Rightarrow> jsval option"
  rt_cursor_text :: "jsval \<Rightarrow> string"
  rt_aws_sign :: "string \<times> string \<Rightarrow> string \<Rightarrow> int \<Rightarrow> exn + string"
  rt_random :: "'b cf_world \<Rightarrow> int"

record spaceCasDoEnv =
  CAS_R2_ACCOUNT_ID :: "string option"
  CAS_R2_BUCKET_NAME :: "string option"
  CAS_R2_ACCESS_KEY_ID :: "string option"
  CAS_R2_SECRET_ACCESS_KEY :: "string option"
  CAS_UPLOAD_URL_EXPIRY_SECONDS :: "string option"
  CAS_RETRY_MAX_ATTEMPTS :: "string option"

definition js_int :: "int \<Rightarrow> jsval" where
  "js_int n = Number (Some n) (show_int n)"

definition jsonResponse :: "jsval \<Rightarrow> do_response" where
  "jsonResponse v = \<lparr>hs_status = 200, hs_headers = [], hs_body = Json v\<rparr>"

definition errorResponse :: "nat \<Rightarrow> string \<Rightarrow> string \<Rightarrow> do_response" where
  "errorResponse status code message =
     \<lparr>hs_status = status, hs_headers = [], hs_body = Json (Obj [(''error'', Str code), (''message'', Str message)])\<rparr>"

definition present :: "string option \<Rightarrow> string option" where
  "present v = (case v of Some s \<Rightarrow> if s = [] then None else Some s | None \<Rightarrow> None)"

definition requireHeader :: "do_request \<Rightarrow> string \<Rightarrow> exn + string" where
  "requireHeader request name = (case present (hq_header request name) of
       Some v \<Rightarrow> Inr v
     | None \<Rightarrow> Inl (nodeOpError 400 INVALID_REQUEST (''missing '' @ name)))"

definition physicalScope :: "do_request \<Rightarrow> do_response + appSpaceScope" where
  "physicalScope request =
     (if hq_header request ''X-CAS-Stack-Id'' \<noteq> None \<or> hq_header request ''X-CAS-Tenant-Id'' \<noteq> None
      then Inl (errorResponse 400 ''INVALID_SCOPE_HEADERS'' ''legacy scope headers are forbidden'')
      else case (present (hq_header request ''X-CAS-App-Id''), present (hq_header request ''X-CAS-Space-Id'')) of
          (Some app, Some space) \<Rightarrow> Inr \<lparr>appId = app, spaceId = space\<rparr>
        | _ \<Rightarrow> Inl (errorResponse 400 ''INVALID_SCOPE_HEADERS'' ''one complete scope header family is required''))"

section \<open>The upload presigner\<close>

record r2UploadPresigner =
  ps_accountId :: string
  ps_bucketName :: string
  ps_expiresInSeconds :: int
  ps_now :: int
  ps_client :: "string \<times> string"

record presignedR2Upload =
  pu_url :: string
  pu_expiresAt :: int
  pu_headers :: "(string \<times> string) list"

definition CanonicalUploadContentType :: string where
  "CanonicalUploadContentType = ''application/vnd.unidocs.cas-node.v1''"

definition requireComponent :: "string \<Rightarrow> string \<Rightarrow> exn + string" where
  "requireComponent value name =
     (if length value = 0 \<or> CHR 0x0D \<in> set value \<or> CHR 0x0A \<in> set value
      then Inl (TypeErr (name @ '' must not be empty'')) else Inr value)"

definition newR2UploadPresigner ::
  "string \<Rightarrow> string \<Rightarrow> string \<Rightarrow> string \<Rightarrow> int \<Rightarrow> int \<Rightarrow> exn + r2UploadPresigner" where
  "newR2UploadPresigner accountId bucketName accessKeyId secretAccessKey expiresInSeconds now =
     bindE (requireComponent accountId ''R2 account ID'') (\<lambda>account.
     bindE (requireComponent bucketName ''R2 bucket name'') (\<lambda>name.
     if \<not> isSafeInteger expiresInSeconds \<or> expiresInSeconds < 1 \<or> expiresInSeconds > 604800
     then Inl (TypeErr ''R2 upload URL expiry must be an integer between 1 and 604800 seconds'')
     else
     bindE (requireComponent accessKeyId ''R2 access key ID'') (\<lambda>key.
     bindE (requireComponent secretAccessKey ''R2 secret access key'') (\<lambda>secret.
     Inr \<lparr>ps_accountId = account, ps_bucketName = name, ps_expiresInSeconds = expiresInSeconds, ps_now = now,
          ps_client = (key, secret)\<rparr>))))"

text \<open>\<open>text.split("/")\<close>.\<close>

fun split_slash :: "string \<Rightarrow> string list" where
  "split_slash [] = [[]]"
| "split_slash (c # s) = (if c = CHR ''/'' then [] # split_slash s
     else case split_slash s of [] \<Rightarrow> [[c]] | seg # segs \<Rightarrow> (c # seg) # segs)"

fun encode_segments :: "string list \<Rightarrow> exn + string list" where
  "encode_segments [] = Inr []"
| "encode_segments (seg # segs) =
     bindE (requireComponent seg ''R2 object key segment'') (\<lambda>s.
     bindE (encode_segments segs) (\<lambda>rest. Inr (encodeURIComponent s # rest)))"

definition signPut :: "'b runtime \<Rightarrow> r2UploadPresigner \<Rightarrow> string \<Rightarrow> exn + presignedR2Upload" where
  "signPut rt presigner objectKey =
     bindE (encode_segments (split_slash objectKey)) (\<lambda>segments.
     let url = ''https://'' @ encodeURIComponent (ps_accountId presigner) @ ''.r2.cloudflarestorage.com/''
           @ encodeURIComponent (ps_bucketName presigner) @ ''/'' @ join ''/'' segments in
     bindE (rt_aws_sign rt (ps_client presigner) url (ps_expiresInSeconds presigner)) (\<lambda>signed.
     Inr \<lparr>pu_url = signed, pu_expiresAt = ps_now presigner + ps_expiresInSeconds presigner * 1000,
          pu_headers = [(''Content-Type'', CanonicalUploadContentType), (''If-None-Match'', ''*'')]\<rparr>))"

definition upload_json :: "presignedR2Upload \<Rightarrow> jsval" where
  "upload_json u = Obj [(''method'', Str ''PUT''), (''url'', Str (pu_url u)), (''expiresAt'', js_int (pu_expiresAt u)),
     (''headers'', Obj (map (\<lambda>(k, v). (k, Str v)) (pu_headers u)))]"

section \<open>Leases\<close>

definition uploadExpirySeconds :: "'b runtime \<Rightarrow> spaceCasDoEnv \<Rightarrow> exn + int" where
  "uploadExpirySeconds rt env =
     (case safe_integer (rt_number rt (case CAS_UPLOAD_URL_EXPIRY_SECONDS env of Some s \<Rightarrow> s | None \<Rightarrow> ''300'')) of
        Some n \<Rightarrow> if n < 1 \<or> n > 604800 then Inl (nodeOpError 503 STORAGE ''Direct upload expiry is invalid'') else Inr n
      | None \<Rightarrow> Inl (nodeOpError 503 STORAGE ''Direct upload expiry is invalid''))"

definition uploadPresigner :: "spaceCasDoEnv \<Rightarrow> int \<Rightarrow> int \<Rightarrow> exn + r2UploadPresigner" where
  "uploadPresigner env expiresInSeconds now =
     (case (present (CAS_R2_ACCOUNT_ID env), present (CAS_R2_BUCKET_NAME env),
            present (CAS_R2_ACCESS_KEY_ID env), present (CAS_R2_SECRET_ACCESS_KEY env)) of
        (Some account, Some name, Some key, Some secret) \<Rightarrow>
          newR2UploadPresigner account name key secret expiresInSeconds now
      | _ \<Rightarrow> Inl (nodeOpError 503 STORAGE ''Direct canonical upload is not configured''))"

text \<open>\<open>createIdentifiers\<close> of the request.\<close>

definition create_upload_identifiers :: "(('d, 'b) world, exn, string \<times> string) prog" where
  "create_upload_identifiers = bindM random_uuid (\<lambda>id. returnM (id, ''_uploads/v2/'' @ id))"

text \<open>The input \<^verbatim>\<open>nodes.ts\<close> passes to the kernel; the span around the validation changes nothing.\<close>

definition space_lease_input ::
  "'b r2_bucket \<Rightarrow> (bytes \<Rightarrow> bytes) \<Rightarrow> appSpaceScope \<Rightarrow> string \<Rightarrow> int \<Rightarrow> int \<Rightarrow> int \<Rightarrow> 'b cf_world leaseDrivenInput" where
  "space_lease_input bucket sha256 scope hash leaseDurationMs expirySeconds now =
     \<lparr>in_repository = cloudflareNodeLeaseRepository bucket sha256, in_sha256 = sha256, in_scope = scope, in_hash = hash,
      in_leaseDurationMs = leaseDurationMs, in_createIdentifiers = create_upload_identifiers, in_limits = no_limits,
      in_uploadSessionMs = Some (expirySeconds * 1000), in_uploadCleanupMs = None, in_maxActiveUploads = None,
      in_instrumentation = Some (\<lambda>operation. operation), in_now = now\<rparr>"

definition lease_json :: "casLeaseResult \<Rightarrow> jsval" where
  "lease_json r = Obj [(''state'', Str ''ready''), (''hash'', Str (lr_hash r)),
     (''leaseStartedAt'', js_int (leaseStartedAt (lr_lease r))), (''leaseExpiresAt'', js_int (leaseExpiresAt (lr_lease r)))]"

definition evaluateSpaceLease ::
  "'b runtime \<Rightarrow> spaceCasDoEnv \<Rightarrow> 'b r2_bucket \<Rightarrow> (bytes \<Rightarrow> bytes) \<Rightarrow> appSpaceScope \<Rightarrow> string \<Rightarrow> int \<Rightarrow> int \<Rightarrow> int
   \<Rightarrow> ('b cf_world, exn, jsval) prog" where
  "evaluateSpaceLease rt env bucket sha256 scope hash leaseDurationMs expirySeconds now =
     bindM (leaseDrivenNodeUpload (space_lease_input bucket sha256 scope hash leaseDurationMs expirySeconds now)) (\<lambda>result.
     let signed = (\<lambda>upload. bindE (uploadPresigner env expirySeconds now) (\<lambda>presigner.
           signPut rt presigner (lu_temporaryObjectKey upload))) in
     case result of
       Ready r \<Rightarrow> returnM (lease_json r)
     | Validated_awaiting_children childHashes \<Rightarrow>
         returnM (Obj [(''state'', Str ''validated_awaiting_children''), (''hash'', Str hash),
           (''childHashes'', Arr (map Str childHashes))])
     | Awaiting_replacement_upload upload rejection \<Rightarrow>
         bindM (liftM (signed upload)) (\<lambda>u.
         returnM (Obj [(''state'', Str ''awaiting_replacement_upload''), (''hash'', Str hash),
           (''rejection'', Obj [(''code'', Str (rj_code rejection)), (''message'', Str (rj_message rejection))]),
           (''upload'', upload_json u)]))
     | Awaiting_upload upload \<Rightarrow>
         bindM (liftM (signed upload)) (\<lambda>u.
         returnM (Obj [(''state'', Str ''awaiting_upload''), (''hash'', Str hash), (''upload'', upload_json u)])))"

definition invalid_lease_duration :: exn where
  "invalid_lease_duration = nodeOpError 400 INVALID_REQUEST ''leaseDurationMs must be a positive integer''"

text \<open>The body: an object with exactly one property, a positive safe integer.\<close>

definition requested_lease_duration :: "jsval option \<Rightarrow> exn + int" where
  "requested_lease_duration body =
     (case body of
        Some (Obj kvs) \<Rightarrow>
          if length (js_entries kvs) \<noteq> 1 then Inl invalid_lease_duration
          else (case safe_integer (js_get (Obj kvs) ''leaseDurationMs'') of
                  Some n \<Rightarrow> if n \<le> 0 then Inl invalid_lease_duration else Inr n
                | None \<Rightarrow> Inl invalid_lease_duration)
      | _ \<Rightarrow> Inl invalid_lease_duration)"

definition handleLease ::
  "'b runtime \<Rightarrow> spaceCasDoEnv \<Rightarrow> 'b r2_bucket \<Rightarrow> (bytes \<Rightarrow> bytes) \<Rightarrow> appSpaceScope \<Rightarrow> do_request \<Rightarrow> ('b cf_world, exn, jsval) prog" where
  "handleLease rt env bucket sha256 scope request =
     bindM (liftM (requireHeader request ''X-CAS-Hash'')) (\<lambda>hash.
     bindM (liftM (requested_lease_duration (rt_json_parse rt (hq_text request)))) (\<lambda>leaseDurationMs.
     bindM date_now (\<lambda>now.
     bindM (liftM (uploadExpirySeconds rt env)) (\<lambda>expirySeconds.
     evaluateSpaceLease rt env bucket sha256 scope hash leaseDurationMs expirySeconds now))))"

section \<open>Reads\<close>

definition formatCasNodeRefsHeader :: "string list \<Rightarrow> exn + string" where
  "formatCasNodeRefsHeader refs =
     (if length refs > 256 \<or> (\<exists>ref \<in> set refs. \<not> (length ref = 64 \<and> list_all is_lower_hex ref))
      then Inl (TypeErr ''CAS node refs are invalid'') else Inr (join '','' refs))"

definition content_headers :: "nodeContentStream \<Rightarrow> string \<Rightarrow> (string \<times> string) list" where
  "content_headers c refs =
     [(''Accept-Ranges'', ''bytes''),
      (''Content-Length'', show_int (case ns_range c of None \<Rightarrow> ns_contentSize c | Some (a, b) \<Rightarrow> b - a + 1)),
      (''Content-Type'', ns_contentType c), (''X-CAS-Refs'', refs)]
     @ (case ns_range c of None \<Rightarrow> []
        | Some (a, b) \<Rightarrow> [(''Content-Range'',
            ''bytes '' @ show_int a @ ''-'' @ show_int b @ ''/'' @ show_int (ns_contentSize c))])"

definition handleRead :: "'b r2_bucket \<Rightarrow> appSpaceScope \<Rightarrow> do_request \<Rightarrow> ('b cf_world, exn, do_response) prog" where
  "handleRead bucket scope request =
     bindM (liftM (requireHeader request ''X-CAS-Hash'')) (\<lambda>hash.
     bindM (readNodeContent (cloudflareNodeReadRepository bucket) scope hash (hq_header request ''Range'')) (\<lambda>content.
     case content of
       None \<Rightarrow> returnM (errorResponse 404 NOT_FOUND (''Node '' @ hash @ '' not found or not ready''))
     | Some c \<Rightarrow>
         bindM (liftM (formatCasNodeRefsHeader (ns_refs c))) (\<lambda>refs.
         returnM \<lparr>hs_status = (if ns_range c = None then 200 else 206), hs_headers = content_headers c refs,
                  hs_body = Body_stream (ns_body c)\<rparr>)))"

definition metadata_json :: "nodeMetadata \<Rightarrow> jsval" where
  "metadata_json n = Obj
     [(''metadata'', Obj [(''hash'', Str (nm_hash n)), (''size'', js_int (nm_size n)), (''contentType'', Str (nm_contentType n)),
        (''refs'', Arr (map Str (nm_refs n)))]),
      (''state'', Obj [(''leaseStartedAt'', js_int (nm_leaseStartedAt n)), (''leaseExpiresAt'', js_int (nm_leaseExpiresAt n)),
        (''childRefCount'', js_int (nm_childRefCount n)), (''rootRefCount'', js_int (nm_rootRefCount n))])]"

definition handleMetadata :: "'b r2_bucket \<Rightarrow> appSpaceScope \<Rightarrow> do_request \<Rightarrow> ('b cf_world, exn, do_response) prog" where
  "handleMetadata bucket scope request =
     bindM (liftM (requireHeader request ''X-CAS-Hash'')) (\<lambda>hash.
     bindM (readNodeMetadata (cloudflareNodeReadRepository bucket) scope hash) (\<lambda>result.
     returnM (case result of
         None \<Rightarrow> errorResponse 404 NOT_FOUND (''Node '' @ hash @ '' not found'')
       | Some n \<Rightarrow> jsonResponse (metadata_json n))))"

definition usage_json :: "casUsage \<Rightarrow> jsval" where
  "usage_json u = Obj [(''nodeCount'', js_int (us_nodeCount u)), (''readyContentBytes'', js_int (us_readyContentBytes u)),
     (''readyStoredBytes'', js_int (us_readyStoredBytes u)), (''reservedBytes'', js_int (us_reservedBytes u)),
     (''notReadyNodeCount'', js_int (us_notReadyNodeCount u)), (''leasedNodeCount'', js_int (us_leasedNodeCount u))]"

section \<open>Garbage collection\<close>

definition requested_max_nodes :: "jsval option \<Rightarrow> exn + int" where
  "requested_max_nodes body =
     (let value = (case body of Some v \<Rightarrow> js_get v ''maxNodes'' | None \<Rightarrow> Undefined);
          chosen = (if value = Undefined \<or> value = Null then js_int DEFAULT_GC_MAX_NODES else value)
      in case safe_integer chosen of
           Some n \<Rightarrow> if n \<le> 0 then Inl (nodeOpError 400 INVALID_REQUEST ''maxNodes must be a positive integer'') else Inr n
         | None \<Rightarrow> Inl (nodeOpError 400 INVALID_REQUEST ''maxNodes must be a positive integer''))"

definition handleGc ::
  "'b runtime \<Rightarrow> 'b r2_bucket \<Rightarrow> appSpaceScope \<Rightarrow> do_request \<Rightarrow> ('b cf_world, exn, casGcResult) prog" where
  "handleGc rt bucket scope request =
     bindM (liftM (requested_max_nodes (rt_json_parse rt (hq_text request)))) (\<lambda>maxNodes.
     bindM date_now (\<lambda>now.
     bindM (cf_cleanupExpiredLeaseDrivenUploads bucket scope now maxNodes) (\<lambda>_.
     collectExpiredUnreferencedNodes (cloudflareNodeGcRepository bucket) scope (Some maxNodes) date_now)))"

definition gc_json :: "casGcResult \<Rightarrow> jsval" where
  "gc_json r = Obj [(''examined'', js_int (examined r)), (''deleted'', js_int (deleted r)),
     (''reclaimedContentBytes'', js_int (reclaimedContentBytes r))]"

section \<open>The root-reference object of the App\<close>

definition domain_requireHeader :: "(string \<Rightarrow> string option) \<Rightarrow> string \<Rightarrow> exn + string" where
  "domain_requireHeader header name = (case present (header name) of
       Some v \<Rightarrow> Inr v
     | None \<Rightarrow> Inl (invalid_refs (''missing '' @ name)))"

definition parseMaxAttempts :: "'b runtime \<Rightarrow> string option \<Rightarrow> int option" where
  "parseMaxAttempts rt value = (case value of
       None \<Rightarrow> None
     | Some s \<Rightarrow> (case safe_integer (rt_number rt s) of Some n \<Rightarrow> if n \<ge> 1 then Some n else None | None \<Rightarrow> None))"

definition domain_options :: "'b runtime \<Rightarrow> spaceCasDoEnv \<Rightarrow> rootRefsRetryOptions" where
  "domain_options rt env = \<lparr>ro_maxAttempts = parseMaxAttempts rt (CAS_RETRY_MAX_ATTEMPTS env), ro_baseDelayMs = None,
     ro_maxDelayMs = None, ro_jitter = None\<rparr>"

definition math_random :: "'b runtime \<Rightarrow> ('b cf_world, exn, int) prog" where
  "math_random rt w = (Inr (rt_random rt w), w)"

text \<open>What a thrown error becomes.\<close>

definition domain_error :: "exn \<Rightarrow> do_response" where
  "domain_error e = (case e of
       RootRefsValidationError status code message \<Rightarrow> errorResponse status code message
     | _ \<Rightarrow> errorResponse 503 ROOT_REF_BUSY ''root refs update failed'')"

definition domain_commit ::
  "'b runtime \<Rightarrow> spaceCasDoEnv \<Rightarrow> 'b r2_bucket \<Rightarrow> (bytes \<Rightarrow> bytes) \<Rightarrow> appSpaceScope \<Rightarrow> jsval \<Rightarrow> jsval
   \<Rightarrow> ('b cf_world, exn, do_response) prog" where
  "domain_commit rt env bucket sha256 scope requestId changes =
     bindM (liftM (canonicalizeRootRefsUpdate sha256 requestId changes)) (\<lambda>canonical.
     bindM (withRootRefsRetry (executeRootRefsUpdate bucket scope canonical) (domain_options rt env)
              (math_random rt) sleep_for) (\<lambda>result.
     returnM (jsonResponse (Obj [(''success'', Boolean True), (''idempotent'', Boolean (rr_idempotent result)),
       (''revision'', js_int (rr_revision result))]))))"

text \<open>\<open>fetch\<close> of the object; the body is the value \<open>request.json()\<close> gives, or \<open>None\<close> if it rejects.\<close>

definition domain_fetch ::
  "'b runtime \<Rightarrow> spaceCasDoEnv \<Rightarrow> 'b r2_bucket \<Rightarrow> (bytes \<Rightarrow> bytes) \<Rightarrow> (string \<Rightarrow> string option) \<Rightarrow> jsval option
   \<Rightarrow> ('b cf_world, exn, do_response) prog" where
  "domain_fetch rt env bucket sha256 header body =
     (case bindE (domain_requireHeader header ''X-CAS-App-Id'') (\<lambda>app.
           bindE (domain_requireHeader header ''X-CAS-Space-Id'') (\<lambda>space. Inr \<lparr>appId = app, spaceId = space\<rparr>)) of
        Inl e \<Rightarrow> returnM (domain_error e)
      | Inr scope \<Rightarrow>
          (case body of
             None \<Rightarrow> returnM (errorResponse 400 ROOT_REF_INVALID ''Root Ref command body is not valid JSON'')
           | Some Null \<Rightarrow> returnM (domain_error (TypeErr ''Cannot read properties of null''))
           | Some v \<Rightarrow>
               catchM (domain_commit rt env bucket sha256 scope (js_get v ''requestId'') (js_get v ''changes''))
                 (\<lambda>e. returnM (domain_error e))))"

section \<open>The Space object\<close>

text \<open>A call of another object may be lost on the way there or back.\<close>

definition stub_fetch :: "('b cf_world, exn, do_response) prog \<Rightarrow> ('b cf_world, exn, do_response) prog" where
  "stub_fetch call w =
     (case next_delivery (w_deliveries w) of (d, rest) \<Rightarrow>
        let w' = w\<lparr>w_deliveries := rest\<rparr> in
        if d = Lost then (Inl (PlainError ''Network connection lost.''), w')
        else case call w' of (r, w'') \<Rightarrow> (if d = Delivered then r else Inl (PlainError ''Network connection lost.''), w''))"

definition canonical_command :: "canonicalRootRefsUpdate \<Rightarrow> jsval" where
  "canonical_command c = Obj [(''requestId'', Str (cu_requestId c)),
     (''changes'', Obj (map (\<lambda>(hash, delta). (hash, js_int delta)) (cu_entries c)))]"

definition scope_headers :: "appSpaceScope \<Rightarrow> string \<Rightarrow> string option" where
  "scope_headers scope = [''X-CAS-App-Id'' \<mapsto> appId scope, ''X-CAS-Space-Id'' \<mapsto> spaceId scope]"

definition forwardRootRefs ::
  "'b runtime \<Rightarrow> spaceCasDoEnv \<Rightarrow> 'b r2_bucket \<Rightarrow> (bytes \<Rightarrow> bytes) \<Rightarrow> appSpaceScope \<Rightarrow> do_request
   \<Rightarrow> ('b cf_world, exn, do_response) prog" where
  "forwardRootRefs rt env bucket sha256 scope request =
     (case bindE (parseRootRefsBody (rt_json_parse rt) (hq_text request)) (\<lambda>(requestId, changes).
           canonicalizeRootRefsUpdate sha256 requestId changes) of
        Inl (RootRefsValidationError status code message) \<Rightarrow> returnM (errorResponse status code message)
      | Inl _ \<Rightarrow> returnM (errorResponse 400 ROOT_REF_INVALID ''root refs update is invalid'')
      | Inr canonical \<Rightarrow>
          stub_fetch (domain_fetch rt env bucket sha256 (scope_headers scope) (Some (canonical_command canonical))))"

definition parseRootRefsLimit :: "'b runtime \<Rightarrow> string option \<Rightarrow> exn + int" where
  "parseRootRefsLimit rt value = (case value of
       None \<Rightarrow> Inr 50
     | Some s \<Rightarrow>
         (case safe_integer (rt_number rt s) of
            Some n \<Rightarrow> if n < 1 \<or> n > 200 then Inl (nodeOpError 400 INVALID_REQUEST ''root refs limit must be between 1 and 200'')
                      else Inr n
          | None \<Rightarrow> Inl (nodeOpError 400 INVALID_REQUEST ''root refs limit must be between 1 and 200'')))"

text \<open>No cursor, or a text that decodes; the text itself is passed on.\<close>

definition parseRootRefsCursor :: "'b runtime \<Rightarrow> string option \<Rightarrow> exn + string" where
  "parseRootRefsCursor rt value = (case value of
       None \<Rightarrow> Inr []
     | Some s \<Rightarrow> if decodeRefsCursor (rt_cursor_json rt s) = None
                then Inl (nodeOpError 400 INVALID_REQUEST ''root refs cursor is invalid'') else Inr s)"

definition listing_json :: "'b runtime \<Rightarrow> rootRefsListing \<Rightarrow> jsval" where
  "listing_json rt l = Obj [(''revision'', js_int (ls_revision l)),
     (''items'', Arr (map (\<lambda>(h, n). Obj [(''hash'', Str h), (''refCount'', js_int n)]) (ls_items l))),
     (''nextCursor'', case ls_nextCursor l of None \<Rightarrow> Null | Some c \<Rightarrow> Str (rt_cursor_text rt (encodeRefsCursor c)))]"

definition handleRootRefs ::
  "'b runtime \<Rightarrow> appSpaceScope \<Rightarrow> do_request \<Rightarrow> ('b cf_world, exn, do_response) prog" where
  "handleRootRefs rt scope request =
     bindM (liftM (parseRootRefsLimit rt (hq_search request ''limit''))) (\<lambda>limit.
     bindM (liftM (parseRootRefsCursor rt (hq_search request ''cursor''))) (\<lambda>cursor.
     bindM (listRootRefs scope limit (if cursor = [] then None else Some (rt_cursor_json rt cursor))) (\<lambda>listing.
     returnM (jsonResponse (listing_json rt listing)))))"

definition map_response :: "('b cf_world, exn, 'a) prog \<Rightarrow> ('a \<Rightarrow> jsval) \<Rightarrow> ('b cf_world, exn, do_response) prog" where
  "map_response m f = bindM m (\<lambda>x. returnM (jsonResponse (f x)))"

definition route ::
  "'b runtime \<Rightarrow> spaceCasDoEnv \<Rightarrow> 'b r2_bucket \<Rightarrow> (bytes \<Rightarrow> bytes) \<Rightarrow> appSpaceScope \<Rightarrow> do_request
   \<Rightarrow> ('b cf_world, exn, do_response) prog" where
  "route rt env bucket sha256 scope request =
     (let path = hq_pathname request; verb = hq_method request in
      if path = ''/updateRootRefs'' \<and> verb = ''POST'' then forwardRootRefs rt env bucket sha256 scope request
      else if path = ''/rootRefs'' \<and> verb = ''GET'' then handleRootRefs rt scope request
      else if path = ''/lease'' \<and> verb = ''POST'' then map_response (handleLease rt env bucket sha256 scope request) id
      else if path = ''/read'' \<and> verb = ''GET'' then handleRead bucket scope request
      else if path = ''/metadata'' \<and> verb = ''GET'' then handleMetadata bucket scope request
      else if path = ''/usage'' \<and> verb = ''GET''
      then map_response (readNodeUsage (cloudflareNodeUsageRepository bucket) scope) usage_json
      else if path = ''/gc'' \<and> verb = ''POST'' then map_response (handleGc rt bucket scope request) gc_json
      else returnM (errorResponse 501 ''SERVICE_UNAVAILABLE'' ''Space CAS operation not implemented yet''))"

definition space_error :: "exn \<Rightarrow> do_response" where
  "space_error e = (case e of
       AuditReadError status code message \<Rightarrow>
         errorResponse status (if code = ''INVALID_CURSOR'' then ''INVALID_REQUEST'' else code) message
     | NodeOpError status code message headers \<Rightarrow> (errorResponse status code message)\<lparr>hs_headers := headers\<rparr>
     | _ \<Rightarrow> errorResponse 503 STORAGE ''Space CAS operation failed'')"

definition space_fetch ::
  "'b runtime \<Rightarrow> spaceCasDoEnv \<Rightarrow> 'b r2_bucket \<Rightarrow> (bytes \<Rightarrow> bytes) \<Rightarrow> do_request \<Rightarrow> ('b cf_world, exn, do_response) prog" where
  "space_fetch rt env bucket sha256 request =
     (case physicalScope request of
        Inl response \<Rightarrow> returnM response
      | Inr scope \<Rightarrow> catchM (route rt env bucket sha256 scope request) (\<lambda>e. returnM (space_error e)))"

end
