(* ===== verification/Example_World.thy ===== *)
theory Example_World
  imports Cf_Lease_Correct
begin

text \<open>
  A small concrete deployment: a digest without collisions at one node, one Space, the
  reference bucket with that node's object, and a database with its row.  The invariant holds
  for it, so the theorems about all deployments can be applied to it, and their results can be
  computed.
\<close>

definition sample_node :: bytes where
  "sample_node = node_bytes ''text/plain'' [] [0x68, 0x69]"

definition sample_sha256 :: "bytes \<Rightarrow> bytes" where
  "sample_sha256 b = (if b = sample_node then replicate 32 0 else replicate 32 1)"

definition sample_hash :: string where
  "sample_hash = replicate 64 CHR ''0''"

definition sample_scope :: appSpaceScope where
  "sample_scope = \<lparr>appId = ''app'', spaceId = ''/team/a''\<rparr>"

definition sample_row :: node_row where
  "sample_row = \<lparr>content_size = 2, content_type = ''text/plain'', lease_started_at = 0, lease_expires_at = 10,
     child_ref_count = 0, root_ref_count = 0, ready = True, canonical_stored_bytes = None, canonical_observed_at = None\<rparr>"

definition sample_db :: db where
  "sample_db = empty_db\<lparr>cas_nodes := [((sample_scope, sample_hash), sample_row)],
     cas_space_usage := [(sample_scope, (Usage 1 2 0 0 0 1 1, 0))], cas_app_root_cutover := True\<rparr>"

definition sample_world :: "int \<Rightarrow> memory_bucket cf_world" where
  "sample_world t = \<lparr>w_db = sample_db,
     w_bucket = \<lparr>mb_objects = [(node_object_key sample_scope sample_hash, sample_node)], mb_deliveries = []\<rparr>,
     w_deliveries = [], w_clock = t, w_uuids = [''a'', ''b''], w_readyCache = []\<rparr>"

text \<open>A Space without anything.\<close>

definition blank_world :: "memory_bucket cf_world" where
  "blank_world = \<lparr>w_db = empty_db\<lparr>cas_app_root_cutover := True\<rparr>, w_bucket = \<lparr>mb_objects = [], mb_deliveries = []\<rparr>,
     w_deliveries = [], w_clock = 0, w_uuids = [''a'', ''b''], w_readyCache = []\<rparr>"

section \<open>The sample is well formed\<close>

lemma sample_shape: "node_shape 2 ''text/plain'' []"
  by (simp add: node_shape_def validateContentType_ok is_printable_ascii_def)

lemma sample_hex: "byte_to_hex 0 = ''00''" "byte_to_hex 1 = ''01''"
  by code_simp+

lemma sample_digest: "hashToHex (sample_sha256 b) = Inr sample_hash \<longleftrightarrow> b = sample_node"
  unfolding hashToHex_def sample_sha256_def sample_hash_def HASH_SIZE_def
  by (simp add: numeral_eq_Suc sample_hex)

lemma sample_genuine: "genuine sample_sha256 sample_hash (int (length sample_node)) 2 ''text/plain'' []"
  unfolding genuine_def
  by (intro exI [of _ "[]"] exI [of _ "[0x68, 0x69]"])
    (use sample_shape sample_digest in \<open>simp add: sample_node_def hex_of_hashes_def\<close>)

lemma sample_space_store: "space_store (mem_bucket sample_sha256) mem_contents sample_sha256 sample_scope"
  by unfold_locales (simp add: scope_ok_def sample_scope_def)

lemma blank_world_ok: "world_ok sha mem_contents blank_world"
proof -
  have "db_ok sha (empty_db\<lparr>cas_app_root_cutover := True\<rparr>)"
    using empty_db_ok [of sha] usage_exact_cong [of "empty_db\<lparr>cas_app_root_cutover := True\<rparr>" empty_db]
      graph_ok_cong [of "empty_db\<lparr>cas_app_root_cutover := True\<rparr>" empty_db sha]
      uploads_ok_cong [of "empty_db\<lparr>cas_app_root_cutover := True\<rparr>" empty_db sha]
      root_log_ok_cong [of "empty_db\<lparr>cas_app_root_cutover := True\<rparr>" empty_db]
    by (simp add: db_ok_def)
  then show ?thesis
    by (simp add: world_ok_def blank_world_def objects_ok_def mem_contents_def durable_def) (simp add: empty_db_def)
qed

lemma sample_usage: "usage_exact sample_db"
proof (rule usage_exactI)
  fix sc u rep
  assume u: "map_of (cas_space_usage sample_db) sc = Some (u, rep)"
  then have sc: "sc = sample_scope" "u = Usage 1 2 0 0 0 1 1" by (auto simp: sample_db_def split: if_splits)
  have "usage_total sample_scope sample_db = u"
    unfolding usage_total_def sc(2)
    by (simp add: sample_db_def empty_db_def sum_where_Cons of_space_def node_usage_def sample_row_def usage_ops)
  then show "u = usage_total sc sample_db \<and> \<not> scope_empty sc sample_db"
    unfolding sc(1) by (simp add: scope_empty_def sample_db_def)
qed (auto simp: sample_db_def empty_db_def scope_empty_def keys_distinct_def split: if_splits)

lemma sample_graph: "graph_ok sample_sha256 sample_db"
proof -
  have refs: "has_refs k [] sample_db" "child_edges k sample_db = 0" "balance k sample_db = 0" for k
    by (simp_all add: has_refs_def child_edges_def balance_def sample_db_def empty_db_def)
  have "node_genuine sample_sha256 sample_db (sample_scope, sample_hash) sample_row"
    using sample_genuine refs(1) unfolding node_genuine_def
    by (auto simp: sample_row_def scope_ok_def sample_scope_def)
  then have "nodes_genuine sample_sha256 sample_db"
    by (auto simp: nodes_genuine_def sample_db_def split: if_splits)
  moreover have "edges_closed sample_db" by (simp add: edges_closed_def sample_db_def empty_db_def)
  moreover have "child_counts sample_db"
    unfolding child_counts_def refs by (auto simp: sample_db_def sample_row_def split: if_splits)
  moreover have "root_counts sample_db"
    unfolding root_counts_def refs by (auto simp: sample_db_def sample_row_def empty_db_def split: if_splits)
  ultimately show ?thesis by (simp add: graph_ok_def)
qed

lemma sample_world_ok: "world_ok sample_sha256 mem_contents (sample_world t)"
proof -
  have "uploads_ok sample_sha256 sample_db \<and> root_log_ok sample_db"
    using empty_db_ok [of sample_sha256] uploads_ok_cong [of sample_db empty_db sample_sha256]
      root_log_ok_cong [of sample_db empty_db] by (simp add: db_ok_def sample_db_def)
  then have "db_ok sample_sha256 sample_db" using sample_usage sample_graph by (simp add: db_ok_def)
  moreover have "objects_ok sample_sha256 (mem_contents (w_bucket (sample_world t)))"
    unfolding objects_ok_def
  proof (intro allI impI)
    fix sc h body
    assume a: "scope_ok sc" "validateHash h = Inr ()" "mem_contents (w_bucket (sample_world t)) (node_object_key sc h) = Some body"
    then have "node_object_key sc h = node_object_key sample_scope sample_hash" "body = sample_node"
      by (auto simp: mem_contents_def sample_world_def split: if_splits)
    moreover have "length h = length sample_hash" using a(2) by (simp add: validateHash_ok sample_hash_def)
    ultimately have "h = sample_hash" "body = sample_node"
      using node_object_key_inject [of sc h sample_scope sample_hash] a(1) by (auto simp: scope_ok_def sample_scope_def)
    then show "hashToHex (sample_sha256 body) = Inr h" using sample_digest by simp
  qed
  moreover have "durable t sample_db (mem_contents (w_bucket (sample_world t)))"
    by (auto simp: durable_def sample_db_def sample_world_def mem_contents_def split: if_splits)
  ultimately show ?thesis by (simp add: world_ok_def) (simp add: sample_world_def)
qed

section \<open>An upload that waits for a child\<close>

text \<open>A node with one child has been uploaded and validated; the child is unknown.\<close>

definition parent_node :: bytes where
  "parent_node = node_bytes ''text/plain'' [replicate 32 0xab] [0x70]"

definition parent_hash :: string where
  "parent_hash = concat (replicate 32 ''01'')"

definition pending_upload :: upload_row where
  "pending_upload = \<lparr>ur_generation = ''g'', ur_temporary_object_key = ''_uploads/v2/g'', ur_created_at = 0, ur_expires_at = 1000,
     ur_cleanup_at = 2000, ur_rejection = None,
     ur_validation = Some \<lparr>uv_stored_bytes = int (length parent_node), uv_content_size = 1, uv_content_type = ''text/plain'',
       uv_refs_json = [concat (replicate 32 ''ab'')]\<rparr>\<rparr>"

definition pending_world :: "memory_bucket cf_world" where
  "pending_world = blank_world\<lparr>w_db := (w_db blank_world)\<lparr>cas_node_uploads := [((sample_scope, parent_hash), pending_upload)]\<rparr>,
     w_bucket := \<lparr>mb_objects = [(''_uploads/v2/g'', parent_node)], mb_deliveries = []\<rparr>\<rparr>"

lemma parent_genuine:
  "genuine sample_sha256 parent_hash (int (length parent_node)) 1 ''text/plain'' [concat (replicate 32 ''ab'')]"
proof -
  have shape: "node_shape 1 ''text/plain'' [replicate 32 0xab]"
    by (simp add: node_shape_def validateContentType_ok is_printable_ascii_def HASH_SIZE_def)
  have "int (length parent_node) \<noteq> int (length sample_node)"
    using length_node_bytes [of "[0x70]" "''text/plain''" "[replicate 32 0xab]"]
      length_node_bytes [of "[0x68, 0x69]" "''text/plain''" "[]"] shape sample_shape
    by (simp add: parent_node_def sample_node_def)
  then have "parent_node \<noteq> sample_node" by auto
  then have "hashToHex (sample_sha256 parent_node) = Inr parent_hash"
    by (simp add: hashToHex_def sample_sha256_def parent_hash_def HASH_SIZE_def sample_hex map_replicate_const)
  moreover have "byte_to_hex 0xab = ''ab''" by code_simp
  ultimately show ?thesis
    unfolding genuine_def using shape
    by (intro exI [of _ "[replicate 32 0xab]"] exI [of _ "[0x70]"])
      (simp add: parent_node_def hex_of_hashes_def)
qed

lemma pending_world_ok: "world_ok sample_sha256 mem_contents pending_world"
proof -
  let ?d = "w_db pending_world"
  have blank: "db_ok sample_sha256 (w_db blank_world)" using blank_world_ok by (simp add: world_ok_def)
  have "uploads_ok sample_sha256 ?d"
    using db_ok_parts(3) [OF blank] parent_genuine
    by (auto simp: uploads_ok_def pending_world_def upload_row_ok_def pending_upload_def temporary_key_def keys_distinct_def
        split: if_splits)
  then have "db_ok sample_sha256 ?d" by (rule uploads_db_ok [OF blank]) (simp add: pending_world_def)
  moreover have "mem_contents (w_bucket pending_world) = mem_contents (w_bucket blank_world)"
    by (auto simp: pending_world_def blank_world_def mem_contents_def canonical_key_def fun_eq_iff)
  ultimately show ?thesis
    using blank_world_ok [of sample_sha256] by (simp add: world_ok_def durable_def) (simp add: pending_world_def)
qed

end
