(* ===== verification/Space_Correct.thy ===== *)
theory Space_Correct
  imports Space_Object Example_World
begin

text \<open>
  Every request a Space object serves keeps the invariant of the store and leaves every other
  Space alone, whatever is lost on the network: the cleanup of expired uploads, then each
  handler, then the dispatcher.
\<close>

section \<open>Cleanup of expired uploads\<close>

context space_store
begin

text \<open>Sequencing after a step that changes no node and no object.\<close>

lemma wp_still:
  assumes "wp m (\<lambda>x w'. still w1 w' \<and> P x) (\<lambda>_ w'. still w1 w') w1" and "still w w1"
    and "\<And>x w'. still w w' \<Longrightarrow> P x \<Longrightarrow> wp (f x) (\<lambda>y w''. still w w'' \<and> Q y) (\<lambda>_ w''. still w w'') w'"
  shows "wp (bindM m f) (\<lambda>y w''. still w w'' \<and> Q y) (\<lambda>_ w''. still w w'') w1"
  unfolding wp_bindM using wp_mono [OF assms(1)] assms(2,3) still_trans by (smt (verit))

lemma expired_temporary:
  assumes "world_ok sha256 contents w" and "(h, u) \<in> set (expired_uploads scope now limit (w_db w))"
  shows "temporary_key (ur_temporary_object_key u)"
proof -
  have "((scope, h), u) \<in> set (cas_node_uploads (w_db w))"
    using assms(2) by (auto simp: expired_uploads_def dest!: in_set_takeD)
  then have "map_of (cas_node_uploads (w_db w)) (scope, h) = Some u"
    using db_ok_parts(3) [OF world_db_ok [OF assms(1)]] by (simp add: uploads_ok_def mem_table_iff)
  then show ?thesis
    using uploads_okD(1) [OF db_ok_parts(3) [OF world_db_ok [OF assms(1)]]] by (simp add: upload_row_ok_def)
qed

lemma queued_temporary:
  assumes "world_ok sha256 contents w" and "k \<in> set (queued_cleanups scope now limit (w_db w))"
  shows "temporary_key k"
proof -
  obtain n where "((scope, k), n) \<in> set (cas_node_upload_cleanup (w_db w))"
    using assms(2) by (auto simp: queued_cleanups_def dest!: in_set_takeD)
  then show ?thesis using uploads_okD(2) [OF db_ok_parts(3) [OF world_db_ok [OF assms(1)]]] by fastforce
qed

lemma delete_upload_count: "delete_upload_row k g d = Some (d', n) \<Longrightarrow> 0 \<le> n \<and> n \<le> 1"
  by (auto simp: delete_upload_row_def split: option.splits if_splits)

lemma cleanup_one:
  assumes ok: "world_ok sha256 contents w" and k: "temporary_key (ur_temporary_object_key u)"
  shows "wp (cleanup_upload bucket scope (h, u)) (\<lambda>n w'. still w w' \<and> (0 \<le> n \<and> n \<le> 1)) (\<lambda>_ w'. still w w') w"
  unfolding cleanup_upload_def prod.case
proof (rule wp_still [where P = "\<lambda>_. True", OF _ still_refl [OF ok]])
  show "wp (cf_deleteTemporaryUploadObject bucket scope (ur_temporary_object_key u)) (\<lambda>_ w'. still w w' \<and> True) (\<lambda>_ w'. still w w') w"
    using cf_delete_temporary [OF ok k] by simp
  fix x :: unit and w1
  assume a: "still w w1"
  let ?sts = "[\<lambda>d. if upload_matches (scope, h) (ur_generation u) d then delete_reservation (scope, h) d else Some (d, 0),
      delete_upload_row (scope, h) (ur_generation u)]"
  have count: "0 \<le> ns ! 1 \<and> ns ! 1 \<le> 1" if "batch ?sts d = Some (d', ns)" for d d' ns
    using that delete_upload_count by (auto split: option.splits prod.splits if_splits)
  have step: "upload_change sha256 scope (w_db w1) d" if run: "batch ?sts (w_db w1) = Some (d, ns)" for d ns
  proof (rule batch_change [OF run world_db_ok [OF still_ok [OF a]]])
    fix st e e' n
    assume "st \<in> set ?sts" "db_ok sha256 e" "st e = Some (e', n)"
    then show "upload_change sha256 scope e e'"
      using reservation_change [of sha256 e "(scope, h)" _ _ e' n, OF _ disjI2] delete_upload_change [of sha256 e "(scope, h)"]
      by (auto simp: upload_change_refl split: if_splits)
  qed
  show "wp (bindM (d1 (batch ?sts)) (\<lambda>ns. returnM (ns ! 1))) (\<lambda>n w'. still w w' \<and> (0 \<le> n \<and> n \<le> 1)) (\<lambda>_ w'. still w w') w1"
    unfolding wp_bindM wp_returnM
  proof (rule wp_d1)
    fix ds
    show "still w (w1\<lparr>w_deliveries := ds\<rparr>)" by (rule still_trans [OF a still_deliveries [OF still_ok [OF a]]])
    fix d ns
    assume run: "batch ?sts (w_db w1) = Some (d, ns)"
    show "still w (w1\<lparr>w_deliveries := ds, w_db := d\<rparr>)"
      by (rule still_trans [OF a change_still [OF still_ok [OF a] step [OF run]]])
    then show "still w (w1\<lparr>w_deliveries := ds, w_db := d\<rparr>) \<and> (0 \<le> ns ! 1 \<and> ns ! 1 \<le> 1)" using count [OF run] by simp
  qed
qed

lemma cleanup_rows:
  assumes "still w w1" and "\<forall>(h, u) \<in> set rows. temporary_key (ur_temporary_object_key u)"
  shows "wp (cleanup_uploads bucket scope rows n) (\<lambda>m w'. still w w' \<and> (n \<le> m \<and> m \<le> n + int (length rows))) (\<lambda>_ w'. still w w') w1"
  using assms
proof (induction rows arbitrary: n w1)
  case Nil
  then show ?case by (simp add: wp_simps)
next
  case (Cons row rows)
  obtain h u where row: "row = (h, u)" by (cases row)
  show ?case
    unfolding cleanup_uploads.simps row
  proof (rule wp_still [OF cleanup_one [OF still_ok [OF Cons.prems(1)]] Cons.prems(1)])
    show "temporary_key (ur_temporary_object_key u)" using Cons.prems(2) row by simp
    fix k w2
    assume "still w w2" "0 \<le> k \<and> k \<le> (1 :: int)"
    then show "wp (cleanup_uploads bucket scope rows (n + k))
        (\<lambda>m w'. still w w' \<and> (n \<le> m \<and> m \<le> n + int (length ((h, u) # rows)))) (\<lambda>_ w'. still w w') w2"
      using Cons.IH [of w2 "n + k"] Cons.prems(2) by (auto elim!: wp_mono)
  qed
qed

lemma cleanup_keys:
  assumes "still w w1" and "\<forall>k \<in> set keys. temporary_key k"
  shows "wp (cleanup_superseded bucket scope keys n) (\<lambda>m w'. still w w' \<and> m = n + int (length keys)) (\<lambda>_ w'. still w w') w1"
  using assms
proof (induction keys arbitrary: n w1)
  case Nil
  then show ?case by (simp add: wp_simps)
next
  case (Cons k keys)
  have "wp (cf_deleteTemporaryUploadObject bucket scope k) (\<lambda>_ w'. still w1 w' \<and> True) (\<lambda>_ w'. still w1 w') w1"
    using cf_delete_temporary [OF still_ok [OF Cons.prems(1)], of k] Cons.prems(2) by simp
  from wp_still [OF this Cons.prems(1), of "\<lambda>_. cleanup_superseded bucket scope keys (n + 1)" "\<lambda>m. m = n + int (length (k # keys))"]
  show ?case using Cons.IH [of _ "n + 1"] Cons.prems(2) by (simp add: add.assoc)
qed

text \<open>A cleanup touches no node and no canonical object, and counts at most \<open>limit\<close> uploads.\<close>

lemma cleanup_ok:
  assumes ok: "world_ok sha256 contents w" and "0 \<le> limit"
  shows "wp (cf_cleanupExpiredLeaseDrivenUploads bucket scope now limit) (\<lambda>n w'. still w w' \<and> (0 \<le> n \<and> n \<le> limit))
    (\<lambda>_ w'. still w w') w"
  unfolding cf_cleanupExpiredLeaseDrivenUploads_def
proof (rule wp_still [OF query_still [OF ok] still_refl [OF ok]])
  fix rows w1
  assume w1: "still w w1" and rows: "rows = expired_uploads scope now limit (w_db w)"
  have len: "int (length rows) \<le> limit" using assms(2) by (simp add: rows expired_uploads_def)
  have temp: "\<forall>(h, u) \<in> set rows. temporary_key (ur_temporary_object_key u)" using expired_temporary [OF ok] rows by blast
  note loop = cleanup_rows [OF still_refl [OF still_ok [OF w1]] temp, of 0]
  show "wp (bindM (cleanup_uploads bucket scope rows 0) (\<lambda>n. let remaining = max 0 (limit - n) in
       if remaining = 0 then returnM n
       else bindM (d1 (query (queued_cleanups scope now remaining))) (\<lambda>keys. cleanup_superseded bucket scope keys n)))
     (\<lambda>n w'. still w w' \<and> (0 \<le> n \<and> n \<le> limit)) (\<lambda>_ w'. still w w') w1"
  proof (rule wp_still [OF loop w1])
    fix n w2
    assume w2: "still w w2" and n: "0 \<le> n \<and> n \<le> 0 + int (length rows)"
    have rest: "wp (bindM (d1 (query (queued_cleanups scope now r))) (\<lambda>keys. cleanup_superseded bucket scope keys n))
       (\<lambda>n w'. still w w' \<and> (0 \<le> n \<and> n \<le> limit)) (\<lambda>_ w'. still w w') w2" if "r = limit - n" "0 < r" for r
    proof (rule wp_still [OF query_still [OF still_ok [OF w2]] w2])
      fix keys w3
      assume w3: "still w w3" and keys: "keys = queued_cleanups scope now r (w_db w2)"
      have "int (length keys) \<le> r" using that(2) by (simp add: keys queued_cleanups_def)
      then show "wp (cleanup_superseded bucket scope keys n) (\<lambda>n w'. still w w' \<and> (0 \<le> n \<and> n \<le> limit)) (\<lambda>_ w'. still w w') w3"
        using queued_temporary [OF still_ok [OF w2]] keys that(1) n
        by (intro wp_mono [OF cleanup_keys [OF w3, of keys n]]) auto
    qed
    then show "wp (let remaining = max 0 (limit - n) in
       if remaining = 0 then returnM n
       else bindM (d1 (query (queued_cleanups scope now remaining))) (\<lambda>keys. cleanup_superseded bucket scope keys n))
       (\<lambda>n w'. still w w' \<and> (0 \<le> n \<and> n \<le> limit)) (\<lambda>_ w'. still w w') w2"
      using w2 n len by (auto simp: Let_def wp_returnM)
  qed
qed

end

section \<open>Reads change nothing\<close>

context space_store
begin

definition reads :: "('b cf_world, exn, 'a) prog \<Rightarrow> bool" where
  "reads m \<longleftrightarrow> (\<forall>w. wp m (\<lambda>_. store_same contents w) (\<lambda>_. store_same contents w) w)"

lemma reads_pure: "reads (returnM x)" "reads (throwM e)" "reads (liftM r)" "reads date_now"
  by (auto simp: reads_def wp_simps store_same_def split: sum.splits)

lemma reads_bind:
  assumes "reads m" and "\<And>x. reads (f x)"
  shows "reads (bindM m f)"
  unfolding reads_def wp_bindM
proof
  fix w
  show "wp m (\<lambda>x. wp (f x) (\<lambda>_. store_same contents w) (\<lambda>_. store_same contents w)) (\<lambda>_. store_same contents w) w"
  proof (rule wp_mono [OF assms(1) [unfolded reads_def, rule_format]])
    fix x w1
    assume a: "store_same contents w w1"
    show "wp (f x) (\<lambda>_. store_same contents w) (\<lambda>_. store_same contents w) w1"
      by (rule wp_mono [OF assms(2) [unfolded reads_def, rule_format]]) (use a in \<open>simp_all add: store_same_def\<close>)
  qed
qed

lemma reads_query: "reads (d1 (query f))"
  unfolding reads_def by (intro allI wp_d1_query) (simp_all add: store_same_def)

lemma reads_r2:
  "reads (r2 (r2_head bucket (node_object_key scope h)))"
  "reads (r2 (r2_get_range bucket (node_object_key scope h) off len))"
  unfolding reads_def wp_r2
  by (intro allI wp_mono [OF head_law] wp_mono [OF range_reads_only]; simp add: store_same_def)+

lemma reads_case:
  "(\<And>x. o' = Some x \<Longrightarrow> reads (f x)) \<Longrightarrow> reads g \<Longrightarrow> reads (case o' of None \<Rightarrow> g | Some x \<Rightarrow> f x)"
  "reads m \<Longrightarrow> reads n \<Longrightarrow> reads (if b then m else n)"
  "(\<And>x y. reads (p x y)) \<Longrightarrow> reads (case z of (x, y) \<Rightarrow> p x y)"
  by (auto split: option.splits prod.splits)

lemmas reads_intros = reads_pure reads_bind reads_query reads_r2 reads_case

lemma reads_content: "reads (readNodeContent (cloudflareNodeReadRepository bucket) scope h header)"
  unfolding readNodeContent_def cloudflareNodeReadRepository_def nodeReadRepository.simps cf_readNode_def
    cf_readOrderedRefs_def cf_readCanonicalRange_def Let_def
  by (intro reads_intros)

lemma reads_metadata: "reads (readNodeMetadata (cloudflareNodeReadRepository bucket) scope h)"
  unfolding readNodeMetadata_def cloudflareNodeReadRepository_def nodeReadRepository.simps cf_readNode_def
    cf_readOrderedRefs_def
  by (intro reads_intros)

lemma reads_usage: "reads (readNodeUsage (cloudflareNodeUsageRepository bucket) scope)"
proof -
  have "reads (usage_loop (cloudflareNodeUsageRepository bucket) scope nodes acc)" for nodes acc
  proof (induction nodes arbitrary: acc)
    case Nil
    then show ?case by (simp add: reads_pure)
  next
    case (Cons n nodes)
    have "reads (readCanonicalStoredBytes (cloudflareNodeUsageRepository bucket) scope (nu_hash n))"
      unfolding cloudflareNodeUsageRepository_def nodeUsageRepository.simps cf_readCanonicalStoredBytes_def
      by (intro reads_intros)
    then show ?case using Cons.IH by (cases acc) (simp add: reads_bind)
  qed
  then show ?thesis
    unfolding readNodeUsage_def
    by (auto simp: cloudflareNodeUsageRepository_def cf_listNodes_def cf_readReservedBytes_def intro!: reads_intros)
qed

lemma reads_listing: "reads (listRootRefs sc limit cursor)"
proof -
  have "reads (read_refs_attempts n app filt c lim)" for n app filt c lim
    by (induction n) (auto simp: readAppRevision_def intro!: reads_intros)
  then show ?thesis
    unfolding listRootRefs_def listAppRootRefs_def assertRootRefCutover_def Let_def
    by (intro reads_intros)
qed

end

section \<open>Handlers\<close>

text \<open>What a request may do to the rest of the world: time passes, nothing else.\<close>

definition isolated :: "('b \<Rightarrow> string \<Rightarrow> bytes option) \<Rightarrow> appSpaceScope \<Rightarrow> 'b cf_world \<Rightarrow> 'b cf_world \<Rightarrow> bool" where
  "isolated contents sc w w' \<longleftrightarrow> w_clock w \<le> w_clock w' \<and> rows_elsewhere sc (w_db w) (w_db w')
     \<and> (\<forall>x. (\<forall>h. x \<noteq> node_object_key sc h) \<longrightarrow> contents (w_bucket w') x = contents (w_bucket w) x)"

lemma isolated_trans: "isolated c sc w w' \<Longrightarrow> isolated c sc w' w'' \<Longrightarrow> isolated c sc w w''"
  unfolding isolated_def using rows_elsewhere_trans by auto

lemma isolatedI:
  "elsewhere_same c sc w w' \<Longrightarrow> isolated c sc w w'"
  "rooted c sc w w' \<Longrightarrow> isolated c sc w w'"
  "store_same c w w' \<Longrightarrow> isolated c sc w w'"
  "lease_moves c sc w w' \<Longrightarrow> isolated c sc w w'"
  by (auto simp: isolated_def lease_moves_def elsewhere_same_def rooted_def store_same_def)

context space_store
begin

text \<open>\<open>sound m w\<close>: whatever \<open>m\<close> does from \<open>w\<close>, the invariant holds afterwards and other Spaces are as they were.\<close>

definition safe_end :: "'b cf_world \<Rightarrow> 'b cf_world \<Rightarrow> bool" where
  "safe_end w w' \<longleftrightarrow> world_ok sha256 contents w' \<and> isolated contents scope w w'"

definition sound :: "('b cf_world, exn, 'a) prog \<Rightarrow> 'b cf_world \<Rightarrow> bool" where
  "sound m w \<longleftrightarrow> wp m (\<lambda>_. safe_end w) (\<lambda>_. safe_end w) w"

lemma safe_end_refl: "world_ok sha256 contents w \<Longrightarrow> safe_end w w"
  by (simp add: safe_end_def isolated_def)

lemma safe_end_trans: "safe_end w w' \<Longrightarrow> safe_end w' w'' \<Longrightarrow> safe_end w w''"
  unfolding safe_end_def using isolated_trans by blast

lemma safe_end_ok: "safe_end w w' \<Longrightarrow> world_ok sha256 contents w'"
  by (simp add: safe_end_def)

lemma sound_bind:
  assumes "sound m w" and "\<And>x w'. safe_end w w' \<Longrightarrow> sound (f x) w'"
  shows "sound (bindM m f) w"
  unfolding sound_def wp_bindM
proof (rule wp_mono [OF assms(1) [unfolded sound_def]])
  fix x w1
  assume a: "safe_end w w1"
  show "wp (f x) (\<lambda>_. safe_end w) (\<lambda>_. safe_end w) w1"
    using assms(2) [OF a, of x] safe_end_trans [OF a] unfolding sound_def by (blast intro: wp_mono)
qed

lemma sound_pure:
  "world_ok sha256 contents w \<Longrightarrow> sound (returnM x) w" "world_ok sha256 contents w \<Longrightarrow> sound (throwM e) w"
  "world_ok sha256 contents w \<Longrightarrow> sound (liftM r) w" "world_ok sha256 contents w \<Longrightarrow> sound date_now w"
  using safe_end_refl by (auto simp: sound_def wp_simps split: sum.splits)

lemma sound_reads:
  assumes "reads m" and "world_ok sha256 contents w"
  shows "sound m w"
proof -
  have "safe_end w w'" if "store_same contents w w'" for w'
    using assms(2) that isolatedI(3) [OF that] by (simp add: safe_end_def world_ok_def store_same_def)
  then show ?thesis
    using assms(1) unfolding sound_def reads_def by (blast intro: wp_mono)
qed

lemma sound_catch: "sound m w \<Longrightarrow> (\<And>e w'. safe_end w w' \<Longrightarrow> sound (h e) w') \<Longrightarrow> sound (catchM m h) w"
  unfolding sound_def wp_catchM using safe_end_trans by (smt (verit) wp_mono)

lemma create_identifiers_ok:
  assumes "world_ok sha256 contents w"
  shows "wp create_upload_identifiers (\<lambda>r w'. lease.kept w w' \<and> temporary_key (snd r)) (\<lambda>_ w'. lease.safe w w') w"
proof -
  have "lease.kept w (w\<lparr>w_uuids := us\<rparr>)" for us
    using assms by (simp add: lease.kept_def lease_moves_def elsewhere_refl nodes_grow_refl space_lease_def space_stored_def fun_eq_iff)
  then show ?thesis
    using lease.kept_safe [OF lease.kept_refl [OF assms]]
    by (auto simp: create_upload_identifiers_def wp_simps wp_def [of random_uuid] random_uuid_def temporary_key_def
        split: list.splits)
qed

lemma lease_input_ok: "lease.input_ok (space_lease_input bucket sha256 scope h dur secs now)"
  unfolding lease.input_ok_def using create_identifiers_ok by (simp add: space_lease_input_def)

lemma lease_upload_outcome:
  assumes "world_ok sha256 contents w"
  shows "wp (leaseDrivenNodeUpload (space_lease_input bucket sha256 scope h dur secs now))
    (\<lambda>r w'. world_ok sha256 contents w' \<and> lease_moves contents scope w w' \<and>
       (case r of
          Ready res \<Rightarrow> lr_hash res = h \<and> space_lease scope w' h = Some (lr_lease res) \<and> space_stored contents scope w' h
            \<and> now + clampLeaseDuration dur \<le> leaseExpiresAt (lr_lease res)
        | Validated_awaiting_children cs \<Rightarrow> cs \<noteq> [] \<and> (\<forall>c \<in> set cs. space_lease scope w' c = None \<or> \<not> space_stored contents scope w' c)
        | Awaiting_upload u \<Rightarrow> upload_ok sha256 h u
        | Awaiting_replacement_upload u _ \<Rightarrow> upload_ok sha256 h u))
    (\<lambda>_ w'. world_ok sha256 contents w' \<and> lease_moves contents scope w w') w"
proof -
  have f: "in_hash (space_lease_input bucket sha256 scope h dur secs now) = h"
    "in_now (space_lease_input bucket sha256 scope h dur secs now) = now"
    "in_leaseDurationMs (space_lease_input bucket sha256 scope h dur secs now) = dur"
    by (simp_all add: space_lease_input_def)
  show ?thesis
    by (rule wp_mono [OF lease.lease_driven_upload_ok [OF lease_input_ok assms]])
      (auto simp: lease.result_ok_def lease.safe_def f split: leaseDrivenNodeUploadResult.splits)
qed

lemma lease_sound:
  assumes "world_ok sha256 contents w"
  shows "sound (leaseDrivenNodeUpload (space_lease_input bucket sha256 scope h dur secs now)) w"
proof -
  have "lease.safe w w' \<Longrightarrow> safe_end w w'" for w' by (simp add: lease.safe_def safe_end_def isolatedI(4))
  then show ?thesis
    unfolding sound_def
    by (intro wp_mono [OF lease.lease_driven_upload_ok [OF lease_input_ok assms]]) (auto simp: lease.result_ok_def)
qed

lemma handleLease_sound: "world_ok sha256 contents w \<Longrightarrow> sound (handleLease rt env bucket sha256 scope request) w"
  unfolding handleLease_def evaluateSpaceLease_def Let_def
  by (intro sound_bind sound_pure lease_sound) (auto dest: safe_end_ok intro!: sound_bind sound_pure split: leaseDrivenNodeUploadResult.splits)

lemma handleGc_sound:
  assumes ok: "world_ok sha256 contents w"
  shows "sound (handleGc rt bucket scope request) w"
proof -
  have clean: "sound (cf_cleanupExpiredLeaseDrivenUploads bucket scope now n) w1" if "0 < n" "world_ok sha256 contents w1" for now n w1
    unfolding sound_def
    by (rule wp_mono [OF cleanup_ok [OF that(2)]]) (use that(1) in \<open>auto simp: still_def moved_def safe_end_def isolatedI(4)\<close>)
  have collect: "sound (collectExpiredUnreferencedNodes (cloudflareNodeGcRepository bucket) scope n date_now) w1"
    if "world_ok sha256 contents w1" for n w1
    unfolding sound_def
    by (rule wp_mono [OF gc.collection_ok [of "w_clock w1"]])
      (use that in \<open>auto simp: gc_inv_def date_now_def safe_end_def collected_def isolatedI(1)\<close>)
  have pos: "requested_max_nodes b = Inr n \<Longrightarrow> 0 < n" for b n
    by (auto simp: requested_max_nodes_def Let_def split: option.splits if_splits)
  show ?thesis
    unfolding handleGc_def
  proof (cases "requested_max_nodes (rt_json_parse rt (hq_text request))")
    case (Inl e)
    then show "sound (bindM (liftM (requested_max_nodes (rt_json_parse rt (hq_text request)))) (\<lambda>maxNodes.
       bindM date_now (\<lambda>now. bindM (cf_cleanupExpiredLeaseDrivenUploads bucket scope now maxNodes) (\<lambda>_.
       collectExpiredUnreferencedNodes (cloudflareNodeGcRepository bucket) scope (Some maxNodes) date_now)))) w"
      using safe_end_refl [OF ok] by (simp add: sound_def wp_simps)
  next
    case (Inr n)
    have "sound (bindM date_now (\<lambda>now. bindM (cf_cleanupExpiredLeaseDrivenUploads bucket scope now n) (\<lambda>_.
       collectExpiredUnreferencedNodes (cloudflareNodeGcRepository bucket) scope (Some n) date_now))) w"
      by (intro sound_bind sound_pure clean collect ok pos [OF Inr]) (auto dest: safe_end_ok)
    then show "sound (bindM (liftM (requested_max_nodes (rt_json_parse rt (hq_text request)))) (\<lambda>maxNodes.
       bindM date_now (\<lambda>now. bindM (cf_cleanupExpiredLeaseDrivenUploads bucket scope now maxNodes) (\<lambda>_.
       collectExpiredUnreferencedNodes (cloudflareNodeGcRepository bucket) scope (Some maxNodes) date_now)))) w"
      by (simp add: sound_def wp_bindM [of "liftM _"] wp_liftM Inr)
  qed
qed

end

section \<open>Canonical root-reference updates\<close>

lemma check_changes_keys: "check_changes kvs = Inr entries \<Longrightarrow> map fst entries = map fst kvs"
  by (induction kvs arbitrary: entries) (auto simp: check_change_def split: sum.splits option.splits if_splits)

lemma check_changes_entry:
  assumes "check_changes kvs = Inr entries" and "(h, n) \<in> set entries"
  shows "validateHash h = Inr ()" and "n \<noteq> 0" and "\<bar>n\<bar> \<le> CAS_MAX_ROOT_REF_DELTA"
  using assms by (induction kvs arbitrary: entries) (auto simp: check_change_def split: sum.splits option.splits if_splits)

lemma canonical_parts:
  assumes "canonicalizeRootRefsUpdate sha requestId changes = Inr c"
  shows "\<exists>kvs entries. changes = Obj kvs \<and> requestId = Str (cu_requestId c) \<and> check_changes (js_entries kvs) = Inr entries
    \<and> cu_entries c = sort_key fst entries \<and> entries \<noteq> [] \<and> length entries \<le> CAS_MAX_ROOT_REF_CHANGES
    \<and> cu_requestId c \<noteq> [] \<and> length (cu_requestId c) \<le> CAS_MAX_REQUEST_ID_LENGTH
    \<and> cu_changesJson c = changes_json (cu_entries c) \<and> cu_payloadHash c = sha256Hex sha (cu_changesJson c)"
  using assms unfolding canonicalizeRootRefsUpdate_def
  by (auto simp: Let_def split: jsval.splits if_splits)

lemma canonical_distinct:
  assumes "canonicalizeRootRefsUpdate sha requestId changes = Inr c"
  shows "distinct (map fst (cu_entries c))"
proof -
  obtain kvs entries where "check_changes (js_entries kvs) = Inr entries" "cu_entries c = sort_key fst entries"
    using canonical_parts [OF assms] by blast
  then show ?thesis using check_changes_keys js_entries_distinct by (metis distinct_map_sort)
qed

context space_store
begin

lemma root_answer_safe:
  "roots.answer_ok w c r w' \<Longrightarrow> safe_end w w'" "roots.error_ok w c e w' \<Longrightarrow> safe_end w w'"
  by (auto simp: roots.answer_ok_def roots.error_ok_def root_views.unmoved_def root_views.applied_def safe_end_def isolatedI(2))

lemma root_update_exact:
  assumes ok: "world_ok sha256 contents w" and dist: "distinct (map fst (cu_entries c))"
  shows "wp (withRootRefsRetry (executeRootRefsUpdate bucket scope c) options (math_random rt) sleep_for)
    (roots.answer_ok w c) (roots.error_ok w c) w"
  unfolding withRootRefsRetry_def executeRootRefsUpdate_def
proof (rule roots.retry_ok [OF ok dist])
  fix w :: "'b cf_world" and ms :: int
  assume ok: "world_ok sha256 contents w"
  show "wp date_now (\<lambda>_ w'. root_views.unmoved w w') (\<lambda>_ _. False) w"
    by (simp add: wp_date_now root_unmoved_refl [OF ok])
  show "wp (math_random rt) (\<lambda>_ w'. root_views.unmoved w w') (\<lambda>_ _. False) w"
    by (simp add: wp_def math_random_def root_unmoved_refl [OF ok])
  show "wp (sleep_for ms) (\<lambda>_ w'. root_views.unmoved w w') (\<lambda>_ _. False) w"
    using root_unmoved_same [OF ok, of "w\<lparr>w_clock := w_clock w + max 0 ms\<rparr>"] by (simp add: wp_def sleep_for_def)
qed

lemma domain_commit_sound:
  assumes ok: "world_ok sha256 contents w"
  shows "sound (domain_commit rt env bucket sha256 scope requestId changes) w"
proof (cases "canonicalizeRootRefsUpdate sha256 requestId changes")
  case (Inl e)
  then show ?thesis using safe_end_refl [OF ok] by (simp add: sound_def domain_commit_def wp_simps)
next
  case (Inr c)
  have "sound (withRootRefsRetry (executeRootRefsUpdate bucket scope c) (domain_options rt env) (math_random rt) sleep_for) w"
    unfolding sound_def
    by (rule wp_mono [OF root_update_exact [OF ok canonical_distinct [OF Inr]]]) (erule root_answer_safe)+
  then have "sound (bindM (withRootRefsRetry (executeRootRefsUpdate bucket scope c) (domain_options rt env) (math_random rt) sleep_for)
      (\<lambda>r. returnM (f r))) w" for f :: "rootRefsUpdateResult \<Rightarrow> do_response"
    by (rule sound_bind) (auto dest: safe_end_ok intro: sound_pure)
  then show ?thesis by (simp add: sound_def domain_commit_def wp_bindM [of "liftM _"] wp_liftM Inr)
qed

lemma domain_fetch_sound:
  assumes ok: "world_ok sha256 contents w" and space: "spaceId scope \<noteq> []" "appId scope \<noteq> []"
  shows "sound (domain_fetch rt env bucket sha256 (scope_headers scope) body) w"
proof -
  have hdr: "bindE (domain_requireHeader (scope_headers scope) ''X-CAS-App-Id'') (\<lambda>app.
      bindE (domain_requireHeader (scope_headers scope) ''X-CAS-Space-Id'') (\<lambda>space. Inr \<lparr>appId = app, spaceId = space\<rparr>)) = Inr scope"
    using space by (simp add: domain_requireHeader_def scope_headers_def present_def)
  have "sound (catchM (domain_commit rt env bucket sha256 scope rid ch) (\<lambda>e. returnM (domain_error e))) w" for rid ch
    by (rule sound_catch [OF domain_commit_sound [OF ok]]) (auto dest: safe_end_ok intro: sound_pure)
  then show ?thesis
    unfolding domain_fetch_def hdr sum.case using sound_pure(1) [OF ok] by (auto split: option.splits jsval.splits)
qed

lemma forwardRootRefs_sound:
  assumes ok: "world_ok sha256 contents w" and space: "spaceId scope \<noteq> []" "appId scope \<noteq> []"
  shows "sound (forwardRootRefs rt env bucket sha256 scope request) w"
proof -
  have "sound (stub_fetch m) w" if m: "\<And>w. world_ok sha256 contents w \<Longrightarrow> sound m w" for m
  proof -
    have lost: "safe_end w (w\<lparr>w_deliveries := ds\<rparr>)" for ds
      using safe_end_refl [OF ok] by (simp add: safe_end_def isolated_def)
    have "safe_end w w'" if "m (w\<lparr>w_deliveries := ds\<rparr>) = (r, w')" for ds r w'
    proof (rule safe_end_trans [OF lost])
      have "sound m (w\<lparr>w_deliveries := ds\<rparr>)" using m ok by simp
      then show "safe_end (w\<lparr>w_deliveries := ds\<rparr>) w'" using that by (cases r) (simp_all add: sound_def wp_def)
    qed
    then show ?thesis
      using lost by (auto simp: sound_def wp_def stub_fetch_def Let_def split: prod.splits sum.splits)
  qed
  note fetch = this [OF domain_fetch_sound [OF _ space]]
  then show ?thesis
    unfolding forwardRootRefs_def using sound_pure(1) [OF ok] by (auto split: sum.splits exn.splits prod.splits)
qed

lemma sound_if: "sound m w \<Longrightarrow> sound n w \<Longrightarrow> sound (if b then m else n) w"
  by simp

lemma route_sound:
  assumes ok: "world_ok sha256 contents w" and space: "spaceId scope \<noteq> []" "appId scope \<noteq> []"
  shows "sound (route rt env bucket sha256 scope request) w"
proof -
  have json: "sound (map_response m f) w" if "sound m w" for m :: "('b cf_world, exn, 'x) prog" and f
    unfolding map_response_def by (rule sound_bind [OF that]) (auto dest: safe_end_ok intro: sound_pure)
  have "reads (handleRootRefs rt scope request)"
    unfolding handleRootRefs_def by (intro reads_intros reads_listing)
  moreover have "reads (handleRead bucket scope request)"
    unfolding handleRead_def by (intro reads_intros reads_content)
  moreover have "reads (handleMetadata bucket scope request)"
    unfolding handleMetadata_def by (intro reads_intros reads_metadata)
  ultimately show ?thesis
    unfolding route_def Let_def
    by (intro sound_if forwardRootRefs_sound [OF ok space] json handleLease_sound [OF ok] handleGc_sound [OF ok]
        sound_reads [OF reads_usage ok] sound_reads [OF _ ok] sound_pure(1) [OF ok])
qed

end

text \<open>
  The whole object: a request for a well-formed scope is always answered, and whatever it did,
  the invariant holds and no other Space has changed.
\<close>

lemma space_fetch_answers:
  assumes store: "object_store bucket contents sha256" and ok: "world_ok sha256 contents w"
    and scope: "physicalScope request = Inr scope" "scope_ok scope"
    and run: "space_fetch rt env bucket sha256 request w = (outcome, w')"
  shows "\<exists>response. outcome = Inr response" and "world_ok sha256 contents w'" and "isolated contents scope w w'"
proof -
  have st: "space_store bucket contents sha256 scope"
    using store scope(2) by (intro space_store.intro space_store_axioms.intro)
  have "spaceId scope \<noteq> []" "appId scope \<noteq> []"
    using scope(1) by (auto simp: physicalScope_def present_def split: if_splits option.splits)
  from space_store.route_sound [OF st ok this, of rt env request]
  have "wp (space_fetch rt env bucket sha256 request) (\<lambda>_ w'. world_ok sha256 contents w' \<and> isolated contents scope w w')
      (\<lambda>_ _. False) w"
    unfolding space_fetch_def scope(1) sum.case wp_catchM wp_returnM space_store.sound_def [OF st] space_store.safe_end_def [OF st] .
  then show "\<exists>response. outcome = Inr response" "world_ok sha256 contents w'" "isolated contents scope w w'"
    using run by (auto simp: wp_def split: sum.splits)
qed

end
