(* ===== verification/Lease_Properties.thy ===== *)
theory Lease_Properties
  imports Space_Correct
begin

text \<open>
  What holds of leases and uploads on the Cloudflare adapter, for every bucket that obeys the
  object-store laws, every Space and every schedule of network failures.
\<close>

text \<open>A computation's outcome, from its weakest precondition.\<close>

lemma wp_run:
  assumes "wp m Q E w" and "m w = (outcome, w')"
  shows "case outcome of Inl e \<Rightarrow> E e w' | Inr x \<Rightarrow> Q x w'"
  using assms by (simp add: wp_def split: sum.splits)

text \<open>A committed node's object is a byte string with the node's digest.\<close>

lemma stored_node_digest:
  assumes "space_store bucket contents sha256 scope" and "world_ok sha256 contents w"
    and "space_lease scope w h \<noteq> None" and "space_stored contents scope w h"
  shows "\<exists>body. contents (w_bucket w) (node_object_key scope h) = Some body \<and> hashToHex (sha256 body) = Inr h"
proof -
  obtain r where row: "map_of (cas_nodes (w_db w)) (scope, h) = Some r" using assms(3) by (auto simp: space_lease_def)
  have "graph_ok sha256 (w_db w)" using assms(2) db_ok_parts(2) by (simp add: world_ok_def)
  then have "node_genuine sha256 (w_db w) (scope, h) r" using row by (auto simp: graph_ok_def nodes_genuine_def)
  then have "scope_ok scope" "validateHash h = Inr ()" using genuine_hash_ok by (auto simp: node_genuine_def)
  moreover obtain body where "contents (w_bucket w) (node_object_key scope h) = Some body"
    using assms(4) by (auto simp: space_stored_def)
  ultimately show ?thesis using assms(2) by (auto simp: world_ok_def objects_ok_def)
qed

text \<open>The example request: a lease of the sample node, on a network that loses nothing.\<close>

definition sample_input :: "memory_bucket cf_world leaseDrivenInput" where
  "sample_input = space_lease_input (mem_bucket sample_sha256) sample_sha256 sample_scope sample_hash 60000 300 5"

lemma sample_lease_run:
  "fst (leaseDrivenNodeUpload sample_input (sample_world 5)) = Inr (Ready \<lparr>lr_hash = sample_hash,
     lr_lease = \<lparr>leaseStartedAt = 0, leaseExpiresAt = 60005\<rparr>\<rparr>)"
  by code_simp

lemma sample_lease_pair:
  "leaseDrivenNodeUpload (space_lease_input (mem_bucket sample_sha256) sample_sha256 sample_scope sample_hash 60000 300 5) (sample_world 5)
    = (Inr (Ready \<lparr>lr_hash = sample_hash, lr_lease = \<lparr>leaseStartedAt = 0, leaseExpiresAt = 60005\<rparr>\<rparr>),
       snd (leaseDrivenNodeUpload sample_input (sample_world 5)))"
  using sample_lease_run by (simp add: sample_input_def prod_eq_iff)



text \<open>
  C3. \<open>ready\<close> is the truth: when the upload answers that the node is ready, the node's row
  carries exactly the reported lease, which runs at least the clamped duration from now, and
  its canonical object is stored and has the node's hash as its digest.
\<close>

theorem ready_is_sound:
  assumes "space_store bucket contents sha256 scope" and "world_ok sha256 contents w"
    and "leaseDrivenNodeUpload (space_lease_input bucket sha256 scope h dur secs now) w = (Inr (Ready res), w')"
  shows "lr_hash res = h \<and> space_lease scope w' h = Some (lr_lease res)
    \<and> now + clampLeaseDuration dur \<le> leaseExpiresAt (lr_lease res)
    \<and> (\<exists>body. contents (w_bucket w') (node_object_key scope h) = Some body \<and> hashToHex (sha256 body) = Inr h)"
  using wp_run [OF space_store.lease_upload_outcome [OF assms(1,2)] assms(3)] stored_node_digest [OF assms(1), of w' h]
  by simp

theorem ready_is_sound_witness:
  "space_lease sample_scope (snd (leaseDrivenNodeUpload sample_input (sample_world 5))) sample_hash
     = Some \<lparr>leaseStartedAt = 0, leaseExpiresAt = 60005\<rparr>"
  using ready_is_sound [OF sample_space_store sample_world_ok sample_lease_pair] by simp

text \<open>
  C23. When the upload answers that it waits for children, it names at least one, and none of
  the named children is a committed node with a stored object: a client that makes each of them
  ready and asks again is not sent back for a child that was ready.
\<close>

theorem awaiting_children_are_missing:
  assumes "space_store bucket contents sha256 scope" and "world_ok sha256 contents w"
    and "leaseDrivenNodeUpload (space_lease_input bucket sha256 scope h dur secs now) w
      = (Inr (Validated_awaiting_children children), w')"
  shows "children \<noteq> [] \<and> (\<forall>c \<in> set children. \<not> (space_lease scope w' c \<noteq> None \<and> space_stored contents scope w' c))"
  using wp_run [OF space_store.lease_upload_outcome [OF assms(1,2)] assms(3)] by auto

lemma pending_lease_run:
  "fst (leaseDrivenNodeUpload (space_lease_input (mem_bucket sample_sha256) sample_sha256 sample_scope parent_hash 60000 300 5) pending_world)
    = Inr (Validated_awaiting_children [concat (replicate 32 ''ab'')])"
  by code_simp

theorem awaiting_children_are_missing_witness:
  "\<not> (space_lease sample_scope (snd (leaseDrivenNodeUpload
        (space_lease_input (mem_bucket sample_sha256) sample_sha256 sample_scope parent_hash 60000 300 5) pending_world))
        (concat (replicate 32 ''ab'')) \<noteq> None
      \<and> space_stored mem_contents sample_scope (snd (leaseDrivenNodeUpload
        (space_lease_input (mem_bucket sample_sha256) sample_sha256 sample_scope parent_hash 60000 300 5) pending_world))
        (concat (replicate 32 ''ab'')))"
  using awaiting_children_are_missing [OF sample_space_store pending_world_ok, of parent_hash 60000 300 5
      "[concat (replicate 32 ''ab'')]"] pending_lease_run
  by (metis list.set_intros(1) prod.collapse)

text \<open>
  C38. Leases only grow, within bounds: for any requested duration and any previous lease, the
  next lease ends no earlier than the previous one and at least \<open>MIN_LEASE_MS\<close> from now, never
  later than \<open>MAX_LEASE_MS\<close> from now unless the previous one already did, and it keeps its
  start exactly as long as the previous lease is still running.
\<close>

theorem next_lease_bounds:
  "let lease = nextNodeLease existing (clampLeaseDuration requested) now;
       before = (case existing of Some e \<Rightarrow> leaseExpiresAt e | None \<Rightarrow> 0)
   in before \<le> leaseExpiresAt lease \<and> now + MIN_LEASE_MS \<le> leaseExpiresAt lease
    \<and> leaseExpiresAt lease \<le> max before (now + MAX_LEASE_MS)
    \<and> leaseStartedAt lease = (case existing of Some e \<Rightarrow> if now < leaseExpiresAt e then leaseStartedAt e else now | None \<Rightarrow> now)"
  by (auto simp: Let_def nextNodeLease_def clampLeaseDuration_def MIN_LEASE_MS_def MAX_LEASE_MS_def split: option.splits)

end
