(* ===== verification/Gc_Properties.thy ===== *)
theory Gc_Properties
  imports Lease_Properties
begin

text \<open>
  What a collection may and may not remove, and what its result means.
\<close>

section \<open>Nodes a client relies on\<close>

text \<open>A node that is rooted, or leased at time \<open>t\<close>.\<close>

definition anchored :: "int \<Rightarrow> appSpaceScope \<Rightarrow> db \<Rightarrow> string \<Rightarrow> bool" where
  "anchored t sc d h \<longleftrightarrow> (\<exists>r. map_of (cas_nodes d) (sc, h) = Some r \<and> (root_ref_count r > 0 \<or> lease_expires_at r > t))"

text \<open>\<open>reach_node sc d h h'\<close>: a path of child references leads from \<open>h\<close> to \<open>h'\<close>.\<close>

inductive reach_node :: "appSpaceScope \<Rightarrow> db \<Rightarrow> string \<Rightarrow> string \<Rightarrow> bool" for sc d h where
  reach_start: "reach_node sc d h h"
| reach_child: "reach_node sc d h h' \<Longrightarrow> map_of (cas_edges d) ((sc, h'), i) = Some c \<Longrightarrow> reach_node sc d h c"

text \<open>The node is committed and its bytes are stored under its digest.\<close>

definition intact ::
  "(bytes \<Rightarrow> bytes) \<Rightarrow> ('b \<Rightarrow> string \<Rightarrow> bytes option) \<Rightarrow> appSpaceScope \<Rightarrow> 'b cf_world \<Rightarrow> string \<Rightarrow> bool" where
  "intact sha contents sc w h \<longleftrightarrow> map_of (cas_nodes (w_db w)) (sc, h) \<noteq> None
     \<and> (\<exists>body. contents (w_bucket w) (node_object_key sc h) = Some body \<and> hashToHex (sha body) = Inr h)"

lemma child_edges_pos:
  assumes "map_of (cas_edges d) ((sc, p), i) = Some h"
  shows "0 < child_edges (sc, h) d"
proof -
  let ?p = "\<lambda>e :: node_key \<times> nat. case e of (k, i) \<Rightarrow> fst k = sc" and ?f = "\<lambda>c. if c = h then 1 else (0 :: int)"
  have nonneg: "0 \<le> sum_where q ?f t" for q :: "node_key \<times> nat \<Rightarrow> bool" and t
    by (induction t) (auto simp: sum_where_Cons)
  have "0 < sum_where ?p ?f t" if "map_of t ((sc, p), i) = Some h" for t
    using that nonneg by (induction t) (auto simp: sum_where_Cons add_pos_nonneg add_nonneg_pos split: if_splits)
  then show ?thesis using assms by (simp add: child_edges_def)
qed

text \<open>In a consistent store, everything reachable from an anchored node is intact.\<close>

lemma protected_intact:
  assumes ok: "world_ok sha contents w" and row: "map_of (cas_nodes (w_db w)) (sc, h) = Some r" and "protected (w_clock w) r"
  shows "intact sha contents sc w h"
proof -
  have g: "graph_ok sha (w_db w)" using ok db_ok_parts(2) by (simp add: world_ok_def)
  then have "node_genuine sha (w_db w) (sc, h) r" using row by (auto simp: graph_ok_def nodes_genuine_def)
  then have "scope_ok sc" "validateHash h = Inr ()" using genuine_hash_ok by (auto simp: node_genuine_def)
  moreover have "durable (w_clock w) (w_db w) (contents (w_bucket w))" using ok by (simp add: world_ok_def)
  then have "contents (w_bucket w) (node_object_key sc h) \<noteq> None"
    using row assms(3) unfolding durable_def by (metis fst_conv snd_conv)
  then obtain body where "contents (w_bucket w) (node_object_key sc h) = Some body" by blast
  ultimately show ?thesis using ok row by (auto simp: intact_def world_ok_def objects_ok_def)
qed

lemma anchored_protected:
  assumes "anchored (w_clock w) sc (w_db w) h"
  shows "\<exists>r. map_of (cas_nodes (w_db w)) (sc, h) = Some r \<and> protected (w_clock w) r"
  using assms by (auto simp: anchored_def protected_def)

lemma child_protected:
  assumes ok: "world_ok sha contents w" and edge: "map_of (cas_edges (w_db w)) ((sc, p), i) = Some c"
  shows "\<exists>r. map_of (cas_nodes (w_db w)) (sc, c) = Some r \<and> protected (w_clock w) r"
proof -
  have g: "graph_ok sha (w_db w)" using ok db_ok_parts(2) by (simp add: world_ok_def)
  then obtain r where r: "map_of (cas_nodes (w_db w)) (sc, c) = Some r"
    using edges_closedD(2) [of "w_db w" "(sc, p)" i c] edge by (auto simp: graph_ok_def)
  then have "child_ref_count r = child_edges (sc, c) (w_db w)" using g by (simp add: graph_ok_def child_counts_def)
  then show ?thesis using r child_edges_pos [OF edge] by (auto simp: protected_def)
qed

lemma reachable_intact:
  assumes ok: "world_ok sha contents w" and "anchored (w_clock w) sc (w_db w) h" and "reach_node sc (w_db w) h h'"
  shows "intact sha contents sc w h'"
  using assms(3)
proof cases
  case reach_start
  then show ?thesis using anchored_protected [OF assms(2)] protected_intact [OF ok] by blast
next
  case (reach_child h'' i)
  then show ?thesis using child_protected [OF ok] protected_intact [OF ok] by blast
qed

section \<open>Collections\<close>

context space_store
begin

lemma collection_outcome:
  assumes "world_ok sha256 contents w"
  shows "wp (collectExpiredUnreferencedNodes (cloudflareNodeGcRepository bucket) scope maxNodes date_now)
    (\<lambda>r w'. world_ok sha256 contents w' \<and> collected (w_clock w) contents scope w w'
       \<and> 0 \<le> deleted r \<and> deleted r \<le> examined r
       \<and> examined r \<le> (case maxNodes of None \<Rightarrow> DEFAULT_GC_MAX_NODES | Some n \<Rightarrow> n)
       \<and> space_nodes scope w' = space_nodes scope w - deleted r
       \<and> space_content scope w' = space_content scope w - reclaimedContentBytes r)
    (\<lambda>_ w'. world_ok sha256 contents w' \<and> collected (w_clock w) contents scope w w') w"
  by (rule wp_mono [OF gc.collection_ok [of "w_clock w"]]) (use assms in \<open>auto simp: gc_inv_def date_now_def\<close>)

end

text \<open>A path from an anchored node is still there after a collection.\<close>

lemma collected_reach:
  assumes ok: "world_ok sha contents w'" and coll: "collected t contents sc w w'"
    and anchor: "anchored t sc (w_db w) h" and path: "reach_node sc (w_db w) h h'"
  shows "map_of (cas_nodes (w_db w')) (sc, h') \<noteq> None \<and> reach_node sc (w_db w') h h'"
  using path
proof induction
  case reach_start
  obtain r where r: "map_of (cas_nodes (w_db w)) (sc, h) = Some r" "root_ref_count r > 0 \<or> lease_expires_at r > t"
    using anchor by (auto simp: anchored_def)
  then have "\<not> doomed t (sc, h) (w_db w)" by (auto simp: doomed_def)
  then have "map_of (cas_nodes (w_db w')) (sc, h) \<noteq> None" using coll r(1) by (auto simp: collected_def)
  then show ?case by (simp add: reach_node.reach_start)
next
  case (reach_child h' i c)
  then obtain r where "map_of (cas_nodes (w_db w')) (sc, h') = Some r" by blast
  then have "map_of (cas_edges (w_db w')) ((sc, h'), i) = Some c" using coll reach_child(2) unfolding collected_def by metis
  moreover have "edges_closed (w_db w')" using ok by (simp add: world_ok_def db_ok_def graph_ok_def)
  ultimately show ?case
    using edges_closedD(2) [of "w_db w'" "(sc, h')" i c] reach_child.IH reach_node.reach_child [of sc "w_db w'" h h' i c] by auto
qed

lemma anchored_survives:
  assumes "collected t contents sc w w'" and "anchored t sc (w_db w) h"
  shows "anchored t sc (w_db w') h"
proof -
  obtain r where r: "map_of (cas_nodes (w_db w)) (sc, h) = Some r" "root_ref_count r > 0 \<or> lease_expires_at r > t"
    using assms(2) by (auto simp: anchored_def)
  then have "\<not> doomed t (sc, h) (w_db w)" by (auto simp: doomed_def)
  then obtain r' where r': "map_of (cas_nodes (w_db w')) (sc, h) = Some r'" using assms(1) r(1) by (auto simp: collected_def)
  then have "survivor_row r r'" using assms(1) r(1) unfolding collected_def by (metis option.inject)
  then show ?thesis using r r' by (auto simp: anchored_def survivor_row_def)
qed

text \<open>The example: the sample node's lease has run out at time 100.\<close>

lemma sample_gc_run:
  "fst (collectExpiredUnreferencedNodes (cloudflareNodeGcRepository (mem_bucket sample_sha256)) sample_scope (Some 5) date_now (sample_world 100))
    = Inr \<lparr>examined = 1, deleted = 1, reclaimedContentBytes = 2\<rparr>"
  by code_simp

text \<open>
  C2. Garbage collection is safe: whatever the collection's outcome and whatever failed in it,
  every node that was rooted or leased when it started, and every node reachable from one
  through child references, is still committed afterwards, is still reached by the same path,
  and its bytes are stored and hash to its name.
\<close>

theorem gc_keeps_reachable:
  assumes "space_store bucket contents sha256 scope" and "world_ok sha256 contents w"
    and "collectExpiredUnreferencedNodes (cloudflareNodeGcRepository bucket) scope maxNodes date_now w = (outcome, w')"
    and "anchored (w_clock w) scope (w_db w) h" and "reach_node scope (w_db w) h h'"
  shows "intact sha256 contents scope w' h' \<and> reach_node scope (w_db w') h h'"
proof -
  have end_state: "world_ok sha256 contents w'" "collected (w_clock w) contents scope w w'"
    using wp_run [OF space_store.collection_outcome [OF assms(1,2)] assms(3)] by (auto split: sum.splits)
  then have clock: "w_clock w' = w_clock w" by (simp add: collected_def elsewhere_same_def)
  note path = collected_reach [OF end_state assms(4,5)]
  have "anchored (w_clock w') scope (w_db w') h" using anchored_survives [OF end_state(2) assms(4)] clock by simp
  then show ?thesis using reachable_intact [OF end_state(1)] path by blast
qed

theorem gc_keeps_reachable_witness:
  "intact sample_sha256 mem_contents sample_scope
     (snd (collectExpiredUnreferencedNodes (cloudflareNodeGcRepository (mem_bucket sample_sha256)) sample_scope None date_now (sample_world 5)))
     sample_hash"
proof -
  let ?run = "collectExpiredUnreferencedNodes (cloudflareNodeGcRepository (mem_bucket sample_sha256)) sample_scope None date_now (sample_world 5)"
  have "anchored (w_clock (sample_world 5)) sample_scope (w_db (sample_world 5)) sample_hash"
    by (simp add: anchored_def sample_world_def sample_db_def sample_row_def)
  then show ?thesis
    using gc_keeps_reachable [OF sample_space_store sample_world_ok [of 5] surjective_pairing _ reach_node.reach_start] by blast
qed

text \<open>
  C24. The result of a collection is exact and bounded: it examined at most \<open>maxNodes\<close> nodes,
  deleted at most those it examined, the number of committed nodes of the Space fell by exactly
  \<open>deleted\<close> and their content bytes by exactly \<open>reclaimedContentBytes\<close>, and the Space's usage
  projection is still exact.
\<close>

theorem gc_result_exact:
  assumes "space_store bucket contents sha256 scope" and "world_ok sha256 contents w"
    and "collectExpiredUnreferencedNodes (cloudflareNodeGcRepository bucket) scope (Some maxNodes) date_now w = (Inr r, w')"
  shows "0 \<le> deleted r \<and> deleted r \<le> examined r \<and> examined r \<le> maxNodes
    \<and> space_nodes scope w' = space_nodes scope w - deleted r
    \<and> space_content scope w' = space_content scope w - reclaimedContentBytes r \<and> usage_exact (w_db w')"
  using wp_run [OF space_store.collection_outcome [OF assms(1,2)] assms(3)] by (auto simp: world_ok_def db_ok_def)

theorem gc_result_exact_witness:
  "space_nodes sample_scope (snd (collectExpiredUnreferencedNodes (cloudflareNodeGcRepository (mem_bucket sample_sha256))
     sample_scope (Some 5) date_now (sample_world 100))) = 0"
proof -
  let ?run = "collectExpiredUnreferencedNodes (cloudflareNodeGcRepository (mem_bucket sample_sha256)) sample_scope (Some 5) date_now (sample_world 100)"
  have run: "?run = (Inr \<lparr>examined = 1, deleted = 1, reclaimedContentBytes = 2\<rparr>, snd ?run)"
    using sample_gc_run by (simp add: prod_eq_iff)
  have "space_nodes sample_scope (sample_world 100) = 1"
    by (simp add: space_nodes_def sample_world_def sample_db_def sum_where_Cons of_space_def)
  then show ?thesis using gc_result_exact [OF sample_space_store sample_world_ok run] by simp
qed

end
