(* ===== verification/Data_Plane.thy ===== *)
theory Data_Plane
  imports Gc_Properties
begin

text \<open>
  The data plane as a state machine.  Its steps are whole requests to the Space object (which
  serves mutations one at a time), the passing of time, a client's direct upload to a
  temporary key, and the environment choosing which of the coming network calls are lost.
\<close>

section \<open>Steps\<close>

inductive data_plane_step ::
  "'b runtime \<Rightarrow> spaceCasDoEnv \<Rightarrow> 'b r2_bucket \<Rightarrow> ('b \<Rightarrow> string \<Rightarrow> bytes option) \<Rightarrow> (bytes \<Rightarrow> bytes)
   \<Rightarrow> 'b cf_world \<Rightarrow> 'b cf_world \<Rightarrow> bool"
  for rt env bucket contents sha256 where
  request: "physicalScope request = Inr scope \<Longrightarrow> scope_ok scope
    \<Longrightarrow> space_fetch rt env bucket sha256 request w = (outcome, w')
    \<Longrightarrow> data_plane_step rt env bucket contents sha256 w w'"
| refused_request: "physicalScope request = Inl response
    \<Longrightarrow> space_fetch rt env bucket sha256 request w = (outcome, w')
    \<Longrightarrow> data_plane_step rt env bucket contents sha256 w w'"
| time_passes: "0 \<le> ms \<Longrightarrow> data_plane_step rt env bucket contents sha256 w (w\<lparr>w_clock := w_clock w + ms\<rparr>)"
| client_upload: "contents b' = contents (w_bucket w)
    \<Longrightarrow> data_plane_step rt env bucket contents sha256 w (w\<lparr>w_bucket := b'\<rparr>)"
| network: "data_plane_step rt env bucket contents sha256 w (w\<lparr>w_deliveries := ds, w_uuids := us\<rparr>)"

inductive data_plane_reach ::
  "'b runtime \<Rightarrow> spaceCasDoEnv \<Rightarrow> 'b r2_bucket \<Rightarrow> ('b \<Rightarrow> string \<Rightarrow> bytes option) \<Rightarrow> (bytes \<Rightarrow> bytes)
   \<Rightarrow> 'b cf_world \<Rightarrow> 'b cf_world \<Rightarrow> bool"
  for rt env bucket contents sha256 w where
  reach_refl: "data_plane_reach rt env bucket contents sha256 w w"
| reach_step: "data_plane_reach rt env bucket contents sha256 w w'
    \<Longrightarrow> data_plane_step rt env bucket contents sha256 w' w'' \<Longrightarrow> data_plane_reach rt env bucket contents sha256 w w''"

text \<open>An empty deployment: no row in any table, no canonical object.\<close>

definition initial_world :: "('b \<Rightarrow> string \<Rightarrow> bytes option) \<Rightarrow> 'b cf_world \<Rightarrow> bool" where
  "initial_world contents w \<longleftrightarrow> w_db w = empty_db \<and> (\<forall>k. contents (w_bucket w) k = None)"

lemma initial_ok: "initial_world contents w \<Longrightarrow> world_ok sha256 contents w"
  using empty_db_ok [of sha256] by (simp add: initial_world_def world_ok_def objects_ok_def durable_def) (simp add: empty_db_def)

lemma step_ok:
  assumes "object_store bucket contents sha256" and "data_plane_step rt env bucket contents sha256 w w'" and "world_ok sha256 contents w"
  shows "world_ok sha256 contents w'"
  using assms(2)
proof cases
  case (request request scope outcome)
  then show ?thesis using space_fetch_answers(2) [OF assms(1,3)] by blast
next
  case (refused_request request response outcome)
  then show ?thesis using assms(3) by (simp add: space_fetch_def returnM_def)
next
  case (time_passes ms)
  then show ?thesis using world_ok_later [OF assms(3), of "w_clock w + ms"] by simp
qed (use assms(3) in \<open>simp_all add: world_ok_def\<close>)

lemma reach_ok:
  assumes "data_plane_reach rt env bucket contents sha256 w w'" and "object_store bucket contents sha256" and "world_ok sha256 contents w"
  shows "world_ok sha256 contents w'"
  using assms by induction (blast intro: step_ok)+

section \<open>Durability\<close>

text \<open>The example: a client leases the sample node, and twenty seconds pass.\<close>

definition lease_request :: do_request where
  "lease_request = \<lparr>hq_method = ''POST'', hq_pathname = ''/lease'',
     hq_header = (\<lambda>name. if name = ''X-CAS-App-Id'' then Some ''app'' else if name = ''X-CAS-Space-Id'' then Some ''/team/a''
       else if name = ''X-CAS-Hash'' then Some sample_hash else None),
     hq_search = (\<lambda>_. None), hq_text = ''{leaseDurationMs: 60000}''\<rparr>"

definition lease_runtime :: "memory_bucket runtime" where
  "lease_runtime = \<lparr>rt_json_parse = (\<lambda>_. Some (Obj [(''leaseDurationMs'', js_int 60000)])), rt_number = (\<lambda>_. js_int 300),
     rt_cursor_json = (\<lambda>_. None), rt_cursor_text = (\<lambda>_. []), rt_aws_sign = (\<lambda>_ url _. Inr url), rt_random = (\<lambda>_. 0)\<rparr>"

definition bare_env :: spaceCasDoEnv where
  "bare_env = \<lparr>CAS_R2_ACCOUNT_ID = None, CAS_R2_BUCKET_NAME = None, CAS_R2_ACCESS_KEY_ID = None, CAS_R2_SECRET_ACCESS_KEY = None,
     CAS_UPLOAD_URL_EXPIRY_SECONDS = None, CAS_RETRY_MAX_ATTEMPTS = None\<rparr>"

definition leased_world :: "memory_bucket cf_world" where
  "leased_world = (let w = snd (space_fetch lease_runtime bare_env (mem_bucket sample_sha256) sample_sha256 lease_request (sample_world 5))
     in w\<lparr>w_clock := w_clock w + 20000\<rparr>)"

lemma lease_request_scope: "physicalScope lease_request = Inr sample_scope"
  by (simp add: physicalScope_def lease_request_def present_def sample_scope_def)

lemma sample_scope_ok: "scope_ok sample_scope"
  by (simp add: scope_ok_def sample_scope_def)

lemma leased_world_reach:
  "data_plane_reach lease_runtime bare_env (mem_bucket sample_sha256) mem_contents sample_sha256 (sample_world 5) leased_world"
proof (rule reach_step [OF reach_step [OF reach_refl request [OF lease_request_scope sample_scope_ok surjective_pairing]]])
  show "data_plane_step lease_runtime bare_env (mem_bucket sample_sha256) mem_contents sample_sha256
      (snd (space_fetch lease_runtime bare_env (mem_bucket sample_sha256) sample_sha256 lease_request (sample_world 5))) leased_world"
    unfolding leased_world_def Let_def by (rule time_passes) simp
qed

lemma lease_requests_result:
  assumes "physicalScope request = Inr sample_scope" and "requireHeader request ''X-CAS-Hash'' = Inr sample_hash"
    and "hq_pathname request = ''/lease''" and "hq_method request = ''POST''"
  shows "space_fetch lease_runtime bare_env (mem_bucket sample_sha256) sample_sha256 request (sample_world 5)
    = (Inr (jsonResponse (lease_json \<lparr>lr_hash = sample_hash, lr_lease = \<lparr>leaseStartedAt = 0, leaseExpiresAt = 60005\<rparr>\<rparr>)),
       snd (leaseDrivenNodeUpload sample_input (sample_world 5)))"
proof -
  let ?lease = "\<lparr>lr_hash = sample_hash, lr_lease = \<lparr>leaseStartedAt = 0, leaseExpiresAt = 60005\<rparr>\<rparr>"
    and ?handle = "handleLease lease_runtime bare_env (mem_bucket sample_sha256) sample_sha256 sample_scope request"
  have route: "route lease_runtime bare_env (mem_bucket sample_sha256) sample_sha256 sample_scope request = map_response ?handle id"
    using assms(3,4) by (simp add: route_def)
  have "requested_lease_duration (rt_json_parse lease_runtime (hq_text request)) = Inr 60000"
    and "uploadExpirySeconds lease_runtime bare_env = Inr 300"
    by (simp_all add: lease_runtime_def bare_env_def js_int_def requested_lease_duration_def uploadExpirySeconds_def safe_integer_def
        isSafeInteger_iff js_get_def js_entries_def)
  moreover have "date_now (sample_world 5) = (Inr 5, sample_world 5)" by (simp add: date_now_def sample_world_def)
  ultimately have "?handle (sample_world 5) = (Inr (lease_json ?lease), snd (leaseDrivenNodeUpload sample_input (sample_world 5)))"
    by (simp add: handleLease_def evaluateSpaceLease_def assms(2) bindM_def liftM_def returnM_def sample_lease_pair Let_def)
  then show ?thesis
    by (simp add: space_fetch_def assms(1) route map_response_def bindM_def catchM_def returnM_def)
qed

lemma lease_request_result:
  "space_fetch lease_runtime bare_env (mem_bucket sample_sha256) sample_sha256 lease_request (sample_world 5)
    = (Inr (jsonResponse (lease_json \<lparr>lr_hash = sample_hash, lr_lease = \<lparr>leaseStartedAt = 0, leaseExpiresAt = 60005\<rparr>\<rparr>)),
       snd (leaseDrivenNodeUpload sample_input (sample_world 5)))"
proof (rule lease_requests_result [OF lease_request_scope])
  show "requireHeader lease_request ''X-CAS-Hash'' = Inr sample_hash" by code_simp
qed (simp_all add: lease_request_def)

lemma leased_world_anchored: "anchored (w_clock leased_world) sample_scope (w_db leased_world) sample_hash"
proof -
  let ?w = "snd (leaseDrivenNodeUpload sample_input (sample_world 5))"
  have lease: "space_lease sample_scope ?w sample_hash = Some \<lparr>leaseStartedAt = 0, leaseExpiresAt = 60005\<rparr>"
    and "w_clock ?w = w_clock (sample_world 5)"
    using wp_run [OF space_store.lease_upload_outcome [OF sample_space_store sample_world_ok] sample_lease_pair]
    by (simp_all add: lease_moves_def elsewhere_same_def)
  moreover have "w_clock (sample_world 5) = 5" by (simp add: sample_world_def)
  ultimately show ?thesis
    unfolding leased_world_def lease_request_result Let_def snd_conv
    by (auto simp: anchored_def space_lease_def split: option.splits)
qed

text \<open>
  C1. Durability: in every state the data plane can reach from a consistent one (an empty
  deployment, for example), by any requests, any passing of time, any client uploads and any
  losses on the network, every node that a path of child references connects to a rooted or
  leased node is committed, and its bytes are stored and hash to its name; and all usage
  counters and reference counts are exact.
\<close>

theorem durability:
  assumes "object_store bucket contents sha256" and "initial_world contents w0 \<or> world_ok sha256 contents w0"
    and "data_plane_reach rt env bucket contents sha256 w0 w"
    and "anchored (w_clock w) scope (w_db w) h" and "reach_node scope (w_db w) h h'"
  shows "intact sha256 contents scope w h' \<and> usage_exact (w_db w) \<and> graph_ok sha256 (w_db w)"
proof -
  have ok: "world_ok sha256 contents w" using reach_ok [OF assms(3,1)] initial_ok assms(2) by blast
  then show ?thesis using reachable_intact [OF ok assms(4,5)] by (simp add: world_ok_def db_ok_def)
qed

theorem durability_witness: "intact sample_sha256 mem_contents sample_scope leased_world sample_hash"
  using durability [OF mem_store.object_store_axioms disjI2 [OF sample_world_ok] leased_world_reach leased_world_anchored
      reach_node.reach_start] by blast

section \<open>Isolation\<close>



text \<open>
  C31. Scopes do not collide: two different pairs of App and component have different Durable
  Object names, and two different nodes of well-formed scopes have different object keys, even
  though Space names contain slashes.
\<close>

theorem names_do_not_collide:
  "(canonicalComposite app part = Inr name \<and> canonicalComposite app' part' = Inr name \<longrightarrow> app = app' \<and> part = part')
   \<and> (CHR ''/'' \<notin> set app \<and> CHR ''/'' \<notin> set app' \<and> validateHash h = Inr () \<and> validateHash h' = Inr ()
       \<and> appCanonicalNodeKey app space h = appCanonicalNodeKey app' space' h'
      \<longrightarrow> app = app' \<and> space = space' \<and> h = h')"
proof (intro conjI impI)
  assume "canonicalComposite app part = Inr name \<and> canonicalComposite app' part' = Inr name"
  then show "app = app'" "part = part'" using canonicalComposite_inject by blast+
next
  assume a: "CHR ''/'' \<notin> set app \<and> CHR ''/'' \<notin> set app' \<and> validateHash h = Inr () \<and> validateHash h' = Inr ()
    \<and> appCanonicalNodeKey app space h = appCanonicalNodeKey app' space' h'"
  then have "node_object_key \<lparr>appId = app, spaceId = space\<rparr> h = node_object_key \<lparr>appId = app', spaceId = space'\<rparr> h'"
    by (simp add: node_object_key_def)
  moreover have "length h = length h'" using a by (simp add: validateHash_ok)
  ultimately have "\<lparr>appId = app, spaceId = space\<rparr> = \<lparr>appId = app', spaceId = space'\<rparr> \<and> h = h'"
    using a by (intro node_object_key_inject) (simp_all add: scope_ok_def)
  then show "app = app'" "space = space'" "h = h'" by simp_all
qed

theorem names_do_not_collide_witness:
  "canonicalComposite ''a|b'' ''c'' = Inr ''a%7Cb|c'' \<and> canonicalComposite ''a'' ''b|c'' \<noteq> Inr ''a%7Cb|c''"
proof -
  have name: "canonicalComposite ''a|b'' ''c'' = Inr ''a%7Cb|c''" by code_simp
  then show ?thesis using names_do_not_collide [of "''a|b''" "''c''" "''a%7Cb|c''" "''a''" "''b|c''"] by auto
qed

end
