(* ===== verification/Root_Refs_Properties.thy ===== *)
theory Root_Refs_Properties
  imports Lease_Properties "HOL-Library.Multiset"
begin

text \<open>
  Root-reference updates: the canonical form, exactly-once application under lost replies and
  retries, and the bounds of the retry loop.
\<close>

section \<open>What an update does to the store\<close>

definition root_refs_unmoved ::
  "('b \<Rightarrow> string \<Rightarrow> bytes option) \<Rightarrow> appSpaceScope \<Rightarrow> 'b cf_world \<Rightarrow> 'b cf_world \<Rightarrow> bool" where
  "root_refs_unmoved contents sc w w' \<longleftrightarrow> rooted contents sc w w' \<and> request_view sc w' = request_view sc w
     \<and> balance_view sc w' = balance_view sc w \<and> count_view sc w' = count_view sc w \<and> revision_view sc w' = revision_view sc w"

definition root_refs_applied ::
  "('b \<Rightarrow> string \<Rightarrow> bytes option) \<Rightarrow> appSpaceScope \<Rightarrow> canonicalRootRefsUpdate \<Rightarrow> 'b cf_world \<Rightarrow> 'b cf_world \<Rightarrow> bool" where
  "root_refs_applied contents sc c w w' \<longleftrightarrow> rooted contents sc w w'
     \<and> request_view sc w' = (request_view sc w)(cu_requestId c \<mapsto> (cu_payloadHash c, revision_view sc w + 1))
     \<and> balance_view sc w' = (\<lambda>h. balance_view sc w h + change_of (cu_entries c) h)
     \<and> revision_view sc w' = revision_view sc w + 1"

context space_store
begin

lemma root_update_outcome:
  assumes "world_ok sha256 contents w" and "distinct (map fst (cu_entries c))"
  shows "wp (withRootRefsRetry (executeRootRefsUpdate bucket scope c) options (math_random rt) sleep_for)
    (\<lambda>r w'. world_ok sha256 contents w' \<and> request_view scope w' (cu_requestId c) = Some (cu_payloadHash c, rr_revision r)
       \<and> (root_refs_unmoved contents scope w w' \<or> request_view scope w (cu_requestId c) = None \<and> root_refs_applied contents scope c w w'))
    (\<lambda>e w'. world_ok sha256 contents w'
       \<and> (root_refs_unmoved contents scope w w'
            \<and> (\<forall>n. request_view scope w (cu_requestId c) = Some (cu_payloadHash c, n) \<longrightarrow> retryable e)
          \<or> request_view scope w (cu_requestId c) = None \<and> root_refs_applied contents scope c w w' \<and> retryable e)) w"
  by (rule wp_mono [OF root_update_exact [OF assms]])
    (auto simp: roots.answer_ok_def roots.error_ok_def root_views.unmoved_def root_views.applied_def
      root_refs_unmoved_def root_refs_applied_def)

end

section \<open>Canonical updates\<close>

lemma sort_key_unique:
  assumes "set xs = set ys" and "distinct (map fst xs)" and "distinct (map fst ys)"
  shows "sort_key fst xs = sort_key fst (ys :: ('k :: linorder \<times> 'v) list)"
proof (rule sort_key_inj_key_eq)
  have "distinct xs" "distinct ys" using assms(2,3) by (simp_all add: distinct_map)
  then show "mset xs = mset (sort_key fst ys)" using assms(1) by (simp add: set_eq_iff_mset_eq_distinct)
  show "inj_on fst (set xs)" using assms(2) by (simp add: distinct_map)
qed simp

lemma check_changes_map:
  "check_changes kvs = Inr entries \<Longrightarrow> entries = map (\<lambda>(h, v). (h, the (safe_integer v))) kvs"
  by (induction kvs arbitrary: entries) (auto simp: check_change_def split: sum.splits option.splits if_splits)

lemma check_changes_ok:
  assumes "\<forall>(h, n) \<in> set entries. validateHash h = Inr () \<and> n \<noteq> 0 \<and> \<bar>n\<bar> \<le> CAS_MAX_ROOT_REF_DELTA"
  shows "check_changes (map (\<lambda>(h, n). (h, js_int n)) entries) = Inr entries"
  using assms
  by (induction entries)
    (auto simp: check_change_def js_int_def safe_integer_def isSafeInteger_iff CAS_MAX_ROOT_REF_DELTA_def)

lemma remdups_rev_id: "distinct xs \<Longrightarrow> rev (remdups (rev xs)) = xs"
  by (simp add: distinct_remdups_id)

lemma js_entries_of_distinct:
  assumes "distinct (map fst kvs)"
  shows "js_entries kvs = kvs"
proof -
  have "the (map_of (rev kvs) k) = v" if "(k, v) \<in> set kvs" for k v
    using that assms by (subst map_of_is_SomeI) (simp_all add: rev_map [symmetric])
  then have "map (\<lambda>k. (k, the (map_of (rev kvs) k))) (map fst kvs) = kvs"
    by (auto simp: o_def intro!: map_idI)
  then show ?thesis using assms by (simp add: js_entries_def remdups_rev_id)
qed

text \<open>
  C19. A canonical update is in normal form: between 1 and 1000 changes, strictly sorted by
  hash, each a valid hash with a non-zero delta of at most a million; a request id of 1 to 256
  characters; and the payload hash is the digest of exactly these changes.
\<close>

theorem canonical_update_normal_form:
  assumes "canonicalizeRootRefsUpdate sha256 requestId changes = Inr c"
  shows "cu_entries c \<noteq> [] \<and> length (cu_entries c) \<le> 1000
    \<and> sorted (map fst (cu_entries c)) \<and> distinct (map fst (cu_entries c))
    \<and> (\<forall>(h, n) \<in> set (cu_entries c). validateHash h = Inr () \<and> n \<noteq> 0 \<and> \<bar>n\<bar> \<le> 1000000)
    \<and> cu_requestId c \<noteq> [] \<and> length (cu_requestId c) \<le> 256
    \<and> cu_payloadHash c = sha256Hex sha256 (changes_json (cu_entries c))"
proof -
  obtain kvs entries where c: "check_changes (js_entries kvs) = Inr entries" "cu_entries c = sort_key fst entries"
    "entries \<noteq> []" "length entries \<le> CAS_MAX_ROOT_REF_CHANGES" "cu_requestId c \<noteq> []"
    "length (cu_requestId c) \<le> CAS_MAX_REQUEST_ID_LENGTH" "cu_payloadHash c = sha256Hex sha256 (changes_json (cu_entries c))"
    using canonical_parts [OF assms] by metis
  have "set (cu_entries c) = set entries" "length (cu_entries c) = length entries" using c(2) by simp_all
  moreover have "cu_entries c \<noteq> []" using c(2,3) by (metis length_0_conv length_sort)
  ultimately show ?thesis
    using c check_changes_entry [OF c(1)] canonical_distinct [OF assms]
    by (auto simp: CAS_MAX_ROOT_REF_CHANGES_def CAS_MAX_REQUEST_ID_LENGTH_def CAS_MAX_ROOT_REF_DELTA_def)
qed

definition sample_changes :: jsval where
  "sample_changes = Obj [(sample_hash, Number (Some 1) ''1'')]"

lemma sample_canonical:
  "canonicalizeRootRefsUpdate sample_sha256 (Str ''r'') sample_changes
    = Inr \<lparr>cu_requestId = ''r'', cu_changesJson = changes_json [(sample_hash, 1)],
        cu_payloadHash = sha256Hex sample_sha256 (changes_json [(sample_hash, 1)]), cu_entries = [(sample_hash, 1)]\<rparr>"
proof -
  have hash: "validateHash sample_hash = Inr ()" using sample_genuine by (rule genuine_hash_ok)
  have "js_entries [(sample_hash, Number (Some 1) ''1'')] = [(sample_hash, Number (Some 1) ''1'')]" by (simp add: js_entries_def)
  then show ?thesis
    by (simp add: canonicalizeRootRefsUpdate_def sample_changes_def check_change_def hash safe_integer_def isSafeInteger_iff
        CAS_MAX_ROOT_REF_DELTA_def CAS_MAX_REQUEST_ID_LENGTH_def CAS_MAX_ROOT_REF_CHANGES_def Let_def)
qed

theorem canonical_update_normal_form_witness:
  "sorted (map fst [(sample_hash, 1 :: int)]) \<and> distinct (map fst [(sample_hash, 1 :: int)])"
  using canonical_update_normal_form [OF sample_canonical] by simp

text \<open>
  C20. The canonical form does not depend on how the client writes the changes down: two change
  objects with the same entries, in whatever order, give the same canonical update, so the same
  payload hash and the same idempotency key.
\<close>

theorem canonical_update_unique:
  assumes "canonicalizeRootRefsUpdate sha256 (Str rid) (Obj kvs) = Inr c"
    and "canonicalizeRootRefsUpdate sha256 (Str rid) (Obj kvs') = Inr c'"
    and "set (js_entries kvs) = set (js_entries kvs')"
  shows "c = c'"
proof -
  obtain es where c: "check_changes (js_entries kvs) = Inr es" "cu_entries c = sort_key fst es" "cu_requestId c = rid"
    "cu_changesJson c = changes_json (cu_entries c)" "cu_payloadHash c = sha256Hex sha256 (cu_changesJson c)"
    using canonical_parts [OF assms(1)] by auto
  obtain es' where c': "check_changes (js_entries kvs') = Inr es'" "cu_entries c' = sort_key fst es'" "cu_requestId c' = rid"
    "cu_changesJson c' = changes_json (cu_entries c')" "cu_payloadHash c' = sha256Hex sha256 (cu_changesJson c')"
    using canonical_parts [OF assms(2)] by auto
  have "set es = set es'" using check_changes_map [OF c(1)] check_changes_map [OF c'(1)] assms(3) by simp
  moreover have "distinct (map fst es)" "distinct (map fst es')"
    using check_changes_keys [OF c(1)] check_changes_keys [OF c'(1)] js_entries_distinct by metis+
  ultimately have "cu_entries c = cu_entries c'" unfolding c(2) c'(2) by (rule sort_key_unique)
  then show ?thesis using c(3-5) c'(3-5) by (intro canonicalRootRefsUpdate.equality) simp_all
qed

lemma two_changes:
  "\<exists>c. canonicalizeRootRefsUpdate sample_sha256 (Str ''r'') (Obj [(sample_hash, js_int 1), (parent_hash, js_int 2)]) = Inr c"
  "\<exists>c. canonicalizeRootRefsUpdate sample_sha256 (Str ''r'') (Obj [(parent_hash, js_int 2), (sample_hash, js_int 1)]) = Inr c"
proof -
  have "sample_hash \<noteq> parent_hash" by (simp add: sample_hash_def parent_hash_def numeral_eq_Suc)
  then have "js_entries [(sample_hash, js_int 1), (parent_hash, js_int 2)] = [(sample_hash, js_int 1), (parent_hash, js_int 2)]"
    "js_entries [(parent_hash, js_int 2), (sample_hash, js_int 1)] = [(parent_hash, js_int 2), (sample_hash, js_int 1)]"
    by (simp_all add: js_entries_of_distinct)
  moreover have "validateHash sample_hash = Inr ()" "validateHash parent_hash = Inr ()"
    using sample_genuine parent_genuine genuine_hash_ok by blast+
  ultimately show
    "\<exists>c. canonicalizeRootRefsUpdate sample_sha256 (Str ''r'') (Obj [(sample_hash, js_int 1), (parent_hash, js_int 2)]) = Inr c"
    "\<exists>c. canonicalizeRootRefsUpdate sample_sha256 (Str ''r'') (Obj [(parent_hash, js_int 2), (sample_hash, js_int 1)]) = Inr c"
    by (simp_all add: canonicalizeRootRefsUpdate_def check_change_def safe_integer_def isSafeInteger_iff js_int_def
        CAS_MAX_ROOT_REF_DELTA_def CAS_MAX_REQUEST_ID_LENGTH_def CAS_MAX_ROOT_REF_CHANGES_def Let_def)
qed

theorem canonical_update_unique_witness:
  "canonicalizeRootRefsUpdate sample_sha256 (Str ''r'') (Obj [(sample_hash, js_int 1), (parent_hash, js_int 2)])
     = canonicalizeRootRefsUpdate sample_sha256 (Str ''r'') (Obj [(parent_hash, js_int 2), (sample_hash, js_int 1)])"
proof -
  have "sample_hash \<noteq> parent_hash" by (simp add: sample_hash_def parent_hash_def numeral_eq_Suc)
  then have "set (js_entries [(sample_hash, js_int 1), (parent_hash, js_int 2)])
      = set (js_entries [(parent_hash, js_int 2), (sample_hash, js_int 1)])"
    by (auto simp: js_entries_of_distinct)
  then show ?thesis using two_changes canonical_update_unique by metis
qed

text \<open>
  C21. The command a Space object forwards is read by the App's object as the same update: the
  second canonicalization, of the canonical command, returns exactly the canonical update it was
  made from.
\<close>

theorem forwarded_update_unchanged:
  assumes "canonicalizeRootRefsUpdate sha256 requestId changes = Inr c"
  shows "canonicalizeRootRefsUpdate sha256 (js_get (canonical_command c) ''requestId'') (js_get (canonical_command c) ''changes'') = Inr c"
proof -
  obtain kvs entries where p: "check_changes (js_entries kvs) = Inr entries" "cu_entries c = sort_key fst entries"
    "entries \<noteq> []" "length entries \<le> CAS_MAX_ROOT_REF_CHANGES" "cu_requestId c \<noteq> []"
    "length (cu_requestId c) \<le> CAS_MAX_REQUEST_ID_LENGTH" "cu_changesJson c = changes_json (cu_entries c)"
    "cu_payloadHash c = sha256Hex sha256 (cu_changesJson c)"
    using canonical_parts [OF assms] by metis
  let ?kvs = "map (\<lambda>(h, n). (h, js_int n)) (cu_entries c)"
  have "map fst ?kvs = map fst (cu_entries c)" by (simp add: o_def case_prod_unfold)
  then have "distinct (map fst ?kvs)" using canonical_distinct [OF assms] by (simp only:)
  then have entries: "js_entries ?kvs = ?kvs" by (rule js_entries_of_distinct)
  have "set (cu_entries c) = set entries" using p(2) by simp
  then have checked: "check_changes ?kvs = Inr (cu_entries c)"
    using check_changes_entry [OF p(1)] by (intro check_changes_ok) blast
  have parts: "js_get (canonical_command c) ''requestId'' = Str (cu_requestId c)" "js_get (canonical_command c) ''changes'' = Obj ?kvs"
    by (simp_all add: js_get_def canonical_command_def)
  have "cu_entries c \<noteq> []" "length (cu_entries c) \<le> CAS_MAX_ROOT_REF_CHANGES" using p(2-4) by (auto dest: arg_cong [of _ _ length])
  moreover have "sort_key fst (cu_entries c) = cu_entries c" using p(2) by (simp add: sort_key_id_if_sorted)
  ultimately show ?thesis
    unfolding parts using p(5-8) by (simp add: canonicalizeRootRefsUpdate_def entries checked Let_def not_less)
qed

theorem forwarded_update_unchanged_witness:
  "\<exists>c. canonicalizeRootRefsUpdate sample_sha256 (Str ''r'') (Obj [(sample_hash, js_int 1)]) = Inr c"
  using forwarded_update_unchanged [OF sample_canonical] by (auto simp: canonical_command_def js_get_def)

section \<open>Exactly once\<close>

text \<open>
  C4. Updates are applied exactly once.  If the update and its retries return an answer, the
  request is recorded with the answered revision; if it had not been recorded before, the App's
  revision advanced by one and every balance moved by exactly the requested delta, however many
  attempts were made and however many replies were lost; if it had, nothing changed.  Either way
  the store stays consistent.
\<close>

theorem root_update_exactly_once:
  assumes "space_store bucket contents sha256 scope" and "world_ok sha256 contents w"
    and "canonicalizeRootRefsUpdate sha256 requestId changes = Inr c"
    and "withRootRefsRetry (executeRootRefsUpdate bucket scope c) options (math_random rt) sleep_for w = (Inr r, w')"
  shows "world_ok sha256 contents w' \<and> request_view scope w' (cu_requestId c) = Some (cu_payloadHash c, rr_revision r)
    \<and> (if request_view scope w (cu_requestId c) = None then root_refs_applied contents scope c w w'
       else root_refs_unmoved contents scope w w')"
  using wp_run [OF space_store.root_update_outcome [OF assms(1,2) canonical_distinct [OF assms(3)]] assms(4)]
  by (auto simp: root_refs_unmoved_def)

definition sample_runtime :: "memory_bucket runtime" where
  "sample_runtime = \<lparr>rt_json_parse = (\<lambda>_. None), rt_number = (\<lambda>s. Number None s), rt_cursor_json = (\<lambda>_. None),
     rt_cursor_text = (\<lambda>_. []), rt_aws_sign = (\<lambda>_ url _. Inr url), rt_random = (\<lambda>_. 0)\<rparr>"

definition sample_update :: canonicalRootRefsUpdate where
  "sample_update = \<lparr>cu_requestId = ''r'', cu_changesJson = changes_json [(sample_hash, 1)],
     cu_payloadHash = sha256Hex sample_sha256 (changes_json [(sample_hash, 1)]), cu_entries = [(sample_hash, 1)]\<rparr>"

definition sample_options :: rootRefsRetryOptions where
  "sample_options = \<lparr>ro_maxAttempts = None, ro_baseDelayMs = None, ro_maxDelayMs = None, ro_jitter = None\<rparr>"

definition sample_root_run :: "memory_bucket cf_world \<Rightarrow> (exn + rootRefsUpdateResult) \<times> memory_bucket cf_world" where
  "sample_root_run = withRootRefsRetry (executeRootRefsUpdate (mem_bucket sample_sha256) sample_scope sample_update)
     sample_options (math_random sample_runtime) sleep_for"

text \<open>The reply of the first commit is lost; the second attempt finds the request recorded.\<close>

definition lossy_world :: "memory_bucket cf_world" where
  "lossy_world = (sample_world 5)\<lparr>w_deliveries := replicate 5 Delivered @ [Reply_lost]\<rparr>"

lemma lossy_world_ok: "world_ok sample_sha256 mem_contents lossy_world"
  using sample_world_ok by (simp add: lossy_world_def)

lemma sample_root_result: "fst (sample_root_run lossy_world) = Inr \<lparr>rr_idempotent = True, rr_revision = 1\<rparr>"
  unfolding sample_root_run_def by code_simp

lemma sample_update_fields: "cu_requestId sample_update = ''r''" "cu_entries sample_update = [(sample_hash, 1)]"
  by (simp_all add: sample_update_def)

lemma sample_update_canonical: "canonicalizeRootRefsUpdate sample_sha256 (Str ''r'') sample_changes = Inr sample_update"
  by (simp add: sample_canonical sample_update_def)

theorem root_update_exactly_once_witness:
  "balance_view sample_scope (snd (sample_root_run lossy_world)) sample_hash = 1"
proof -
  have run: "sample_root_run lossy_world = (Inr \<lparr>rr_idempotent = True, rr_revision = 1\<rparr>, snd (sample_root_run lossy_world))"
    using sample_root_result by (simp add: prod_eq_iff)
  have "request_view sample_scope lossy_world ''r'' = None" "balance_view sample_scope lossy_world sample_hash = 0"
    by (simp_all add: request_view_def balance_view_def balance_def lossy_world_def sample_world_def sample_db_def empty_db_def)
  then show ?thesis
    using root_update_exactly_once [OF sample_space_store lossy_world_ok sample_update_canonical run [unfolded sample_root_run_def],
        folded sample_root_run_def]
    by (simp add: root_refs_applied_def sample_update_fields change_of_def)
qed

text \<open>
  C22. Errors tell the truth as well.  After an error the store is consistent; a validation error
  means that nothing changed; only a retryable error leaves open whether the update was applied,
  and it is then applied wholly or not at all.  A request that was already recorded with the same
  payload never gets a validation error.
\<close>

theorem root_update_error:
  assumes "space_store bucket contents sha256 scope" and "world_ok sha256 contents w"
    and "canonicalizeRootRefsUpdate sha256 requestId changes = Inr c"
    and "withRootRefsRetry (executeRootRefsUpdate bucket scope c) options (math_random rt) sleep_for w = (Inl e, w')"
  shows "world_ok sha256 contents w'
    \<and> (root_refs_unmoved contents scope w w' \<or> root_refs_applied contents scope c w w' \<and> request_view scope w (cu_requestId c) = None)
    \<and> (\<not> retryable e \<longrightarrow> root_refs_unmoved contents scope w w' \<and>
         (\<forall>n. request_view scope w (cu_requestId c) \<noteq> Some (cu_payloadHash c, n)))"
  using wp_run [OF space_store.root_update_outcome [OF assms(1,2) canonical_distinct [OF assms(3)]] assms(4)] by auto

lemma blank_root_result:
  "fst (sample_root_run blank_world) = Inl (RootRefsValidationError 404 NODE_NOT_FOUND (''node '' @ sample_hash @ '' not found''))"
  unfolding sample_root_run_def by code_simp

theorem root_update_error_witness: "root_refs_unmoved mem_contents sample_scope blank_world (snd (sample_root_run blank_world))"
proof -
  have run: "sample_root_run blank_world = (Inl (RootRefsValidationError 404 NODE_NOT_FOUND (''node '' @ sample_hash @ '' not found'')),
      snd (sample_root_run blank_world))"
    using blank_root_result by (simp add: prod_eq_iff)
  show ?thesis
    using root_update_error [OF sample_space_store blank_world_ok sample_update_canonical run [unfolded sample_root_run_def],
        folded sample_root_run_def]
    by (simp add: retryable_def)
qed

text \<open>The store the lossy run leaves behind: the sample node is a root.\<close>

definition rooted_world :: "memory_bucket cf_world" where
  "rooted_world = snd (sample_root_run lossy_world)"

lemma rooted_world_ok: "world_ok sample_sha256 mem_contents rooted_world"
proof -
  have run: "sample_root_run lossy_world = (Inr \<lparr>rr_idempotent = True, rr_revision = 1\<rparr>, rooted_world)"
    using sample_root_result by (simp add: prod_eq_iff rooted_world_def)
  show ?thesis
    using wp_run [OF space_store.root_update_outcome [OF sample_space_store lossy_world_ok canonical_distinct [OF sample_update_canonical]]
        run [unfolded sample_root_run_def]] by simp
qed

lemma rooted_world_tables:
  "(w_deliveries rooted_world, cas_app_root_cutover (w_db rooted_world), cas_app_root_refs (w_db rooted_world),
    app_revision ''app'' (w_db rooted_world)) = ([], True, [((sample_scope, sample_hash), 1)], 1)"
  unfolding rooted_world_def sample_root_run_def by code_simp

section \<open>The retry loop\<close>

text \<open>An operation that counts how often it is run.\<close>

definition counted :: "('s, 'e, 'a) prog \<Rightarrow> ('s \<times> nat, 'e, 'a) prog" where
  "counted m s = (case m (fst s) of (r, s') \<Rightarrow> (r, (s', snd s + 1)))"

definition uncounted :: "('s, 'e, 'a) prog \<Rightarrow> ('s \<times> nat, 'e, 'a) prog" where
  "uncounted m s = (case m (fst s) of (r, s') \<Rightarrow> (r, (s', snd s)))"

lemma wp_counted: "wp (counted m) Q E s = wp m (\<lambda>x s'. Q x (s', snd s + 1)) (\<lambda>e s'. E e (s', snd s + 1)) (fst s)"
  by (simp add: wp_def counted_def split: prod.splits sum.splits)

lemma wp_uncounted: "wp (uncounted m) Q E s = wp m (\<lambda>x s'. Q x (s', snd s)) (\<lambda>e s'. E e (s', snd s)) (fst s)"
  by (simp add: wp_def uncounted_def split: prod.splits sum.splits)

lemma wp_trivial: "(\<And>x s'. Q x s') \<Longrightarrow> (\<And>e s'. E e s') \<Longrightarrow> wp m Q E s"
  by (simp add: wp_def split: prod.splits sum.splits)

lemma retry_loop_count:
  "wp (retry_loop (counted m) options (uncounted rnd) (\<lambda>ms. uncounted (sleep ms)) attempt)
     (\<lambda>_ s'. snd s < snd s' \<and> int (snd s') \<le> int (snd s) + max 1 (option_or_default ro_maxAttempts options - int attempt + 1))
     (\<lambda>_ s'. snd s < snd s' \<and> int (snd s') \<le> int (snd s) + max 1 (option_or_default ro_maxAttempts options - int attempt + 1)) s"
proof (induction "nat (option_or_default ro_maxAttempts options - int attempt)" arbitrary: attempt s rule: less_induct)
  case (less attempt s)
  let ?max = "option_or_default ro_maxAttempts options"
  let ?again = "retry_loop (counted m) options (uncounted rnd) (\<lambda>ms. uncounted (sleep ms)) (attempt + 1)"
  let ?P = "\<lambda>n s'. n < snd s' \<and> int (snd s') \<le> int n + max 1 (?max - int attempt + 1)"
  have again: "wp ?again (\<lambda>_. ?P (snd s)) (\<lambda>_. ?P (snd s)) (s1, snd s + 1)" if "int attempt < ?max" for s1
    by (rule wp_mono [OF less.hyps [of "attempt + 1"]]) (use that in auto)
  show ?case
    unfolding retry_loop.simps [of "counted m" options "uncounted rnd" "\<lambda>ms. uncounted (sleep ms)" attempt] wp_catchM wp_counted
    by (rule wp_trivial) (use again in \<open>auto simp: wp_simps wp_uncounted intro!: wp_trivial\<close>)
qed

text \<open>
  C39. The retry loop is bounded: whatever fails and however often, the operation is attempted
  at least once and at most \<open>maxAttempts\<close> times (five by default).
\<close>

theorem retry_attempts_bounded:
  "case withRootRefsRetry (counted m) options (uncounted rnd) (\<lambda>ms. uncounted (sleep ms)) (s, 0) of
     (outcome, (s', attempts)) \<Rightarrow> 1 \<le> attempts \<and> int attempts \<le> max 1 (option_or_default ro_maxAttempts options)"
proof -
  obtain outcome s' attempts where run:
    "retry_loop (counted m) options (uncounted rnd) (\<lambda>ms. uncounted (sleep ms)) 1 (s, 0) = (outcome, (s', attempts))"
    by (metis surj_pair)
  from wp_run [OF retry_loop_count run] show ?thesis
    unfolding withRootRefsRetry_def run by (auto split: sum.splits)
qed

text \<open>
  C40. The wait between two attempts doubles up to the configured maximum, and the jitter takes
  at most half of it off: for every value of \<open>Math.random\<close> the delay lies between half the
  nominal delay and the nominal delay, and never exceeds \<open>maxDelayMs\<close>.
\<close>

theorem retry_delay_bounded:
  assumes "0 \<le> r" and "r < 2 ^ 53"
    and "0 \<le> option_or_default ro_baseDelayMs options" and "0 \<le> option_or_default ro_maxDelayMs options"
  shows "let nominal = min (option_or_default ro_maxDelayMs options) (option_or_default ro_baseDelayMs options * 2 ^ (attempt - 1))
    in nominal div 2 \<le> retry_delay options attempt r \<and> retry_delay options attempt r \<le> nominal
      \<and> retry_delay options attempt r \<le> option_or_default ro_maxDelayMs options"
proof -
  define nominal where "nominal = min (option_or_default ro_maxDelayMs options) (option_or_default ro_baseDelayMs options * 2 ^ (attempt - 1))"
  have n: "0 \<le> nominal" using assms(3,4) by (simp add: nominal_def)
  have lower: "nominal * (2 ^ 53 + 0) div 2 ^ 54 \<le> nominal * (2 ^ 53 + r) div 2 ^ 54"
    using n assms(1) by (intro zdiv_mono1 mult_left_mono) simp_all
  have "nominal * (2 ^ 53 + 0) div 2 ^ 54 = nominal div 2" by simp
  moreover have "nominal * (2 ^ 53 + r) div 2 ^ 54 \<le> nominal * 2 ^ 54 div 2 ^ 54"
    using n assms(2) by (intro zdiv_mono1 mult_left_mono) simp_all
  then have "nominal * (2 ^ 53 + r) div 2 ^ 54 \<le> nominal" by simp
  moreover have "nominal \<le> option_or_default ro_maxDelayMs options" by (simp add: nominal_def)
  moreover have "nominal div 2 \<le> nominal" using n by linarith
  ultimately have "nominal div 2 \<le> retry_delay options attempt r \<and> retry_delay options attempt r \<le> nominal"
    using lower unfolding retry_delay_def Let_def nominal_def [symmetric] by (simp del: power_numeral)
  then show ?thesis using \<open>nominal \<le> _\<close> unfolding Let_def nominal_def [symmetric] by linarith
qed

theorem retry_delay_bounded_witness: "12 \<le> retry_delay sample_options 1 5 \<and> retry_delay sample_options 1 5 \<le> 25"
  using retry_delay_bounded [of 5 sample_options 1]
  by (simp add: sample_options_def option_or_default_def default_retry_options_def Let_def)

end
