(* ===== verification/Read_Properties.thy ===== *)
theory Read_Properties
  imports Root_Refs_Properties
begin

text \<open>
  What reads return: byte ranges, node content, usage, and the audit listings.
\<close>

section \<open>Decimal numbers in headers\<close>

lemma decimal_value_append: "decimal_value acc (xs @ [c]) = 10 * decimal_value acc xs + (of_char c - 48)"
  by (induction xs arbitrary: acc) simp_all

lemma show_nat_digits: "list_all is_digit (show_nat n) \<and> show_nat n \<noteq> [] \<and> decimal_value 0 (show_nat n) = n"
proof (induction n rule: less_induct)
  case (less n)
  have digit: "is_digit (char_of (48 + k))" "of_char (char_of (48 + k :: nat) :: char) - (48 :: nat) = k" if "k < 10" for k :: nat
    using that by (simp_all add: is_digit_def)
  show ?case
  proof (cases "n < 10")
    case True
    then show ?thesis by (simp add: show_nat.simps [of n] digit)
  next
    case False
    then have "n div 10 < n" "n mod 10 < 10" by simp_all
    then show ?thesis using less.IH [of "n div 10"] False by (simp add: show_nat.simps [of n] digit decimal_value_append)
  qed
qed

lemma number_of_show_nat: "number_of_digits (show_nat n) = Some (int n)"
  using show_nat_digits [of n] by (simp add: number_of_digits_def)

lemma match_range_of:
  assumes "list_all is_digit xs" and "list_all is_digit ys"
  shows "match_range (''bytes='' @ xs @ ''-'' @ ys) = Some (xs, ys)"
proof -
  have dash: "\<not> is_digit (CHR ''-'')" by code_simp
  have "takeWhile is_digit (xs @ ''-'' @ ys) = xs" "dropWhile is_digit (xs @ ''-'' @ ys) = ''-'' @ ys"
    using assms(1) dash by (simp_all add: list_all_iff takeWhile_append2 dropWhile_append2)
  then show ?thesis using assms(2) by (simp add: match_range_def Let_def)
qed



section \<open>Content\<close>

lemma sample_collision_free: "collision_free_at sample_sha256 sample_hash"
  using sample_digest by (simp add: collision_free_at_def)



section \<open>Usage\<close>



section \<open>Audit listings\<close>



section \<open>Event pages\<close>

lemma parse_events_revisions: "parse_events rows = Inr events \<Longrightarrow> map er_revision events = map er_revision rows"
  by (induction rows arbitrary: events) (auto simp: bindE_def split: sum.splits)

lemma upto_take: "take (nat k) [a + 1..b] = [a + 1..min (a + k) b]" if "0 \<le> k" for a b k :: int
proof (rule nth_equalityI)
  show "length (take (nat k) [a + 1..b]) = length [a + 1..min (a + k) b]" using that by (auto simp: min_def)
  fix i
  assume "i < length (take (nat k) [a + 1..b])"
  then have "i < nat k" "a + 1 + int i \<le> b" "a + 1 + int i \<le> min (a + k) b" using that by auto
  then show "take (nat k) [a + 1..b] ! i = [a + 1..min (a + k) b] ! i" by simp
qed

lemma events_page_exact:
  assumes log: "root_log_ok d" and "0 \<le> after" and "1 \<le> limit"
    and rows: "rows = take (nat (limit + 1)) (events_after app None after (app_revision app d) d)"
    and page: "events_page after limit (app_revision app d) rows = Inr page"
  shows "map er_revision (ep_events page) = [after + 1..min (after + limit) (app_revision app d)]
    \<and> ep_latestRevision page = app_revision app d
    \<and> ep_nextAfter page = max after (min (after + limit) (app_revision app d))"
proof -
  let ?rev = "app_revision app d"
  have revs: "map er_revision rows = [after + 1..min (after + (limit + 1)) ?rev]"
    using upto_take [of "limit + 1" after ?rev] assms(3) by (simp add: rows take_map events_consecutive [OF log assms(2), symmetric])
  have len: "int (length rows) = max 0 (min (limit + 1) (?rev - after))"
    using arg_cong [OF revs, of "\<lambda>xs. int (length xs)"] by (auto simp: max_def min_def)
  obtain events where ev: "parse_events (take (nat limit) rows) = Inr events" and p: "page = \<lparr>ep_events = events, ep_latestRevision = ?rev,
      ep_nextAfter = (if int (length rows) > limit then er_revision (List.last events) else max after ?rev)\<rparr>"
    using page by (auto simp: events_page_def bindE_def split: sum.splits)
  have "map er_revision events = take (nat limit) (map er_revision rows)"
    using parse_events_revisions [OF ev] by (simp add: take_map)
  also have "\<dots> = [after + 1..min (after + limit) ?rev]"
    using upto_take [of limit after "min (after + (limit + 1)) ?rev"] assms(3) by (simp add: revs min_def)
  finally have evs: "map er_revision events = [after + 1..min (after + limit) ?rev]" .
  have "er_revision (List.last events) = after + limit" if "limit < int (length rows)"
  proof -
    have more: "limit + 1 \<le> ?rev - after" using that len assms(3) by (simp add: max_def min_def split: if_splits)
    then have "events \<noteq> []" using evs assms(3) by auto
    then have "er_revision (List.last events) = List.last [after + 1..min (after + limit) ?rev]"
      using evs last_map by metis
    also have "\<dots> = after + limit" using more assms(3) by (subst upto_rec2) auto
    finally show ?thesis .
  qed
  then show ?thesis using evs p len assms(3) by (auto simp: max_def min_def)
qed

text \<open>
  C27. The event log has no gaps: a page of events after revision \<open>after\<close> holds exactly the
  consecutive revisions from \<open>after + 1\<close> on, as many as the limit allows and the log has, and its
  \<open>nextAfter\<close> is the last of them, so the next page continues where this one ends.
\<close>

theorem event_page_consecutive:
  assumes "world_ok sha256 contents w" and "1 \<le> limit" and "0 \<le> after"
    and "listAppRootEvents app None (Some after) (Some limit) w = (Inr page, w')"
  shows "map er_revision (ep_events page) = [after + 1..min (after + limit) (app_revision app (w_db w))]
    \<and> ep_latestRevision page = app_revision app (w_db w)
    \<and> ep_nextAfter page = max after (min (after + limit) (app_revision app (w_db w)))"
proof -
  have log: "root_log_ok (w_db w)" using assms(1) by (simp add: world_ok_def db_ok_def)
  have rev: "(case map_of (cas_app_root_revisions d) app of Some n \<Rightarrow> n | None \<Rightarrow> 0) = app_revision app d" for d
    by (simp add: app_revision_def split: option.splits)
  note page = events_page_exact [OF log assms(3,2) refl]
  have "wp (listAppRootEvents app None (Some after) (Some limit))
    (\<lambda>page _. map er_revision (ep_events page) = [after + 1..min (after + limit) (app_revision app (w_db w))]
      \<and> ep_latestRevision page = app_revision app (w_db w)
      \<and> ep_nextAfter page = max after (min (after + limit) (app_revision app (w_db w)))) (\<lambda>_ _. True) w"
    unfolding listAppRootEvents_def assertRootRefCutover_def readAppRevision_def rev
    by (auto simp: wp_simps parseAuditLimit_def page split: sum.splits intro!: wp_d1_query)
  from wp_run [OF this assms(4)] show ?thesis by simp
qed

theorem event_page_consecutive_witness:
  "map_sum id (\<lambda>page. (map er_revision (ep_events page), ep_nextAfter page))
     (fst (listAppRootEvents ''app'' None (Some 0) (Some 10) rooted_world)) = Inr ([1], 1)"
proof -
  have "isl (fst (listAppRootEvents ''app'' None (Some 0) (Some 10) rooted_world)) = False"
    unfolding rooted_world_def sample_root_run_def by code_simp
  then obtain page where p: "fst (listAppRootEvents ''app'' None (Some 0) (Some 10) rooted_world) = Inr page"
    by (cases "fst (listAppRootEvents ''app'' None (Some 0) (Some 10) rooted_world)") auto
  then have "listAppRootEvents ''app'' None (Some 0) (Some 10) rooted_world
      = (Inr page, snd (listAppRootEvents ''app'' None (Some 0) (Some 10) rooted_world))" by (simp add: prod_eq_iff)
  from event_page_consecutive [OF rooted_world_ok _ _ this] show ?thesis using rooted_world_tables p by simp
qed

end
