(* ===== verification/Blob_Client.thy ===== *)
theory Blob_Client
  imports Codec_Properties Js_Values
begin

text \<open>
  The blob layer, \<^verbatim>\<open>packages/space-blob-client\<close>: \<^verbatim>\<open>node-content.ts\<close> (raw content to canonical
  node to lease and upload), \<^verbatim>\<open>blob-index.ts\<close> (the index nodes) and \<^verbatim>\<open>blob-client.ts\<close> (chunking,
  the index tree, reading back whole blobs and byte ranges), over the node-level client of
  \<^verbatim>\<open>packages/space-client/src/types.ts\<close>.

  The node-level client, the transport of the presigned uploads, SHA-256 and the CBOR codec
  (the \<^verbatim>\<open>cborg\<close> package) are parameters.  A stream is the list of its chunks; abort signals and
  progress callbacks are not modelled.  The recursions of the tree are bounded by fuel; the
  theorems show that the fuel the functions start with is never used up.
\<close>

section \<open>The node-level client\<close>

datatype client_exn =
    Out_of_fuel
  | Client_error string
  | Client_type_error string
  | Client_range_error string
  | Cas_client_error nat string "string option" "string option"
  | Cas_capability_error string string
  | Codec_failure codec_error
  | Transport_error string

record casNodeMetadata =
  cm_hash :: string
  cm_size :: int
  cm_contentType :: string
  cm_refs :: "string list"

record uploadInstructions =
  ui_method :: string
  ui_url :: string
  ui_headers :: "(string \<times> string) list"

datatype spaceNodeLeaseResult =
    Lease_ready string int int
  | Lease_awaiting_upload string uploadInstructions
  | Lease_awaiting_replacement string "string \<times> string" uploadInstructions
  | Lease_awaiting_children string "string list"

text \<open>\<open>CasNodeRange\<close>: an offset, and a length or everything that follows.\<close>

type_synonym nodeRange = "int \<times> int option"

record casRootRefsResult =
  rq_success :: bool
  rq_idempotent :: "bool option"
  rq_revisionAfter :: "int option"

record 's appCasClient =
  ac_readMetadata :: "string \<Rightarrow> string \<Rightarrow> ('s, client_exn, casNodeMetadata) prog"
  ac_readContent :: "string \<Rightarrow> string \<Rightarrow> nodeRange option \<Rightarrow> ('s, client_exn, bytes list) prog"
  ac_leaseNode :: "string \<Rightarrow> string \<Rightarrow> int \<Rightarrow> ('s, client_exn, spaceNodeLeaseResult) prog"
  ac_updateRootRefs :: "string \<Rightarrow> string \<Rightarrow> (string \<times> int) list \<Rightarrow> ('s, client_exn, casRootRefsResult) prog"

text \<open>The \<open>PUT\<close> of a presigned upload; the result is the response's status.\<close>

type_synonym 's uploadFetcher = "uploadInstructions \<Rightarrow> bytes \<Rightarrow> ('s, client_exn, nat) prog"

definition codecE :: "codec_error + 'a \<Rightarrow> client_exn + 'a" where
  "codecE r = map_sum Codec_failure id r"

fun mapE :: "('a \<Rightarrow> 'e + 'b) \<Rightarrow> 'a list \<Rightarrow> 'e + 'b list" where
  "mapE f [] = Inr []"
| "mapE f (x # xs) = bindE (f x) (\<lambda>y. bindE (mapE f xs) (\<lambda>ys. Inr (y # ys)))"

section \<open>Storing a node\<close>

definition DefaultSpaceNodeLeaseDurationMs :: int where
  "DefaultSpaceNodeLeaseDurationMs = 900000"

definition encodeCanonicalNode ::
  "(bytes \<Rightarrow> bytes) \<Rightarrow> bytes \<Rightarrow> string \<Rightarrow> string list \<Rightarrow> client_exn + string \<times> bytes" where
  "encodeCanonicalNode sha256 content contentType refs =
     bindE (mapE (\<lambda>ref. codecE (hexToHash ref)) refs) (\<lambda>childHashes.
     let header = encodeHeader (int (length content)) contentType (int (length childHashes)) in
     bindE (codecE (computeNodeDigest sha256 header contentType childHashes content)) (\<lambda>digest.
     bindE (codecE (hashToHex digest)) (\<lambda>hash.
     bindE (codecE (concatenateNodeBytes header (textEncode contentType) childHashes content)) (\<lambda>node.
     Inr (hash, node)))))"

definition rejection_error :: "string \<times> string \<Rightarrow> client_exn" where
  "rejection_error r = Client_error (fst r @ '': '' @ snd r)"

definition lease_child :: "'s appCasClient \<Rightarrow> string \<Rightarrow> int \<Rightarrow> string \<Rightarrow> ('s, client_exn, unit) prog" where
  "lease_child cas space durationMs childHash =
     bindM (ac_leaseNode cas space childHash durationMs) (\<lambda>child.
     case child of
       Lease_ready _ _ _ \<Rightarrow> returnM ()
     | _ \<Rightarrow> throwM (Client_error (''CAS child node '' @ childHash @ '' is not ready'')))"

definition put_node :: "'s uploadFetcher \<Rightarrow> uploadInstructions \<Rightarrow> bytes \<Rightarrow> ('s, client_exn, unit) prog" where
  "put_node fetcher upload node =
     bindM (fetcher upload node) (\<lambda>status.
     if \<not> (200 \<le> status \<and> status < 300) \<and> status \<noteq> 412 then throwM (Cas_client_error status ''upload'' None None) else returnM ())"

text \<open>The loop over the three attempts; \<open>uploaded\<close> is the flag of the loop.\<close>

fun upload_attempts ::
  "nat \<Rightarrow> 's appCasClient \<Rightarrow> 's uploadFetcher \<Rightarrow> string \<Rightarrow> string \<Rightarrow> bytes \<Rightarrow> int \<Rightarrow> spaceNodeLeaseResult \<Rightarrow> bool
   \<Rightarrow> ('s, client_exn, spaceNodeLeaseResult) prog" where
  "upload_attempts 0 cas fetcher space hash node durationMs result uploaded =
     (case result of
        Lease_awaiting_replacement _ rejection _ \<Rightarrow> throwM (rejection_error rejection)
      | _ \<Rightarrow> throwM (Client_error (''CAS node '' @ hash @ '' did not become ready'')))"
| "upload_attempts (Suc n) cas fetcher space hash node durationMs result uploaded =
     (let upload_and_retry = (\<lambda>upload.
            bindM (put_node fetcher upload node) (\<lambda>_.
            bindM (ac_leaseNode cas space hash durationMs) (\<lambda>result'.
            upload_attempts n cas fetcher space hash node durationMs result' True))) in
      case result of
        Lease_ready _ _ _ \<Rightarrow> returnM result
      | Lease_awaiting_children _ childHashes \<Rightarrow>
          bindM (forM childHashes (lease_child cas space durationMs)) (\<lambda>_.
          bindM (ac_leaseNode cas space hash durationMs) (\<lambda>result'.
          upload_attempts n cas fetcher space hash node durationMs result' uploaded))
      | Lease_awaiting_replacement _ rejection upload \<Rightarrow>
          if uploaded then throwM (rejection_error rejection) else upload_and_retry upload
      | Lease_awaiting_upload _ upload \<Rightarrow> upload_and_retry upload)"

definition client_uploadCanonicalNode ::
  "'s appCasClient \<Rightarrow> 's uploadFetcher \<Rightarrow> string \<Rightarrow> string \<Rightarrow> bytes \<Rightarrow> int option
   \<Rightarrow> ('s, client_exn, spaceNodeLeaseResult) prog" where
  "client_uploadCanonicalNode cas fetcher space hash node durationMs =
     (let duration = (case durationMs of Some n \<Rightarrow> n | None \<Rightarrow> DefaultSpaceNodeLeaseDurationMs) in
      bindM (ac_leaseNode cas space hash duration) (\<lambda>result.
      upload_attempts 3 cas fetcher space hash node duration result False))"

definition leaseNodeContent ::
  "(bytes \<Rightarrow> bytes) \<Rightarrow> 's appCasClient \<Rightarrow> 's uploadFetcher \<Rightarrow> string \<Rightarrow> string \<Rightarrow> bytes \<Rightarrow> string \<Rightarrow> string list \<Rightarrow> int option
   \<Rightarrow> ('s, client_exn, spaceNodeLeaseResult) prog" where
  "leaseNodeContent sha256 cas fetcher space hash content contentType refs durationMs =
     bindM (liftM (encodeCanonicalNode sha256 content contentType refs)) (\<lambda>(canonical, node).
     if canonical \<noteq> hash
     then throwM (Client_error (''CAS node digest mismatch: expected '' @ hash @ '', got '' @ canonical))
     else client_uploadCanonicalNode cas fetcher space canonical node durationMs)"

definition storeNodeContent ::
  "(bytes \<Rightarrow> bytes) \<Rightarrow> 's appCasClient \<Rightarrow> 's uploadFetcher \<Rightarrow> string \<Rightarrow> bytes \<Rightarrow> string \<Rightarrow> string list \<Rightarrow> int option
   \<Rightarrow> ('s, client_exn, string) prog" where
  "storeNodeContent sha256 cas fetcher space content contentType refs durationMs =
     bindM (liftM (encodeCanonicalNode sha256 content contentType refs)) (\<lambda>(hash, node).
     bindM (client_uploadCanonicalNode cas fetcher space hash node durationMs) (\<lambda>_.
     returnM hash))"

section \<open>Blob indices\<close>

definition BlobChunkContentType :: string where
  "BlobChunkContentType = ''application/vnd.unicas.blob-chunk''"
definition BlobIndexContentType :: string where
  "BlobIndexContentType = ''application/vnd.unicas.blob-index+cbor;version=1''"
definition BlobChunkBytes :: int where "BlobChunkBytes = 32 * 1024 * 1024"
definition BlobIndexFanout :: int where "BlobIndexFanout = 256"

text \<open>
  \<open>CasBlobIndexV1\<close> before its fields have been checked: after a decoding they can be any values.
\<close>

record casBlobIndexV1 =
  bi_version :: jsval
  bi_level :: jsval
  bi_size :: jsval
  bi_mediaType :: jsval
  bi_children :: "jsval list"

text \<open>A checked index: the numbers as \<open>validateSafeSize\<close> returns them.\<close>

record blobIndex =
  ix_level :: int
  ix_size :: int
  ix_mediaType :: jsval
  ix_children :: "int list"

definition validateSafeSize :: "jsval \<Rightarrow> string \<Rightarrow> bool \<Rightarrow> client_exn + int" where
  "validateSafeSize value name allowZero =
     (let refused = Inl (Client_type_error
            (name @ '' must be a '' @ (if allowZero then ''non-negative'' else ''positive'') @ '' safe integer'')) in
      case safe_integer value of
        None \<Rightarrow> refused
      | Some n \<Rightarrow> if (if allowZero then n < 0 else n \<le> 0) then refused else Inr n)"

text \<open>The regular expression tests \<open>String(v)\<close>; the length is that of \<open>v\<close> itself, \<open>undefined\<close> for a number.\<close>

definition js_length_above :: "jsval \<Rightarrow> nat \<Rightarrow> client_exn + bool" where
  "js_length_above v limit = (case v of
       Str s \<Rightarrow> Inr (limit < length s)
     | Arr vs \<Rightarrow> Inr (limit < length vs)
     | Null \<Rightarrow> Inl (Client_type_error ''Cannot read properties of null'')
     | Undefined \<Rightarrow> Inl (Client_type_error ''Cannot read properties of undefined'')
     | _ \<Rightarrow> Inr False)"

definition validateMediaType :: "jsval \<Rightarrow> client_exn + unit" where
  "validateMediaType v =
     (let refused = Inl (Client_type_error ''Blob index mediaType must be 1-1024 printable ASCII characters'');
          text = js_String v in
      if text = [] \<or> \<not> list_all (\<lambda>c. 0x20 \<le> (of_char c :: nat) \<and> (of_char c :: nat) \<le> 0x7e) text then refused
      else bindE (js_length_above v 1024) (\<lambda>above. if above then refused else Inr ()))"

fun sum_children :: "jsval list \<Rightarrow> nat \<Rightarrow> int \<Rightarrow> client_exn + int \<times> int list" where
  "sum_children [] index acc = Inr (acc, [])"
| "sum_children (child # rest) index acc =
     bindE (validateSafeSize child (''Blob index child '' @ show_nat index @ '' size'') False) (\<lambda>n.
     if \<not> isSafeInteger (acc + n) then Inl (Client_type_error ''Blob index child sizes overflow'')
     else bindE (sum_children rest (Suc index) (acc + n)) (\<lambda>(sum, ns). Inr (sum, n # ns)))"

definition validateBlobIndex :: "casBlobIndexV1 \<Rightarrow> client_exn + blobIndex" where
  "validateBlobIndex value =
     (if safe_integer (bi_version value) \<noteq> Some 1 then Inl (Client_type_error ''Blob index version must be 1'')
      else
      bindE (validateSafeSize (bi_level value) ''Blob index level'' True) (\<lambda>level.
      bindE (validateSafeSize (bi_size value) ''Blob index size'' False) (\<lambda>indexSize.
      bindE (validateMediaType (bi_mediaType value)) (\<lambda>_.
      if length (bi_children value) < 1 \<or> int (length (bi_children value)) > BlobIndexFanout
      then Inl (Client_type_error ''Blob index must contain 1-256 children'')
      else
      bindE (sum_children (bi_children value) 0 0) (\<lambda>(acc, children).
      if acc \<noteq> indexSize
      then Inl (Client_type_error (''Blob index size mismatch: expected '' @ show_int indexSize @ '', got '' @ show_int acc))
      else Inr \<lparr>ix_level = level, ix_size = indexSize, ix_mediaType = bi_mediaType value, ix_children = children\<rparr>)))))"

definition wireValue :: "casBlobIndexV1 \<Rightarrow> jsval" where
  "wireValue value = Obj [(''v'', bi_version value), (''l'', bi_level value), (''s'', bi_size value), (''m'', bi_mediaType value),
     (''c'', Arr (bi_children value))]"

text \<open>The CBOR codec: \<open>encode(v, rfc8949EncodeOptions)\<close> and \<open>decode(bytes)\<close>.\<close>

record cbor_codec =
  cbor_encode :: "jsval \<Rightarrow> bytes"
  cbor_decode :: "bytes \<Rightarrow> client_exn + jsval"

definition encodeBlobIndex :: "cbor_codec \<Rightarrow> casBlobIndexV1 \<Rightarrow> client_exn + bytes" where
  "encodeBlobIndex cbor value = bindE (validateBlobIndex value) (\<lambda>_. Inr (cbor_encode cbor (wireValue value)))"

definition decodeBlobIndex :: "cbor_codec \<Rightarrow> bytes \<Rightarrow> client_exn + blobIndex" where
  "decodeBlobIndex cbor bs =
     bindE (cbor_decode cbor bs) (\<lambda>decoded.
     case decoded of
       Obj kvs \<Rightarrow>
         if join '','' (sort (map fst (js_entries kvs))) \<noteq> ''c,l,m,s,v''
         then Inl (Client_type_error ''Blob index contains unknown or missing fields'')
         else (case js_get decoded ''c'' of
             Arr children \<Rightarrow>
               (let value = \<lparr>bi_version = js_get decoded ''v'', bi_level = js_get decoded ''l'', bi_size = js_get decoded ''s'',
                      bi_mediaType = js_get decoded ''m'', bi_children = children\<rparr> in
                bindE (validateBlobIndex value) (\<lambda>index.
                bindE (encodeBlobIndex cbor value) (\<lambda>again.
                if bs \<noteq> again then Inl (Client_type_error ''Blob index encoding is not canonical'') else Inr index)))
           | _ \<Rightarrow> Inl (Client_type_error ''Blob index children must be an array''))
     | _ \<Rightarrow> Inl (Client_type_error ''Blob index must be a CBOR map''))"

section \<open>Chunking\<close>

text \<open>
  \<open>chunkSource\<close>: the source's chunks are cut into pieces of \<open>chunkBytes\<close>.  \<open>used\<close> is the filled part
  of the buffer.  An item of the result is a piece or the error the source ended with.
\<close>

function chunk_value :: "nat \<Rightarrow> bytes \<Rightarrow> bytes \<Rightarrow> bytes list \<times> bytes" where
  "chunk_value chunkBytes used value =
     (if value = [] \<or> chunkBytes \<le> length used then ([], used)
      else
        let n = min (chunkBytes - length used) (length value);
            used' = used @ take n value in
        if length used' = chunkBytes
        then (case chunk_value chunkBytes [] (drop n value) of (pieces, rest) \<Rightarrow> (used' # pieces, rest))
        else chunk_value chunkBytes used' (drop n value))"
  by pat_completeness auto
termination
  by (relation "measure (\<lambda>(_, _, value). length value)") auto

declare chunk_value.simps [simp del]

fun chunk_loop :: "nat \<Rightarrow> bytes \<Rightarrow> bytes list \<Rightarrow> client_exn option \<Rightarrow> (client_exn + bytes) list" where
  "chunk_loop chunkBytes used [] failure =
     (case failure of Some e \<Rightarrow> [Inl e] | None \<Rightarrow> if used = [] then [] else [Inr used])"
| "chunk_loop chunkBytes used (value # source) failure =
     (case chunk_value chunkBytes used value of (pieces, used') \<Rightarrow>
        map Inr pieces @ chunk_loop chunkBytes used' source failure)"

definition chunkSource :: "nat \<Rightarrow> bytes list \<times> client_exn option \<Rightarrow> (client_exn + bytes) list" where
  "chunkSource chunkBytes source = chunk_loop chunkBytes [] (fst source) (snd source)"

section \<open>The index tree\<close>

record blobTreeNode =
  tn_hash :: string
  tn_size :: int
  tn_level :: int

text \<open>What \<open>createCasBlobClient\<close> closes over.\<close>

record 's blobClient =
  bc_cas :: "'s appCasClient"
  bc_fetcher :: "'s uploadFetcher"
  bc_sha256 :: "bytes \<Rightarrow> bytes"
  bc_cbor :: cbor_codec
  bc_spaceId :: string
  bc_chunkBytes :: nat
  bc_indexFanout :: nat

definition createCasBlobClient ::
  "'s appCasClient \<Rightarrow> 's uploadFetcher \<Rightarrow> (bytes \<Rightarrow> bytes) \<Rightarrow> cbor_codec \<Rightarrow> string \<Rightarrow> int option \<Rightarrow> int option
   \<Rightarrow> client_exn + 's blobClient" where
  "createCasBlobClient cas fetcher sha256 cbor space chunkOption fanoutOption =
     (let chunkBytes = (case chunkOption of Some n \<Rightarrow> n | None \<Rightarrow> BlobChunkBytes);
          indexFanout = (case fanoutOption of Some n \<Rightarrow> n | None \<Rightarrow> BlobIndexFanout) in
      if \<not> isSafeInteger chunkBytes \<or> chunkBytes \<le> 0 \<or> chunkBytes > BlobChunkBytes
      then Inl (Client_range_error ''Blob chunk size must be an integer between 1 and 33554432'')
      else if \<not> isSafeInteger indexFanout \<or> indexFanout < 2 \<or> indexFanout > BlobIndexFanout
      then Inl (Client_range_error ''Blob index fanout must be an integer between 2 and 256'')
      else Inr \<lparr>bc_cas = cas, bc_fetcher = fetcher, bc_sha256 = sha256, bc_cbor = cbor, bc_spaceId = space,
                bc_chunkBytes = nat chunkBytes, bc_indexFanout = nat indexFanout\<rparr>)"

definition storeNode ::
  "'s blobClient \<Rightarrow> bytes \<Rightarrow> string \<Rightarrow> string list \<Rightarrow> int option \<Rightarrow> ('s, client_exn, string) prog" where
  "storeNode c content contentType refs durationMs =
     storeNodeContent (bc_sha256 c) (bc_cas c) (bc_fetcher c) (bc_spaceId c) content contentType refs durationMs"

definition index_value :: "int \<Rightarrow> int \<Rightarrow> string \<Rightarrow> int list \<Rightarrow> casBlobIndexV1" where
  "index_value level indexSize mediaType sizes =
     \<lparr>bi_version = Number (Some 1) ''1'', bi_level = Number (Some level) (show_int level),
      bi_size = Number (Some indexSize) (show_int indexSize), bi_mediaType = Str mediaType,
      bi_children = map (\<lambda>n. Number (Some n) (show_int n)) sizes\<rparr>"

definition storeIndex ::
  "'s blobClient \<Rightarrow> blobTreeNode list \<Rightarrow> string \<Rightarrow> int option \<Rightarrow> ('s, client_exn, blobTreeNode) prog" where
  "storeIndex c children mediaType durationMs =
     (let level = tn_level (hd children) + 1 in
      if list_ex (\<lambda>child. tn_level child \<noteq> level - 1) children
      then throwM (Client_error ''Blob tree index children must have the same level'')
      else
        let indexSize = sum_list (map tn_size children) in
        bindM (liftM (encodeBlobIndex (bc_cbor c) (index_value level indexSize mediaType (map tn_size children)))) (\<lambda>content.
        bindM (storeNode c content BlobIndexContentType (map tn_hash children) durationMs) (\<lambda>hash.
        returnM \<lparr>tn_hash = hash, tn_size = indexSize, tn_level = level\<rparr>)))"

text \<open>\<open>groups[i]\<close> and \<open>groups[i] = g\<close> on a JavaScript array; a hole reads as an empty group.\<close>

definition group_at :: "blobTreeNode list list \<Rightarrow> nat \<Rightarrow> blobTreeNode list" where
  "group_at groups i = (if i < length groups then groups ! i else [])"

definition set_group :: "blobTreeNode list list \<Rightarrow> nat \<Rightarrow> blobTreeNode list \<Rightarrow> blobTreeNode list list" where
  "set_group groups i g = (groups @ replicate (Suc i - length groups) [])[i := g]"

fun appendTreeNode ::
  "nat \<Rightarrow> 's blobClient \<Rightarrow> blobTreeNode list list \<Rightarrow> blobTreeNode \<Rightarrow> string \<Rightarrow> int option
   \<Rightarrow> ('s, client_exn, blobTreeNode list list) prog" where
  "appendTreeNode 0 c groups node mediaType durationMs = throwM Out_of_fuel"
| "appendTreeNode (Suc fuel) c groups node mediaType durationMs =
     (let groupIndex = nat (tn_level node + 1);
          grp = group_at groups groupIndex @ [node];
          groups' = set_group groups groupIndex grp in
      if length grp = bc_indexFanout c
      then
        bindM (storeIndex c grp mediaType durationMs) (\<lambda>parent.
        appendTreeNode fuel c (set_group groups' groupIndex []) parent mediaType durationMs)
      else returnM groups')"

text \<open>The fuel of one insertion: every level that exists, and the one that may be added.\<close>

definition append_node ::
  "'s blobClient \<Rightarrow> blobTreeNode list list \<Rightarrow> blobTreeNode \<Rightarrow> string \<Rightarrow> int option
   \<Rightarrow> ('s, client_exn, blobTreeNode list list) prog" where
  "append_node c groups = appendTreeNode (length groups + 1) c groups"

text \<open>The populated groups with their indices, lowest first.\<close>

definition populated :: "blobTreeNode list list \<Rightarrow> (nat \<times> blobTreeNode list) list" where
  "populated groups = filter (\<lambda>(_, grp). grp \<noteq> []) (enumerate 0 groups)"

fun finish_loop ::
  "nat \<Rightarrow> 's blobClient \<Rightarrow> blobTreeNode list list \<Rightarrow> string \<Rightarrow> int option \<Rightarrow> ('s, client_exn, blobTreeNode) prog" where
  "finish_loop 0 c groups mediaType durationMs = throwM Out_of_fuel"
| "finish_loop (Suc fuel) c groups mediaType durationMs =
     (case populated groups of
        [] \<Rightarrow> throwM (Client_type_error ''Cannot read properties of undefined'')
      | (index, grp) # rest \<Rightarrow>
          if length grp + sum_list (map (\<lambda>(_, g). length g) rest) = 1 then returnM (hd grp)
          else
            bindM (storeIndex c grp mediaType durationMs) (\<lambda>parent.
            bindM (append_node c (set_group groups index []) parent mediaType durationMs) (\<lambda>groups'.
            finish_loop fuel c groups' mediaType durationMs)))"

definition finishTree ::
  "'s blobClient \<Rightarrow> blobTreeNode list list \<Rightarrow> string \<Rightarrow> int option \<Rightarrow> ('s, client_exn, blobTreeNode) prog" where
  "finishTree c groups = finish_loop (length groups + 1) c groups"

section \<open>Writing a blob\<close>

record casBlobRef =
  br_blobHash :: string
  br_blobSize :: int
  br_contentType :: jsval

definition assertExpectedSize :: "int option \<Rightarrow> int \<Rightarrow> client_exn + unit" where
  "assertExpectedSize expected actual =
     (if expected \<noteq> None \<and> expected \<noteq> Some actual
      then Inl (Client_error (''Blob size mismatch: expected '' @ show_int (the expected) @ '', got '' @ show_int actual))
      else Inr ())"

definition addChunk ::
  "'s blobClient \<Rightarrow> string \<Rightarrow> int option \<Rightarrow> blobTreeNode list list \<times> int \<Rightarrow> bytes
   \<Rightarrow> ('s, client_exn, blobTreeNode list list \<times> int) prog" where
  "addChunk c contentType durationMs state chunk =
     bindM (storeNode c chunk BlobChunkContentType [] durationMs) (\<lambda>hash.
     bindM (append_node c (fst state) \<lparr>tn_hash = hash, tn_size = int (length chunk), tn_level = -1\<rparr> contentType durationMs)
       (\<lambda>groups. returnM (groups, snd state + int (length chunk))))"

fun add_chunks ::
  "'s blobClient \<Rightarrow> string \<Rightarrow> int option \<Rightarrow> blobTreeNode list list \<times> int \<Rightarrow> (client_exn + bytes) list
   \<Rightarrow> ('s, client_exn, blobTreeNode list list \<times> int) prog" where
  "add_chunks c contentType durationMs state [] = returnM state"
| "add_chunks c contentType durationMs state (Inl e # _) = throwM e"
| "add_chunks c contentType durationMs state (Inr chunk # chunks) =
     bindM (addChunk c contentType durationMs state chunk) (\<lambda>state'.
     add_chunks c contentType durationMs state' chunks)"

text \<open>A blob of at most one chunk is one node of the blob's own content type.\<close>

definition store_single ::
  "'s blobClient \<Rightarrow> string \<Rightarrow> int option \<Rightarrow> int option \<Rightarrow> bytes \<Rightarrow> ('s, client_exn, casBlobRef) prog" where
  "store_single c contentType expected durationMs content =
     bindM (storeNode c content contentType [] durationMs) (\<lambda>hash.
     bindM (liftM (assertExpectedSize expected (int (length content)))) (\<lambda>_.
     returnM \<lparr>br_blobHash = hash, br_blobSize = int (length content), br_contentType = Str contentType\<rparr>))"

definition storeBlob ::
  "'s blobClient \<Rightarrow> bytes list \<times> client_exn option \<Rightarrow> string \<Rightarrow> int option \<Rightarrow> int option \<Rightarrow> ('s, client_exn, casBlobRef) prog" where
  "storeBlob c source contentType expected durationMs =
     (case chunkSource (bc_chunkBytes c) source of
        [] \<Rightarrow> store_single c contentType expected durationMs []
      | Inl e # _ \<Rightarrow> throwM e
      | Inr first # rest \<Rightarrow>
          (case rest of
             [] \<Rightarrow> store_single c contentType expected durationMs first
           | Inl e # _ \<Rightarrow> throwM e
           | Inr second # further \<Rightarrow>
               bindM (add_chunks c contentType durationMs ([], 0) (Inr first # Inr second # further)) (\<lambda>(groups, measuredSize).
               bindM (finishTree c groups contentType durationMs) (\<lambda>root.
               bindM (liftM (assertExpectedSize expected measuredSize)) (\<lambda>_.
               returnM \<lparr>br_blobHash = tn_hash root, br_blobSize = measuredSize, br_contentType = Str contentType\<rparr>)))))"

section \<open>Reading a blob\<close>

text \<open>\<open>===\<close> on values: arrays and objects are compared by identity.\<close>

definition strict_equal :: "jsval \<Rightarrow> jsval \<Rightarrow> bool" where
  "strict_equal a b \<longleftrightarrow> a = b \<and> (case a of Arr _ \<Rightarrow> False | Obj _ \<Rightarrow> False | _ \<Rightarrow> True)"

definition validateLeaf :: "string \<Rightarrow> string list \<Rightarrow> string \<Rightarrow> int option \<Rightarrow> client_exn + unit" where
  "validateLeaf hash refs contentType expectedLevel =
     (if length refs \<noteq> 0 then Inl (Client_error (''CAS node '' @ hash @ '' is not a blob leaf''))
      else if expectedLevel \<noteq> None \<and> (expectedLevel \<noteq> Some (-1) \<or> contentType \<noteq> BlobChunkContentType)
      then Inl (Client_error (''Blob tree leaf '' @ hash @ '' has an invalid type or level''))
      else Inr ())"

definition validateIndex :: "string \<Rightarrow> blobIndex \<Rightarrow> nat \<Rightarrow> int option \<Rightarrow> jsval \<Rightarrow> client_exn + unit" where
  "validateIndex hash index refCount expectedLevel expectedMediaType =
     (if \<not> strict_equal (ix_mediaType index) expectedMediaType
         \<or> expectedLevel \<noteq> None \<and> expectedLevel \<noteq> Some (ix_level index)
         \<or> length (ix_children index) \<noteq> refCount
      then Inl (Client_error (''Blob index '' @ hash @ '' metadata is inconsistent'')) else Inr ())"

definition validateRange :: "nodeRange \<Rightarrow> client_exn + unit" where
  "validateRange rng =
     (if \<not> isSafeInteger (fst rng) \<or> fst rng < 0
      then Inl (Client_type_error ''Blob range offset must be a non-negative safe integer'')
      else (case snd rng of
          None \<Rightarrow> Inr ()
        | Some n \<Rightarrow> if \<not> isSafeInteger n \<or> n < 0
                    then Inl (Client_type_error ''Blob range length must be a non-negative safe integer'') else Inr ()))"

definition read_index :: "'s blobClient \<Rightarrow> string \<Rightarrow> ('s, client_exn, blobIndex) prog" where
  "read_index c hash =
     bindM (ac_readContent (bc_cas c) (bc_spaceId c) hash None) (\<lambda>chunks.
     liftM (decodeBlobIndex (bc_cbor c) (concat chunks)))"

definition resolveBlobRef :: "'s blobClient \<Rightarrow> string \<Rightarrow> ('s, client_exn, casBlobRef) prog" where
  "resolveBlobRef c hash =
     bindM (ac_readMetadata (bc_cas c) (bc_spaceId c) hash) (\<lambda>metadata.
     if cm_contentType metadata \<noteq> BlobIndexContentType then
       (if length (cm_refs metadata) \<noteq> 0 then throwM (Client_error (''CAS node '' @ hash @ '' is not a blob root''))
        else returnM \<lparr>br_blobHash = hash, br_blobSize = cm_size metadata, br_contentType = Str (cm_contentType metadata)\<rparr>)
     else
       bindM (read_index c hash) (\<lambda>index.
       if length (ix_children index) \<noteq> length (cm_refs metadata)
       then throwM (Client_error (''Blob index '' @ hash @ '' child metadata does not match its CAS refs''))
       else returnM \<lparr>br_blobHash = hash, br_blobSize = ix_size index, br_contentType = ix_mediaType index\<rparr>))"

text \<open>\<open>for (...) yield* f(x)\<close>.\<close>

fun yield_all :: "('a \<Rightarrow> ('s, 'e, bytes list) prog) \<Rightarrow> 'a list \<Rightarrow> ('s, 'e, bytes list) prog" where
  "yield_all f [] = returnM []"
| "yield_all f (x # xs) = bindM (f x) (\<lambda>chunks. bindM (yield_all f xs) (\<lambda>further. returnM (chunks @ further)))"

fun blob_readNode :: "nat \<Rightarrow> 's blobClient \<Rightarrow> string \<Rightarrow> int option \<Rightarrow> jsval \<Rightarrow> ('s, client_exn, bytes list) prog" where
  "blob_readNode 0 c hash expectedLevel expectedMediaType = throwM Out_of_fuel"
| "blob_readNode (Suc fuel) c hash expectedLevel expectedMediaType =
     bindM (ac_readMetadata (bc_cas c) (bc_spaceId c) hash) (\<lambda>metadata.
     if cm_contentType metadata \<noteq> BlobIndexContentType then
       bindM (liftM (validateLeaf hash (cm_refs metadata) (cm_contentType metadata) expectedLevel)) (\<lambda>_.
       ac_readContent (bc_cas c) (bc_spaceId c) hash None)
     else
       bindM (read_index c hash) (\<lambda>index.
       bindM (liftM (validateIndex hash index (length (cm_refs metadata)) expectedLevel expectedMediaType)) (\<lambda>_.
       yield_all (\<lambda>child. blob_readNode fuel c child (Some (ix_level index - 1)) expectedMediaType) (cm_refs metadata))))"

text \<open>The loop over the children of an index, with the running start of the child.\<close>

fun range_children ::
  "(string \<Rightarrow> int \<Rightarrow> int \<Rightarrow> ('s, 'e, bytes list) prog) \<Rightarrow> int \<Rightarrow> int \<Rightarrow> int \<Rightarrow> (int \<times> string) list \<Rightarrow> ('s, 'e, bytes list) prog" where
  "range_children f offset stop childStart [] = returnM []"
| "range_children f offset stop childStart ((childSize, hash) # rest) =
     (let childEnd = childStart + childSize;
          intersectionStart = max offset childStart;
          intersectionEnd = min stop childEnd in
      bindM (if intersectionStart < intersectionEnd
             then f hash (intersectionStart - childStart) (intersectionEnd - intersectionStart) else returnM []) (\<lambda>chunks.
      if childEnd \<ge> stop then returnM chunks
      else bindM (range_children f offset stop childEnd rest) (\<lambda>further. returnM (chunks @ further))))"

fun readRangeNode ::
  "nat \<Rightarrow> 's blobClient \<Rightarrow> string \<Rightarrow> int \<Rightarrow> int \<Rightarrow> int option \<Rightarrow> jsval \<Rightarrow> ('s, client_exn, bytes list) prog" where
  "readRangeNode 0 c hash offset len expectedLevel expectedMediaType = throwM Out_of_fuel"
| "readRangeNode (Suc fuel) c hash offset len expectedLevel expectedMediaType =
     bindM (ac_readMetadata (bc_cas c) (bc_spaceId c) hash) (\<lambda>metadata.
     if cm_contentType metadata \<noteq> BlobIndexContentType then
       bindM (liftM (validateLeaf hash (cm_refs metadata) (cm_contentType metadata) expectedLevel)) (\<lambda>_.
       ac_readContent (bc_cas c) (bc_spaceId c) hash (Some (offset, Some len)))
     else
       bindM (read_index c hash) (\<lambda>index.
       bindM (liftM (validateIndex hash index (length (cm_refs metadata)) expectedLevel expectedMediaType)) (\<lambda>_.
       range_children (\<lambda>child o' l'. readRangeNode fuel c child o' l' (Some (ix_level index - 1)) expectedMediaType)
         offset (offset + len) 0 (zip (ix_children index) (cm_refs metadata)))))"

text \<open>
  The handle of an opened blob: \<open>read()\<close>, \<open>read(range)\<close> and \<open>readBytes(range)\<close>.  The fuel is
  a bound on the depth of the tree.
\<close>

definition read_full :: "nat \<Rightarrow> 's blobClient \<Rightarrow> casBlobRef \<Rightarrow> ('s, client_exn, bytes list) prog" where
  "read_full fuel c ref = blob_readNode fuel c (br_blobHash ref) None (br_contentType ref)"

definition read_ranged :: "nat \<Rightarrow> 's blobClient \<Rightarrow> casBlobRef \<Rightarrow> nodeRange \<Rightarrow> ('s, client_exn, bytes list) prog" where
  "read_ranged fuel c ref rng =
     bindM (liftM (validateRange rng)) (\<lambda>_.
     if fst rng > br_blobSize ref then throwM (Client_range_error ''Blob range offset exceeds blob size'')
     else
       let len = min (case snd rng of Some n \<Rightarrow> n | None \<Rightarrow> br_blobSize ref - fst rng) (br_blobSize ref - fst rng) in
       if len = 0 then returnM []
       else readRangeNode fuel c (br_blobHash ref) (fst rng) len None (br_contentType ref))"

definition openBlob_read :: "nat \<Rightarrow> 's blobClient \<Rightarrow> string \<Rightarrow> nodeRange option \<Rightarrow> ('s, client_exn, bytes) prog" where
  "openBlob_read fuel c hash rng =
     bindM (resolveBlobRef c hash) (\<lambda>ref.
     bindM (case rng of None \<Rightarrow> read_full fuel c ref | Some r \<Rightarrow> read_ranged fuel c ref r) (\<lambda>chunks.
     returnM (concat chunks)))"

section \<open>Retention\<close>

fun retention_changes :: "(string \<times> jsval) list \<Rightarrow> int \<Rightarrow> client_exn + (string \<times> int) list" where
  "retention_changes [] direction = Inr []"
| "retention_changes ((hash, count) # rest) direction =
     (case safe_integer count of
        Some n \<Rightarrow>
          if n \<le> 0 then Inl (Client_type_error (''Blob reference count for '' @ hash @ '' must be a positive safe integer''))
          else bindE (retention_changes rest direction) (\<lambda>changes. Inr ((hash, direction * n) # changes))
      | None \<Rightarrow> Inl (Client_type_error (''Blob reference count for '' @ hash @ '' must be a positive safe integer'')))"

definition updateRetention ::
  "'s blobClient \<Rightarrow> string \<Rightarrow> (string \<times> jsval) list \<Rightarrow> int \<Rightarrow> ('s, client_exn, casRootRefsResult) prog" where
  "updateRetention c requestId references direction =
     bindM (liftM (retention_changes (js_entries references) direction)) (\<lambda>changes.
     ac_updateRootRefs (bc_cas c) (bc_spaceId c) requestId changes)"

end
