(* ===== verification/Blob_Correct.thy ===== *)
theory Blob_Correct
  imports Blob_Client Cf_Node_Read
begin

text \<open>
  What is stored is what is read: over any node-level client that keeps its promises
  (\<open>cas_client\<close>), the blob a \<open>storeBlob\<close> returns reads back, whole or in part, as the bytes that
  were stored, whatever the chunk size, the fanout and the shape of the tree.
\<close>

section \<open>Canonical nodes determine their parts\<close>

lemma le_bytes_inject:
  assumes "le_bytes n a = le_bytes n b" and "0 \<le> a" "a < 256 ^ n" "0 \<le> b" "b < 256 ^ n"
  shows "a = b"
  using arg_cong [OF assms(1), of le_value] assms(2-5) by (simp add: le_value_le_bytes)

lemma content_type_bytes:
  assumes "validateContentType ct = Inr ()"
  shows "length (textEncode ct) = length ct" and "length ct \<le> 1024" and "asciiDecode (textEncode ct) = ct"
  using assms by (simp_all add: validateContentType_ok length_textEncode_ascii asciiDecode_textEncode printable_is_ascii)

lemma node_bytes_inject:
  assumes eq: "node_bytes ct hs content = node_bytes ct' hs' content'"
    and types: "validateContentType ct = Inr ()" "validateContentType ct' = Inr ()"
    and few: "length hs \<le> 256" "length hs' \<le> 256"
    and hashes: "\<forall>h \<in> set hs. length h = HASH_SIZE" "\<forall>h \<in> set hs'. length h = HASH_SIZE"
  shows "ct = ct' \<and> hs = hs' \<and> content = content'"
proof -
  have header: "encodeHeader (int (length content)) ct (int (length hs)) = encodeHeader (int (length content')) ct' (int (length hs'))"
    and rest: "textEncode ct @ concat hs @ content = textEncode ct' @ concat hs' @ content'"
    using eq by (simp_all add: node_bytes_def node_prefix_def)
  have "le_bytes 4 (int (length hs)) = le_bytes 4 (int (length hs'))"
    and len2: "le_bytes 2 (int (length (textEncode ct))) = le_bytes 2 (int (length (textEncode ct')))"
    using header by (simp_all add: encodeHeader_def)
  then have len: "length hs = length hs'" "length (textEncode ct) = length (textEncode ct')"
    using le_bytes_inject [of 4 "int (length hs)" "int (length hs')"]
      le_bytes_inject [of 2 "int (length (textEncode ct))" "int (length (textEncode ct'))"]
      few content_type_bytes [OF types(1)] content_type_bytes [OF types(2)] by simp_all
  then have "textEncode ct = textEncode ct'" and rest': "concat hs @ content = concat hs' @ content'" using rest by simp_all
  moreover have "concat hs = concat hs' \<and> hs = hs' \<and> content = content'"
  proof -
    have size_of: "length (concat xs) = HASH_SIZE * length xs" if "\<forall>h \<in> set xs. length h = HASH_SIZE" for xs :: "bytes list"
      using that by (induction xs) auto
    have same: "concat hs = concat hs'" "content = content'" using rest' len size_of [OF hashes(1)] size_of [OF hashes(2)] by auto
    have "\<forall>(x, y) \<in> set (zip hs hs'). length x = length y" using hashes by (fastforce dest: set_zip_leftD set_zip_rightD)
    then have "hs = hs'" using same(1) len(1) concat_injective by blast
    then show ?thesis using same by simp
  qed
  ultimately show ?thesis using content_type_bytes(3) [OF types(1)] content_type_bytes(3) [OF types(2)] by metis
qed

lemma hex_mapE:
  assumes "\<forall>h \<in> set hs. length h = HASH_SIZE"
  shows "mapE (\<lambda>ref. codecE (hexToHash ref)) (hex_of_hashes hs) = Inr hs"
  using assms by (induction hs) (simp_all add: hex_of_hashes_def codecE_def hexToHash_hex)

lemma encodeCanonicalNode_eq:
  assumes "\<forall>h \<in> set hs. length h = HASH_SIZE"
  shows "encodeCanonicalNode sha256 content ct (hex_of_hashes hs)
    = bindE (codecE (hashToHex (sha256 (node_bytes ct hs content)))) (\<lambda>hash. Inr (hash, node_bytes ct hs content))"
proof -
  let ?header = "encodeHeader (int (length content)) ct (int (length hs))"
  note whole = concatenate_is_node_bytes [OF assms, of content ct]
  have "computeNodeDigest sha256 ?header ct hs content
      = bindE (concatenateNodeBytes ?header (textEncode ct) hs content) (\<lambda>node. Inr (sha256 node))"
    by (simp add: computeNodeDigest_def concatenateNodeBytes_def Let_def bindE_def split: sum.splits prod.splits)
  then show ?thesis
    unfolding encodeCanonicalNode_def hex_mapE [OF assms] bindE_simps Let_def whole
    by (simp add: codecE_def bindE_def split: sum.splits)
qed

section \<open>The promises of the node-level client\<close>

type_synonym cas_node = "string \<times> string list \<times> bytes"

definition node_ext :: "('s \<Rightarrow> string \<Rightarrow> cas_node option) \<Rightarrow> 's \<Rightarrow> 's \<Rightarrow> bool" where
  "node_ext node s s' \<longleftrightarrow> (\<forall>h n. node s h = Some n \<longrightarrow> node s' h = Some n)"

lemma node_ext_refl: "node_ext node s s"
  by (simp add: node_ext_def)

lemma node_ext_trans: "node_ext node s s' \<Longrightarrow> node_ext node s' s'' \<Longrightarrow> node_ext node s s''"
  by (simp add: node_ext_def)

definition lease_is_ready :: "spaceNodeLeaseResult \<Rightarrow> bool" where
  "lease_is_ready r \<longleftrightarrow> (case r of Lease_ready _ _ _ \<Rightarrow> True | _ \<Rightarrow> False)"

text \<open>
  \<open>node s h\<close> is the node the Space serves under \<open>h\<close>.  A lease that answers \<open>ready\<close> means the
  node is there; nothing that is there is lost; and, for a digest without collisions, the node
  lives under its own digest and reads return it.  Every call may fail at any time.
\<close>

locale cas_client =
  fixes cas :: "'s appCasClient" and fetcher :: "'s uploadFetcher" and sha256 :: "bytes \<Rightarrow> bytes" and space :: string
    and inv :: "'s \<Rightarrow> bool" and node :: "'s \<Rightarrow> string \<Rightarrow> cas_node option"
  assumes lease_law: "inv s \<Longrightarrow> wp (ac_leaseNode cas space h d)
      (\<lambda>r s'. inv s' \<and> node_ext node s s' \<and> (lease_is_ready r \<longrightarrow> node s' h \<noteq> None))
      (\<lambda>e s'. inv s' \<and> node_ext node s s' \<and> e \<noteq> Out_of_fuel) s"
    and upload_law: "inv s \<Longrightarrow> wp (fetcher u b) (\<lambda>_ s'. inv s' \<and> node_ext node s s')
      (\<lambda>e s'. inv s' \<and> node_ext node s s' \<and> e \<noteq> Out_of_fuel) s"
    and metadata_law: "inv s \<Longrightarrow> node s h = Some (ct, refs, content) \<Longrightarrow> collision_free_at sha256 h \<Longrightarrow> wp (ac_readMetadata cas space h)
      (\<lambda>m s'. inv s' \<and> node_ext node s s' \<and> cm_contentType m = ct \<and> cm_refs m = refs \<and> cm_size m = int (length content))
      (\<lambda>e s'. inv s' \<and> node_ext node s s' \<and> e \<noteq> Out_of_fuel) s"
    and content_law: "inv s \<Longrightarrow> node s h = Some (ct, refs, content) \<Longrightarrow> collision_free_at sha256 h \<Longrightarrow> content \<noteq> [] \<Longrightarrow> wp (ac_readContent cas space h None)
      (\<lambda>chunks s'. inv s' \<and> node_ext node s s' \<and> concat chunks = content)
      (\<lambda>e s'. inv s' \<and> node_ext node s s' \<and> e \<noteq> Out_of_fuel) s"
    and range_law: "inv s \<Longrightarrow> node s h = Some (ct, refs, content) \<Longrightarrow> collision_free_at sha256 h \<Longrightarrow> 0 \<le> off \<Longrightarrow> 0 < len \<Longrightarrow> off + len \<le> int (length content)
      \<Longrightarrow> wp (ac_readContent cas space h (Some (off, Some len)))
      (\<lambda>chunks s'. inv s' \<and> node_ext node s s' \<and> concat chunks = take (nat len) (drop (nat off) content))
      (\<lambda>e s'. inv s' \<and> node_ext node s s' \<and> e \<noteq> Out_of_fuel) s"
    and digest_law: "inv s \<Longrightarrow> node s h = Some (ct, refs, content) \<Longrightarrow> collision_free_at sha256 h \<Longrightarrow> \<exists>hs. refs = hex_of_hashes hs
      \<and> node_shape (int (length content)) ct hs \<and> hashToHex (sha256 (node_bytes ct hs content)) = Inr h"
    and hash_law: "inv s \<Longrightarrow> node s h \<noteq> None \<Longrightarrow> validateHash h = Inr ()"

begin

text \<open>A call that keeps what is stored, with a result in \<open>Q\<close>; and no stored node has a digest collision.\<close>

definition keeps :: "'s \<Rightarrow> ('s, client_exn, 'a) prog \<Rightarrow> ('a \<Rightarrow> 's \<Rightarrow> bool) \<Rightarrow> bool" where
  "keeps s m Q \<longleftrightarrow> wp m (\<lambda>x s'. inv s' \<and> node_ext node s s' \<and> Q x s') (\<lambda>e s'. inv s' \<and> node_ext node s s' \<and> e \<noteq> Out_of_fuel) s"

definition clean :: "'s \<Rightarrow> bool" where
  "clean s \<longleftrightarrow> (\<forall>h. node s h \<noteq> None \<longrightarrow> collision_free_at sha256 h)"

lemma clean_earlier: "clean s' \<Longrightarrow> node_ext node s s' \<Longrightarrow> clean s"
  unfolding clean_def node_ext_def by blast

lemma keeps_return: "inv s \<Longrightarrow> Q x s \<Longrightarrow> keeps s (returnM x) Q"
  by (simp add: keeps_def wp_simps node_ext_refl)

lemma keeps_throw: "inv s \<Longrightarrow> e \<noteq> Out_of_fuel \<Longrightarrow> keeps s (throwM e) Q"
  by (simp add: keeps_def wp_simps node_ext_refl)

lemma keeps_bind:
  assumes "keeps s m P" and "\<And>x s'. inv s' \<Longrightarrow> node_ext node s s' \<Longrightarrow> P x s' \<Longrightarrow> keeps s' (f x) (\<lambda>y s''. node_ext node s s'' \<longrightarrow> Q y s'')"
  shows "keeps s (bindM m f) Q"
  unfolding keeps_def wp_bindM
proof (rule wp_mono [OF assms(1) [unfolded keeps_def]])
  fix x s'
  assume a: "inv s' \<and> node_ext node s s' \<and> P x s'"
  then have "keeps s' (f x) (\<lambda>y s''. node_ext node s s'' \<longrightarrow> Q y s'')" using assms(2) by blast
  then show "wp (f x) (\<lambda>x s'. inv s' \<and> node_ext node s s' \<and> Q x s') (\<lambda>e s'. inv s' \<and> node_ext node s s' \<and> e \<noteq> Out_of_fuel) s'"
    unfolding keeps_def by (rule wp_mono) (use a in \<open>auto intro: node_ext_trans\<close>)
qed

lemma keeps_mono:
  assumes "keeps s m P" and "\<And>x s'. inv s' \<Longrightarrow> node_ext node s s' \<Longrightarrow> P x s' \<Longrightarrow> Q x s'"
  shows "keeps s m Q"
  unfolding keeps_def by (rule wp_mono [OF assms(1) [unfolded keeps_def]]) (simp_all add: assms(2))

lemma keeps_lift:
  assumes "inv s" and "\<And>e. r = Inl e \<Longrightarrow> e \<noteq> Out_of_fuel" and "\<And>x. r = Inr x \<Longrightarrow> Q x s"
  shows "keeps s (liftM r) Q"
  using assms by (cases r) (simp_all add: keeps_def wp_liftM node_ext_refl)

lemma keeps_forM:
  assumes "inv s" and "\<And>x s. x \<in> set xs \<Longrightarrow> inv s \<Longrightarrow> keeps s (f x) (\<lambda>_ _. True)"
  shows "keeps s (forM xs f) (\<lambda>_ _. True)"
  using assms
proof (induction xs arbitrary: s)
  case Nil
  then show ?case by (simp add: keeps_return)
next
  case (Cons x xs)
  have "keeps s (f x) (\<lambda>_ _. True)" using Cons.prems by simp
  then show ?case unfolding forM.simps by (rule keeps_bind) (use Cons in \<open>auto intro: keeps_mono\<close>)
qed

section \<open>Storing a node\<close>

lemma lease_keeps: "inv s \<Longrightarrow> keeps s (ac_leaseNode cas space h d) (\<lambda>r s'. lease_is_ready r \<longrightarrow> node s' h \<noteq> None)"
  using lease_law unfolding keeps_def .

lemma lease_child_keeps: "inv s \<Longrightarrow> keeps s (lease_child cas space d h) (\<lambda>_ _. True)"
  unfolding lease_child_def
  by (rule keeps_bind [OF lease_keeps]) (auto intro: keeps_return keeps_throw split: spaceNodeLeaseResult.splits)

lemma put_keeps: "inv s \<Longrightarrow> keeps s (put_node fetcher u b) (\<lambda>_ _. True)"
  unfolding put_node_def
proof (rule keeps_bind [where P = "\<lambda>_ _. True"])
  show "inv s \<Longrightarrow> keeps s (fetcher u b) (\<lambda>_ _. True)" using upload_law [of s u b] by (simp add: keeps_def)
qed (auto intro: keeps_return keeps_throw)

lemma attempts_keep:
  assumes "inv s" and "lease_is_ready r \<longrightarrow> node s h \<noteq> None"
  shows "keeps s (upload_attempts n cas fetcher space h b d r uploaded) (\<lambda>_ s'. node s' h \<noteq> None)"
  using assms
proof (induction n arbitrary: s r uploaded)
  case 0
  then show ?case by (auto simp: rejection_error_def intro: keeps_throw split: spaceNodeLeaseResult.splits)
next
  case (Suc n)
  have again: "keeps s (bindM (ac_leaseNode cas space h d) (\<lambda>r'. upload_attempts n cas fetcher space h b d r' u))
      (\<lambda>_ s'. node s' h \<noteq> None)" if "inv s" for s u
    by (rule keeps_bind [OF lease_keeps [OF that]]) (use Suc.IH in \<open>blast intro: keeps_mono\<close>)
  have put: "keeps s (bindM (put_node fetcher u b) (\<lambda>_. bindM (ac_leaseNode cas space h d)
      (\<lambda>r'. upload_attempts n cas fetcher space h b d r' True))) (\<lambda>_ s'. node s' h \<noteq> None)" for u
    by (rule keeps_bind [OF put_keeps [OF Suc.prems(1)]]) (use again in \<open>blast intro: keeps_mono\<close>)
  have kids: "keeps s (bindM (forM cs (lease_child cas space d)) (\<lambda>_. bindM (ac_leaseNode cas space h d)
      (\<lambda>r'. upload_attempts n cas fetcher space h b d r' uploaded))) (\<lambda>_ s'. node s' h \<noteq> None)" for cs
    by (rule keeps_bind [OF keeps_forM [OF Suc.prems(1) lease_child_keeps]]) (use again in \<open>blast intro: keeps_mono\<close>)+
  show ?case
    using put kids Suc.prems
    by (auto simp: Let_def lease_is_ready_def rejection_error_def intro: keeps_return keeps_throw split: spaceNodeLeaseResult.splits)
qed

lemma storeNodeContent_keeps:
  assumes ok: "inv s" and ct: "validateContentType ct = Inr ()" and hs: "\<forall>h \<in> set hs. length h = HASH_SIZE" "length hs \<le> 256"
  shows "keeps s (storeNodeContent sha256 cas fetcher space content ct (hex_of_hashes hs) d)
    (\<lambda>h s'. node s' h \<noteq> None \<and> (clean s' \<longrightarrow> node s' h = Some (ct, hex_of_hashes hs, content)))"
  unfolding storeNodeContent_def
proof (rule keeps_bind [where P = "\<lambda>(h, b :: bytes) _. hashToHex (sha256 (node_bytes ct hs content)) = Inr h"])
  show "keeps s (liftM (encodeCanonicalNode sha256 content ct (hex_of_hashes hs)))
      (\<lambda>(h, b :: bytes) _. hashToHex (sha256 (node_bytes ct hs content)) = Inr h)"
    by (rule keeps_lift [OF ok])
      (auto simp: encodeCanonicalNode_eq [OF hs(1)] bindE_eq_Inl codecE_def map_sum_def split: sum.splits)
  fix x :: "string \<times> bytes" and s1
  assume ok1: "inv s1" and x: "(\<lambda>(h, b) _. hashToHex (sha256 (node_bytes ct hs content)) = Inr h) x s1"
  obtain h b where hb: "x = (h, b)" by (cases x)
  have here: "node s' h = Some (ct, hex_of_hashes hs, content)" if there: "inv s'" "node s' h \<noteq> None" "clean s'" for s'
  proof -
    obtain ct' refs' content' where n: "node s' h = Some (ct', refs', content')" using there(2) by (cases "node s' h") auto
    have free: "collision_free_at sha256 h" using there(3) n by (simp add: clean_def)
    from digest_law [OF there(1) n free] obtain hs' where d: "refs' = hex_of_hashes hs'" "node_shape (int (length content')) ct' hs'"
      "hashToHex (sha256 (node_bytes ct' hs' content')) = Inr h" by blast
    have "node_bytes ct hs content = node_bytes ct' hs' content'"
      using free d(3) x by (auto simp: collision_free_at_def hb)
    then have "ct = ct' \<and> hs = hs' \<and> content = content'"
      by (rule node_bytes_inject) (use ct hs d(2) in \<open>simp_all add: node_shape_def\<close>)
    then show ?thesis using n d(1) by simp
  qed
  have "keeps s1 (client_uploadCanonicalNode cas fetcher space h b d) (\<lambda>_ s'. node s' h \<noteq> None)"
    unfolding client_uploadCanonicalNode_def Let_def
    by (rule keeps_bind [OF lease_keeps [OF ok1]]) (use attempts_keep in \<open>blast intro: keeps_mono\<close>)
  then have "keeps s1 (bindM (client_uploadCanonicalNode cas fetcher space h b d) (\<lambda>_. returnM h))
      (\<lambda>h' s'. h' = h \<and> node s' h \<noteq> None)"
    by (rule keeps_bind) (auto intro: keeps_return)
  then show "keeps s1 (case x of (h, b) \<Rightarrow> bindM (client_uploadCanonicalNode cas fetcher space h b d) (\<lambda>_. returnM h))
      (\<lambda>y s''. node_ext node s s'' \<longrightarrow> node s'' y \<noteq> None \<and> (clean s'' \<longrightarrow> node s'' y = Some (ct, hex_of_hashes hs, content)))"
    unfolding hb prod.case by (rule keeps_mono) (use here in blast)
qed

end

end
