(* ===== verification/Blob_Tree.thy ===== *)
theory Blob_Tree
  imports Blob_Correct
begin

text \<open>
  The tree of chunks and indices behind a blob: what it is, that reading it returns the blob's
  bytes, and that writing a blob builds one.
\<close>

section \<open>Indices\<close>

text \<open>
  What the CBOR package documents: an encoded map is not empty and decodes to a map with the
  same entries.
\<close>

definition cbor_ok :: "cbor_codec \<Rightarrow> bool" where
  "cbor_ok cbor \<longleftrightarrow> (\<forall>value index. validateBlobIndex value = Inr index \<longrightarrow>
     cbor_encode cbor (wireValue value) \<noteq> [] \<and>
     (\<exists>kvs. cbor_decode cbor (cbor_encode cbor (wireValue value)) = Inr (Obj kvs) \<and> distinct (map fst kvs)
        \<and> set kvs = {(''v'', bi_version value), (''l'', bi_level value), (''s'', bi_size value), (''m'', bi_mediaType value),
                     (''c'', Arr (bi_children value))}))"

lemma js_get_unique: "distinct (map fst kvs) \<Longrightarrow> (k, v) \<in> set kvs \<Longrightarrow> js_get (Obj kvs) k = v"
  by (simp add: js_get_def map_of_is_SomeI rev_map [symmetric])

lemma decode_encode_index:
  assumes cbor: "cbor_ok cbor" and enc: "encodeBlobIndex cbor value = Inr bs"
  shows "\<exists>index. validateBlobIndex value = Inr index \<and> decodeBlobIndex cbor bs = Inr index \<and> bs \<noteq> []"
proof -
  obtain index where v: "validateBlobIndex value = Inr index" "bs = cbor_encode cbor (wireValue value)"
    using enc by (auto simp: encodeBlobIndex_def)
  then obtain kvs where kvs: "cbor_decode cbor bs = Inr (Obj kvs)" "distinct (map fst kvs)" "bs \<noteq> []"
    "set kvs = {(''v'', bi_version value), (''l'', bi_level value), (''s'', bi_size value), (''m'', bi_mediaType value),
       (''c'', Arr (bi_children value))}"
    using cbor unfolding cbor_ok_def by metis
  have keys: "sort (map fst (js_entries kvs)) = [''c'', ''l'', ''m'', ''s'', ''v'']"
  proof (rule sorted_distinct_set_unique)
    have "set (map fst (js_entries kvs)) = fst ` set kvs" by (simp add: js_entries_def image_image)
    also have "\<dots> = set [''c'', ''l'', ''m'', ''s'', ''v'']" by (auto simp: kvs(4))
    finally show "set (sort (map fst (js_entries kvs))) = set [''c'', ''l'', ''m'', ''s'', ''v'']" by simp
    show "sorted [''c'', ''l'', ''m'', ''s'', ''v'']" by code_simp
  qed (simp_all add: js_entries_distinct)
  have "js_get (Obj kvs) ''v'' = bi_version value" "js_get (Obj kvs) ''l'' = bi_level value" "js_get (Obj kvs) ''s'' = bi_size value"
    "js_get (Obj kvs) ''m'' = bi_mediaType value" "js_get (Obj kvs) ''c'' = Arr (bi_children value)"
    by (rule js_get_unique [OF kvs(2)]; simp add: kvs(4))+
  then have "decodeBlobIndex cbor bs = Inr index"
    unfolding decodeBlobIndex_def kvs(1) using keys enc v(1) by (cases "value") (simp add: Let_def)
  then show ?thesis using v(1) kvs(3) by blast
qed

lemma sum_children_ints:
  "sum_children (map (\<lambda>n. Number (Some n) (show_int n)) ns) i t = Inr (u, ms) \<Longrightarrow> ms = ns \<and> u = t + sum_list ns"
  by (induction ns arbitrary: i t u ms)
    (fastforce simp: validateSafeSize_def safe_integer_def Let_def split: if_splits)+

lemma validate_index_value:
  assumes "validateBlobIndex (index_value level n m sizes) = Inr index"
  shows "index = \<lparr>ix_level = level, ix_size = n, ix_mediaType = Str m, ix_children = sizes\<rparr>"
    and "0 \<le> level" and "n = sum_list sizes" and "length sizes \<le> 256" and "sizes \<noteq> []"
proof -
  have index: "index = \<lparr>ix_level = level, ix_size = n, ix_mediaType = Str m, ix_children = sizes\<rparr>
      \<and> 0 \<le> level \<and> n = sum_list sizes \<and> length sizes \<le> 256 \<and> sizes \<noteq> []"
    using assms sum_children_ints [of sizes 0 0]
    by (auto simp: validateBlobIndex_def index_value_def validateSafeSize_def safe_integer_def Let_def BlobIndexFanout_def
        split: if_splits option.splits prod.splits)
  then show "index = \<lparr>ix_level = level, ix_size = n, ix_mediaType = Str m, ix_children = sizes\<rparr>"
    and "0 \<le> level" and "n = sum_list sizes" and "length sizes \<le> 256" and "sizes \<noteq> []" by simp_all
qed

section \<open>Trees\<close>

text \<open>\<open>blob_tree N cbor m h level data\<close>: under \<open>h\<close> hangs a tree of depth \<open>level\<close> with the bytes \<open>data\<close>.\<close>

inductive blob_tree ::
  "(string \<Rightarrow> cas_node option) \<Rightarrow> cbor_codec \<Rightarrow> string \<Rightarrow> string \<Rightarrow> int \<Rightarrow> bytes \<Rightarrow> bool" for N cbor m where
  blob_leaf: "N h = Some (BlobChunkContentType, [], chunk) \<Longrightarrow> chunk \<noteq> [] \<Longrightarrow> blob_tree N cbor m h (-1) chunk"
| blob_index: "N h = Some (BlobIndexContentType, map fst kids, content)
    \<Longrightarrow> encodeBlobIndex cbor (index_value level n m (map (\<lambda>k. int (length (snd k))) kids)) = Inr content
    \<Longrightarrow> (\<And>k. k \<in> set kids \<Longrightarrow> blob_tree N cbor m (fst k) (level - 1) (snd k))
    \<Longrightarrow> blob_tree N cbor m h level (concat (map snd kids))"

lemma blob_tree_mono:
  assumes "blob_tree N cbor m h level bs" and "\<And>h n. N h = Some n \<Longrightarrow> N' h = Some n"
  shows "blob_tree N' cbor m h level bs"
  using assms(1) by induction (blast intro: blob_leaf blob_index assms(2))+

lemma blob_tree_level: "blob_tree N cbor m h level bs \<Longrightarrow> - 1 \<le> level"
  by (induction rule: blob_tree.induct) (auto simp: encodeBlobIndex_def dest: validate_index_value(2))

lemma blob_tree_nonempty:
  assumes "blob_tree N cbor m h level bs"
  shows "bs \<noteq> []"
  using assms
proof induction
  case (blob_index h kids content level n)
  then have "map (\<lambda>k. int (length (snd k))) kids \<noteq> []" by (auto simp: encodeBlobIndex_def dest: validate_index_value(5))
  then show ?case using blob_index.IH by (cases kids) auto
qed simp

section \<open>Reading\<close>

context cas_client
begin

definition blob_client :: "cbor_codec \<Rightarrow> nat \<Rightarrow> nat \<Rightarrow> 's blobClient" where
  "blob_client cbor chunkBytes fanout = \<lparr>bc_cas = cas, bc_fetcher = fetcher, bc_sha256 = sha256, bc_cbor = cbor, bc_spaceId = space,
     bc_chunkBytes = chunkBytes, bc_indexFanout = fanout\<rparr>"

text \<open>A node that is there, under a digest without collisions.\<close>

definition served :: "'s \<Rightarrow> string \<Rightarrow> cas_node \<Rightarrow> bool" where
  "served s h n \<longleftrightarrow> node s h = Some n \<and> collision_free_at sha256 h"

lemma metadata_keeps: "inv s \<Longrightarrow> served s h (ct, refs, content) \<Longrightarrow> keeps s (ac_readMetadata cas space h)
    (\<lambda>m s'. cm_contentType m = ct \<and> cm_refs m = refs \<and> cm_size m = int (length content))"
  using metadata_law unfolding keeps_def served_def by blast

lemma content_keeps: "inv s \<Longrightarrow> served s h (ct, refs, content) \<Longrightarrow> content \<noteq> [] \<Longrightarrow>
    keeps s (ac_readContent cas space h None) (\<lambda>chunks s'. concat chunks = content)"
  using content_law unfolding keeps_def served_def by blast

lemma range_keeps: "inv s \<Longrightarrow> served s h (ct, refs, content) \<Longrightarrow> 0 \<le> off \<Longrightarrow> 0 < len \<Longrightarrow> off + len \<le> int (length content) \<Longrightarrow>
    keeps s (ac_readContent cas space h (Some (off, Some len))) (\<lambda>chunks s'. concat chunks = take (nat len) (drop (nat off) content))"
  using range_law unfolding keeps_def served_def by blast

lemma served_later: "node_ext node s s' \<Longrightarrow> served s h n \<Longrightarrow> served s' h n"
  by (simp add: node_ext_def served_def)

lemma node_later: "node_ext node s s' \<Longrightarrow> node s h = Some n \<Longrightarrow> node s' h = Some n"
  by (simp add: node_ext_def)

lemma tree_later: "node_ext node s s' \<Longrightarrow> blob_tree (node s) cbor m h level bs \<Longrightarrow> blob_tree (node s') cbor m h level bs"
  by (erule blob_tree_mono) (simp add: node_ext_def)

text \<open>Reading an index node returns the index that was encoded.\<close>

lemma index_keeps:
  assumes ok: "inv s" and cbor: "cbor_ok cbor" and n: "served s h (BlobIndexContentType, refs, content)"
    and enc: "encodeBlobIndex cbor (index_value level n' m sizes) = Inr content"
  shows "keeps s (read_index (blob_client cbor k f) h)
    (\<lambda>index _. index = \<lparr>ix_level = level, ix_size = n', ix_mediaType = Str m, ix_children = sizes\<rparr>)"
proof -
  obtain index where i: "validateBlobIndex (index_value level n' m sizes) = Inr index" "decodeBlobIndex cbor content = Inr index" "content \<noteq> []"
    using decode_encode_index [OF cbor enc] by blast
  show ?thesis
    unfolding read_index_def blob_client_def blobClient.simps
    by (rule keeps_bind [OF content_keeps [OF ok n i(3)]])
      (use i validate_index_value(1) [OF i(1)] in \<open>auto intro!: keeps_lift\<close>)
qed

lemma yield_keeps:
  assumes "inv s" and "\<And>x s'. x \<in> set xs \<Longrightarrow> inv s' \<Longrightarrow> node_ext node s s' \<Longrightarrow> keeps s' (f (fst x)) (\<lambda>chunks _. concat chunks = snd x)"
  shows "keeps s (yield_all f (map fst xs)) (\<lambda>chunks _. concat chunks = concat (map snd xs))"
  using assms
proof (induction xs arbitrary: s)
  case Nil
  then show ?case by (simp add: keeps_return)
next
  case (Cons x xs)
  have first: "keeps s (f (fst x)) (\<lambda>chunks _. concat chunks = snd x)" using Cons.prems(2) [OF _ Cons.prems(1) node_ext_refl] by simp
  have rest: "keeps s' (yield_all f (map fst xs)) (\<lambda>chunks _. concat chunks = concat (map snd xs))"
    if "inv s'" "node_ext node s s'" for s'
    by (rule Cons.IH [OF that(1)]) (use Cons.prems(2) that node_ext_trans in \<open>simp add: node_ext_trans\<close>)
  show ?case
    unfolding list.map yield_all.simps
    by (rule keeps_bind [OF first], rule keeps_bind [OF rest]) (auto intro: keeps_return)
qed

text \<open>The nodes of a tree in \<open>N\<close> are served in state \<open>s\<close>.\<close>

definition serves_all :: "(string \<Rightarrow> cas_node option) \<Rightarrow> 's \<Rightarrow> bool" where
  "serves_all N s \<longleftrightarrow> (\<forall>h n. N h = Some n \<longrightarrow> served s h n)"

lemma serves_later: "serves_all N s \<Longrightarrow> node_ext node s s' \<Longrightarrow> serves_all N s'"
  using served_later by (auto simp: serves_all_def)

lemma read_tree:
  assumes cbor: "cbor_ok cbor" and tree: "blob_tree N cbor m h level bs"
  shows "inv s \<Longrightarrow> serves_all N s \<Longrightarrow> nat (level + 2) \<le> fuel \<Longrightarrow> expected = None \<or> expected = Some level
    \<Longrightarrow> keeps s (blob_readNode fuel (blob_client cbor k f) h expected (Str m)) (\<lambda>chunks _. concat chunks = bs)"
  using tree
proof (induction arbitrary: s fuel expected)
  case (blob_leaf h chunk)
  then obtain n where fuel: "fuel = Suc n" by (cases fuel) auto
  have leaf: "BlobChunkContentType \<noteq> BlobIndexContentType" by (simp add: BlobChunkContentType_def BlobIndexContentType_def)
  have here: "served s h (BlobChunkContentType, [], chunk)" using blob_leaf by (simp add: serves_all_def)
  have body: "keeps s' (ac_readContent cas space h None) (\<lambda>chunks s''. node_ext node s s'' \<longrightarrow> concat chunks = chunk)"
    if "inv s'" "node_ext node s s'" for s'
    by (rule keeps_mono [OF content_keeps [OF that(1) served_later [OF that(2) here] blob_leaf.hyps(2)]]) simp
  show ?case
    unfolding fuel blob_readNode.simps blob_client_def blobClient.simps
    by (rule keeps_bind [OF metadata_keeps [OF blob_leaf.prems(1) here]])
      (use leaf blob_leaf.prems(4) body in \<open>auto simp: validateLeaf_def keeps_def wp_bindM wp_liftM\<close>)
next
  case (blob_index h kids content level n)
  let ?c = "blob_client cbor k f" and ?index = "\<lparr>ix_level = level, ix_size = n, ix_mediaType = Str m,
    ix_children = map (\<lambda>k. int (length (snd k))) kids\<rparr>"
  have "0 \<le> level" using blob_index.hyps(2) by (auto simp: encodeBlobIndex_def dest: validate_index_value(2))
  then obtain g where fuel: "fuel = Suc g" and g: "nat (level - 1 + 2) \<le> g" using blob_index.prems(3) by (cases fuel) auto
  have here: "served s h (BlobIndexContentType, map fst kids, content)" using blob_index by (simp add: serves_all_def)
  have kid: "keeps s' (blob_readNode g ?c (fst x) (Some (level - 1)) (Str m)) (\<lambda>chunks _. concat chunks = snd x)"
    if "x \<in> set kids" "inv s'" "serves_all N s'" for x s'
    by (rule blob_index.IH [OF that g]) simp
  have all: "keeps s' (yield_all (\<lambda>child. blob_readNode g ?c child (Some (level - 1)) (Str m)) (map fst kids))
      (\<lambda>chunks _. concat chunks = concat (map snd kids))" if "inv s'" "node_ext node s s'" for s'
    using that(1)
  proof (rule yield_keeps)
    fix x s''
    assume "x \<in> set kids" "inv s''" "node_ext node s' s''"
    then show "keeps s'' (blob_readNode g ?c (fst x) (Some (level - 1)) (Str m)) (\<lambda>chunks _. concat chunks = snd x)"
      using kid serves_later [OF serves_later [OF blob_index.prems(2) that(2)]] by blast
  qed
  have valid: "validateIndex h ?index (length kids) expected (Str m) = Inr ()"
    using blob_index.prems(4) by (auto simp: validateIndex_def strict_equal_def)
  have tail: "keeps s' (bindM (read_index ?c h) (\<lambda>index. bindM (liftM (validateIndex h index (length kids) expected (Str m)))
      (\<lambda>_. yield_all (\<lambda>child. blob_readNode g ?c child (Some (ix_level index - 1)) (Str m)) (map fst kids))))
      (\<lambda>chunks s''. node_ext node s s'' \<longrightarrow> concat chunks = concat (map snd kids))" if "inv s'" "node_ext node s s'" for s'
  proof (rule keeps_bind [OF index_keeps [OF that(1) cbor served_later [OF that(2) here] blob_index.hyps(2)]])
    fix index s1
    assume a: "inv s1" "node_ext node s' s1" "index = ?index"
    note result = all [OF a(1) node_ext_trans [OF that(2) a(2)]]
    show "keeps s1 (bindM (liftM (validateIndex h index (length kids) expected (Str m)))
      (\<lambda>_. yield_all (\<lambda>child. blob_readNode g ?c child (Some (ix_level index - 1)) (Str m)) (map fst kids)))
      (\<lambda>chunks s''. node_ext node s' s'' \<longrightarrow> node_ext node s s'' \<longrightarrow> concat chunks = concat (map snd kids))"
      using result valid unfolding a(3) keeps_def wp_bindM wp_liftM by (auto elim: wp_mono)
  qed
  show ?case
    unfolding fuel blob_readNode.simps
    by (rule keeps_bind [where P = "\<lambda>md _. cm_contentType md = BlobIndexContentType \<and> cm_refs md = map fst kids"])
      (use tail keeps_mono [OF metadata_keeps [OF blob_index.prems(1) here]] in \<open>auto simp: blob_client_def\<close>)
qed

end

section \<open>Reading a range\<close>

lemma drop_take_append:
  "drop a (take b (xs @ ys)) = drop a (take b xs) @ drop (a - length xs) (take (b - length xs) ys)"
  by (cases "b \<le> length xs") simp_all

context cas_client
begin

text \<open>
  The loop over the children, started at \<open>start\<close>, returns the part of their bytes between
  \<open>offset\<close> and \<open>stop\<close>.
\<close>

lemma range_children_keeps:
  assumes "inv s" and "0 \<le> offset" and "offset < stop" and "0 \<le> start"
    and "\<And>x s' a l. x \<in> set kids \<Longrightarrow> inv s' \<Longrightarrow> node_ext node s s' \<Longrightarrow> 0 \<le> a \<Longrightarrow> 0 < l \<Longrightarrow> a + l \<le> int (length (snd x))
      \<Longrightarrow> keeps s' (g (fst x) a l) (\<lambda>chunks _. concat chunks = take (nat l) (drop (nat a) (snd x)))"
  shows "keeps s (range_children g offset stop start (zip (map (\<lambda>x. int (length (snd x))) kids) (map fst kids)))
    (\<lambda>chunks _. concat chunks = drop (nat (offset - start)) (take (nat (stop - start)) (concat (map snd kids))))"
  using assms(1,4,5)
proof (induction kids arbitrary: s start)
  case Nil
  then show ?case by (simp add: keeps_return)
next
  case (Cons x kids)
  define n where "n = int (length (snd x))"
  define a where "a = max offset start - start"
  define l where "l = min stop (start + n) - max offset start"
  have n0: "0 \<le> n" by (simp add: n_def)
  have part: "drop (nat (offset - start)) (take (nat (stop - start)) (snd x)) = (if 0 < l then take (nat l) (drop (nat a) (snd x)) else [])"
  proof (cases "0 < l")
    case True
    then have "nat (stop - start) - nat (offset - start) = nat l \<or> length (snd x) - nat (offset - start) = nat l \<and> length (snd x) \<le> nat (stop - start)"
      and "nat a = nat (offset - start)"
      using n0 by (auto simp: l_def a_def n_def min_def max_def split: if_splits)
    then show ?thesis using True by (auto simp: drop_take) (metis diff_le_mono)
  next
    case False
    then have "nat (stop - start) \<le> nat (offset - start) \<or> length (snd x) \<le> nat (offset - start)"
      using assms(3) n0 by (auto simp: l_def n_def min_def max_def split: if_splits)
    then show ?thesis using False by auto
  qed
  have head: "keeps s (if max offset start < min stop (start + n) then g (fst x) a l else returnM [])
      (\<lambda>chunks _. concat chunks = drop (nat (offset - start)) (take (nat (stop - start)) (snd x)))"
  proof (cases "0 < l")
    case True
    then have "0 \<le> a" "a + l \<le> int (length (snd x))" by (auto simp: a_def l_def n_def)
    then have "keeps s (g (fst x) a l) (\<lambda>chunks _. concat chunks = take (nat l) (drop (nat a) (snd x)))"
      using Cons.prems(3) [OF _ Cons.prems(1) node_ext_refl] True by simp
    then show ?thesis using True part by (simp add: l_def)
  next
    case False
    then have "\<not> max offset start < min stop (start + n)" by (simp add: l_def)
    then show ?thesis using False part Cons.prems(1) by (auto intro: keeps_return)
  qed
  have rest: "keeps s' (range_children g offset stop (start + n) (zip (map (\<lambda>x. int (length (snd x))) kids) (map fst kids)))
      (\<lambda>chunks _. concat chunks = drop (nat (offset - start) - length (snd x)) (take (nat (stop - start) - length (snd x)) (concat (map snd kids))))"
    if "inv s'" "node_ext node s s'" for s'
  proof -
    have eq: "nat (offset - (start + n)) = nat (offset - start) - length (snd x)" "nat (stop - (start + n)) = nat (stop - start) - length (snd x)"
      by (simp_all add: n_def nat_diff_distrib')
    show ?thesis
      using Cons.IH [OF that(1), of "start + n"] Cons.prems(2,3) n0 node_ext_trans [OF that(2)] unfolding eq by simp
  qed
  have over: "nat (stop - start) - length (snd x) = 0" if "stop \<le> start + n"
    using that by (simp add: n_def)
  show ?case
    unfolding list.map zip_Cons_Cons range_children.simps Let_def n_def [symmetric] a_def [symmetric] l_def [symmetric] concat.simps drop_take_append
    by (rule keeps_bind [OF head]) (use over in \<open>auto intro!: keeps_return keeps_bind [OF rest]\<close>)
qed

lemma read_range_tree:
  assumes cbor: "cbor_ok cbor" and tree: "blob_tree N cbor m h level bs"
  shows "inv s \<Longrightarrow> serves_all N s \<Longrightarrow> nat (level + 2) \<le> fuel \<Longrightarrow> expected = None \<or> expected = Some level
    \<Longrightarrow> 0 \<le> off \<Longrightarrow> 0 < len \<Longrightarrow> off + len \<le> int (length bs)
    \<Longrightarrow> keeps s (readRangeNode fuel (blob_client cbor k f) h off len expected (Str m))
          (\<lambda>chunks _. concat chunks = take (nat len) (drop (nat off) bs))"
  using tree
proof (induction arbitrary: s fuel expected off len)
  case (blob_leaf h chunk)
  then obtain n where fuel: "fuel = Suc n" by (cases fuel) auto
  have leaf: "BlobChunkContentType \<noteq> BlobIndexContentType" by (simp add: BlobChunkContentType_def BlobIndexContentType_def)
  have here: "served s h (BlobChunkContentType, [], chunk)" using blob_leaf by (simp add: serves_all_def)
  have body: "keeps s' (ac_readContent cas space h (Some (off, Some len)))
      (\<lambda>chunks s''. node_ext node s s'' \<longrightarrow> concat chunks = take (nat len) (drop (nat off) chunk))"
    if "inv s'" "node_ext node s s'" for s'
    by (rule keeps_mono [OF range_keeps [OF that(1) served_later [OF that(2) here] blob_leaf.prems(5-7)]]) simp
  show ?case
    unfolding fuel readRangeNode.simps blob_client_def blobClient.simps
    by (rule keeps_bind [OF metadata_keeps [OF blob_leaf.prems(1) here]])
      (use leaf blob_leaf.prems(4) body in \<open>auto simp: validateLeaf_def keeps_def wp_bindM wp_liftM\<close>)
next
  case (blob_index h kids content level n)
  let ?c = "blob_client cbor k f" and ?sizes = "map (\<lambda>x. int (length (snd x))) kids"
  let ?index = "\<lparr>ix_level = level, ix_size = n, ix_mediaType = Str m, ix_children = ?sizes\<rparr>"
  let ?call = "\<lambda>child o' l'. readRangeNode (fuel - 1) ?c child o' l' (Some (level - 1)) (Str m)"
  let ?part = "take (nat len) (drop (nat off) (concat (map snd kids)))"
  have "0 \<le> level" using blob_index.hyps(2) by (auto simp: encodeBlobIndex_def dest: validate_index_value(2))
  then obtain g where fuel: "fuel = Suc g" and g: "nat (level - 1 + 2) \<le> g" using blob_index.prems(3) by (cases fuel) auto
  have here: "served s h (BlobIndexContentType, map fst kids, content)" using blob_index by (simp add: serves_all_def)
  have slice: "drop (nat (off - 0)) (take (nat (off + len - 0)) (concat (map snd kids))) = ?part"
    using blob_index.prems(5,6) by (simp add: drop_take nat_add_distrib)
  have all: "keeps s' (range_children ?call off (off + len) 0 (zip ?sizes (map fst kids))) (\<lambda>chunks _. concat chunks = ?part)"
    if "inv s'" "node_ext node s s'" for s'
    unfolding slice [symmetric]
  proof (rule range_children_keeps [OF that(1) blob_index.prems(5)])
    fix x s'' a l
    assume x: "x \<in> set kids" "inv s''" "node_ext node s' s''" "0 \<le> a" "0 < l" "a + l \<le> int (length (snd x))"
    then show "keeps s'' (?call (fst x) a l) (\<lambda>chunks _. concat chunks = take (nat l) (drop (nat a) (snd x)))"
      using blob_index.IH [OF x(1,2) serves_later [OF serves_later [OF blob_index.prems(2) that(2)] x(3)] g _ x(4-6)]
      by (simp add: fuel)
  qed (use blob_index.prems in simp_all)
  have valid: "validateIndex h ?index (length kids) expected (Str m) = Inr ()"
    using blob_index.prems(4) by (auto simp: validateIndex_def strict_equal_def)
  have tail: "keeps s' (bindM (read_index ?c h) (\<lambda>index. bindM (liftM (validateIndex h index (length kids) expected (Str m)))
      (\<lambda>_. range_children (\<lambda>child o' l'. readRangeNode g ?c child o' l' (Some (ix_level index - 1)) (Str m)) off (off + len) 0
             (zip (ix_children index) (map fst kids)))))
      (\<lambda>chunks s''. node_ext node s s'' \<longrightarrow> concat chunks = ?part)" if "inv s'" "node_ext node s s'" for s'
  proof (rule keeps_bind [OF index_keeps [OF that(1) cbor served_later [OF that(2) here] blob_index.hyps(2)]])
    fix index s1
    assume a: "inv s1" "node_ext node s' s1" "index = ?index"
    note result = all [OF a(1) node_ext_trans [OF that(2) a(2)]]
    show "keeps s1 (bindM (liftM (validateIndex h index (length kids) expected (Str m)))
      (\<lambda>_. range_children (\<lambda>child o' l'. readRangeNode g ?c child o' l' (Some (ix_level index - 1)) (Str m)) off (off + len) 0
             (zip (ix_children index) (map fst kids))))
      (\<lambda>chunks s''. node_ext node s' s'' \<longrightarrow> node_ext node s s'' \<longrightarrow> concat chunks = ?part)"
      using result valid unfolding a(3) keeps_def wp_bindM wp_liftM by (auto simp: fuel elim: wp_mono)
  qed
  show ?case
    unfolding fuel readRangeNode.simps
    by (rule keeps_bind [where P = "\<lambda>md _. cm_contentType md = BlobIndexContentType \<and> cm_refs md = map fst kids"])
      (use tail keeps_mono [OF metadata_keeps [OF blob_index.prems(1) here]] in \<open>auto simp: blob_client_def\<close>)
qed

end

end
