(* ===== verification/Blob_Write.thy ===== *)
theory Blob_Write
  imports Blob_Tree
begin

text \<open>
  Writing a blob: the pieces a source is cut into, the groups of subtrees that wait for their
  parent, and the tree that is left when the source has ended.
\<close>

section \<open>Pieces\<close>

lemma chunk_value_ok:
  assumes "length used < chunkBytes" and "chunk_value chunkBytes used bs = (pieces, rest)"
  shows "concat pieces @ rest = used @ bs" and "length rest < chunkBytes" and "\<forall>p \<in> set pieces. length p = chunkBytes"
proof -
  have "concat pieces @ rest = used @ bs \<and> length rest < chunkBytes \<and> (\<forall>p \<in> set pieces. length p = chunkBytes)"
    using assms
  proof (induction chunkBytes used bs arbitrary: pieces rest rule: chunk_value.induct)
    case (1 chunkBytes used bs)
    define n where "n = min (chunkBytes - length used) (length bs)"
    show ?case
    proof (cases "bs = []")
      case True
      then show ?thesis using 1(3,4) by (simp add: chunk_value.simps [of chunkBytes used "[]"])
    next
      case False
      have busy: "\<not> (bs = [] \<or> chunkBytes \<le> length used)" using False 1(3) by simp
      have step: "chunk_value chunkBytes used bs = (if length (used @ take n bs) = chunkBytes
          then (case chunk_value chunkBytes [] (drop n bs) of (pieces, rest) \<Rightarrow> ((used @ take n bs) # pieces, rest))
          else chunk_value chunkBytes (used @ take n bs) (drop n bs))"
        unfolding n_def by (subst chunk_value.simps) (simp only: busy Let_def if_False)
      show ?thesis
      proof (cases "length (used @ take n bs) = chunkBytes")
        case True
        obtain ps r where ps: "chunk_value chunkBytes [] (drop n bs) = (ps, r)" by fastforce
        then have out: "pieces = (used @ take n bs) # ps" "rest = r" using 1(4) unfolding step if_P [OF True] by simp_all
        have "concat ps @ r = [] @ drop n bs \<and> length r < chunkBytes \<and> (\<forall>p \<in> set ps. length p = chunkBytes)"
          using busy by (intro 1(1) [OF busy n_def refl True _ ps]) auto
        then show ?thesis unfolding out using True by simp
      next
        case len: False
        then have rec: "chunk_value chunkBytes (used @ take n bs) (drop n bs) = (pieces, rest)" using 1(4) unfolding step by simp
        have "length (used @ take n bs) < chunkBytes" using len busy by (simp add: n_def min_def split: if_splits)
        from 1(2) [OF busy n_def refl len this rec] show ?thesis by simp
      qed
    qed
  qed
  then show "concat pieces @ rest = used @ bs" and "length rest < chunkBytes" and "\<forall>p \<in> set pieces. length p = chunkBytes" by simp_all
qed

lemma chunk_loop_ok:
  assumes "length used < chunkBytes"
  shows "\<exists>ps. chunk_loop chunkBytes used source failure = map Inr ps @ (case failure of Some e \<Rightarrow> [Inl e] | None \<Rightarrow> [])
    \<and> (\<forall>p \<in> set ps. p \<noteq> [] \<and> length p \<le> chunkBytes) \<and> (\<forall>p \<in> set (butlast ps). length p = chunkBytes) \<and> (failure = None \<longrightarrow> concat ps = used @ concat source)"
  using assms
proof (induction source arbitrary: used)
  case Nil
  show ?case
    by (rule exI [of _ "if failure = None \<and> used \<noteq> [] then [used] else []"]) (use Nil in \<open>auto split: option.splits\<close>)
next
  case (Cons bs source)
  obtain pieces rest where v: "chunk_value chunkBytes used bs = (pieces, rest)" by fastforce
  note ok = chunk_value_ok [OF Cons.prems v]
  obtain ps where ps: "chunk_loop chunkBytes rest source failure = map Inr ps @ (case failure of Some e \<Rightarrow> [Inl e] | None \<Rightarrow> [])"
    "\<forall>p \<in> set ps. p \<noteq> [] \<and> length p \<le> chunkBytes" "failure = None \<longrightarrow> concat ps = rest @ concat source"
    "\<forall>p \<in> set (butlast ps). length p = chunkBytes"
    using Cons.IH [OF ok(2)] by blast
  have "\<forall>p \<in> set pieces. p \<noteq> [] \<and> length p \<le> chunkBytes" using ok(3) Cons.prems by auto
  moreover have "failure = None \<longrightarrow> concat (pieces @ ps) = used @ concat (bs # source)"
    using ps(3) ok(1) by (metis append.assoc concat.simps(2) concat_append)
  moreover have "\<forall>p \<in> set (butlast (pieces @ ps)). length p = chunkBytes"
    using ok(3) ps(4) by (auto simp: butlast_append dest: in_set_butlastD split: if_splits)
  ultimately show ?case using ps by (intro exI [of _ "pieces @ ps"]) (auto simp: v)
qed

lemma chunkSource_ok:
  assumes "0 < chunkBytes"
  shows "\<exists>ps. chunkSource chunkBytes (source, failure) = map Inr ps @ (case failure of Some e \<Rightarrow> [Inl e] | None \<Rightarrow> [])
    \<and> (\<forall>p \<in> set ps. p \<noteq> [] \<and> length p \<le> chunkBytes) \<and> (\<forall>p \<in> set (butlast ps). length p = chunkBytes) \<and> (failure = None \<longrightarrow> concat ps = concat source)"
  using chunk_loop_ok [of "[]" chunkBytes source failure] assms by (simp add: chunkSource_def)

section \<open>Groups\<close>

lemma set_group_in: "i < length groups \<Longrightarrow> set_group groups i g = groups[i := g]"
  by (simp add: set_group_def)

lemma set_group_end: "set_group groups (length groups) g = groups @ [g]"
  by (simp add: set_group_def list_update_append)

text \<open>The bytes of all groups, the highest level first.\<close>

definition whole :: "bytes list list \<Rightarrow> bytes" where
  "whole dss = concat (map concat (rev dss))"

definition above :: "nat \<Rightarrow> bytes list list \<Rightarrow> bytes" where
  "above i dss = whole (drop (Suc i) dss)"

lemma whole_below:
  assumes "i < length dss" and "\<forall>j < i. dss ! j = []"
  shows "whole dss = above i dss @ concat (dss ! i)"
proof -
  have empty: "concat (map concat (rev xs)) = []" if "\<forall>x \<in> set xs. x = []" for xs :: "bytes list list"
    using that by (induction xs) auto
  have "\<forall>x \<in> set (take i dss). x = []" using assms by (auto simp: in_set_conv_nth)
  moreover have "dss = take i dss @ dss ! i # drop (Suc i) dss" using assms(1) by (simp add: id_take_nth_drop)
  then have "whole dss = whole (take i dss @ dss ! i # drop (Suc i) dss)" by simp
  then have "whole dss = above i dss @ concat (dss ! i) @ concat (map concat (rev (take i dss)))"
    by (simp add: whole_def above_def)
  ultimately show ?thesis using empty by simp
qed

lemma above_update [simp]: "above i (dss[i := e]) = above i dss"
  by (simp add: above_def)

lemma whole_snoc_group: "whole (dss @ [e]) = concat e @ whole dss"
  by (simp add: whole_def)

lemma whole_empty: "\<forall>j < length dss. dss ! j = [] \<Longrightarrow> whole dss = []"
proof -
  assume "\<forall>j < length dss. dss ! j = []"
  then have "\<forall>x \<in> set dss. x = []" by (auto simp: in_set_conv_nth)
  then show ?thesis by (induction dss) (auto simp: whole_def)
qed

text \<open>The lowest populated group, and the number of subtrees in all groups.\<close>

lemma populated_from:
  assumes "filter (\<lambda>(_, g). g \<noteq> []) (enumerate k groups) = (i, g) # rest"
  shows "k \<le> i \<and> i - k < length groups \<and> g = groups ! (i - k) \<and> g \<noteq> [] \<and> (\<forall>j < i - k. groups ! j = [])"
  using assms
proof (induction groups arbitrary: k)
  case (Cons h groups)
  show ?case
  proof (cases "h = []")
    case True
    then have "filter (\<lambda>(_, g). g \<noteq> []) (enumerate (Suc k) groups) = (i, g) # rest" using Cons.prems by simp
    note ih = Cons.IH [OF this]
    then have next_i: "i - k = Suc (i - Suc k)" using Suc_diff_le [of "Suc k" i] by simp
    show ?thesis unfolding next_i using ih True by (auto simp: less_Suc_eq_0_disj)
  next
    case False
    then show ?thesis using Cons.prems by simp
  qed
qed simp

lemma populated_lowest:
  "populated groups = (i, g) # rest \<Longrightarrow> i < length groups \<and> g = groups ! i \<and> g \<noteq> [] \<and> (\<forall>j < i. groups ! j = [])"
  unfolding populated_def by (drule populated_from) auto

lemma populated_count_from:
  "sum_list (map (\<lambda>(_, g). length g) (filter (\<lambda>(_, g). g \<noteq> []) (enumerate k groups))) = sum_list (map length groups)"
  by (induction groups arbitrary: k) auto

lemma populated_count: "sum_list (map (\<lambda>(_, g). length g) (populated groups)) = sum_list (map length groups)"
  by (simp add: populated_def populated_count_from)

lemma one_subtree:
  assumes "i < length groups" and "groups ! i \<noteq> []" and "sum_list (map length groups) = 1" and "j < length groups" and "j \<noteq> i"
  shows "groups ! j = []"
proof -
  have "sum_list (map length groups) = (\<Sum>l < length groups. length (groups ! l))"
    by (simp add: sum_list_sum_nth atLeast0LessThan)
  also have "\<dots> = length (groups ! i) + (\<Sum>l \<in> {..<length groups} - {i}. length (groups ! l))"
    using assms(1) by (subst sum.remove [of _ i]) auto
  finally have "(\<Sum>l \<in> {..<length groups} - {i}. length (groups ! l)) = 0"
    using assms(2,3) by (cases "groups ! i") auto
  then show ?thesis using assms(4,5) by simp
qed

lemma only_top_count:
  assumes "length groups = Suc j" and "\<forall>l < j. groups ! l = []" and "length (groups ! j) = 1"
  shows "sum_list (map length groups) = 1"
proof -
  have "sum_list (map length groups) = (\<Sum>l < Suc j. length (groups ! l))"
    using assms(1) by (simp add: sum_list_sum_nth atLeast0LessThan)
  then show ?thesis using assms(2,3) by simp
qed

section \<open>Building the tree\<close>

lemma fixed_types:
  "validateContentType BlobChunkContentType = Inr ()" "validateContentType BlobIndexContentType = Inr ()"
  by (simp_all add: validateContentType_ok BlobChunkContentType_def BlobIndexContentType_def is_printable_ascii_def)

lemma validateSafeSize_fuel: "validateSafeSize v name z = Inl e \<Longrightarrow> e \<noteq> Out_of_fuel"
  by (auto simp: validateSafeSize_def Let_def split: option.splits if_splits)

lemma sum_children_fuel: "sum_children vs i t = Inl e \<Longrightarrow> e \<noteq> Out_of_fuel"
  by (induction vs arbitrary: i t)
    (auto simp: bindE_eq_Inl dest: validateSafeSize_fuel split: if_splits prod.splits)

lemma encodeBlobIndex_fuel: "encodeBlobIndex cbor v = Inl e \<Longrightarrow> e \<noteq> Out_of_fuel"
  by (auto simp: encodeBlobIndex_def validateBlobIndex_def validateMediaType_def js_length_above_def Let_def bindE_eq_Inl
      dest: validateSafeSize_fuel sum_children_fuel split: if_splits prod.splits jsval.splits)

text \<open>What \<open>read(range)\<close> is to return.\<close>

definition range_of :: "nodeRange option \<Rightarrow> bytes \<Rightarrow> bytes" where
  "range_of rng bs = (case rng of None \<Rightarrow> bs
     | Some (off, len) \<Rightarrow> take (nat (case len of Some n \<Rightarrow> n | None \<Rightarrow> int (length bs))) (drop (nat off) bs))"

definition range_ok :: "nodeRange option \<Rightarrow> bytes \<Rightarrow> bool" where
  "range_ok rng bs \<longleftrightarrow> (case rng of None \<Rightarrow> True
     | Some (off, len) \<Rightarrow> validateRange (off, len) = Inr () \<and> off \<le> int (length bs))"

context cas_client
begin

text \<open>The subtree \<open>n\<close> waits in group \<open>i\<close> and holds the bytes \<open>d\<close>; a leaf holds at most \<open>k\<close> of them.\<close>

definition node_rep :: "cbor_codec \<Rightarrow> string \<Rightarrow> nat \<Rightarrow> 's \<Rightarrow> nat \<Rightarrow> blobTreeNode \<Rightarrow> bytes \<Rightarrow> bool" where
  "node_rep cbor m k s i n d \<longleftrightarrow> tn_level n = int i - 1 \<and> tn_size n = int (length d) \<and> node s (tn_hash n) \<noteq> None
     \<and> (clean s \<longrightarrow> blob_tree (node s) cbor m (tn_hash n) (int i - 1) d) \<and> (i = 0 \<longrightarrow> length d \<le> k)"

definition groups_rep :: "cbor_codec \<Rightarrow> string \<Rightarrow> nat \<Rightarrow> nat \<Rightarrow> 's \<Rightarrow> blobTreeNode list list \<Rightarrow> bytes list list \<Rightarrow> bool" where
  "groups_rep cbor m k fanout s groups dss \<longleftrightarrow> length dss = length groups
     \<and> (\<forall>i < length groups. list_all2 (node_rep cbor m k s i) (groups ! i) (dss ! i) \<and> length (groups ! i) < fanout)"

lemma node_rep_later: "node_rep cbor m k s i n d \<Longrightarrow> node_ext node s s' \<Longrightarrow> node_rep cbor m k s' i n d"
  by (cases "node s (tn_hash n)") (auto simp: node_rep_def dest: clean_earlier tree_later node_later)

lemma group_rep_later: "list_all2 (node_rep cbor m k s i) g ds \<Longrightarrow> node_ext node s s' \<Longrightarrow> list_all2 (node_rep cbor m k s' i) g ds"
  by (erule list.rel_mono_strong) (simp add: node_rep_later)

lemma groups_rep_later: "groups_rep cbor m k fanout s groups dss \<Longrightarrow> node_ext node s s' \<Longrightarrow> groups_rep cbor m k fanout s' groups dss"
  unfolding groups_rep_def using group_rep_later by blast

text \<open>The hash of a served node is the hex form of 32 bytes.\<close>

lemma served_hash:
  assumes "inv s" and "node s h \<noteq> None"
  shows "\<exists>b. length b = HASH_SIZE \<and> h = concat (map byte_to_hex b)"
  using hash_law [OF assms] lower_hex_is_hex [of h 32] by (auto simp: validateHash_ok HASH_SIZE_def list_all_iff)

lemma served_hashes:
  assumes "inv s" and "\<forall>n \<in> set g. node s (tn_hash n) \<noteq> None"
  shows "\<exists>hs. map tn_hash g = hex_of_hashes hs \<and> (\<forall>h \<in> set hs. length h = HASH_SIZE) \<and> length hs = length g"
  using assms(2)
proof (induction g)
  case (Cons n g)
  then obtain hs b where "map tn_hash g = hex_of_hashes hs" "\<forall>h \<in> set hs. length h = HASH_SIZE" "length hs = length g"
    "length b = HASH_SIZE" "tn_hash n = concat (map byte_to_hex b)"
    using served_hash [OF assms(1), of "tn_hash n"] by auto
  then show ?case by (intro exI [of _ "b # hs"]) (auto simp: hex_of_hashes_def)
qed (simp add: hex_of_hashes_def)

lemma storeNode_keeps:
  assumes "inv s" and "validateContentType ct = Inr ()" and "refs = hex_of_hashes hs" "\<forall>h \<in> set hs. length h = HASH_SIZE" "length hs \<le> 256"
  shows "keeps s (storeNode (blob_client cbor k f) content ct refs d)
    (\<lambda>h s'. node s' h \<noteq> None \<and> (clean s' \<longrightarrow> node s' h = Some (ct, refs, content)))"
  using storeNodeContent_keeps [OF assms(1,2,4,5)] unfolding storeNode_def blob_client_def blobClient.simps assms(3) .

lemma storeIndex_keeps:
  assumes ok: "inv s" and g: "list_all2 (node_rep cbor m k s i) g ds" "g \<noteq> []" "length g \<le> 256"
  shows "keeps s (storeIndex (blob_client cbor k f) g m d) (\<lambda>p s'. node_rep cbor m k s' (Suc i) p (concat ds))"
proof -
  have len: "length g = length ds" using g(1) by (rule list_all2_lengthD)
  have each: "tn_level (g ! j) = int i - 1" "tn_size (g ! j) = int (length (ds ! j))" "node s (tn_hash (g ! j)) \<noteq> None"
    "clean s \<Longrightarrow> blob_tree (node s) cbor m (tn_hash (g ! j)) (int i - 1) (ds ! j)" if "j < length g" for j
    using list_all2_nthD [OF g(1) that] by (auto simp: node_rep_def)
  have level: "tn_level n = int i - 1" if "n \<in> set g" for n using that each(1) by (auto simp: in_set_conv_nth)
  then have hd: "tn_level (hd g) + 1 = int i" using g(2) by simp
  have sizes: "map tn_size g = map (\<lambda>kid. int (length (snd kid))) (zip (map tn_hash g) ds)"
    by (rule nth_equalityI) (use len each(2) in auto)
  have n: "sum_list (map tn_size g) = int (length (concat ds))"
  proof -
    have "map tn_size g = map (\<lambda>d. int (length d)) ds" by (rule nth_equalityI) (use len each(2) in auto)
    then show ?thesis by (induction ds arbitrary: g) auto
  qed
  obtain hs where hs: "map tn_hash g = hex_of_hashes hs" "\<forall>h \<in> set hs. length h = HASH_SIZE" "length hs = length g"
  proof -
    have "\<forall>n \<in> set g. node s (tn_hash n) \<noteq> None" using each(3) by (metis in_set_conv_nth)
    then show ?thesis using served_hashes [OF ok, of g] that by blast
  qed
  have parent: "node_rep cbor m k s'' (Suc i) \<lparr>tn_hash = h, tn_size = sum_list (map tn_size g), tn_level = int i\<rparr> (concat ds)"
    if enc: "encodeBlobIndex cbor (index_value (int i) (sum_list (map tn_size g)) m (map tn_size g)) = Inr content"
      and s: "node_ext node s s''" and h: "node s'' h \<noteq> None" "clean s'' \<longrightarrow> node s'' h = Some (BlobIndexContentType, map tn_hash g, content)"
    for h s'' content
  proof -
    have "blob_tree (node s'') cbor m h (int i) (concat (map snd (zip (map tn_hash g) ds)))" if clean: "clean s''"
    proof (rule blob_index)
      show "node s'' h = Some (BlobIndexContentType, map fst (zip (map tn_hash g) ds), content)" using h(2) clean len by simp
      show "encodeBlobIndex cbor (index_value (int i) (sum_list (map tn_size g)) m
          (map (\<lambda>kid. int (length (snd kid))) (zip (map tn_hash g) ds))) = Inr content" using enc sizes by simp
      fix kid
      assume "kid \<in> set (zip (map tn_hash g) ds)"
      then obtain j where "j < length g" "kid = (tn_hash (g ! j), ds ! j)" using len by (auto simp: set_zip)
      then show "blob_tree (node s'') cbor m (fst kid) (int i - 1) (snd kid)"
        using each(4) clean_earlier [OF clean s] tree_later [OF s] by simp
    qed
    then show ?thesis using len n h(1) by (simp add: node_rep_def)
  qed
  let ?ix = "index_value (int i) (sum_list (map tn_size g)) m (map tn_size g)"
  have enc: "keeps s (liftM (encodeBlobIndex cbor ?ix)) (\<lambda>content _. encodeBlobIndex cbor ?ix = Inr content)"
    by (rule keeps_lift [OF ok]) (auto dest: encodeBlobIndex_fuel)
  have store: "keeps s' (bindM (storeNode (blob_client cbor k f) content BlobIndexContentType (map tn_hash g) d)
      (\<lambda>hash. returnM \<lparr>tn_hash = hash, tn_size = sum_list (map tn_size g), tn_level = int i\<rparr>))
      (\<lambda>p s''. node_ext node s s'' \<longrightarrow> node_rep cbor m k s'' (Suc i) p (concat ds))"
    if "inv s'" "encodeBlobIndex cbor ?ix = Inr content" for s' content
    by (rule keeps_bind [OF storeNode_keeps [OF that(1) fixed_types(2) hs(1,2)]])
      (use hs(3) g(3) parent [OF that(2)] in \<open>auto intro!: keeps_return\<close>)
  have "\<not> list_ex (\<lambda>child. tn_level child \<noteq> int i - 1) g" using level by (auto simp: list_ex_iff)
  then have "storeIndex (blob_client cbor k f) g m d = bindM (liftM (encodeBlobIndex cbor ?ix)) (\<lambda>content.
      bindM (storeNode (blob_client cbor k f) content BlobIndexContentType (map tn_hash g) d)
      (\<lambda>hash. returnM \<lparr>tn_hash = hash, tn_size = sum_list (map tn_size g), tn_level = int i\<rparr>))"
    unfolding storeIndex_def Let_def hd by (simp add: blob_client_def)
  then show ?thesis using keeps_bind [OF enc store] by simp
qed

text \<open>
  Where an inserted subtree ends up: the groups hold the old bytes followed by the new ones, the
  lowest populated group is \<open>j\<close>, and the array has grown only if \<open>j\<close> is a new top level that
  holds everything.
\<close>

definition inserted :: "cbor_codec \<Rightarrow> string \<Rightarrow> nat \<Rightarrow> nat \<Rightarrow> blobTreeNode list list \<Rightarrow> nat \<Rightarrow> bytes \<Rightarrow> blobTreeNode list list \<Rightarrow> 's \<Rightarrow> bool" where
  "inserted cbor m k fanout groups i bs groups' s' \<longleftrightarrow>
     (\<exists>dss' j. groups_rep cbor m k fanout s' groups' dss' \<and> whole dss' = bs \<and> i \<le> j \<and> j < length groups'
        \<and> groups' ! j \<noteq> [] \<and> (\<forall>l < j. groups' ! l = [])
        \<and> (length groups' = length groups \<or> j = length groups \<and> length groups' = Suc j \<and> length (groups' ! j) = 1))"

lemma empty_group_data: "groups_rep cbor m k fanout s groups dss \<Longrightarrow> i < length groups \<Longrightarrow> groups ! i = [] \<longleftrightarrow> dss ! i = []"
  unfolding groups_rep_def by (metis list_all2_Nil list_all2_Nil2)

lemma insert_here:
  assumes rep: "groups_rep cbor m k fanout s groups dss" and n: "node_rep cbor m k s i n d" and i: "i < length groups"
    and low: "\<forall>j < i. groups ! j = []" and short: "Suc (length (groups ! i)) < fanout"
  shows "inserted cbor m k fanout groups i (whole dss @ d) (groups[i := groups ! i @ [n]]) s"
proof -
  let ?dss = "dss[i := dss ! i @ [d]]"
  have len: "length dss = length groups" using rep by (simp add: groups_rep_def)
  have "\<forall>j < i. dss ! j = []" using low i empty_group_data [OF rep] by (metis less_trans)
  then have "whole ?dss = whole dss @ d" using whole_below [of i dss] whole_below [of i ?dss] i len by simp
  moreover have "groups_rep cbor m k fanout s (groups[i := groups ! i @ [n]]) ?dss"
    using rep n short i by (auto simp: groups_rep_def nth_list_update list_all2_appendI)
  ultimately show ?thesis
    unfolding inserted_def using i low by (intro exI [of _ ?dss] exI [of _ i]) simp
qed

lemma insert_on_top:
  assumes rep: "groups_rep cbor m k fanout s groups dss" and n: "node_rep cbor m k s (length groups) n d"
    and low: "\<forall>j < length groups. groups ! j = []" and fanout: "2 \<le> fanout" and i: "i \<le> length groups"
  shows "inserted cbor m k fanout groups i (whole dss @ d) (groups @ [[n]]) s"
proof -
  have len: "length dss = length groups" using rep by (simp add: groups_rep_def)
  have "whole dss = []" using low empty_group_data [OF rep] len by (intro whole_empty) metis
  moreover have "groups_rep cbor m k fanout s (groups @ [[n]]) (dss @ [[d]])"
    using rep n fanout by (auto simp: groups_rep_def nth_append less_Suc_eq)
  ultimately show ?thesis
    unfolding inserted_def using low i len
    by (intro exI [of _ "dss @ [[d]]"] exI [of _ "length groups"]) (simp add: whole_snoc_group nth_append)
qed

lemma append_keeps:
  assumes fanout: "2 \<le> fanout" "fanout \<le> 256"
  shows "inv s \<Longrightarrow> groups_rep cbor m k fanout s groups dss \<Longrightarrow> node_rep cbor m k s i n d \<Longrightarrow> i \<le> length groups
    \<Longrightarrow> \<forall>j < i. groups ! j = [] \<Longrightarrow> length groups - i < fuel
    \<Longrightarrow> keeps s (appendTreeNode fuel (blob_client cbor k fanout) groups n m dur) (inserted cbor m k fanout groups i (whole dss @ d))"
proof (induction fuel arbitrary: s groups dss i n d)
  case (Suc fuel)
  let ?c = "blob_client cbor k fanout"
  note rep = Suc.prems(2)
  have index: "nat (tn_level n + 1) = i" using Suc.prems(3) by (simp add: node_rep_def)
  have f: "bc_indexFanout ?c = fanout" by (simp add: blob_client_def)
  show ?case
  proof (cases "i < length groups")
    case False
    then have i: "i = length groups" using Suc.prems(4) by simp
    then have "appendTreeNode (Suc fuel) ?c groups n m dur = returnM (groups @ [[n]])"
      using fanout by (simp add: Let_def index f group_at_def set_group_end)
    then show ?thesis
      using insert_on_top [OF rep _ _ fanout(1), of n d i] Suc.prems(1,3,5) i by (simp add: keeps_return)
  next
    case True
    note in_group = set_group_in [OF True]
    have len: "length dss = length groups" and all: "list_all2 (node_rep cbor m k s i) (groups ! i) (dss ! i)" "length (groups ! i) < fanout"
      using rep True by (simp_all add: groups_rep_def)
    have full: "list_all2 (node_rep cbor m k s i) (groups ! i @ [n]) (dss ! i @ [d])"
      using all(1) Suc.prems(3) by (simp add: list_all2_appendI)
    show ?thesis
    proof (cases "length (groups ! i @ [n]) = fanout")
      case False
      then have "appendTreeNode (Suc fuel) ?c groups n m dur = returnM (groups[i := groups ! i @ [n]])"
        using True by (simp add: Let_def index f group_at_def in_group)
      then show ?thesis
        using insert_here [OF rep Suc.prems(3) True Suc.prems(5)] False all(2) Suc.prems(1) by (simp add: keeps_return)
    next
      case carry: True
      let ?groups = "groups[i := []]" and ?dss = "dss[i := []]"
      have step: "appendTreeNode (Suc fuel) ?c groups n m dur = bindM (storeIndex ?c (groups ! i @ [n]) m dur)
          (\<lambda>parent. appendTreeNode fuel ?c ?groups parent m dur)"
        using True carry by (simp add: Let_def index f group_at_def in_group set_group_def)
      have "\<forall>j < i. dss ! j = []" using Suc.prems(5) True empty_group_data [OF rep] by (metis less_trans)
      then have bytes: "whole ?dss @ concat (dss ! i @ [d]) = whole dss @ d"
        using whole_below [of i dss] whole_below [of i ?dss] True len by simp
      have low: "\<forall>j < Suc i. ?groups ! j = []" using Suc.prems(5) True by (auto simp: nth_list_update less_Suc_eq)
      have rest: "keeps s' (appendTreeNode fuel ?c ?groups p m dur) (inserted cbor m k fanout ?groups (Suc i) (whole dss @ d))"
        if a: "inv s'" "node_ext node s s'" "node_rep cbor m k s' (Suc i) p (concat (dss ! i @ [d]))" for p s'
      proof -
        have "groups_rep cbor m k fanout s' ?groups ?dss"
          using groups_rep_later [OF rep a(2)] fanout True by (auto simp: groups_rep_def nth_list_update)
        from Suc.IH [OF a(1) this a(3) _ low] True Suc.prems(6) show ?thesis unfolding bytes by simp
      qed
      have weaken: "inserted cbor m k fanout ?groups (Suc i) bs g' s' \<Longrightarrow> inserted cbor m k fanout groups i bs g' s'" for bs g' s'
        unfolding inserted_def by (auto intro: Suc_leD)
      show ?thesis
        unfolding step
      proof (rule keeps_bind [OF storeIndex_keeps [OF Suc.prems(1) full]])
        fix p s'
        assume "inv s'" "node_ext node s s'" "node_rep cbor m k s' (Suc i) p (concat (dss ! i @ [d]))"
        from rest [OF this] show "keeps s' (appendTreeNode fuel ?c ?groups p m dur)
            (\<lambda>y s''. node_ext node s s'' \<longrightarrow> inserted cbor m k fanout groups i (whole dss @ d) y s'')"
          by (rule keeps_mono) (simp add: weaken)
      qed (use carry fanout in simp_all)
    qed
  qed
qed simp

lemma finish_keeps:
  assumes fanout: "2 \<le> fanout" "fanout \<le> 256"
  shows "inv s \<Longrightarrow> groups_rep cbor m k fanout s groups dss \<Longrightarrow> i < length groups \<Longrightarrow> groups ! i \<noteq> [] \<Longrightarrow> \<forall>j < i. groups ! j = []
    \<Longrightarrow> sum_list (map length groups) = 1 \<and> 0 < fuel \<or> length groups - i < fuel
    \<Longrightarrow> keeps s (finish_loop fuel (blob_client cbor k fanout) groups m dur) (\<lambda>root s'. \<exists>i. node_rep cbor m k s' i root (whole dss))"
proof (induction fuel arbitrary: s groups dss i)
  case (Suc fuel)
  let ?c = "blob_client cbor k fanout" and ?Q = "\<lambda>root s'. \<exists>i. node_rep cbor m k s' i root (whole dss)"
  note rep = Suc.prems(2) and i = Suc.prems(3,4)
  have len: "length dss = length groups" and here: "list_all2 (node_rep cbor m k s i) (groups ! i) (dss ! i)" "length (groups ! i) < fanout"
    using rep i by (simp_all add: groups_rep_def)
  have "populated groups \<noteq> []" using populated_count [of groups] i nth_mem [OF i(1)] by (auto simp: sum_list_eq_0_iff)
  then obtain i' g rest where p: "populated groups = (i', g) # rest" by (cases "populated groups") auto
  note low = populated_lowest [OF p]
  have i': "i' = i" using low i Suc.prems(5) by (metis linorder_neqE_nat)
  have count: "length g + sum_list (map (\<lambda>(_, g). length g) rest) = sum_list (map length groups)" using populated_count [of groups] p by simp
  have empty: "\<forall>j < i. dss ! j = []" using Suc.prems(5) i(1) empty_group_data [OF rep] by (metis less_trans)
  show ?case
  proof (cases "sum_list (map length groups) = 1")
    case True
    have "length (groups ! i) = 1" using count True low i' by (metis add_is_1 One_nat_def length_0_conv)
    then obtain x d where x: "groups ! i = [x]" "dss ! i = [d]" "node_rep cbor m k s i x d"
      using here(1) by (auto simp: length_Suc_conv list_all2_Cons1)
    have "dss ! j = []" if "j < length groups" "j \<noteq> i" for j
      using one_subtree [OF i True that] empty_group_data [OF rep that(1)] by simp
    then have "above i dss = []" unfolding above_def using len by (intro whole_empty) simp
    then have "whole dss = d" using whole_below [of i dss] i(1) len empty x(2) by simp
    then show ?thesis using count True low i' x Suc.prems(1) by (auto simp: p intro!: keeps_return)
  next
    case False
    then have fuel: "length groups - i < Suc fuel" using Suc.prems(6) by simp
    let ?groups = "groups[i := []]" and ?dss = "dss[i := []]"
    have step: "finish_loop (Suc fuel) ?c groups m dur = bindM (storeIndex ?c (groups ! i) m dur) (\<lambda>parent.
        bindM (append_node ?c ?groups parent m dur) (\<lambda>groups'. finish_loop fuel ?c groups' m dur))"
      using False count low i' by (simp add: p set_group_in)
    have bytes: "whole ?dss @ concat (dss ! i) = whole dss"
      using whole_below [of i dss] whole_below [of i ?dss] i(1) len empty by simp
    have low': "\<forall>j < Suc i. ?groups ! j = []" using Suc.prems(5) i(1) by (auto simp: nth_list_update less_Suc_eq)
    have again: "keeps s' (finish_loop fuel ?c groups' m dur) ?Q"
      if "inv s'" and ins: "inserted cbor m k fanout ?groups (Suc i) (whole dss) groups' s'" for groups' s'
    proof -
      obtain dss' j where r: "groups_rep cbor m k fanout s' groups' dss'" "whole dss' = whole dss" "Suc i \<le> j" "j < length groups'"
        "groups' ! j \<noteq> []" "\<forall>l < j. groups' ! l = []"
        "length groups' = length groups \<or> j = length groups \<and> length groups' = Suc j \<and> length (groups' ! j) = 1"
        using ins by (auto simp: inserted_def)
      have "sum_list (map length groups') = 1 \<and> 0 < fuel \<or> length groups' - j < fuel"
        using r(7) only_top_count [OF _ r(6)] fuel r(3) i(1) by auto
      from Suc.IH [OF that(1) r(1,4,5,6) this] show ?thesis unfolding r(2) .
    qed
    have grow: "keeps s' (append_node ?c ?groups p m dur) (inserted cbor m k fanout ?groups (Suc i) (whole dss))"
      if a: "inv s'" "node_ext node s s'" "node_rep cbor m k s' (Suc i) p (concat (dss ! i))" for p s'
    proof -
      have "groups_rep cbor m k fanout s' ?groups ?dss"
        using groups_rep_later [OF rep a(2)] fanout i(1) by (auto simp: groups_rep_def nth_list_update)
      from append_keeps [OF fanout a(1) this a(3) _ low'] i(1) show ?thesis unfolding append_node_def bytes by (simp del: appendTreeNode.simps)
    qed
    show ?thesis
      unfolding step
    proof (rule keeps_bind [OF storeIndex_keeps [OF Suc.prems(1) here(1) i(2)]])
      fix p s'
      assume a: "inv s'" "node_ext node s s'" "node_rep cbor m k s' (Suc i) p (concat (dss ! i))"
      show "keeps s' (bindM (append_node ?c ?groups p m dur) (\<lambda>groups'. finish_loop fuel ?c groups' m dur))
          (\<lambda>y s''. node_ext node s s'' \<longrightarrow> ?Q y s'')"
        by (rule keeps_bind [OF grow [OF a]]) (use again in \<open>auto intro: keeps_mono\<close>)
    qed (use here(2) fanout in simp)
  qed
qed simp

section \<open>Writing\<close>

lemma chunk_keeps:
  assumes "inv s" and "chunk \<noteq> []" and "length chunk \<le> k"
  shows "keeps s (storeNode (blob_client cbor k f) chunk BlobChunkContentType [] d)
    (\<lambda>h s'. node_rep cbor m k s' 0 \<lparr>tn_hash = h, tn_size = int (length chunk), tn_level = -1\<rparr> chunk)"
  by (rule keeps_mono [OF storeNode_keeps [OF assms(1) fixed_types(1), of "[]" "[]"]])
    (use assms(2,3) in \<open>auto simp: hex_of_hashes_def node_rep_def intro!: blob_leaf\<close>)

text \<open>The groups after some chunks hold the bytes of those chunks, and at least one subtree.\<close>

definition chunks_stored :: "cbor_codec \<Rightarrow> string \<Rightarrow> nat \<Rightarrow> nat \<Rightarrow> bytes \<Rightarrow> blobTreeNode list list \<times> int \<Rightarrow> 's \<Rightarrow> bool" where
  "chunks_stored cbor m k fanout bs st s \<longleftrightarrow> snd st = int (length bs)
     \<and> (\<exists>dss. groups_rep cbor m k fanout s (fst st) dss \<and> whole dss = bs)
     \<and> (bs \<noteq> [] \<longrightarrow> (\<exists>i < length (fst st). fst st ! i \<noteq> [] \<and> (\<forall>j < i. fst st ! j = [])))"

lemma chunks_stored_later: "chunks_stored cbor m k fanout bs st s \<Longrightarrow> node_ext node s s' \<Longrightarrow> chunks_stored cbor m k fanout bs st s'"
  unfolding chunks_stored_def using groups_rep_later by blast

lemma addChunk_keeps:
  assumes fanout: "2 \<le> fanout" "fanout \<le> 256" and ok: "inv s" and st: "chunks_stored cbor m k fanout bs st s" and chunk: "chunk \<noteq> []" "length chunk \<le> k"
  shows "keeps s (addChunk (blob_client cbor k fanout) m d st chunk) (chunks_stored cbor m k fanout (bs @ chunk))"
  unfolding addChunk_def
proof (rule keeps_bind [OF chunk_keeps [OF ok chunk]])
  fix h s'
  let ?c = "blob_client cbor k fanout" and ?n = "\<lparr>tn_hash = h, tn_size = int (length chunk), tn_level = -1\<rparr>"
  assume a: "inv s'" "node_ext node s s'" "node_rep cbor m k s' 0 ?n chunk"
  obtain dss where d: "groups_rep cbor m k fanout s' (fst st) dss" "whole dss = bs" "snd st = int (length bs)"
    using chunks_stored_later [OF st a(2)] by (auto simp: chunks_stored_def)
  have "keeps s' (append_node ?c (fst st) ?n m d) (inserted cbor m k fanout (fst st) 0 (bs @ chunk))"
    using append_keeps [OF fanout a(1) d(1) a(3)] unfolding append_node_def d(2) by (simp del: appendTreeNode.simps)
  then show "keeps s' (bindM (append_node ?c (fst st) ?n m d) (\<lambda>groups. returnM (groups, snd st + int (length chunk))))
      (\<lambda>y s''. node_ext node s s'' \<longrightarrow> chunks_stored cbor m k fanout (bs @ chunk) y s'')"
    by (rule keeps_bind) (use d(3) in \<open>auto simp: inserted_def chunks_stored_def intro!: keeps_return\<close>)
qed

lemma add_chunks_keeps:
  assumes fanout: "2 \<le> fanout" "fanout \<le> 256"
  shows "inv s \<Longrightarrow> chunks_stored cbor m k fanout bs st s \<Longrightarrow> \<forall>p \<in> set ps. p \<noteq> [] \<and> length p \<le> k \<Longrightarrow> \<forall>e \<in> set es. isl e \<and> projl e \<noteq> Out_of_fuel
    \<Longrightarrow> keeps s (add_chunks (blob_client cbor k fanout) m d st (map Inr ps @ es))
          (\<lambda>st' s'. es = [] \<and> chunks_stored cbor m k fanout (bs @ concat ps) st' s')"
proof (induction ps arbitrary: s st bs)
  case Nil
  then show ?case by (cases es) (auto simp: isl_def intro: keeps_return keeps_throw)
next
  case (Cons p ps)
  have "keeps s (addChunk (blob_client cbor k fanout) m d st p) (chunks_stored cbor m k fanout (bs @ p))"
    by (rule addChunk_keeps [OF fanout Cons.prems(1,2)]) (use Cons.prems(3) in simp_all)
  then show ?case
    unfolding list.map append_Cons add_chunks.simps
    by (rule keeps_bind) (use Cons in \<open>auto intro!: keeps_mono [OF Cons.IH]\<close>)
qed

text \<open>Under \<open>h\<close> lies the blob \<open>bs\<close> of content type \<open>ct\<close>: one node, or a tree.\<close>

definition blob_at :: "cbor_codec \<Rightarrow> string \<Rightarrow> 's \<Rightarrow> string \<Rightarrow> bytes \<Rightarrow> bool" where
  "blob_at cbor ct s h bs \<longleftrightarrow> node s h = Some (ct, [], bs) \<or> (\<exists>level \<ge> 0. blob_tree (node s) cbor ct h level bs)"

lemma single_keeps:
  assumes "inv s" and "validateContentType ct = Inr ()"
  shows "keeps s (store_single (blob_client cbor k f) ct expected d bs)
    (\<lambda>ref s'. br_blobSize ref = int (length bs) \<and> br_contentType ref = Str ct \<and> (clean s' \<longrightarrow> blob_at cbor ct s' (br_blobHash ref) bs))"
  unfolding store_single_def
proof (rule keeps_bind [OF storeNode_keeps [OF assms, of "[]" "[]"]])
  fix h s'
  assume a: "inv s'" "node s' h \<noteq> None \<and> (clean s' \<longrightarrow> node s' h = Some (ct, [], bs))"
  have "keeps s' (liftM (assertExpectedSize expected (int (length bs)))) (\<lambda>_ _. True)"
    by (rule keeps_lift [OF a(1)]) (auto simp: assertExpectedSize_def split: if_splits)
  then show "keeps s' (bindM (liftM (assertExpectedSize expected (int (length bs)))) (\<lambda>_. returnM
      \<lparr>br_blobHash = h, br_blobSize = int (length bs), br_contentType = Str ct\<rparr>))
    (\<lambda>ref s''. node_ext node s s'' \<longrightarrow> br_blobSize ref = int (length bs) \<and> br_contentType ref = Str ct
       \<and> (clean s'' \<longrightarrow> blob_at cbor ct s'' (br_blobHash ref) bs))"
    by (rule keeps_bind) (use a in \<open>auto simp: blob_at_def intro!: keeps_return dest: clean_earlier node_later\<close>)
qed (simp_all add: hex_of_hashes_def)

lemma tree_keeps:
  assumes fanout: "2 \<le> fanout" "fanout \<le> 256" and ok: "inv s" and ps: "\<forall>p \<in> set ps. p \<noteq> [] \<and> length p \<le> k"
    and es: "\<forall>e \<in> set es. isl e \<and> projl e \<noteq> Out_of_fuel" and long: "es = [] \<longrightarrow> k < length (concat ps)"
  shows "keeps s (bindM (add_chunks (blob_client cbor k fanout) ct d ([], 0) (map Inr ps @ es)) (\<lambda>(groups, measuredSize).
      bindM (finishTree (blob_client cbor k fanout) groups ct d) (\<lambda>root.
      bindM (liftM (assertExpectedSize expected measuredSize)) (\<lambda>_.
      returnM \<lparr>br_blobHash = tn_hash root, br_blobSize = measuredSize, br_contentType = Str ct\<rparr>))))
    (\<lambda>ref s'. es = [] \<and> br_blobSize ref = int (length (concat ps)) \<and> br_contentType ref = Str ct
       \<and> (clean s' \<longrightarrow> blob_at cbor ct s' (br_blobHash ref) (concat ps)))"
proof (rule keeps_bind)
  let ?c = "blob_client cbor k fanout" and ?bs = "concat ps"
  have "chunks_stored cbor ct k fanout [] ([], 0) s" by (simp add: chunks_stored_def groups_rep_def whole_def)
  from add_chunks_keeps [OF fanout ok this ps es]
  show "keeps s (add_chunks ?c ct d ([], 0) (map Inr ps @ es)) (\<lambda>st s'. es = [] \<and> chunks_stored cbor ct k fanout ?bs st s')" by simp
  fix st s'
  assume a: "inv s'" "es = [] \<and> chunks_stored cbor ct k fanout ?bs st s'"
  then have "?bs \<noteq> []" using long by (metis less_zeroE list.size(3))
  then obtain groups dss i where g: "st = (groups, int (length ?bs))" "groups_rep cbor ct k fanout s' groups dss" "whole dss = ?bs"
    "i < length groups" "groups ! i \<noteq> []" "\<forall>j < i. groups ! j = []"
    using a(2) by (cases st) (auto simp: chunks_stored_def)
  have finish: "keeps s' (finishTree ?c groups ct d) (\<lambda>root s''. \<exists>i. node_rep cbor ct k s'' i root ?bs)"
  proof -
    have "length groups - i < length groups + 1" by simp
    from finish_keeps [OF fanout a(1) g(2,4,5,6) disjI2 [OF this]] show ?thesis unfolding finishTree_def g(3) .
  qed
  have done_: "keeps s'' (bindM (liftM (assertExpectedSize expected (int (length ?bs)))) (\<lambda>_. returnM
      \<lparr>br_blobHash = tn_hash root, br_blobSize = int (length ?bs), br_contentType = Str ct\<rparr>))
    (\<lambda>ref s'. br_blobSize ref = int (length ?bs) \<and> br_contentType ref = Str ct \<and> (clean s' \<longrightarrow> blob_at cbor ct s' (br_blobHash ref) ?bs))"
    if r: "inv s''" "node_rep cbor ct k s'' i root ?bs" for root s'' i
  proof -
    have "0 < i" using r(2) long a(2) by (cases i) (auto simp: node_rep_def)
    then have at: "blob_at cbor ct s (tn_hash root) ?bs" if "node_rep cbor ct k s i root ?bs" "clean s" for s
      using that by (auto simp: node_rep_def blob_at_def intro!: exI [of _ "int i - 1"])
    have "keeps s'' (liftM (assertExpectedSize expected (int (length ?bs)))) (\<lambda>_ _. True)"
      by (rule keeps_lift [OF r(1)]) (auto simp: assertExpectedSize_def split: if_splits)
    then show ?thesis by (rule keeps_bind) (use r(2) at in \<open>auto intro!: keeps_return dest: node_rep_later\<close>)
  qed
  have "keeps s' (bindM (finishTree ?c groups ct d) (\<lambda>root. bindM (liftM (assertExpectedSize expected (int (length ?bs)))) (\<lambda>_. returnM
      \<lparr>br_blobHash = tn_hash root, br_blobSize = int (length ?bs), br_contentType = Str ct\<rparr>)))
    (\<lambda>ref s'. br_blobSize ref = int (length ?bs) \<and> br_contentType ref = Str ct \<and> (clean s' \<longrightarrow> blob_at cbor ct s' (br_blobHash ref) ?bs))"
    by (rule keeps_bind [OF finish]) (use done_ in \<open>fastforce intro: keeps_mono\<close>)
  then show "keeps s' (case st of (groups, measuredSize) \<Rightarrow> bindM (finishTree ?c groups ct d) (\<lambda>root.
      bindM (liftM (assertExpectedSize expected measuredSize)) (\<lambda>_.
      returnM \<lparr>br_blobHash = tn_hash root, br_blobSize = measuredSize, br_contentType = Str ct\<rparr>)))
    (\<lambda>ref s''. node_ext node s s'' \<longrightarrow> es = [] \<and> br_blobSize ref = int (length ?bs) \<and> br_contentType ref = Str ct
       \<and> (clean s'' \<longrightarrow> blob_at cbor ct s'' (br_blobHash ref) ?bs))"
    unfolding g(1) prod.case by (rule keeps_mono) (use a(2) in simp)
qed

lemma storeBlob_keeps:
  assumes fanout: "2 \<le> fanout" "fanout \<le> 256" and k: "0 < k" and ok: "inv s" and ct: "validateContentType ct = Inr ()"
    and failure: "failure \<noteq> Some Out_of_fuel"
  shows "keeps s (storeBlob (blob_client cbor k fanout) (source, failure) ct expected d)
    (\<lambda>ref s'. failure = None \<and> br_blobSize ref = int (length (concat source)) \<and> br_contentType ref = Str ct
       \<and> (clean s' \<longrightarrow> blob_at cbor ct s' (br_blobHash ref) (concat source)))"
proof -
  let ?c = "blob_client cbor k fanout" and ?es = "case failure of Some e \<Rightarrow> [Inl e] | None \<Rightarrow> []"
  obtain ps where ps: "chunkSource k (source, failure) = map Inr ps @ ?es" "\<forall>p \<in> set ps. p \<noteq> [] \<and> length p \<le> k"
    "\<forall>p \<in> set (butlast ps). length p = k" "failure = None \<longrightarrow> concat ps = concat source"
    using chunkSource_ok [OF k] by blast
  have es: "\<forall>e \<in> set ?es. isl e \<and> projl e \<noteq> Out_of_fuel" using failure by (auto split: option.splits)
  have c: "bc_chunkBytes ?c = k" by (simp add: blob_client_def)
  consider (none) "ps = []" | (one) p where "ps = [p]" | (many) p q rest where "ps = p # q # rest"
    by (cases ps rule: remdups_adj.cases) auto
  then show ?thesis
  proof cases
    case none
    have src: "concat source = []" if "failure = None" using ps(4) none that by simp
    show ?thesis using none ps(1) src single_keeps [OF ok ct, of cbor k fanout expected d "[]"] failure ok
      by (auto simp: storeBlob_def c intro: keeps_throw simp del: concat_eq_Nil_conv split: option.splits)
  next
    case one
    then show ?thesis using ps single_keeps [OF ok ct, of cbor k fanout expected d p] failure ok
      by (auto simp: storeBlob_def c intro: keeps_throw split: option.splits)
  next
    case many
    then have "length p = k" "q \<noteq> []" using ps(2,3) by auto
    then have long: "k < length (concat ps)" by (simp add: many)
    have run: "storeBlob ?c (source, failure) ct expected d = bindM (add_chunks ?c ct d ([], 0) (map Inr ps @ ?es)) (\<lambda>(groups, measuredSize).
      bindM (finishTree ?c groups ct d) (\<lambda>root. bindM (liftM (assertExpectedSize expected measuredSize)) (\<lambda>_.
      returnM \<lparr>br_blobHash = tn_hash root, br_blobSize = measuredSize, br_contentType = Str ct\<rparr>)))"
      by (simp add: storeBlob_def c ps(1)) (simp add: many)
    have "?es = [] \<longleftrightarrow> failure = None" by (simp split: option.splits)
    then show ?thesis
      unfolding run using keeps_mono [OF tree_keeps [OF fanout ok ps(2) es impI [OF long], of cbor ct d expected]] ps(4) by auto
  qed
qed

section \<open>Reading back\<close>

lemma length_kids: "int (length (concat (map snd kids))) = sum_list (map (\<lambda>k. int (length (snd k))) kids)"
  by (induction kids) simp_all

text \<open>Any reader of whole blobs and of non-empty parts gives a handle that reads ranges.\<close>

lemma ranged_keeps:
  assumes ok: "inv s" and ref: "br_blobSize ref = int (length bs)" and rng: "range_ok (Some rng) bs"
    and part: "\<And>off len. 0 \<le> off \<Longrightarrow> 0 < len \<Longrightarrow> off + len \<le> int (length bs) \<Longrightarrow>
      keeps s (readRangeNode fuel c (br_blobHash ref) off len None (br_contentType ref)) (\<lambda>chunks _. concat chunks = take (nat len) (drop (nat off) bs))"
  shows "keeps s (read_ranged fuel c ref rng) (\<lambda>chunks _. concat chunks = range_of (Some rng) bs)"
proof -
  obtain off len where r: "rng = (off, len)" by (cases rng)
  have v: "validateRange (off, len) = Inr ()" "off \<le> int (length bs)" using rng by (simp_all add: range_ok_def r)
  then have off: "0 \<le> off" "\<And>n. len = Some n \<Longrightarrow> 0 \<le> n" by (auto simp: validateRange_def split: if_splits option.splits)
  define n where "n = min (case len of Some n \<Rightarrow> n | None \<Rightarrow> int (length bs) - off) (int (length bs) - off)"
  have run: "read_ranged fuel c ref rng = (if n = 0 then returnM [] else readRangeNode fuel c (br_blobHash ref) off n None (br_contentType ref))"
    using v by (cases len) (simp_all add: read_ranged_def r ref n_def liftM_def bindM_def Let_def fun_eq_iff)
  have bytes: "take (nat n) (drop (nat off) bs) = range_of (Some rng) bs"
    using off v(2) by (cases len) (auto simp: range_of_def r n_def min_def nat_diff_distrib')
  have "0 \<le> n" "off + n \<le> int (length bs)" using off v(2) by (auto simp: n_def min_def split: option.splits)
  then show ?thesis
    using part [OF off(1), of n] bytes ok by (cases "n = 0") (auto simp: run intro!: keeps_return)
qed

lemma open_keeps:
  assumes resolve: "keeps s (resolveBlobRef c h) (\<lambda>ref' _. ref' = ref)" and ref: "br_blobSize ref = int (length bs)"
    and rng: "range_ok rng bs"
    and full: "\<And>s'. inv s' \<Longrightarrow> node_ext node s s' \<Longrightarrow> keeps s' (read_full fuel c ref) (\<lambda>chunks _. concat chunks = bs)"
    and part: "\<And>s' off len. inv s' \<Longrightarrow> node_ext node s s' \<Longrightarrow> 0 \<le> off \<Longrightarrow> 0 < len \<Longrightarrow> off + len \<le> int (length bs) \<Longrightarrow>
      keeps s' (readRangeNode fuel c (br_blobHash ref) off len None (br_contentType ref)) (\<lambda>chunks _. concat chunks = take (nat len) (drop (nat off) bs))"
  shows "keeps s (openBlob_read fuel c h rng) (\<lambda>x _. x = range_of rng bs)"
  unfolding openBlob_read_def
proof (rule keeps_bind [OF resolve])
  fix ref' s'
  assume a: "inv s'" "node_ext node s s'" "ref' = ref"
  have "keeps s' (case rng of None \<Rightarrow> read_full fuel c ref | Some r \<Rightarrow> read_ranged fuel c ref r) (\<lambda>chunks _. concat chunks = range_of rng bs)"
    using full [OF a(1,2)] ranged_keeps [OF a(1) ref _ part [OF a(1,2)]] rng by (auto simp: range_of_def [of None] split: option.splits)
  then show "keeps s' (bindM (case rng of None \<Rightarrow> read_full fuel c ref' | Some r \<Rightarrow> read_ranged fuel c ref' r) (\<lambda>chunks. returnM (concat chunks)))
      (\<lambda>x s''. node_ext node s s'' \<longrightarrow> x = range_of rng bs)"
    unfolding a(3) by (rule keeps_bind) (auto intro: keeps_return)
qed

lemma read_single:
  assumes ok: "inv s" and n: "served s h (ct, [], bs)" and ct: "ct \<noteq> BlobIndexContentType" and bs: "bs \<noteq> []" and rng: "range_ok rng bs"
  shows "keeps s (openBlob_read (Suc fuel) (blob_client cbor k f) h rng) (\<lambda>x _. x = range_of rng bs)"
proof (rule open_keeps [where ref = "\<lparr>br_blobHash = h, br_blobSize = int (length bs), br_contentType = Str ct\<rparr>", OF _ _ rng])
  let ?c = "blob_client cbor k f"
  show "keeps s (resolveBlobRef ?c h) (\<lambda>ref' _. ref' = \<lparr>br_blobHash = h, br_blobSize = int (length bs), br_contentType = Str ct\<rparr>)"
    unfolding resolveBlobRef_def blob_client_def blobClient.simps
    by (rule keeps_bind [OF metadata_keeps [OF ok n]]) (use ct in \<open>auto intro: keeps_return\<close>)
  fix s'
  assume a: "inv s'" "node_ext node s s'"
  note here = served_later [OF a(2) n]
  have leaf: "validateLeaf h [] ct None = Inr ()" by (simp add: validateLeaf_def)
  have whole: "keeps s'' (ac_readContent cas space h None) (\<lambda>chunks s3. node_ext node s' s3 \<longrightarrow> concat chunks = bs)"
    if "inv s''" "node_ext node s' s''" for s''
    by (rule keeps_mono [OF content_keeps [OF that(1) served_later [OF that(2) here] bs]]) simp
  show "keeps s' (read_full (Suc fuel) ?c \<lparr>br_blobHash = h, br_blobSize = int (length bs), br_contentType = Str ct\<rparr>) (\<lambda>chunks _. concat chunks = bs)"
    unfolding read_full_def blob_readNode.simps blob_client_def blobClient.simps casBlobRef.simps
    by (rule keeps_bind [OF metadata_keeps [OF a(1) here]])
      (use ct leaf whole in \<open>auto simp: keeps_def wp_bindM wp_liftM\<close>)
  fix off len :: int
  assume r: "0 \<le> off" "0 < len" "off + len \<le> int (length bs)"
  have part: "keeps s'' (ac_readContent cas space h (Some (off, Some len))) (\<lambda>chunks s3. node_ext node s' s3 \<longrightarrow> concat chunks = take (nat len) (drop (nat off) bs))"
    if "inv s''" "node_ext node s' s''" for s''
    by (rule keeps_mono [OF range_keeps [OF that(1) served_later [OF that(2) here] r]]) simp
  show "keeps s' (readRangeNode (Suc fuel) ?c (br_blobHash \<lparr>br_blobHash = h, br_blobSize = int (length bs), br_contentType = Str ct\<rparr>) off len None
      (br_contentType \<lparr>br_blobHash = h, br_blobSize = int (length bs), br_contentType = Str ct\<rparr>))
      (\<lambda>chunks _. concat chunks = take (nat len) (drop (nat off) bs))"
    unfolding readRangeNode.simps blob_client_def blobClient.simps casBlobRef.simps
    by (rule keeps_bind [OF metadata_keeps [OF a(1) here]])
      (use ct leaf part in \<open>auto simp: keeps_def wp_bindM wp_liftM\<close>)
qed simp

lemma read_blob_tree:
  assumes ok: "inv s" and cleans: "clean s" and cbor: "cbor_ok cbor" and tree: "blob_tree (node s) cbor ct h level bs" and level: "0 \<le> level"
    and fuel: "nat (level + 2) \<le> fuel" and rng: "range_ok rng bs"
  shows "keeps s (openBlob_read fuel (blob_client cbor k f) h rng) (\<lambda>x _. x = range_of rng bs)"
proof (rule open_keeps [where ref = "\<lparr>br_blobHash = h, br_blobSize = int (length bs), br_contentType = Str ct\<rparr>", OF _ _ rng])
  let ?c = "blob_client cbor k f"
  have all: "serves_all (node s) s" using cleans by (auto simp: serves_all_def served_def clean_def)
  obtain kids content n where t: "served s h (BlobIndexContentType, map fst kids, content)"
    "encodeBlobIndex cbor (index_value level n ct (map (\<lambda>k. int (length (snd k))) kids)) = Inr content" "bs = concat (map snd kids)"
    using tree level cleans by cases (auto simp: served_def clean_def)
  have n: "n = int (length bs)"
    using t(2) validate_index_value(3) [of level n ct "map (\<lambda>k. int (length (snd k))) kids"]
    by (auto simp: encodeBlobIndex_def t(3) length_kids)
  show "keeps s (resolveBlobRef ?c h) (\<lambda>ref' _. ref' = \<lparr>br_blobHash = h, br_blobSize = int (length bs), br_contentType = Str ct\<rparr>)"
    unfolding resolveBlobRef_def
  proof (rule keeps_bind [where P = "\<lambda>md _. cm_contentType md = BlobIndexContentType \<and> cm_refs md = map fst kids"])
    show "keeps s (ac_readMetadata (bc_cas ?c) (bc_spaceId ?c) h) (\<lambda>md _. cm_contentType md = BlobIndexContentType \<and> cm_refs md = map fst kids)"
      using keeps_mono [OF metadata_keeps [OF ok t(1)]] by (auto simp: blob_client_def)
  qed (use index_keeps [OF _ cbor served_later [OF _ t(1)] t(2)] in \<open>auto simp: n intro!: keeps_bind keeps_return\<close>)
  fix s'
  assume a: "inv s'" "node_ext node s s'"
  show "keeps s' (read_full fuel ?c \<lparr>br_blobHash = h, br_blobSize = int (length bs), br_contentType = Str ct\<rparr>) (\<lambda>chunks _. concat chunks = bs)"
    unfolding read_full_def casBlobRef.simps by (rule read_tree [OF cbor tree a(1) serves_later [OF all a(2)] fuel]) simp
  fix off len :: int
  assume r: "0 \<le> off" "0 < len" "off + len \<le> int (length bs)"
  show "keeps s' (readRangeNode fuel ?c (br_blobHash \<lparr>br_blobHash = h, br_blobSize = int (length bs), br_contentType = Str ct\<rparr>) off len None
      (br_contentType \<lparr>br_blobHash = h, br_blobSize = int (length bs), br_contentType = Str ct\<rparr>))
      (\<lambda>chunks _. concat chunks = take (nat len) (drop (nat off) bs))"
    unfolding casBlobRef.simps by (rule read_range_tree [OF cbor tree a(1) serves_later [OF all a(2)] fuel _ r]) simp
qed simp

text \<open>A blob that is there reads back, with enough fuel for its depth.\<close>

lemma read_blob:
  assumes "inv s" and "clean s" and "cbor_ok cbor" and "blob_at cbor ct s h bs" and "ct \<noteq> BlobIndexContentType" and "bs \<noteq> []" and "range_ok rng bs"
  shows "\<exists>depth. \<forall>fuel \<ge> depth. keeps s (openBlob_read fuel (blob_client cbor k f) h rng) (\<lambda>x _. x = range_of rng bs)"
  using assms(4) unfolding blob_at_def
proof
  assume "node s h = Some (ct, [], bs)"
  then have "served s h (ct, [], bs)" using assms(2) by (simp add: served_def clean_def)
  from read_single [OF assms(1) this assms(5-7)] show ?thesis by (metis Suc_le_D)
next
  assume "\<exists>level \<ge> 0. blob_tree (node s) cbor ct h level bs"
  then show ?thesis using read_blob_tree [OF assms(1,2,3) _ _ _ assms(7)] by blast
qed

end

end
