(* ===== verification/Uri.thy ===== *)
theory Uri
  imports Do_Names
begin

text \<open>
  \<open>decodeURIComponent\<close>, the inverse of the encoding that Durable Object names and route segments
  are written with, and \<open>decodeComposite\<close> of \<^verbatim>\<open>packages/service-cloudflare/src/do-names.ts\<close>.

  Strings hold code units up to \<open>U+00FF\<close> here; an escape sequence for a larger code point is
  refused like a malformed one.
\<close>

section \<open>Decoding\<close>

text \<open>The byte written as \<open>%XX\<close> at the front.\<close>

definition percent_at :: "string \<Rightarrow> (nat \<times> string) option" where
  "percent_at s = (case s of
       p # a # b # rest \<Rightarrow>
         if p = CHR ''%'' then (case (hex_value a, hex_value b) of (Some x, Some y) \<Rightarrow> Some (16 * x + y, rest) | _ \<Rightarrow> None) else None
     | _ \<Rightarrow> None)"

lemma percent_at_shorter: "percent_at s = Some (x, rest) \<Longrightarrow> length rest < length s"
  by (auto simp: percent_at_def split: list.splits if_splits option.splits)

function decodeURIComponent :: "string \<Rightarrow> string option" where
  "decodeURIComponent [] = Some []"
| "decodeURIComponent (c # s) =
     (if c \<noteq> CHR ''%'' then map_option (Cons c) (decodeURIComponent s)
      else case percent_at (c # s) of
          None \<Rightarrow> None
        | Some (x, rest) \<Rightarrow>
            if x < 128 then map_option (Cons (char_of x)) (decodeURIComponent rest)
            else if x = 194 \<or> x = 195
            then (case percent_at rest of
                    None \<Rightarrow> None
                  | Some (y, rest') \<Rightarrow>
                      if 128 \<le> y \<and> y < 192
                      then map_option (Cons (char_of (64 * (x - 192) + (y - 128)))) (decodeURIComponent rest')
                      else None)
            else None)"
  by pat_completeness auto
termination
  by (relation "measure length") (auto dest!: percent_at_shorter)

definition decodeComposite :: "string \<Rightarrow> (string \<times> string) option" where
  "decodeComposite name =
     (if CHR ''|'' \<notin> set name then None
      else case (decodeURIComponent (takeWhile (\<lambda>c. c \<noteq> CHR ''|'') name),
                 decodeURIComponent (tl (dropWhile (\<lambda>c. c \<noteq> CHR ''|'') name))) of
          (Some app, Some component) \<Rightarrow>
            if length app = 0 \<or> length component = 0 then None
            else if canonicalComposite app component \<noteq> Inr name then None
            else Some (app, component)
        | _ \<Rightarrow> None)"

section \<open>Decoding what was encoded\<close>

lemma hex_value_upper: "n < 16 \<Longrightarrow> hex_value (upper_hex_digit n) = Some n"
  using upper_hex_digit_code [of n] by (auto simp: hex_value_def)

lemma percent_at_byte: "percent_at (percent_byte b @ rest) = Some (unat b, rest)"
proof -
  have "unat b div 16 < 16" "unat b mod 16 < 16" using unat_byte_bound [of b] by (simp_all add: less_mult_imp_div_less)
  then show ?thesis by (simp add: percent_byte_def percent_at_def hex_value_upper)
qed

lemma decode_encoded_char: "decodeURIComponent (encode_uri_char c @ rest) = map_option (Cons c) (decodeURIComponent rest)"
proof (cases "uri_unreserved c")
  case True
  then show ?thesis using percent_unreserved by (auto simp: encode_uri_char_def)
next
  case False
  let ?n = "of_char c :: nat"
  have n: "?n < 256" by simp
  have codes: "map unat (textEncodeChar c) = (if ?n < 128 then [?n] else [192 + ?n div 64, 128 + ?n mod 64])"
    by (rule textEncodeChar_codes)
  have percent: "percent_byte b @ t = CHR ''%'' # tl (percent_byte b) @ t" for b t by (simp add: percent_byte_def)
  show ?thesis
  proof (cases "?n < 128")
    case True
    then obtain b where "textEncodeChar c = [b]" "unat b = ?n" using codes by auto
    then show ?thesis
      using True False percent_at_byte [of b rest]
      by (simp add: encode_uri_char_def percent)
  next
    case big: False
    then obtain b b' where b: "textEncodeChar c = [b, b']" "unat b = 192 + ?n div 64" "unat b' = 128 + ?n mod 64"
      using codes by auto
    have "2 \<le> ?n div 64" using div_le_mono [of 128 ?n 64] big by simp
    moreover have "?n div 64 < 4" using n by (intro less_mult_imp_div_less) simp
    ultimately have "?n div 64 = 2 \<or> ?n div 64 = 3" by linarith
    then have first: "unat b = 194 \<or> unat b = 195" "\<not> unat b < 128" using b(2) by auto
    have "64 * (unat b - 192) + (unat b' - 128) = ?n" using b(2,3) by simp
    then have char_back: "char_of (64 * (unat b - 192) + (unat b' - 128)) = c" by simp
    have enc: "encode_uri_char c @ rest = CHR ''%'' # tl (percent_byte b) @ percent_byte b' @ rest"
      using False b(1) by (simp add: encode_uri_char_def percent_byte_def)
    have "percent_at (CHR ''%'' # tl (percent_byte b) @ percent_byte b' @ rest) = Some (unat b, percent_byte b' @ rest)"
      using percent_at_byte [of b "percent_byte b' @ rest"] by (simp add: percent)
    then show ?thesis
      unfolding enc decodeURIComponent.simps using first char_back b(3) by (auto simp: percent_at_byte)
  qed
qed

lemma decode_encodeURIComponent: "decodeURIComponent (encodeURIComponent s) = Some s"
  by (induction s) (simp_all add: encodeURIComponent_def decode_encoded_char)

text \<open>
  C32. Durable Object names can be read back: \<open>decodeComposite\<close> returns the App and the component
  that \<open>canonicalComposite\<close> made the name of, and whatever it returns makes that very name; so it
  accepts canonical names and no others.
\<close>

theorem composite_round_trip:
  "decodeComposite name = Some (app, component) \<longleftrightarrow> canonicalComposite app component = Inr name"
proof
  assume "decodeComposite name = Some (app, component)"
  then show "canonicalComposite app component = Inr name"
    by (auto simp: decodeComposite_def split: if_splits option.splits)
next
  assume c: "canonicalComposite app component = Inr name"
  then have parts: "app \<noteq> []" "component \<noteq> []" and name: "name = encodeURIComponent app @ CHR ''|'' # encodeURIComponent component"
    by (auto simp: canonicalComposite_def split: if_splits)
  have "takeWhile (\<lambda>c. c \<noteq> CHR ''|'') name = encodeURIComponent app"
    "dropWhile (\<lambda>c. c \<noteq> CHR ''|'') name = CHR ''|'' # encodeURIComponent component"
    using bar_not_encoded [of app] by (auto simp: name takeWhile_append dropWhile_append)
  then show "decodeComposite name = Some (app, component)"
    using c parts by (simp add: decodeComposite_def decode_encodeURIComponent) (simp add: name)
qed

end
