(* ===== verification/Space_Id.thy ===== *)
theory Space_Id
  imports Prelude
begin

text \<open>
  Space names and Space selectors, \<^verbatim>\<open>packages/space-protocol/src/space-id.ts\<close>: a Space is named by a
  path of segments, and a capability grants a set of Spaces by an exact name, by a prefix of the
  last segment (\<open>/a/b*\<close>) or by a whole subtree (\<open>/a/**\<close>).
\<close>

section \<open>Names\<close>

definition SPACE_ID_MAX_LENGTH :: nat where "SPACE_ID_MAX_LENGTH = 256"
definition SPACE_SELECTOR_MAX_LENGTH :: nat where "SPACE_SELECTOR_MAX_LENGTH = SPACE_ID_MAX_LENGTH + 2"

text \<open>The character class of the pattern, and the pattern after the first slash.\<close>

definition segment_char :: "char \<Rightarrow> bool" where
  "segment_char c \<longleftrightarrow> (let n = (of_char c :: nat) in
     (65 \<le> n \<and> n \<le> 90) \<or> (97 \<le> n \<and> n \<le> 122) \<or> (48 \<le> n \<and> n \<le> 57) \<or> c = CHR ''_'' \<or> c = CHR ''-'')"

fun match_segments :: "bool \<Rightarrow> string \<Rightarrow> bool" where
  "match_segments inside [] = inside"
| "match_segments inside (c # s) =
     (if c = CHR ''/'' then inside \<and> match_segments False s else segment_char c \<and> match_segments True s)"

definition SPACE_ID_PATTERN :: "string \<Rightarrow> bool" where
  "SPACE_ID_PATTERN s = (case s of [] \<Rightarrow> False | c # rest \<Rightarrow> c = CHR ''/'' \<and> match_segments False rest)"

text \<open>The result is an error message or nothing; the argument is a string here.\<close>

definition validateSpaceId :: "string \<Rightarrow> string option" where
  "validateSpaceId value =
     (if length value > SPACE_ID_MAX_LENGTH then Some ''spaceId must be at most 256 characters''
      else if \<not> SPACE_ID_PATTERN value
      then Some ''spaceId must start with '/' and contain non-empty ASCII letter, digit, '_' or '-' path segments''
      else None)"

section \<open>Selectors\<close>

datatype spaceSelectorKind = Exact | Segment_prefix | Recursive_prefix

record parsedSpaceSelector =
  sel_selector :: string
  sel_kind :: spaceSelectorKind
  sel_literalPrefix :: string

text \<open>\<open>value.endsWith(suffix)\<close>, and \<open>value.slice(0, -n)\<close>.\<close>

definition ends_with :: "string \<Rightarrow> string \<Rightarrow> bool" where
  "ends_with value suffix \<longleftrightarrow> length suffix \<le> length value \<and> drop (length value - length suffix) value = suffix"

definition slice_end :: "nat \<Rightarrow> string \<Rightarrow> string" where
  "slice_end n value = take (length value - n) value"

definition parseSpaceSelector :: "string \<Rightarrow> parsedSpaceSelector option" where
  "parseSpaceSelector value =
     (if length value > SPACE_SELECTOR_MAX_LENGTH then None
      else if ends_with value ''/**'' then
        (let prefix = slice_end 3 value in
         if validateSpaceId prefix \<noteq> None then None
         else Some \<lparr>sel_selector = value, sel_kind = Recursive_prefix, sel_literalPrefix = prefix @ ''/''\<rparr>)
      else if ends_with value ''*'' then
        (if CHR ''*'' \<in> set (slice_end 1 value) then None
         else let prefix = slice_end 1 value in
         if validateSpaceId prefix \<noteq> None then None
         else Some \<lparr>sel_selector = value, sel_kind = Segment_prefix, sel_literalPrefix = prefix\<rparr>)
      else if validateSpaceId value \<noteq> None then None
      else Some \<lparr>sel_selector = value, sel_kind = Exact, sel_literalPrefix = value\<rparr>)"

definition starts_with :: "string \<Rightarrow> string \<Rightarrow> bool" where
  "starts_with value prefix \<longleftrightarrow> take (length prefix) value = prefix"

definition spaceSelectorMatches :: "string \<Rightarrow> string \<Rightarrow> bool" where
  "spaceSelectorMatches selector space =
     (if validateSpaceId space \<noteq> None then False
      else case parseSpaceSelector selector of
          None \<Rightarrow> False
        | Some parsed \<Rightarrow>
            (case sel_kind parsed of
               Exact \<Rightarrow> space = sel_literalPrefix parsed
             | Segment_prefix \<Rightarrow> starts_with space (sel_literalPrefix parsed)
                 \<and> CHR ''/'' \<notin> set (drop (length (sel_literalPrefix parsed)) space)
             | Recursive_prefix \<Rightarrow> starts_with space (sel_literalPrefix parsed)))"

section \<open>Paths\<close>

text \<open>The specification: a name is a non-empty path of segments.\<close>

definition segment_ok :: "string \<Rightarrow> bool" where
  "segment_ok g \<longleftrightarrow> g \<noteq> [] \<and> list_all segment_char g"

definition path_ok :: "string list \<Rightarrow> bool" where
  "path_ok gs \<longleftrightarrow> gs \<noteq> [] \<and> list_all segment_ok gs"

definition path_text :: "string list \<Rightarrow> string" where
  "path_text gs = concat (map (\<lambda>g. CHR ''/'' # g) gs)"

lemma slash_star_not_segment: "\<not> segment_char (CHR ''/'')" "\<not> segment_char (CHR ''*'')"
  by (simp_all add: segment_char_def)

lemma path_text_simps [simp]: "path_text [] = []" "path_text (g # gs) = CHR ''/'' # g @ path_text gs"
  "path_text (gs @ hs) = path_text gs @ path_text hs"
  by (simp_all add: path_text_def)

lemma match_segments_run:
  assumes "list_all segment_char g" and "g \<noteq> []"
  shows "match_segments b (g @ s) = match_segments True s"
  using assms by (induction g arbitrary: b) (use slash_star_not_segment in \<open>auto split: if_splits\<close>, (case_tac g, auto)+)

lemma match_path: "list_all segment_ok gs \<Longrightarrow> match_segments True (path_text gs)"
  by (induction gs) (simp_all add: segment_ok_def match_segments_run)

lemma path_of_match:
  "match_segments b s \<Longrightarrow> \<exists>g gs. s = g @ path_text gs \<and> list_all segment_char g \<and> (b \<or> g \<noteq> []) \<and> list_all segment_ok gs"
proof (induction b s rule: match_segments.induct)
  case (1 b)
  then show ?case by (intro exI [of _ "[]"]) simp
next
  case (2 b c s)
  show ?case
  proof (cases "c = CHR ''/''")
    case True
    then obtain g gs where "s = g @ path_text gs" "list_all segment_char g" "g \<noteq> []" "list_all segment_ok gs" and "b"
      using 2 by auto
    then show ?thesis using True by - (rule exI [of _ "[]"], rule exI [of _ "g # gs"], simp add: segment_ok_def [of g])
  next
    case False
    then obtain g gs where "s = g @ path_text gs" "list_all segment_char g" "list_all segment_ok gs" "segment_char c"
      using 2 by auto
    then show ?thesis by - (rule exI [of _ "c # g"], rule exI [of _ gs], simp)
  qed
qed

lemma SPACE_ID_PATTERN_iff: "SPACE_ID_PATTERN s \<longleftrightarrow> (\<exists>gs. path_ok gs \<and> s = path_text gs)"
proof
  assume "SPACE_ID_PATTERN s"
  then obtain rest where "s = CHR ''/'' # rest" "match_segments False rest" by (auto simp: SPACE_ID_PATTERN_def split: list.splits)
  moreover from this path_of_match obtain g gs where "rest = g @ path_text gs" "list_all segment_char g" "g \<noteq> []" "list_all segment_ok gs"
    by blast
  ultimately show "\<exists>gs. path_ok gs \<and> s = path_text gs" by (intro exI [of _ "g # gs"]) (simp add: path_ok_def segment_ok_def [of g])
next
  assume "\<exists>gs. path_ok gs \<and> s = path_text gs"
  then obtain g gs where "s = path_text (g # gs)" "segment_ok g" "list_all segment_ok gs"
    by (auto simp: path_ok_def neq_Nil_conv)
  then show "SPACE_ID_PATTERN s" by (simp add: SPACE_ID_PATTERN_def segment_ok_def match_segments_run match_path)
qed

lemma validateSpaceId_iff: "validateSpaceId s = None \<longleftrightarrow> length s \<le> 256 \<and> (\<exists>gs. path_ok gs \<and> s = path_text gs)"
  by (auto simp: validateSpaceId_def SPACE_ID_PATTERN_iff SPACE_ID_MAX_LENGTH_def)

lemma path_chars: "path_ok gs \<Longrightarrow> CHR ''*'' \<notin> set (path_text gs)"
  unfolding path_ok_def
  by (induction gs) (use slash_star_not_segment(2) in \<open>auto simp: segment_ok_def list_all_iff path_text_def\<close>)

text \<open>A path is read in one way only.\<close>

lemma segment_prefix:
  assumes "g @ s = h @ t" and "list_all segment_char g" "list_all segment_char h"
    and "s = [] \<or> hd s = CHR ''/''" and "t = [] \<or> hd t = CHR ''/''"
  shows "g = h \<and> s = t"
  using assms
proof (induction g arbitrary: h)
  case Nil
  then show ?case using slash_star_not_segment(1) by (cases h) auto
next
  case (Cons c g)
  then show ?case using slash_star_not_segment(1) by (cases h) auto
qed

lemma path_text_start: "path_text gs = [] \<or> hd (path_text gs) = CHR ''/''"
  by (cases gs) simp_all

lemma path_text_inject:
  assumes "path_text gs = path_text hs" and "list_all segment_ok gs" "list_all segment_ok hs"
  shows "gs = hs"
  using assms
proof (induction gs arbitrary: hs)
  case Nil
  then show ?case by (cases hs) simp_all
next
  case (Cons g gs)
  then obtain h ts where hs: "hs = h # ts" by (cases hs) auto
  then show ?case
    using Cons segment_prefix [of g "path_text gs" h "path_text ts", OF _ _ _ path_text_start path_text_start]
    by (simp add: segment_ok_def)
qed

section \<open>What the selectors select\<close>

lemma validate_path: "path_ok gs \<Longrightarrow> length (path_text gs) \<le> 256 \<Longrightarrow> validateSpaceId (path_text gs) = None"
  by (auto simp: validateSpaceId_iff)

lemma ends_with_append [simp]: "ends_with (s @ t) t" "slice_end 3 (s @ ''/**'') = s" "slice_end (Suc 0) (s @ ''*'') = s"
  by (simp_all add: ends_with_def slice_end_def)

lemma ends_with_star: "ends_with s t \<Longrightarrow> CHR ''*'' \<in> set t \<Longrightarrow> CHR ''*'' \<in> set s"
  unfolding ends_with_def by (metis in_set_dropD)

lemma parse_exact:
  assumes "path_ok gs" and "length (path_text gs) \<le> 256"
  shows "parseSpaceSelector (path_text gs) = Some \<lparr>sel_selector = path_text gs, sel_kind = Exact, sel_literalPrefix = path_text gs\<rparr>"
  using assms path_chars [OF assms(1)] ends_with_star [of "path_text gs" "''/**''"] ends_with_star [of "path_text gs" "''*''"]
  by (auto simp: parseSpaceSelector_def validate_path SPACE_SELECTOR_MAX_LENGTH_def SPACE_ID_MAX_LENGTH_def)

lemma parse_recursive:
  assumes "path_ok gs" and "length (path_text gs) \<le> 255"
  shows "parseSpaceSelector (path_text gs @ ''/**'')
    = Some \<lparr>sel_selector = path_text gs @ ''/**'', sel_kind = Recursive_prefix, sel_literalPrefix = path_text gs @ ''/''\<rparr>"
  using assms by (simp add: Let_def parseSpaceSelector_def validate_path SPACE_SELECTOR_MAX_LENGTH_def SPACE_ID_MAX_LENGTH_def)

lemma parse_segment:
  assumes "path_ok gs" and "length (path_text gs) \<le> 256"
  shows "parseSpaceSelector (path_text gs @ ''*'')
    = Some \<lparr>sel_selector = path_text gs @ ''*'', sel_kind = Segment_prefix, sel_literalPrefix = path_text gs\<rparr>"
proof -
  have star: "CHR ''*'' \<notin> set (path_text gs)" using path_chars [OF assms(1)] .
  have "\<not> ends_with (path_text gs @ ''*'') ''/**''"
  proof
    assume "ends_with (path_text gs @ ''*'') ''/**''"
    then obtain p where "path_text gs @ ''*'' = p @ ''/**''" unfolding ends_with_def by (metis append_take_drop_id)
    then have "path_text gs = p @ ''/*''" by (metis append1_eq_conv append.assoc append_Cons append_Nil)
    then show False using star by simp
  qed
  then show ?thesis
    using assms star by (simp add: Let_def parseSpaceSelector_def validate_path SPACE_SELECTOR_MAX_LENGTH_def SPACE_ID_MAX_LENGTH_def)
qed

lemma starts_with_iff: "starts_with s p \<longleftrightarrow> (\<exists>t. s = p @ t)"
  unfolding starts_with_def by (metis append_eq_conv_conj)

text \<open>A path that continues another one's text at a slash continues it by segments.\<close>

lemma path_continues:
  assumes "path_text hs = path_text gs @ CHR ''/'' # t" and "list_all segment_ok hs" "list_all segment_ok gs"
  shows "\<exists>rest. rest \<noteq> [] \<and> hs = gs @ rest"
  using assms
proof (induction gs arbitrary: hs)
  case Nil
  then show ?case by (cases hs) auto
next
  case (Cons g gs)
  then obtain h ts where hs: "hs = h # ts" by (cases hs) auto
  have start: "path_text gs @ CHR ''/'' # t = [] \<or> hd (path_text gs @ CHR ''/'' # t) = CHR ''/''" by (cases gs) simp_all
  have "h = g \<and> path_text ts = path_text gs @ CHR ''/'' # t"
    using Cons.prems hs segment_prefix [of h "path_text ts" g "path_text gs @ CHR ''/'' # t", OF _ _ _ path_text_start start]
    by (simp add: segment_ok_def)
  then show ?case using Cons.IH [of ts] Cons.prems hs by auto
qed

lemma segment_continues:
  assumes "path_text hs = path_text (gs @ [g]) @ t" and "CHR ''/'' \<notin> set t" and "list_all segment_ok hs" "list_all segment_ok (gs @ [g])"
  shows "hs = gs @ [g @ t]"
  using assms
proof (induction gs arbitrary: hs)
  case Nil
  then obtain h ts where hs: "hs = h # ts" by (cases hs) auto
  then have eq: "h @ path_text ts = g @ t" using Nil by simp
  have "path_text ts = []"
  proof (cases ts)
    case (Cons u us)
    have "segment_char c" if "c \<in> set g" for c using Nil.prems(4) that by (auto simp: segment_ok_def list_all_iff)
    then have "CHR ''/'' \<notin> set (g @ t)" using Nil.prems(2) slash_star_not_segment(1) by auto
    moreover have "CHR ''/'' \<in> set (h @ path_text ts)" by (simp add: Cons)
    ultimately show ?thesis using eq by simp
  qed simp
  then show ?case using eq hs by (cases ts) auto
next
  case (Cons g' gs)
  then obtain h ts where hs: "hs = h # ts" by (cases hs) auto
  have start: "path_text (gs @ [g]) @ t = [] \<or> hd (path_text (gs @ [g]) @ t) = CHR ''/''" by (cases gs) simp_all
  have "h = g' \<and> path_text ts = path_text (gs @ [g]) @ t"
    using Cons.prems hs segment_prefix [of h "path_text ts" g' "path_text (gs @ [g]) @ t", OF _ _ _ path_text_start start]
    by (simp add: segment_ok_def)
  then show ?case using Cons.IH [of ts] Cons.prems hs by auto
qed

text \<open>
  C11. Selectors select what they say, on well-formed Space names: an exact selector its own
  name; \<open>/a/b*\<close> the names with the same parent whose last segment starts with \<open>b\<close>, never a name below
  them; \<open>/a/**\<close> every name strictly below \<open>/a\<close> and nothing else, so not \<open>/a\<close> itself and not \<open>/ab\<close>.  No
  selector selects a name that is not well-formed.
\<close>

theorem selector_semantics:
  assumes "path_ok (gs @ [g])" and "length (path_text (gs @ [g])) \<le> 255" and "path_ok hs"
  shows "spaceSelectorMatches (path_text (gs @ [g])) (path_text hs) = (hs = gs @ [g])
    \<and> spaceSelectorMatches (path_text (gs @ [g]) @ ''*'') (path_text hs)
      = (length (path_text hs) \<le> 256 \<and> (\<exists>t. hs = gs @ [g @ t]))
    \<and> spaceSelectorMatches (path_text (gs @ [g]) @ ''/**'') (path_text hs)
      = (length (path_text hs) \<le> 256 \<and> (\<exists>rest. rest \<noteq> [] \<and> hs = (gs @ [g]) @ rest))
    \<and> (\<forall>selector name. validateSpaceId name \<noteq> None \<longrightarrow> \<not> spaceSelectorMatches selector name)"
proof (intro conjI allI impI)
  let ?p = "path_text (gs @ [g])"
  have ok: "list_all segment_ok (gs @ [g])" "list_all segment_ok hs" using assms by (simp_all add: path_ok_def)
  have valid: "validateSpaceId (path_text hs) = None \<longleftrightarrow> length (path_text hs) \<le> 256" using assms(3) by (auto simp: validateSpaceId_iff)
  have len: "length ?p \<le> 256" using assms(2) by simp
  show "spaceSelectorMatches ?p (path_text hs) = (hs = gs @ [g])"
    unfolding spaceSelectorMatches_def parse_exact [OF assms(1) len]
    using path_text_inject [OF _ ok(2,1)] validate_path [OF assms(1) len] by auto
  have slashless: "CHR ''/'' \<notin> set t" if "hs = gs @ [g @ t]" for t
    using ok(2) that slash_star_not_segment(1) by (auto simp: segment_ok_def list_all_iff)
  have "starts_with (path_text hs) ?p \<and> CHR ''/'' \<notin> set (drop (length ?p) (path_text hs)) \<longleftrightarrow> (\<exists>t. hs = gs @ [g @ t])"
    using segment_continues [OF _ _ ok(2,1)] slashless by (auto simp: starts_with_iff)
  then show "spaceSelectorMatches (?p @ ''*'') (path_text hs) = (length (path_text hs) \<le> 256 \<and> (\<exists>t. hs = gs @ [g @ t]))"
    unfolding spaceSelectorMatches_def parse_segment [OF assms(1) len] using valid by auto
  have "starts_with (path_text hs) (?p @ ''/'') \<longleftrightarrow> (\<exists>rest. rest \<noteq> [] \<and> hs = (gs @ [g]) @ rest)"
  proof
    assume "starts_with (path_text hs) (?p @ ''/'')"
    then obtain t where "path_text hs = ?p @ CHR ''/'' # t" by (auto simp: starts_with_iff)
    then show "\<exists>rest. rest \<noteq> [] \<and> hs = (gs @ [g]) @ rest" by (rule path_continues [OF _ ok(2,1)])
  next
    assume "\<exists>rest. rest \<noteq> [] \<and> hs = (gs @ [g]) @ rest"
    then obtain h rest where "hs = (gs @ [g]) @ h # rest" by (auto simp: neq_Nil_conv)
    then show "starts_with (path_text hs) (?p @ ''/'')" by (auto simp: starts_with_iff)
  qed
  then show "spaceSelectorMatches (?p @ ''/**'') (path_text hs)
      = (length (path_text hs) \<le> 256 \<and> (\<exists>rest. rest \<noteq> [] \<and> hs = (gs @ [g]) @ rest))"
    unfolding spaceSelectorMatches_def parse_recursive [OF assms(1,2)] using valid by auto
qed (simp add: spaceSelectorMatches_def)

theorem selector_semantics_witness:
  "spaceSelectorMatches ''/team/**'' ''/team/a'' \<and> \<not> spaceSelectorMatches ''/team/**'' ''/team'' \<and> \<not> spaceSelectorMatches ''/team/**'' ''/teams/a''"
proof -
  have ok: "path_ok ([] @ [''team''])" "length (path_text ([] @ [''team''])) \<le> 255" "path_ok [''team'', ''a'']" "path_ok [''team'']" "path_ok [''teams'', ''a'']"
    by (simp_all add: path_ok_def segment_ok_def segment_char_def)
  show ?thesis
    using selector_semantics [OF ok(1,2,3)] selector_semantics [OF ok(1,2,4)] selector_semantics [OF ok(1,2,5)] by simp
qed

end
