(* ===== verification/Routes.thy ===== *)
theory Routes
  imports Uri Space_Id Space_Object
begin

text \<open>
  The public routes: the data plane's of \<^verbatim>\<open>packages/space-protocol/src/routes.ts\<close> and the
  administration's of \<^verbatim>\<open>packages/admin-protocol/src/routes.ts\<close>, each with the builder the clients
  use and the matcher the service uses.

  A URL is its origin, its path and its query parameters, as the \<open>URL\<close> class gives them; the text
  in between is not modelled.
\<close>

record url =
  url_origin :: string
  url_pathname :: string
  url_params :: "(string \<times> string) list"

text \<open>\<open>pathname.split("/").filter(Boolean)\<close> and \<open>parts[i]\<close>.\<close>

definition path_parts :: "string \<Rightarrow> string list" where
  "path_parts pathname = filter (\<lambda>p. p \<noteq> []) (split_slash pathname)"

definition part :: "string list \<Rightarrow> nat \<Rightarrow> string option" where
  "part parts i = (if i < length parts then Some (parts ! i) else None)"

section \<open>The data plane\<close>

datatype appSpaceRoute =
    Read_content string string string
  | Read_metadata string string string
  | Lease_node string string string
  | Get_usage string string
  | Run_gc string string
  | List_root_refs string string
  | Update_root_refs string string

fun route_appId :: "appSpaceRoute \<Rightarrow> string" where
  "route_appId (Read_content app space hash) = app"
| "route_appId (Read_metadata app space hash) = app"
| "route_appId (Lease_node app space hash) = app"
| "route_appId (Get_usage app space) = app"
| "route_appId (Run_gc app space) = app"
| "route_appId (List_root_refs app space) = app"
| "route_appId (Update_root_refs app space) = app"

fun route_spaceId :: "appSpaceRoute \<Rightarrow> string" where
  "route_spaceId (Read_content app space hash) = space"
| "route_spaceId (Read_metadata app space hash) = space"
| "route_spaceId (Lease_node app space hash) = space"
| "route_spaceId (Get_usage app space) = space"
| "route_spaceId (Run_gc app space) = space"
| "route_spaceId (List_root_refs app space) = space"
| "route_spaceId (Update_root_refs app space) = space"

text \<open>\<open>params.set(name, value)\<close>: the first parameter of that name is changed and the others go.\<close>

fun param_set :: "string \<Rightarrow> string \<Rightarrow> (string \<times> string) list \<Rightarrow> (string \<times> string) list" where
  "param_set name v [] = [(name, v)]"
| "param_set name v ((k, x) # params) =
     (if k = name then (name, v) # filter (\<lambda>p. fst p \<noteq> name) params else (k, x) # param_set name v params)"

definition queryForScope :: "string \<Rightarrow> string \<Rightarrow> (string \<times> string option) list \<Rightarrow> exn + (string \<times> string) list" where
  "queryForScope app space additional =
     (if length app = 0 then Inl (TypeErr ''appId must not be empty'')
      else case validateSpaceId space of
          Some error \<Rightarrow> Inl (TypeErr error)
        | None \<Rightarrow> Inr (fold (\<lambda>(name, v) params. case v of None \<Rightarrow> params | Some x \<Rightarrow> param_set name x params)
            additional [(''appId'', app), (''spaceId'', space)]))"

text \<open>\<open>appSpaceRoutes\<close>: the path and the query of a request.  Only \<open>listRootRefs\<close> has more parameters.\<close>

fun route_path :: "appSpaceRoute \<Rightarrow> string" where
  "route_path (Read_content app space hash) = ''/v1/cas/nodes/'' @ encodeURIComponent hash"
| "route_path (Read_metadata app space hash) = ''/v1/cas/nodes/'' @ encodeURIComponent hash @ ''/metadata''"
| "route_path (Lease_node app space hash) = ''/v1/cas/nodes/'' @ encodeURIComponent hash @ ''/lease''"
| "route_path (Get_usage app space) = ''/v1/cas/usage''"
| "route_path (Run_gc app space) = ''/v1/cas/gc''"
| "route_path (List_root_refs app space) = ''/v1/cas/root-refs''"
| "route_path (Update_root_refs app space) = ''/v1/cas/root-refs''"

definition appSpaceRoutes :: "appSpaceRoute \<Rightarrow> (string \<times> string option) list \<Rightarrow> exn + string \<times> (string \<times> string) list" where
  "appSpaceRoutes r additional =
     bindE (queryForScope (route_appId r) (route_spaceId r) additional) (\<lambda>params. Inr (route_path r, params))"

text \<open>The method each operation is called with.\<close>

fun route_method :: "appSpaceRoute \<Rightarrow> string" where
  "route_method (Lease_node app space hash) = ''POST''"
| "route_method (Run_gc app space) = ''POST''"
| "route_method (Update_root_refs app space) = ''POST''"
| "route_method _ = ''GET''"

definition param_getAll :: "string \<Rightarrow> (string \<times> string) list \<Rightarrow> string list" where
  "param_getAll name params = map snd (filter (\<lambda>p. fst p = name) params)"

definition matchAppSpaceRoute :: "string \<Rightarrow> url \<Rightarrow> appSpaceRoute option" where
  "matchAppSpaceRoute verb u =
     (let parts = path_parts (url_pathname u) in
      if part parts 0 \<noteq> Some ''v1'' \<or> part parts 1 \<noteq> Some ''cas'' then None
      else
      case (param_getAll ''appId'' (url_params u), param_getAll ''spaceId'' (url_params u)) of
        ([app], [space]) \<Rightarrow>
          if app = [] \<or> validateSpaceId space \<noteq> None then None
          else if length parts = 3 \<and> part parts 2 = Some ''root-refs'' then
            (if verb = ''GET'' then Some (List_root_refs app space)
             else if verb = ''POST'' then Some (Update_root_refs app space) else None)
          else if length parts = 3 \<and> part parts 2 = Some ''usage'' \<and> verb = ''GET'' then Some (Get_usage app space)
          else if length parts = 3 \<and> part parts 2 = Some ''gc'' \<and> verb = ''POST'' then Some (Run_gc app space)
          else if part parts 2 \<noteq> Some ''nodes'' then None
          else (case part parts 3 of
              None \<Rightarrow> None
            | Some text \<Rightarrow>
                (case decodeURIComponent text of
                   None \<Rightarrow> None
                 | Some hash \<Rightarrow>
                     if length parts = 4 \<and> verb = ''GET'' then Some (Read_content app space hash)
                     else if length parts \<noteq> 5 then None
                     else if part parts 4 = Some ''metadata'' \<and> verb = ''GET'' then Some (Read_metadata app space hash)
                     else if part parts 4 = Some ''lease'' \<and> verb = ''POST'' then Some (Lease_node app space hash)
                     else None))
      | _ \<Rightarrow> None)"

section \<open>Paths\<close>

lemma split_slash_segment: "CHR ''/'' \<notin> set g \<Longrightarrow> split_slash (g @ CHR ''/'' # s) = g # split_slash s"
  by (induction g) auto

lemma split_slash_end: "CHR ''/'' \<notin> set g \<Longrightarrow> split_slash g = [g]"
  by (induction g) auto

lemma path_parts_text:
  assumes "list_all (\<lambda>p. p \<noteq> [] \<and> CHR ''/'' \<notin> set p) ps"
  shows "path_parts (path_text ps) = ps"
proof -
  have "split_slash (g @ path_text ps) = g # ps" if "CHR ''/'' \<notin> set g" for g
    using assms that
  proof (induction ps arbitrary: g)
    case Nil
    then show ?case by (simp add: split_slash_end)
  next
    case (Cons p ps)
    then show ?case by (simp add: split_slash_segment)
  qed
  from this [of "[]"] assms show ?thesis by (auto simp: path_parts_def list_all_iff)
qed

lemma slash_not_encoded: "CHR ''/'' \<notin> set (encodeURIComponent s)"
proof -
  have hex: "upper_hex_digit n \<noteq> CHR ''/''" if "n < 16" for n
    using upper_hex_digit_code [OF that] that by (auto split: if_splits)
  have "CHR ''/'' \<notin> set (percent_byte b)" for b
    using hex [of "unat b div 16"] hex [of "unat b mod 16"] unat_byte_bound [of b]
    by (auto simp: percent_byte_def less_mult_imp_div_less)
  moreover have "\<not> uri_unreserved (CHR ''/'')" by code_simp
  ultimately have "CHR ''/'' \<notin> set (encode_uri_char c)" for c by (auto simp: encode_uri_char_def)
  then show ?thesis by (simp add: encodeURIComponent_def)
qed

lemma encoded_nonempty: "encodeURIComponent s = [] \<longleftrightarrow> s = []"
  using encodeURIComponent_inject [of s "[]"] by (auto simp: encodeURIComponent_def)

lemmas encoded_simps = slash_not_encoded encoded_nonempty decode_encodeURIComponent

text \<open>The path of a route, as a list of segments.\<close>

fun route_parts :: "appSpaceRoute \<Rightarrow> string list" where
  "route_parts (Read_content app space hash) = [''v1'', ''cas'', ''nodes'', encodeURIComponent hash]"
| "route_parts (Read_metadata app space hash) = [''v1'', ''cas'', ''nodes'', encodeURIComponent hash, ''metadata'']"
| "route_parts (Lease_node app space hash) = [''v1'', ''cas'', ''nodes'', encodeURIComponent hash, ''lease'']"
| "route_parts (Get_usage app space) = [''v1'', ''cas'', ''usage'']"
| "route_parts (Run_gc app space) = [''v1'', ''cas'', ''gc'']"
| "route_parts (List_root_refs app space) = [''v1'', ''cas'', ''root-refs'']"
| "route_parts (Update_root_refs app space) = [''v1'', ''cas'', ''root-refs'']"

fun route_hash :: "appSpaceRoute \<Rightarrow> string option" where
  "route_hash (Read_content app space hash) = Some hash"
| "route_hash (Read_metadata app space hash) = Some hash"
| "route_hash (Lease_node app space hash) = Some hash"
| "route_hash _ = None"

lemma route_path_parts:
  assumes "route_hash r \<noteq> Some []"
  shows "path_parts (route_path r) = route_parts r"
proof -
  have "route_path r = path_text (route_parts r)" by (cases r) simp_all
  moreover have "list_all (\<lambda>p. p \<noteq> [] \<and> CHR ''/'' \<notin> set p) (route_parts r)"
    using assms by (cases r) (simp_all add: encoded_simps)
  ultimately show ?thesis using path_parts_text by metis
qed

lemma param_set_other: "name \<noteq> other \<Longrightarrow> param_getAll other (param_set name v params) = param_getAll other params"
proof (induction name v params rule: param_set.induct)
  case (2 name v k x params)
  have "filter (\<lambda>p. fst p \<noteq> name \<and> fst p = other) params = filter (\<lambda>p. fst p = other) params"
    using 2(2) by (intro filter_cong) auto
  then show ?case using 2 by (auto simp: param_getAll_def)
qed (simp add: param_getAll_def)

lemma query_scope:
  assumes "queryForScope app space additional = Inr params" and "\<forall>(name, v) \<in> set additional. name \<noteq> ''appId'' \<and> name \<noteq> ''spaceId''"
  shows "app \<noteq> [] \<and> validateSpaceId space = None \<and> param_getAll ''appId'' params = [app] \<and> param_getAll ''spaceId'' params = [space]"
proof -
  let ?step = "\<lambda>(name, v) params. case v of None \<Rightarrow> params | Some x \<Rightarrow> param_set name x params"
  have keep: "param_getAll n (fold ?step additional ps) = param_getAll n ps"
    if "\<forall>(name, v) \<in> set additional. name \<noteq> n" for n ps
    using that by (induction additional arbitrary: ps) (auto simp: param_set_other split: option.splits)
  have "\<forall>(name, v) \<in> set additional. name \<noteq> ''appId''" "\<forall>(name, v) \<in> set additional. name \<noteq> ''spaceId''"
    using assms(2) by auto
  note here = keep [OF this(1)] keep [OF this(2)]
  have "app \<noteq> []" "validateSpaceId space = None" "params = fold ?step additional [(''appId'', app), (''spaceId'', space)]"
    using assms(1) by (simp_all add: queryForScope_def split: if_splits option.splits)
  then show ?thesis using here by (simp add: param_getAll_def)
qed

lemma matched_route:
  assumes "appSpaceRoutes r additional = Inr (path, params)" and "route_hash r \<noteq> Some []"
    and "\<forall>(name, v) \<in> set additional. name \<noteq> ''appId'' \<and> name \<noteq> ''spaceId''"
  shows "matchAppSpaceRoute (route_method r) \<lparr>url_origin = origin, url_pathname = path, url_params = params\<rparr> = Some r"
proof -
  have q: "queryForScope (route_appId r) (route_spaceId r) additional = Inr params" and path: "path = route_path r"
    using assms(1) by (auto simp: appSpaceRoutes_def bindE_eq_Inr)
  show ?thesis
    using query_scope [OF q assms(3)] assms(2)
    by (cases r) (simp_all add: matchAppSpaceRoute_def path route_path_parts part_def encoded_simps del: route_path.simps)
qed



end
