(* ===== verification/Space_Auth.thy ===== *)
theory Space_Auth
  imports Routes
begin

text \<open>
  Authorization of the data plane: the permission of every operation,
  \<^verbatim>\<open>packages/space-protocol/src/space-capability.ts\<close>; the registry of issuers,
  \<^verbatim>\<open>packages/service-cloudflare/src/control-authority.ts\<close>; and the verifier with its cache,
  \<^verbatim>\<open>packages/service/src/app-space-auth.ts\<close>.

  The \<^verbatim>\<open>jose\<close> package is a parameter, \<open>jose\<close>: what it decodes of a token, and whether it accepts the
  token's signature, issuer, audience and time under the options it is called with.  Its answer
  may depend on the state of the world, since it fetches key sets.  Events go to a log and are
  not modelled.
\<close>

section \<open>Permissions\<close>

definition SpaceCapabilityPermissionKinds :: "string list" where
  "SpaceCapabilityPermissionKinds = [''cas:nodes:read'', ''cas:nodes:lease'', ''cas:root-refs:read'', ''cas:root-refs:update'',
     ''cas:usage:read'', ''cas:gc:execute'']"

definition SpaceCapabilityVersion :: int where "SpaceCapabilityVersion = 2"
definition MaximumSpaceCapabilityGrants :: nat where "MaximumSpaceCapabilityGrants = 32"
definition CapabilityAlgorithm :: string where "CapabilityAlgorithm = ''ES256''"

fun SpaceOperationPolicies :: "appSpaceRoute \<Rightarrow> string" where
  "SpaceOperationPolicies (Read_content app space hash) = ''cas:nodes:read''"
| "SpaceOperationPolicies (Read_metadata app space hash) = ''cas:nodes:read''"
| "SpaceOperationPolicies (Lease_node app space hash) = ''cas:nodes:lease''"
| "SpaceOperationPolicies (Get_usage app space) = ''cas:usage:read''"
| "SpaceOperationPolicies (Run_gc app space) = ''cas:gc:execute''"
| "SpaceOperationPolicies (List_root_refs app space) = ''cas:root-refs:read''"
| "SpaceOperationPolicies (Update_root_refs app space) = ''cas:root-refs:update''"

fun route_operation :: "appSpaceRoute \<Rightarrow> string" where
  "route_operation (Read_content app space hash) = ''readContent''"
| "route_operation (Read_metadata app space hash) = ''readMetadata''"
| "route_operation (Lease_node app space hash) = ''lease''"
| "route_operation (Get_usage app space) = ''usage''"
| "route_operation (Run_gc app space) = ''gc''"
| "route_operation (List_root_refs app space) = ''listRootRefs''"
| "route_operation (Update_root_refs app space) = ''updateRootRefs''"

definition appSpacePermissionFor :: "appSpaceRoute \<Rightarrow> string" where
  "appSpacePermissionFor r = SpaceOperationPolicies r"

section \<open>Claims\<close>

record spaceCapabilityGrant =
  gr_selector :: string
  gr_permissions :: "string list"

record appSpacePayload =
  ap_subject :: string
  ap_jti :: string
  ap_grants :: "spaceCapabilityGrant list"
  ap_issuer :: string

text \<open>The schema of the claims: every field of its type, and nothing said of other fields.\<close>

definition nonempty_string :: "jsval \<Rightarrow> string option" where
  "nonempty_string v = (case v of Str s \<Rightarrow> if s = [] then None else Some s | _ \<Rightarrow> None)"

definition is_number :: "jsval \<Rightarrow> bool" where
  "is_number v = (case v of Number _ _ \<Rightarrow> True | _ \<Rightarrow> False)"

definition audience_ok :: "jsval \<Rightarrow> bool" where
  "audience_ok v = (case v of
       Arr vs \<Rightarrow> vs \<noteq> [] \<and> list_all (\<lambda>x. nonempty_string x \<noteq> None) vs
     | _ \<Rightarrow> nonempty_string v \<noteq> None)"

fun all_some :: "'a option list \<Rightarrow> 'a list option" where
  "all_some [] = Some []"
| "all_some (None # xs) = None"
| "all_some (Some x # xs) = map_option (Cons x) (all_some xs)"

definition permission_claim :: "jsval \<Rightarrow> string option" where
  "permission_claim v = (case v of Str s \<Rightarrow> if s \<in> set SpaceCapabilityPermissionKinds then Some s else None | _ \<Rightarrow> None)"

definition grant_claim :: "jsval \<Rightarrow> spaceCapabilityGrant option" where
  "grant_claim v = (case v of
       Obj _ \<Rightarrow>
         (case (nonempty_string (js_get v ''selector''), js_get v ''permissions'') of
            (Some selector, Arr ps) \<Rightarrow>
              if length selector > SPACE_SELECTOR_MAX_LENGTH \<or> parseSpaceSelector selector = None \<or> ps = [] then None
              else map_option (\<lambda>permissions. \<lparr>gr_selector = selector, gr_permissions = permissions\<rparr>) (all_some (map permission_claim ps))
          | _ \<Rightarrow> None)
     | _ \<Rightarrow> None)"

definition normalizeAppSpacePayload :: "jsval \<Rightarrow> appSpacePayload option" where
  "normalizeAppSpacePayload v = (case v of
       Obj _ \<Rightarrow>
         if (case js_get v ''ver'' of Number (Some n) _ \<Rightarrow> n \<noteq> SpaceCapabilityVersion | _ \<Rightarrow> True) \<or> \<not> audience_ok (js_get v ''aud'')
           \<or> \<not> is_number (js_get v ''iat'') \<or> \<not> is_number (js_get v ''nbf'') \<or> \<not> is_number (js_get v ''exp'') then None
         else (case (nonempty_string (js_get v ''iss''), nonempty_string (js_get v ''sub''), nonempty_string (js_get v ''jti''), js_get v ''grants'') of
             (Some iss, Some sub, Some jti, Arr gs) \<Rightarrow>
               if gs = [] \<or> length gs > MaximumSpaceCapabilityGrants then None
               else map_option (\<lambda>grants. \<lparr>ap_subject = sub, ap_jti = jti, ap_grants = grants, ap_issuer = iss\<rparr>)
                 (all_some (map grant_claim gs))
           | _ \<Rightarrow> None)
     | _ \<Rightarrow> None)"

section \<open>The registry of issuers\<close>

record resolvedAppAuthority =
  au_appId :: string
  au_appStatus :: string
  au_issuer :: string
  au_audience :: string
  au_jwksUri :: string
  au_capabilityMaxLifetimeSeconds :: int

record issuer_row =
  is_app_id :: string
  is_issuer :: string
  is_audience :: string
  is_jwks_uri :: string
  is_capability_max_lifetime_seconds :: int
  is_status :: string
  is_mode :: string

text \<open>The two tables of the control database it reads: issuer records, and the status of each App.\<close>

record control_db =
  cas_app_oauth_issuers :: "issuer_row list"
  cas_apps :: "(string \<times> string) list"

definition readIssuer :: "string \<Rightarrow> control_db \<Rightarrow> resolvedAppAuthority option" where
  "readIssuer issuer c =
     (case [(r, status). r \<leftarrow> cas_app_oauth_issuers c, is_issuer r = issuer \<and> is_status r = ''active'' \<and> is_mode r = ''external'',
                         (app, status) \<leftarrow> cas_apps c, app = is_app_id r] of
        [] \<Rightarrow> None
      | (r, status) # _ \<Rightarrow> Some \<lparr>au_appId = is_app_id r, au_appStatus = status, au_issuer = is_issuer r, au_audience = is_audience r,
          au_jwksUri = is_jwks_uri r, au_capabilityMaxLifetimeSeconds = is_capability_max_lifetime_seconds r\<rparr>)"

section \<open>The state of a worker\<close>

record appSpaceVerifier =
  vf_authorityCache :: "(string \<times> resolvedAppAuthority \<times> int) list"
  vf_remoteKeySets :: "string list"

record 'b service_state =
  sv_world :: "'b cf_world"
  sv_control :: control_db
  sv_verifier :: appSpaceVerifier

datatype auth_error =
    CapabilityAuthenticationError string string
  | CapabilityAuthorizationError string string
  | Auth_failure string

text \<open>\<open>resolveIssuer\<close>: one query of the control database, which the network may lose.\<close>

definition resolveIssuer :: "string \<Rightarrow> ('b service_state, exn, resolvedAppAuthority option) prog" where
  "resolveIssuer issuer s =
     (case next_delivery (w_deliveries (sv_world s)) of (d, rest) \<Rightarrow>
        (if d = Delivered then Inr (readIssuer issuer (sv_control s)) else Inl (StorageError ''D1_ERROR: Network connection lost.''),
         s\<lparr>sv_world := (sv_world s)\<lparr>w_deliveries := rest\<rparr>\<rparr>))"

definition tryM :: "('s, 'e, 'a) prog \<Rightarrow> ('s, 'f, 'e + 'a) prog" where
  "tryM m s = (case m s of (r, s') \<Rightarrow> (Inr r, s'))"

section \<open>The verifier\<close>

record jwtOptions =
  jo_algorithms :: "string list"
  jo_issuer :: string
  jo_audience :: string
  jo_clockTolerance :: int
  jo_currentDate :: int
  jo_requiredClaims :: "string list"

record 'w jose =
  jw_decodeJwt :: "string \<Rightarrow> jsval option"
  jw_decodeProtectedHeader :: "string \<Rightarrow> jsval option"
  jw_valid_url :: "string \<Rightarrow> bool"
  jw_jwtVerify :: "'w \<Rightarrow> string \<Rightarrow> string \<Rightarrow> jwtOptions \<Rightarrow> jsval option"
  jw_fraction_exceeds :: "jsval \<Rightarrow> jsval \<Rightarrow> int \<Rightarrow> bool"

record verifiedAppSpaceCall =
  vc_appId :: string
  vc_spaceId :: string
  vc_subject :: string
  vc_jti :: string
  vc_kid :: string
  vc_permissions :: "string list"

definition DEFAULT_CACHE_TTL_MS :: int where "DEFAULT_CACHE_TTL_MS = 30000"
definition DEFAULT_HARD_STALE_BOUND_MS :: int where "DEFAULT_HARD_STALE_BOUND_MS = 60000"
definition CLOCK_TOLERANCE_SECONDS :: int where "CLOCK_TOLERANCE_SECONDS = 30"

text \<open>\<open>/^Bearer ([^\s]+)$/\<close>.\<close>

definition bearer_token :: "string \<Rightarrow> string option" where
  "bearer_token header =
     (if take 7 header = ''Bearer '' \<and> drop 7 header \<noteq> [] \<and> \<not> list_ex is_js_space (drop 7 header) then Some (drop 7 header) else None)"

definition set_cache :: "string \<Rightarrow> resolvedAppAuthority \<Rightarrow> int \<Rightarrow> appSpaceVerifier \<Rightarrow> appSpaceVerifier" where
  "set_cache issuer authority now v =
     v\<lparr>vf_authorityCache := (issuer, authority, now) # filter (\<lambda>e. fst e \<noteq> issuer) (vf_authorityCache v)\<rparr>"

definition drop_cache :: "string \<Rightarrow> appSpaceVerifier \<Rightarrow> appSpaceVerifier" where
  "drop_cache issuer v = v\<lparr>vf_authorityCache := filter (\<lambda>e. fst e \<noteq> issuer) (vf_authorityCache v)\<rparr>"

definition drop_keys :: "string \<Rightarrow> appSpaceVerifier \<Rightarrow> appSpaceVerifier" where
  "drop_keys uri v = v\<lparr>vf_remoteKeySets := filter (\<lambda>u. u \<noteq> uri) (vf_remoteKeySets v)\<rparr>"

definition on_verifier :: "(appSpaceVerifier \<Rightarrow> appSpaceVerifier) \<Rightarrow> ('b service_state, auth_error, unit) prog" where
  "on_verifier f s = (Inr (), s\<lparr>sv_verifier := f (sv_verifier s)\<rparr>)"

text \<open>A fresh answer replaces the cached one; no answer removes it.\<close>

definition refresh_authority ::
  "string \<Rightarrow> resolvedAppAuthority \<Rightarrow> int \<Rightarrow> resolvedAppAuthority option \<Rightarrow> ('b service_state, auth_error, resolvedAppAuthority) prog" where
  "refresh_authority issuer cached now fresh = (case fresh of
       Some authority \<Rightarrow>
         bindM (on_verifier (\<lambda>v. set_cache issuer authority now (drop_keys (au_jwksUri cached) v))) (\<lambda>_. returnM authority)
     | None \<Rightarrow>
         bindM (on_verifier (drop_cache issuer)) (\<lambda>_.
         throwM (CapabilityAuthenticationError ''unknown_issuer'' ''CAS capability issuer is not registered'')))"

definition resolveAuthority :: "string \<Rightarrow> ('b service_state, auth_error, resolvedAppAuthority option) prog" where
  "resolveAuthority issuer s =
     (let now = w_clock (sv_world s) in
      case map_of (vf_authorityCache (sv_verifier s)) issuer of
        Some (cached, fetchedAt) \<Rightarrow>
          (let age = now - fetchedAt in
           if age < DEFAULT_CACHE_TTL_MS then returnM (Some cached)
           else bindM (tryM (resolveIssuer issuer)) (\<lambda>answer.
             case answer of
               Inr fresh \<Rightarrow> bindM (refresh_authority issuer cached now fresh) (\<lambda>a. returnM (Some a))
             | Inl _ \<Rightarrow>
                 if age \<ge> DEFAULT_HARD_STALE_BOUND_MS
                 then bindM (on_verifier (drop_cache issuer)) (\<lambda>_.
                   throwM (CapabilityAuthenticationError ''registry_unavailable'' ''CAS authority registry is unavailable''))
                 else returnM (Some cached))) s
      | None \<Rightarrow>
          bindM (tryM (resolveIssuer issuer)) (\<lambda>answer.
          case answer of
            Inr (Some authority) \<Rightarrow> bindM (on_verifier (set_cache issuer authority now)) (\<lambda>_. returnM (Some authority))
          | _ \<Rightarrow> returnM None) s)"

definition remoteKeySet :: "'b service_state jose \<Rightarrow> string \<Rightarrow> ('b service_state, auth_error, unit) prog" where
  "remoteKeySet jose uri s =
     (if uri \<in> set (vf_remoteKeySets (sv_verifier s)) then (Inr (), s)
      else if \<not> jw_valid_url jose uri then (Inl (Auth_failure ''Invalid URL''), s)
      else (Inr (), s\<lparr>sv_verifier := (sv_verifier s)\<lparr>vf_remoteKeySets := uri # vf_remoteKeySets (sv_verifier s)\<rparr>\<rparr>))"

definition verify_options :: "resolvedAppAuthority \<Rightarrow> int \<Rightarrow> jwtOptions" where
  "verify_options authority now =
     \<lparr>jo_algorithms = [CapabilityAlgorithm], jo_issuer = au_issuer authority, jo_audience = au_audience authority,
      jo_clockTolerance = CLOCK_TOLERANCE_SECONDS, jo_currentDate = now,
      jo_requiredClaims = [''ver'', ''sub'', ''iat'', ''nbf'', ''exp'', ''jti'', ''grants'']\<rparr>"

text \<open>\<open>Number(payload.exp) - Number(payload.iat) > limit\<close>, exact on integers.\<close>

definition lifetime_exceeds :: "'w jose \<Rightarrow> jsval \<Rightarrow> int \<Rightarrow> bool" where
  "lifetime_exceeds jose payload limit = (case (js_get payload ''exp'', js_get payload ''iat'') of
       (Number (Some e) _, Number (Some i) _) \<Rightarrow> e - i > limit
     | (e, i) \<Rightarrow> jw_fraction_exceeds jose e i limit)"

text \<open>The checks after the token has been accepted.\<close>

definition authorize_payload ::
  "appSpaceRoute \<Rightarrow> string \<Rightarrow> resolvedAppAuthority \<Rightarrow> appSpacePayload \<Rightarrow> auth_error + verifiedAppSpaceCall" where
  "authorize_payload r kid authority payload =
     (let matchingGrants = filter (\<lambda>g. spaceSelectorMatches (gr_selector g) (route_spaceId r)) (ap_grants payload);
          permission = appSpacePermissionFor r in
      if au_appId authority \<noteq> route_appId r
      then Inl (CapabilityAuthorizationError ''resource_scope_mismatch'' ''CAS capability App does not match the requested resource'')
      else if matchingGrants = []
      then Inl (CapabilityAuthorizationError ''resource_scope_mismatch'' ''CAS capability Space does not match the requested resource'')
      else if \<not> list_ex (\<lambda>g. permission \<in> set (gr_permissions g)) matchingGrants
      then Inl (CapabilityAuthorizationError ''insufficient_permission'' (''CAS '' @ route_operation r @ '' requires '' @ permission))
      else Inr \<lparr>vc_appId = au_appId authority, vc_spaceId = route_spaceId r, vc_subject = ap_subject payload, vc_jti = ap_jti payload,
                vc_kid = kid, vc_permissions = rev (remdups (rev (concat (map gr_permissions matchingGrants))))\<rparr>)"

definition check_token ::
  "'b service_state jose \<Rightarrow> appSpaceRoute \<Rightarrow> string \<Rightarrow> string \<Rightarrow> resolvedAppAuthority \<Rightarrow> ('b service_state, auth_error, verifiedAppSpaceCall) prog" where
  "check_token jose r token kid authority s =
     (case jw_jwtVerify jose s token (au_jwksUri authority) (verify_options authority (w_clock (sv_world s))) of
        None \<Rightarrow> (Inl (CapabilityAuthenticationError ''invalid_token'' ''CAS capability token verification failed''), s)
      | Some payload \<Rightarrow>
          (case normalizeAppSpacePayload payload of
             None \<Rightarrow> (Inl (CapabilityAuthenticationError ''invalid_token'' ''CAS capability claims are invalid''), s)
           | Some normalized \<Rightarrow>
               (if lifetime_exceeds jose payload (au_capabilityMaxLifetimeSeconds authority)
                then Inl (CapabilityAuthenticationError ''invalid_token'' ''CAS capability lifetime exceeds the App's configured maximum'')
                else authorize_payload r kid authority normalized, s)))"

definition verify_with ::
  "'b service_state jose \<Rightarrow> appSpaceRoute \<Rightarrow> string \<Rightarrow> string \<Rightarrow> resolvedAppAuthority \<Rightarrow> ('b service_state, auth_error, verifiedAppSpaceCall) prog" where
  "verify_with jose r token kid authority =
     (if au_appStatus authority \<noteq> ''active''
      then throwM (CapabilityAuthorizationError ''APP_SUSPENDED'' ''App is suspended'')
      else bindM (remoteKeySet jose (au_jwksUri authority)) (\<lambda>_. check_token jose r token kid authority))"

definition verifyToken ::
  "'b service_state jose \<Rightarrow> string option \<Rightarrow> appSpaceRoute \<Rightarrow> ('b service_state, auth_error, verifiedAppSpaceCall) prog" where
  "verifyToken jose authorization r =
     (case present authorization of
        None \<Rightarrow> throwM (CapabilityAuthenticationError ''missing_token'' ''CAS capability token is required'')
      | Some header \<Rightarrow>
      case bearer_token header of
        None \<Rightarrow> throwM (CapabilityAuthenticationError ''invalid_token'' ''CAS authorization header is invalid'')
      | Some token \<Rightarrow>
      case (jw_decodeJwt jose token, jw_decodeProtectedHeader jose token) of
        (Some claims, Some prot) \<Rightarrow>
          (case (nonempty_string (js_get claims ''iss''), nonempty_string (js_get prot ''kid''), nonempty_string (js_get prot ''alg'')) of
             (Some issuer, Some kid, Some algorithm) \<Rightarrow>
               if algorithm \<noteq> CapabilityAlgorithm
               then throwM (CapabilityAuthorizationError ''unsupported_algorithm'' (''CAS capability algorithm '' @ algorithm @ '' is not allowed''))
               else bindM (resolveAuthority issuer) (\<lambda>authority.
                 case authority of
                   None \<Rightarrow> throwM (CapabilityAuthenticationError ''unknown_issuer'' ''CAS capability issuer is not registered'')
                 | Some a \<Rightarrow> verify_with jose r token kid a)
           | _ \<Rightarrow> throwM (CapabilityAuthenticationError ''invalid_token'' ''CAS capability token is missing issuer or key id''))
      | _ \<Rightarrow> throwM (CapabilityAuthenticationError ''invalid_token'' ''CAS capability token is malformed''))"

section \<open>What an authorized call rests on\<close>

text \<open>The store is not touched: at most a delivery is used up.\<close>

definition auth_same :: "'b service_state \<Rightarrow> 'b service_state \<Rightarrow> bool" where
  "auth_same s s' \<longleftrightarrow> sv_control s' = sv_control s \<and> (\<exists>ds. sv_world s' = (sv_world s)\<lparr>w_deliveries := ds\<rparr>)"

text \<open>An authority the registry names now, or named less than the stale bound ago.\<close>

definition vouched :: "'b service_state \<Rightarrow> string \<Rightarrow> resolvedAppAuthority \<Rightarrow> bool" where
  "vouched s issuer a \<longleftrightarrow> readIssuer issuer (sv_control s) = Some a
     \<or> (\<exists>t. map_of (vf_authorityCache (sv_verifier s)) issuer = Some (a, t) \<and> w_clock (sv_world s) - t < DEFAULT_HARD_STALE_BOUND_MS)"

definition cache_step :: "'b service_state \<Rightarrow> 'b service_state \<Rightarrow> bool" where
  "cache_step s s' \<longleftrightarrow> (\<forall>(i, a, t) \<in> set (vf_authorityCache (sv_verifier s')). (i, a, t) \<in> set (vf_authorityCache (sv_verifier s))
     \<or> readIssuer i (sv_control s) = Some a \<and> t = w_clock (sv_world s))"

lemma auth_same_refl [simp]: "auth_same s s" "cache_step s s"
  by (auto simp: auth_same_def cache_step_def intro: exI [of _ "w_deliveries (sv_world s)"])

lemma resolveAuthority_ok:
  "wp (resolveAuthority issuer) (\<lambda>a s'. auth_same s s' \<and> cache_step s s' \<and> (\<forall>x. a = Some x \<longrightarrow> vouched s issuer x))
     (\<lambda>_ s'. auth_same s s' \<and> cache_step s s') s"
proof (cases "map_of (vf_authorityCache (sv_verifier s)) issuer")
  case None
  show ?thesis
    by (cases "next_delivery (w_deliveries (sv_world s))"; cases "readIssuer issuer (sv_control s)")
      (auto simp: resolveAuthority_def None resolveIssuer_def tryM_def wp_def bindM_def returnM_def on_verifier_def set_cache_def
        auth_same_def cache_step_def vouched_def Let_def)
next
  case (Some entry)
  then obtain a t where e: "map_of (vf_authorityCache (sv_verifier s)) issuer = Some (a, t)" by (cases entry) auto
  show ?thesis
    by (cases "next_delivery (w_deliveries (sv_world s))"; cases "readIssuer issuer (sv_control s)")
      (auto simp: resolveAuthority_def e resolveIssuer_def tryM_def wp_def bindM_def returnM_def throwM_def on_verifier_def set_cache_def drop_cache_def
        drop_keys_def refresh_authority_def auth_same_def cache_step_def vouched_def DEFAULT_CACHE_TTL_MS_def DEFAULT_HARD_STALE_BOUND_MS_def
        Let_def intro: exI [of _ "w_deliveries (sv_world s)"])
qed

text \<open>The grant that covers the requested operation.\<close>

definition grants_operation :: "appSpacePayload \<Rightarrow> appSpaceRoute \<Rightarrow> bool" where
  "grants_operation payload r \<longleftrightarrow> (\<exists>g \<in> set (ap_grants payload). spaceSelectorMatches (gr_selector g) (route_spaceId r)
     \<and> appSpacePermissionFor r \<in> set (gr_permissions g))"

definition token_accepted :: "'b service_state jose \<Rightarrow> 'b service_state \<Rightarrow> string \<Rightarrow> resolvedAppAuthority \<Rightarrow> appSpaceRoute \<Rightarrow> bool" where
  "token_accepted jose s token a r \<longleftrightarrow> (\<exists>s1 payload claims. auth_same s s1
     \<and> jw_jwtVerify jose s1 token (au_jwksUri a) (verify_options a (w_clock (sv_world s))) = Some payload
     \<and> normalizeAppSpacePayload payload = Some claims \<and> grants_operation claims r
     \<and> \<not> lifetime_exceeds jose payload (au_capabilityMaxLifetimeSeconds a))"

lemma authorize_payload_ok:
  "authorize_payload r kid a payload = Inr call \<Longrightarrow> au_appId a = route_appId r \<and> grants_operation payload r
    \<and> vc_appId call = route_appId r \<and> vc_spaceId call = route_spaceId r"
  by (auto simp: authorize_payload_def grants_operation_def list_ex_iff Let_def split: if_splits)

lemma verify_with_ok:
  assumes "auth_same s s1" and "cache_step s s1"
  shows "wp (verify_with jose r token kid a) (\<lambda>call s'. auth_same s s' \<and> cache_step s s' \<and> au_appStatus a = ''active''
      \<and> au_appId a = route_appId r \<and> vc_appId call = route_appId r \<and> vc_spaceId call = route_spaceId r \<and> token_accepted jose s token a r)
    (\<lambda>_ s'. auth_same s s' \<and> cache_step s s') s1"
proof (cases "au_appStatus a = ''active''")
  case True
  have run: "verify_with jose r token kid a = bindM (remoteKeySet jose (au_jwksUri a)) (\<lambda>_. check_token jose r token kid a)"
    using True by (simp add: verify_with_def)
  have keys: "wp (remoteKeySet jose u) (\<lambda>_ s2. auth_same s s2 \<and> cache_step s s2 \<and> w_clock (sv_world s2) = w_clock (sv_world s))
      (\<lambda>_ s2. auth_same s s2 \<and> cache_step s s2) s1" for u
    using assms by (auto simp: remoteKeySet_def wp_def auth_same_def cache_step_def)
  show ?thesis
    unfolding run wp_bindM
  proof (rule wp_mono [OF keys])
    fix x s2
    assume "auth_same s s2 \<and> cache_step s s2 \<and> w_clock (sv_world s2) = w_clock (sv_world s)"
    then show "wp (check_token jose r token kid a) (\<lambda>call s'. auth_same s s' \<and> cache_step s s' \<and> au_appStatus a = ''active''
        \<and> au_appId a = route_appId r \<and> vc_appId call = route_appId r \<and> vc_spaceId call = route_spaceId r \<and> token_accepted jose s token a r)
      (\<lambda>_ s'. auth_same s s' \<and> cache_step s s') s2"
      using True authorize_payload_ok [of r kid a] unfolding wp_def token_accepted_def check_token_def
      by (fastforce split: option.splits sum.splits prod.splits if_splits)
  qed simp_all
qed (use assms in \<open>simp add: verify_with_def wp_simps\<close>)

definition authorized_by :: "'b service_state jose \<Rightarrow> 'b service_state \<Rightarrow> string option \<Rightarrow> appSpaceRoute \<Rightarrow> bool" where
  "authorized_by jose s authorization r \<longleftrightarrow> (\<exists>token issuer a. authorization = Some (''Bearer '' @ token) \<and> vouched s issuer a
     \<and> au_appStatus a = ''active'' \<and> au_appId a = route_appId r \<and> token_accepted jose s token a r)"

lemma verifyToken_ok:
  "wp (verifyToken jose authorization r) (\<lambda>call s'. auth_same s s' \<and> cache_step s s' \<and> vc_appId call = route_appId r
      \<and> vc_spaceId call = route_spaceId r \<and> authorized_by jose s authorization r)
    (\<lambda>_ s'. auth_same s s' \<and> cache_step s s') s"
proof -
  have bearer: "authorization = Some (''Bearer '' @ token)" if "present authorization = Some header" "bearer_token header = Some token" for header token
  proof -
    have "authorization = Some header" using that(1) by (auto simp: present_def split: option.splits if_splits)
    moreover have "take 7 header = ''Bearer ''" "drop 7 header = token" using that(2) by (auto simp: bearer_token_def split: if_splits)
    ultimately show ?thesis by (metis append_take_drop_id)
  qed
  have go: "wp (bindM (resolveAuthority issuer) (\<lambda>authority. case authority of
        None \<Rightarrow> throwM (CapabilityAuthenticationError ''unknown_issuer'' ''CAS capability issuer is not registered'')
      | Some a \<Rightarrow> verify_with jose r token kid a))
    (\<lambda>call s'. auth_same s s' \<and> cache_step s s' \<and> vc_appId call = route_appId r \<and> vc_spaceId call = route_spaceId r
      \<and> authorized_by jose s authorization r) (\<lambda>_ s'. auth_same s s' \<and> cache_step s s') s"
    if "authorization = Some (''Bearer '' @ token)" for issuer token kid
    unfolding wp_bindM
  proof (rule wp_mono [OF resolveAuthority_ok], goal_cases)
    case (1 authority s1)
    show ?case
    proof (cases authority)
      case (Some a)
      have same: "auth_same s s1" "cache_step s s1" and v: "vouched s issuer a" using 1 Some by simp_all
      show ?thesis unfolding Some option.case
        by (rule wp_mono [OF verify_with_ok [OF same]]) (use that v in \<open>auto simp: authorized_by_def\<close>)
    qed (use 1 in \<open>simp add: wp_simps\<close>)
  qed simp
  show ?thesis
    unfolding verifyToken_def by (auto simp: wp_throwM split: option.splits intro!: go bearer)
qed

section \<open>Revocation\<close>

text \<open>
  The history of the registry: which contents it had at which times.  Between verifications the
  registry may change and time may pass, in any way.
\<close>

type_synonym registry_history = "(int \<times> control_db) set"

inductive auth_step ::
  "'b service_state jose \<Rightarrow> registry_history \<Rightarrow> 'b service_state \<Rightarrow> registry_history \<Rightarrow> 'b service_state \<Rightarrow> bool"
  for jose where
  verification: "verifyToken jose authorization r s = (outcome, s') \<Longrightarrow> auth_step jose H s H s'"
| change: "0 \<le> ms \<Longrightarrow> sv_verifier s' = sv_verifier s \<Longrightarrow> w_clock (sv_world s') = w_clock (sv_world s) + ms
    \<Longrightarrow> auth_step jose H s (insert (w_clock (sv_world s'), sv_control s') H) s'"

inductive auth_reach ::
  "'b service_state jose \<Rightarrow> registry_history \<Rightarrow> 'b service_state \<Rightarrow> registry_history \<Rightarrow> 'b service_state \<Rightarrow> bool"
  for jose H s where
  auth_start: "auth_reach jose H s H s"
| auth_next: "auth_reach jose H s H' s' \<Longrightarrow> auth_step jose H' s' H'' s'' \<Longrightarrow> auth_reach jose H s H'' s''"

definition cache_true :: "registry_history \<Rightarrow> 'b service_state \<Rightarrow> bool" where
  "cache_true H s \<longleftrightarrow> (w_clock (sv_world s), sv_control s) \<in> H
     \<and> (\<forall>(i, a, t) \<in> set (vf_authorityCache (sv_verifier s)). t \<le> w_clock (sv_world s) \<and> (\<exists>c. (t, c) \<in> H \<and> readIssuer i c = Some a))"

lemma auth_step_cache:
  assumes "auth_step jose H s H' s'" and "cache_true H s"
  shows "cache_true H' s'"
  using assms(1)
proof cases
  case (verification authorization r outcome)
  have "auth_same s s' \<and> cache_step s s'"
    using verifyToken_ok [of jose authorization r s] verification by (auto simp: wp_def split: sum.splits)
  then show ?thesis
    using assms(2) verification(1) unfolding cache_true_def auth_same_def cache_step_def by fastforce
next
  case (change ms)
  then show ?thesis using assms(2) unfolding cache_true_def by fastforce
qed

lemma auth_reach_cache:
  assumes "auth_reach jose H s H' s'" and "cache_true H s"
  shows "cache_true H' s'"
  using assms by induction (blast intro: auth_step_cache)+

lemma vouched_recent:
  assumes "cache_true H s" and "vouched s issuer a"
  shows "\<exists>t c. (t, c) \<in> H \<and> w_clock (sv_world s) - DEFAULT_HARD_STALE_BOUND_MS < t \<and> t \<le> w_clock (sv_world s) \<and> readIssuer issuer c = Some a"
  using assms(2) unfolding vouched_def
proof (elim disjE exE conjE)
  assume "readIssuer issuer (sv_control s) = Some a"
  then show ?thesis using assms(1) unfolding cache_true_def DEFAULT_HARD_STALE_BOUND_MS_def by fastforce
next
  fix t
  assume t: "map_of (vf_authorityCache (sv_verifier s)) issuer = Some (a, t)" "w_clock (sv_world s) - t < DEFAULT_HARD_STALE_BOUND_MS"
  then have "(issuer, a, t) \<in> set (vf_authorityCache (sv_verifier s))" using map_of_SomeD by fastforce
  then show ?thesis using assms(1) t(2) unfolding cache_true_def by fastforce
qed

end
