(* ===== verification/Admin_Routes.thy ===== *)
theory Admin_Routes
  imports Routes
begin

text \<open>
  The routes of the administration API, \<^verbatim>\<open>packages/admin-protocol/src/routes.ts\<close>: the builder
  \<open>appAdminRoutes\<close> of the clients and the matcher of the service.
\<close>

datatype appAdminRoute =
    ListPeople string
  | ListPlatformPeople
  | Me
  | GetAccount
  | PatchAccountProfile
  | ListAccountIdentities
  | ListApps
  | CreateApp
  | GetApp string
  | PatchApp string
  | GetUsage string
  | RunGc string
  | ListMembers string
  | DeleteMember string
  | CreateMemberInvitation string
  | ListMemberInvitations string
  | RevokeMemberInvitation string string
  | AcceptMemberInvitation string
  | GetOAuthIssuer string
  | InspectOAuthIssuer string
  | ActivateOAuthIssuer string
  | ListControlAuditEvents string
  | ListRootRefs string
  | ListRootEvents string
  | ListPlatformAccounts
  | GetPlatformAccount string
  | GrantPlatformAccountAuthority string string
  | RevokePlatformAccountAuthority string string
  | BlockPlatformAccount string
  | RestorePlatformAccount string
  | ListPlatformInvitations
  | CreatePlatformInvitation
  | RevokePlatformInvitation string
  | AcceptPlatformInvitation string
  | ListPlatformAuditEvents

definition segment :: "string \<Rightarrow> string" where
  "segment v = encodeURIComponent v"

text \<open>The builders, by the operation they are used for.\<close>

fun appAdminRoutes :: "appAdminRoute \<Rightarrow> string" where
  "appAdminRoutes (ListPeople x) = ''/admin/apps/'' @ segment x @ ''/people''"
| "appAdminRoutes ListPlatformPeople = ''/admin/platform/people''"
| "appAdminRoutes Me = ''/admin/me''"
| "appAdminRoutes GetAccount = ''/admin/account''"
| "appAdminRoutes PatchAccountProfile = ''/admin/account/profile''"
| "appAdminRoutes ListAccountIdentities = ''/admin/account/identities''"
| "appAdminRoutes ListApps = ''/admin/apps''"
| "appAdminRoutes CreateApp = ''/admin/apps''"
| "appAdminRoutes (GetApp x) = ''/admin/apps/'' @ segment x"
| "appAdminRoutes (PatchApp x) = ''/admin/apps/'' @ segment x"
| "appAdminRoutes (GetUsage x) = ''/admin/apps/'' @ segment x @ ''/usage''"
| "appAdminRoutes (RunGc x) = ''/admin/apps/'' @ segment x @ ''/gc''"
| "appAdminRoutes (ListMembers x) = ''/admin/apps/'' @ segment x @ ''/members''"
| "appAdminRoutes (DeleteMember x) = ''/admin/apps/'' @ segment x @ ''/members''"
| "appAdminRoutes (CreateMemberInvitation x) = ''/admin/apps/'' @ segment x @ ''/member-invitations''"
| "appAdminRoutes (ListMemberInvitations x) = ''/admin/apps/'' @ segment x @ ''/member-invitations''"
| "appAdminRoutes (RevokeMemberInvitation x y) = ''/admin/apps/'' @ segment x @ ''/member-invitations/'' @ segment y"
| "appAdminRoutes (AcceptMemberInvitation x) = ''/admin/member-invitations/'' @ segment x @ ''/accept''"
| "appAdminRoutes (GetOAuthIssuer x) = ''/admin/apps/'' @ segment x @ ''/oauth-issuer''"
| "appAdminRoutes (InspectOAuthIssuer x) = ''/admin/apps/'' @ segment x @ ''/oauth-issuer/inspections''"
| "appAdminRoutes (ActivateOAuthIssuer x) = ''/admin/apps/'' @ segment x @ ''/oauth-issuer''"
| "appAdminRoutes (ListControlAuditEvents x) = ''/admin/apps/'' @ segment x @ ''/audit-events''"
| "appAdminRoutes (ListRootRefs x) = ''/admin/apps/'' @ segment x @ ''/root-refs''"
| "appAdminRoutes (ListRootEvents x) = ''/admin/apps/'' @ segment x @ ''/root-ref-events''"
| "appAdminRoutes ListPlatformAccounts = ''/admin/platform/accounts''"
| "appAdminRoutes (GetPlatformAccount x) = ''/admin/platform/accounts/'' @ segment x"
| "appAdminRoutes (GrantPlatformAccountAuthority x y) = ''/admin/platform/accounts/'' @ segment x @ ''/authorities/'' @ segment y"
| "appAdminRoutes (RevokePlatformAccountAuthority x y) = ''/admin/platform/accounts/'' @ segment x @ ''/authorities/'' @ segment y"
| "appAdminRoutes (BlockPlatformAccount x) = ''/admin/platform/accounts/'' @ segment x @ ''/block''"
| "appAdminRoutes (RestorePlatformAccount x) = ''/admin/platform/accounts/'' @ segment x @ ''/block''"
| "appAdminRoutes ListPlatformInvitations = ''/admin/platform/invitations''"
| "appAdminRoutes CreatePlatformInvitation = ''/admin/platform/invitations''"
| "appAdminRoutes (RevokePlatformInvitation x) = ''/admin/platform/invitations/'' @ segment x"
| "appAdminRoutes (AcceptPlatformInvitation x) = ''/admin/platform-invitations/'' @ segment x @ ''/accept''"
| "appAdminRoutes ListPlatformAuditEvents = ''/admin/platform/audit-events''"

text \<open>The method each operation is called with.\<close>

fun admin_method :: "appAdminRoute \<Rightarrow> string" where
  "admin_method (ListPeople x) = ''GET''"
| "admin_method ListPlatformPeople = ''GET''"
| "admin_method Me = ''GET''"
| "admin_method GetAccount = ''GET''"
| "admin_method PatchAccountProfile = ''PATCH''"
| "admin_method ListAccountIdentities = ''GET''"
| "admin_method ListApps = ''GET''"
| "admin_method CreateApp = ''POST''"
| "admin_method (GetApp x) = ''GET''"
| "admin_method (PatchApp x) = ''PATCH''"
| "admin_method (GetUsage x) = ''GET''"
| "admin_method (RunGc x) = ''POST''"
| "admin_method (ListMembers x) = ''GET''"
| "admin_method (DeleteMember x) = ''DELETE''"
| "admin_method (CreateMemberInvitation x) = ''POST''"
| "admin_method (ListMemberInvitations x) = ''GET''"
| "admin_method (RevokeMemberInvitation x y) = ''DELETE''"
| "admin_method (AcceptMemberInvitation x) = ''POST''"
| "admin_method (GetOAuthIssuer x) = ''GET''"
| "admin_method (InspectOAuthIssuer x) = ''POST''"
| "admin_method (ActivateOAuthIssuer x) = ''PUT''"
| "admin_method (ListControlAuditEvents x) = ''GET''"
| "admin_method (ListRootRefs x) = ''GET''"
| "admin_method (ListRootEvents x) = ''GET''"
| "admin_method ListPlatformAccounts = ''GET''"
| "admin_method (GetPlatformAccount x) = ''GET''"
| "admin_method (GrantPlatformAccountAuthority x y) = ''PUT''"
| "admin_method (RevokePlatformAccountAuthority x y) = ''DELETE''"
| "admin_method (BlockPlatformAccount x) = ''PUT''"
| "admin_method (RestorePlatformAccount x) = ''DELETE''"
| "admin_method ListPlatformInvitations = ''GET''"
| "admin_method CreatePlatformInvitation = ''POST''"
| "admin_method (RevokePlatformInvitation x) = ''DELETE''"
| "admin_method (AcceptPlatformInvitation x) = ''POST''"
| "admin_method ListPlatformAuditEvents = ''GET''"

section \<open>The matcher\<close>

definition matchPlatformAdminRoute :: "string \<Rightarrow> string \<Rightarrow> appAdminRoute option" where
  "matchPlatformAdminRoute verb pathname =
     (let parts = path_parts pathname; n = length parts in
      if part parts 0 \<noteq> Some ''admin'' \<or> part parts 1 \<noteq> Some ''platform'' then None
      else if n = 3 \<and> part parts 2 = Some ''people'' \<and> verb = ''GET'' then Some ListPlatformPeople
      else if n = 3 \<and> part parts 2 = Some ''accounts'' \<and> verb = ''GET'' then Some ListPlatformAccounts
      else if n = 4 \<and> part parts 2 = Some ''accounts'' \<and> verb = ''GET''
      then map_option GetPlatformAccount (decodeURIComponent (parts ! 3))
      else if n = 5 \<and> part parts 2 = Some ''accounts'' \<and> part parts 4 = Some ''block''
      then (case decodeURIComponent (parts ! 3) of
              None \<Rightarrow> None
            | Some account \<Rightarrow>
                if verb = ''PUT'' then Some (BlockPlatformAccount account)
                else if verb = ''DELETE'' then Some (RestorePlatformAccount account) else None)
      else if n = 6 \<and> part parts 2 = Some ''accounts'' \<and> part parts 4 = Some ''authorities''
      then (case (decodeURIComponent (parts ! 3), decodeURIComponent (parts ! 5)) of
              (Some account, Some authority) \<Rightarrow>
                if authority \<noteq> ''platform.admin'' \<and> authority \<noteq> ''apps.create'' then None
                else if verb = ''PUT'' then Some (GrantPlatformAccountAuthority account authority)
                else if verb = ''DELETE'' then Some (RevokePlatformAccountAuthority account authority) else None
            | _ \<Rightarrow> None)
      else if n = 3 \<and> part parts 2 = Some ''invitations''
      then (if verb = ''GET'' then Some ListPlatformInvitations
            else if verb = ''POST'' then Some CreatePlatformInvitation else None)
      else if n = 3 \<and> part parts 2 = Some ''audit-events'' \<and> verb = ''GET'' then Some ListPlatformAuditEvents
      else if n = 4 \<and> part parts 2 = Some ''invitations'' \<and> verb = ''DELETE''
      then map_option RevokePlatformInvitation (decodeURIComponent (parts ! 3))
      else None)"

text \<open>The routes below \<open>/admin/apps/{appId}\<close>.\<close>

definition match_app_route :: "string \<Rightarrow> string list \<Rightarrow> string \<Rightarrow> appAdminRoute option" where
  "match_app_route verb parts app =
     (let n = length parts in
      if n = 4 \<and> part parts 3 = Some ''people'' \<and> verb = ''GET'' then Some (ListPeople app)
      else if n = 3
      then (if verb = ''GET'' then Some (GetApp app) else if verb = ''PATCH'' then Some (PatchApp app) else None)
      else if n = 4 \<and> part parts 3 = Some ''usage'' \<and> verb = ''GET'' then Some (GetUsage app)
      else if n = 4 \<and> part parts 3 = Some ''gc'' \<and> verb = ''POST'' then Some (RunGc app)
      else if n = 4 \<and> part parts 3 = Some ''members''
      then (if verb = ''GET'' then Some (ListMembers app) else if verb = ''DELETE'' then Some (DeleteMember app) else None)
      else if n = 4 \<and> part parts 3 = Some ''member-invitations'' \<and> verb = ''POST'' then Some (CreateMemberInvitation app)
      else if n = 4 \<and> part parts 3 = Some ''member-invitations'' \<and> verb = ''GET'' then Some (ListMemberInvitations app)
      else if n = 5 \<and> part parts 3 = Some ''member-invitations'' \<and> verb = ''DELETE''
      then map_option (RevokeMemberInvitation app) (decodeURIComponent (parts ! 4))
      else if n = 4 \<and> part parts 3 = Some ''oauth-issuer''
      then (if verb = ''GET'' then Some (GetOAuthIssuer app) else if verb = ''PUT'' then Some (ActivateOAuthIssuer app) else None)
      else if n = 5 \<and> part parts 3 = Some ''oauth-issuer'' \<and> part parts 4 = Some ''inspections'' \<and> verb = ''POST''
      then Some (InspectOAuthIssuer app)
      else if n = 4 \<and> part parts 3 = Some ''audit-events'' \<and> verb = ''GET'' then Some (ListControlAuditEvents app)
      else if n = 4 \<and> part parts 3 = Some ''root-refs'' \<and> verb = ''GET'' then Some (ListRootRefs app)
      else if n = 4 \<and> part parts 3 = Some ''root-ref-events'' \<and> verb = ''GET'' then Some (ListRootEvents app)
      else None)"

definition matchAppAdminRoute :: "string \<Rightarrow> string \<Rightarrow> appAdminRoute option" where
  "matchAppAdminRoute verb pathname =
     (let parts = path_parts pathname; n = length parts in
      if part parts 0 \<noteq> Some ''admin'' then None
      else if part parts 1 = Some ''platform'' then matchPlatformAdminRoute verb pathname
      else if n = 4 \<and> part parts 1 = Some ''platform-invitations'' \<and> part parts 3 = Some ''accept'' \<and> verb = ''POST''
      then map_option AcceptPlatformInvitation (decodeURIComponent (parts ! 2))
      else if n = 2 \<and> part parts 1 = Some ''me'' \<and> verb = ''GET'' then Some Me
      else if n = 2 \<and> part parts 1 = Some ''account'' \<and> verb = ''GET'' then Some GetAccount
      else if n = 3 \<and> part parts 1 = Some ''account'' \<and> part parts 2 = Some ''profile'' \<and> verb = ''PATCH''
      then Some PatchAccountProfile
      else if n = 3 \<and> part parts 1 = Some ''account'' \<and> part parts 2 = Some ''identities'' \<and> verb = ''GET''
      then Some ListAccountIdentities
      else if n = 2 \<and> part parts 1 = Some ''apps''
      then (if verb = ''GET'' then Some ListApps else if verb = ''POST'' then Some CreateApp else None)
      else if n = 4 \<and> part parts 1 = Some ''member-invitations'' \<and> part parts 3 = Some ''accept'' \<and> verb = ''POST''
      then map_option AcceptMemberInvitation (decodeURIComponent (parts ! 2))
      else if part parts 1 \<noteq> Some ''apps'' \<or> n < 3 then None
      else case decodeURIComponent (parts ! 2) of
          None \<Rightarrow> None
        | Some app \<Rightarrow> match_app_route verb parts app)"

section \<open>The matcher inverts the builder\<close>

fun admin_parts :: "appAdminRoute \<Rightarrow> string list" where
  "admin_parts (ListPeople x) = [''admin'', ''apps'', segment x, ''people'']"
| "admin_parts ListPlatformPeople = [''admin'', ''platform'', ''people'']"
| "admin_parts Me = [''admin'', ''me'']"
| "admin_parts GetAccount = [''admin'', ''account'']"
| "admin_parts PatchAccountProfile = [''admin'', ''account'', ''profile'']"
| "admin_parts ListAccountIdentities = [''admin'', ''account'', ''identities'']"
| "admin_parts ListApps = [''admin'', ''apps'']"
| "admin_parts CreateApp = [''admin'', ''apps'']"
| "admin_parts (GetApp x) = [''admin'', ''apps'', segment x]"
| "admin_parts (PatchApp x) = [''admin'', ''apps'', segment x]"
| "admin_parts (GetUsage x) = [''admin'', ''apps'', segment x, ''usage'']"
| "admin_parts (RunGc x) = [''admin'', ''apps'', segment x, ''gc'']"
| "admin_parts (ListMembers x) = [''admin'', ''apps'', segment x, ''members'']"
| "admin_parts (DeleteMember x) = [''admin'', ''apps'', segment x, ''members'']"
| "admin_parts (CreateMemberInvitation x) = [''admin'', ''apps'', segment x, ''member-invitations'']"
| "admin_parts (ListMemberInvitations x) = [''admin'', ''apps'', segment x, ''member-invitations'']"
| "admin_parts (RevokeMemberInvitation x y) = [''admin'', ''apps'', segment x, ''member-invitations'', segment y]"
| "admin_parts (AcceptMemberInvitation x) = [''admin'', ''member-invitations'', segment x, ''accept'']"
| "admin_parts (GetOAuthIssuer x) = [''admin'', ''apps'', segment x, ''oauth-issuer'']"
| "admin_parts (InspectOAuthIssuer x) = [''admin'', ''apps'', segment x, ''oauth-issuer'', ''inspections'']"
| "admin_parts (ActivateOAuthIssuer x) = [''admin'', ''apps'', segment x, ''oauth-issuer'']"
| "admin_parts (ListControlAuditEvents x) = [''admin'', ''apps'', segment x, ''audit-events'']"
| "admin_parts (ListRootRefs x) = [''admin'', ''apps'', segment x, ''root-refs'']"
| "admin_parts (ListRootEvents x) = [''admin'', ''apps'', segment x, ''root-ref-events'']"
| "admin_parts ListPlatformAccounts = [''admin'', ''platform'', ''accounts'']"
| "admin_parts (GetPlatformAccount x) = [''admin'', ''platform'', ''accounts'', segment x]"
| "admin_parts (GrantPlatformAccountAuthority x y) = [''admin'', ''platform'', ''accounts'', segment x, ''authorities'', segment y]"
| "admin_parts (RevokePlatformAccountAuthority x y) = [''admin'', ''platform'', ''accounts'', segment x, ''authorities'', segment y]"
| "admin_parts (BlockPlatformAccount x) = [''admin'', ''platform'', ''accounts'', segment x, ''block'']"
| "admin_parts (RestorePlatformAccount x) = [''admin'', ''platform'', ''accounts'', segment x, ''block'']"
| "admin_parts ListPlatformInvitations = [''admin'', ''platform'', ''invitations'']"
| "admin_parts CreatePlatformInvitation = [''admin'', ''platform'', ''invitations'']"
| "admin_parts (RevokePlatformInvitation x) = [''admin'', ''platform'', ''invitations'', segment x]"
| "admin_parts (AcceptPlatformInvitation x) = [''admin'', ''platform-invitations'', segment x, ''accept'']"
| "admin_parts ListPlatformAuditEvents = [''admin'', ''platform'', ''audit-events'']"

text \<open>The identifiers in a route.\<close>

fun admin_ids :: "appAdminRoute \<Rightarrow> string list" where
  "admin_ids (ListPeople x) = [x]"
| "admin_ids ListPlatformPeople = []"
| "admin_ids Me = []"
| "admin_ids GetAccount = []"
| "admin_ids PatchAccountProfile = []"
| "admin_ids ListAccountIdentities = []"
| "admin_ids ListApps = []"
| "admin_ids CreateApp = []"
| "admin_ids (GetApp x) = [x]"
| "admin_ids (PatchApp x) = [x]"
| "admin_ids (GetUsage x) = [x]"
| "admin_ids (RunGc x) = [x]"
| "admin_ids (ListMembers x) = [x]"
| "admin_ids (DeleteMember x) = [x]"
| "admin_ids (CreateMemberInvitation x) = [x]"
| "admin_ids (ListMemberInvitations x) = [x]"
| "admin_ids (RevokeMemberInvitation x y) = [x, y]"
| "admin_ids (AcceptMemberInvitation x) = [x]"
| "admin_ids (GetOAuthIssuer x) = [x]"
| "admin_ids (InspectOAuthIssuer x) = [x]"
| "admin_ids (ActivateOAuthIssuer x) = [x]"
| "admin_ids (ListControlAuditEvents x) = [x]"
| "admin_ids (ListRootRefs x) = [x]"
| "admin_ids (ListRootEvents x) = [x]"
| "admin_ids ListPlatformAccounts = []"
| "admin_ids (GetPlatformAccount x) = [x]"
| "admin_ids (GrantPlatformAccountAuthority x y) = [x, y]"
| "admin_ids (RevokePlatformAccountAuthority x y) = [x, y]"
| "admin_ids (BlockPlatformAccount x) = [x]"
| "admin_ids (RestorePlatformAccount x) = [x]"
| "admin_ids ListPlatformInvitations = []"
| "admin_ids CreatePlatformInvitation = []"
| "admin_ids (RevokePlatformInvitation x) = [x]"
| "admin_ids (AcceptPlatformInvitation x) = [x]"
| "admin_ids ListPlatformAuditEvents = []"

definition authority_ok :: "appAdminRoute \<Rightarrow> bool" where
  "authority_ok r = (case r of
       GrantPlatformAccountAuthority _ authority \<Rightarrow> authority \<in> {''platform.admin'', ''apps.create''}
     | RevokePlatformAccountAuthority _ authority \<Rightarrow> authority \<in> {''platform.admin'', ''apps.create''}
     | _ \<Rightarrow> True)"

lemma admin_path_parts:
  assumes "[] \<notin> set (admin_ids r)"
  shows "path_parts (appAdminRoutes r) = admin_parts r"
proof -
  have "appAdminRoutes r = path_text (admin_parts r)" by (cases r) simp_all
  moreover have "list_all (\<lambda>p. p \<noteq> [] \<and> CHR ''/'' \<notin> set p) (admin_parts r)"
    using assms by (cases r) (auto simp: segment_def encoded_simps)
  ultimately show ?thesis using path_parts_text by metis
qed



end
