(* ===== verification/Service_Actor.thy ===== *)
theory Service_Actor
  imports Space_Auth Admin_Routes Data_Plane
begin

text \<open>
  The service as its clients reach it, \<^verbatim>\<open>packages/service/src/actor.ts\<close>, with the ports the worker
  gives it, \<^verbatim>\<open>packages/service-cloudflare/src/worker.ts\<close>: a public request is matched, authorized and
  turned into a request to the object of its Space.
\<close>

section \<open>Requests\<close>

text \<open>Header names are kept in lower case, as the \<open>Headers\<close> class does.\<close>

record http_request =
  hr_method :: string
  hr_url :: url
  hr_headers :: "(string \<times> string) list"
  hr_text :: string

definition lower_char :: "char \<Rightarrow> char" where
  "lower_char c = (let n = (of_char c :: nat) in if 65 \<le> n \<and> n \<le> 90 then char_of (n + 32) else c)"

definition get_header :: "http_request \<Rightarrow> string \<Rightarrow> string option" where
  "get_header request name = map_of (hr_headers request) (map lower_char name)"

definition error_json :: "nat \<Rightarrow> string \<Rightarrow> do_response" where
  "error_json status message = \<lparr>hs_status = status, hs_headers = [], hs_body = Json (Obj [(''error'', Str message)])\<rparr>"

section \<open>Dispatch\<close>

definition RETIRED_LEASE_HEADERS :: "string list" where
  "RETIRED_LEASE_HEADERS = [''X-CAS-Lease-Duration'', ''X-CAS-Upload-Length'', ''X-CAS-Upload-Id'']"

definition canonicalActorKey :: "string \<Rightarrow> string \<Rightarrow> exn + string" where
  "canonicalActorKey app component =
     (if length app = 0 \<or> length component = 0 then Inl (TypeErr ''actor key parts must not be empty'')
      else Inr (encodeURIComponent app @ ''|'' @ encodeURIComponent component))"

definition trim :: "string \<Rightarrow> string" where
  "trim s = rev (dropWhile is_js_space (rev (dropWhile is_js_space s)))"

definition is_json_request :: "http_request \<Rightarrow> bool" where
  "is_json_request request = (case get_header request ''Content-Type'' of
       None \<Rightarrow> False
     | Some v \<Rightarrow> trim (takeWhile (\<lambda>c. c \<noteq> CHR '';'') v) = ''application/json'')"

definition space_request :: "string \<Rightarrow> string \<Rightarrow> (string \<rightharpoonup> string) \<Rightarrow> (string \<rightharpoonup> string) \<Rightarrow> string \<Rightarrow> do_request" where
  "space_request verb path headers search body =
     \<lparr>hq_method = verb, hq_pathname = path, hq_header = headers, hq_search = search, hq_text = body\<rparr>"

text \<open>
  \<open>dispatchDataRequest\<close>: a response at once, or the request for the Space's object.  Of the query
  only \<open>limit\<close> and \<open>cursor\<close> are passed on, and the object reads the first of each.
\<close>

definition first_param :: "http_request \<Rightarrow> string \<rightharpoonup> string" where
  "first_param request name = (if name \<in> {''limit'', ''cursor''}
     then (case param_getAll name (url_params (hr_url request)) of [] \<Rightarrow> None | v # _ \<Rightarrow> Some v) else None)"

definition dispatchDataRequest :: "http_request \<Rightarrow> appSpaceRoute \<Rightarrow> (string \<rightharpoonup> string) \<Rightarrow> do_response + do_request" where
  "dispatchDataRequest request r headers =
     (case r of
        List_root_refs _ _ \<Rightarrow> Inr (space_request ''GET'' ''/rootRefs'' headers (first_param request) [])
      | Update_root_refs _ _ \<Rightarrow> Inr (space_request ''POST'' ''/updateRootRefs'' headers Map.empty (hr_text request))
      | Read_content _ _ hash \<Rightarrow>
          Inr (space_request ''GET'' ''/read''
            (case present (get_header request ''Range'') of
               None \<Rightarrow> headers(''X-CAS-Hash'' \<mapsto> hash)
             | Some v \<Rightarrow> headers(''X-CAS-Hash'' \<mapsto> hash, ''Range'' \<mapsto> v)) Map.empty [])
      | Read_metadata _ _ hash \<Rightarrow> Inr (space_request ''GET'' ''/metadata'' (headers(''X-CAS-Hash'' \<mapsto> hash)) Map.empty [])
      | Lease_node _ _ hash \<Rightarrow>
          if list_ex (\<lambda>name. get_header request name \<noteq> None) RETIRED_LEASE_HEADERS
          then Inl (errorResponse 400 ''INVALID_REQUEST'' ''Legacy node lease headers are not supported by App/Space'')
          else if \<not> is_json_request request
          then Inl (errorResponse 400 ''INVALID_REQUEST'' ''App/Space node lease requires application/json'')
          else Inr (space_request ''POST'' ''/lease'' (headers(''X-CAS-Hash'' \<mapsto> hash, ''Content-Type'' \<mapsto> ''application/json''))
            Map.empty (hr_text request))
      | Get_usage _ _ \<Rightarrow> Inr (space_request ''GET'' ''/usage'' headers Map.empty [])
      | Run_gc _ _ \<Rightarrow> Inr (space_request ''POST'' ''/gc'' headers Map.empty (hr_text request)))"

definition call_headers :: "verifiedAppSpaceCall \<Rightarrow> string \<rightharpoonup> string" where
  "call_headers call = [''X-CAS-App-Id'' \<mapsto> vc_appId call, ''X-CAS-Space-Id'' \<mapsto> vc_spaceId call, ''X-CAS-Route-Family'' \<mapsto> ''app-space'']"

section \<open>The service\<close>

datatype uniCasServiceRoute = Space_plane appSpaceRoute | App_admin_plane appAdminRoute

definition matchUniCasServiceRoute :: "http_request \<Rightarrow> uniCasServiceRoute option" where
  "matchUniCasServiceRoute request =
     (case matchAppSpaceRoute (hr_method request) (hr_url request) of
        Some r \<Rightarrow> Some (Space_plane r)
      | None \<Rightarrow> map_option App_admin_plane (matchAppAdminRoute (hr_method request) (url_pathname (hr_url request))))"

record 's serviceContext =
  cx_spaceActors :: "string \<Rightarrow> do_request \<Rightarrow> ('s, exn, do_response) prog"
  cx_authorizeSpaceRequest :: "(http_request \<Rightarrow> appSpaceRoute \<Rightarrow> ('s, auth_error, verifiedAppSpaceCall) prog) option"
  cx_handleAppAdminRequest :: "(http_request \<Rightarrow> appAdminRoute \<Rightarrow> ('s, exn, do_response) prog) option"

definition notImplementedResponse :: do_response where
  "notImplementedResponse = error_json 501 ''UniCAS endpoint is not configured''"

definition spaceAuthorizationErrorResponse :: "auth_error \<Rightarrow> do_response" where
  "spaceAuthorizationErrorResponse e = (case e of
       CapabilityAuthenticationError code message \<Rightarrow> errorResponse 401 code message
     | CapabilityAuthorizationError code message \<Rightarrow> errorResponse 403 code message
     | Auth_failure _ \<Rightarrow> error_json 401 ''CAS capability validation failed'')"

definition dispatchSpaceRequest ::
  "'s serviceContext \<Rightarrow> http_request \<Rightarrow> appSpaceRoute \<Rightarrow> verifiedAppSpaceCall \<Rightarrow> ('s, exn, do_response) prog" where
  "dispatchSpaceRequest context request r call =
     bindM (liftM (canonicalActorKey (vc_appId call) (vc_spaceId call))) (\<lambda>key.
     case dispatchDataRequest request r (call_headers call) of
       Inl response \<Rightarrow> returnM response
     | Inr internal \<Rightarrow> cx_spaceActors context key internal)"

definition createUniCasService :: "'s serviceContext \<Rightarrow> http_request \<Rightarrow> ('s, exn, do_response) prog" where
  "createUniCasService context request =
     (case matchUniCasServiceRoute request of
        None \<Rightarrow> returnM (error_json 404 ''Unknown UniCAS endpoint'')
      | Some (Space_plane r) \<Rightarrow>
          (case cx_authorizeSpaceRequest context of
             None \<Rightarrow> returnM notImplementedResponse
           | Some authorize \<Rightarrow>
               bindM (tryM (authorize request r)) (\<lambda>outcome.
               case outcome of
                 Inl e \<Rightarrow> returnM (spaceAuthorizationErrorResponse e)
               | Inr call \<Rightarrow> dispatchSpaceRequest context request r call))
      | Some (App_admin_plane r) \<Rightarrow>
          (case cx_handleAppAdminRequest context of
             None \<Rightarrow> returnM notImplementedResponse
           | Some handle \<Rightarrow> handle request r))"

section \<open>The worker's ports\<close>

definition DATA_PLANE_STRIPPED_HEADERS :: "string list" where
  "DATA_PLANE_STRIPPED_HEADERS = [''cookie'', ''x-internal-token'', ''x-cas-audit-reader-key'', ''x-unicas-trace-context'']"

definition dataPlaneAuthorizationRequest :: "http_request \<Rightarrow> http_request" where
  "dataPlaneAuthorizationRequest request =
     request\<lparr>hr_headers := filter (\<lambda>h. fst h \<notin> set DATA_PLANE_STRIPPED_HEADERS) (hr_headers request), hr_text := []\<rparr>"

definition in_world :: "('b cf_world, 'e, 'a) prog \<Rightarrow> ('b service_state, 'e, 'a) prog" where
  "in_world m s = (case m (sv_world s) of (r, w') \<Rightarrow> (r, s\<lparr>sv_world := w'\<rparr>))"

text \<open>
  The context of a deployed worker.  The administration plane answers in its own way; it is a
  handler of the context here as it is there.
\<close>

definition worker_context ::
  "'b runtime \<Rightarrow> spaceCasDoEnv \<Rightarrow> 'b r2_bucket \<Rightarrow> (bytes \<Rightarrow> bytes) \<Rightarrow> 'b service_state jose
   \<Rightarrow> (http_request \<Rightarrow> appAdminRoute \<Rightarrow> ('b service_state, exn, do_response) prog) option \<Rightarrow> 'b service_state serviceContext" where
  "worker_context rt env bucket sha256 jose admin =
     \<lparr>cx_spaceActors = (\<lambda>key internal. in_world (stub_fetch (space_fetch rt env bucket sha256 internal))),
      cx_authorizeSpaceRequest = Some (\<lambda>request r.
        verifyToken jose (get_header (dataPlaneAuthorizationRequest request) ''Authorization'') r),
      cx_handleAppAdminRequest = admin\<rparr>"

section \<open>Only authorized requests act\<close>

lemma authorization_header_kept: "get_header (dataPlaneAuthorizationRequest request) ''Authorization'' = get_header request ''Authorization''"
proof -
  have key: "map lower_char ''Authorization'' = ''authorization''" by code_simp
  have "map_of (filter (\<lambda>h. fst h \<notin> set DATA_PLANE_STRIPPED_HEADERS) hs) ''authorization'' = map_of hs ''authorization''" for hs :: "(string \<times> string) list"
    by (induction hs) (auto simp: DATA_PLANE_STRIPPED_HEADERS_def)
  then show ?thesis unfolding get_header_def key dataPlaneAuthorizationRequest_def by simp
qed

text \<open>The internal request carries the scope of the verified call and nothing else can.\<close>

lemma call_headers_simps:
  "call_headers call ''X-CAS-App-Id'' = Some (vc_appId call)" "call_headers call ''X-CAS-Space-Id'' = Some (vc_spaceId call)"
  "call_headers call ''X-CAS-Stack-Id'' = None" "call_headers call ''X-CAS-Tenant-Id'' = None"
  by (simp_all add: call_headers_def)

lemma dispatched_headers:
  assumes "dispatchDataRequest request r headers = Inr internal" and "name \<notin> {''X-CAS-Hash'', ''Range'', ''Content-Type''}"
  shows "hq_header internal name = headers name"
  using assms by (cases r; cases "present (get_header request ''Range'')") (auto simp: dispatchDataRequest_def space_request_def split: if_splits)

lemma dispatched_scope:
  assumes "dispatchDataRequest request r (call_headers call) = Inr internal" and "vc_appId call \<noteq> []" "vc_spaceId call \<noteq> []"
  shows "physicalScope internal = Inr \<lparr>appId = vc_appId call, spaceId = vc_spaceId call\<rparr>"
  using assms(2,3) by (simp add: physicalScope_def dispatched_headers [OF assms(1)] call_headers_simps present_def)

lemma auth_same_store:
  "auth_same s s' \<Longrightarrow> world_ok sha256 contents (sv_world s') = world_ok sha256 contents (sv_world s)"
  "auth_same s s' \<Longrightarrow> isolated contents sc (sv_world s) (sv_world s')"
  by (auto simp: auth_same_def world_ok_def isolated_def)

lemma matched_scope:
  assumes "matchAppSpaceRoute verb u = Some r"
  shows "route_appId r \<noteq> []" and "route_spaceId r \<noteq> []" and "validateSpaceId (route_spaceId r) = None"
proof -
  show "route_appId r \<noteq> []" and v: "validateSpaceId (route_spaceId r) = None"
    using assms by (auto simp: matchAppSpaceRoute_def Let_def split: if_splits list.splits option.splits)
  show "route_spaceId r \<noteq> []" using v by (auto simp: validateSpaceId_def SPACE_ID_PATTERN_def split: if_splits)
qed

lemma stub_fetch_run:
  assumes "stub_fetch call w = (outcome, w')"
  obtains ds where "w' = w\<lparr>w_deliveries := ds\<rparr>" "\<not> (\<exists>response. outcome = Inr response)"
  | ds result where "call (w\<lparr>w_deliveries := ds\<rparr>) = (result, w')" "outcome = result \<or> isl outcome"
  using assms by (auto simp: stub_fetch_def Let_def split: prod.splits if_splits)

text \<open>What the data plane of the worker does with a matched request.\<close>

lemma service_run:
  assumes "matchAppSpaceRoute (hr_method request) (hr_url request) = Some r"
    and "createUniCasService (worker_context rt env bucket sha256 jose admin) request s = (outcome, s')"
  obtains (refused) response where "auth_same s s'" "outcome = Inr response" "hs_status response \<in> {401, 403}"
  | (answered) response where "auth_same s s'" "authorized_by jose s (get_header request ''Authorization'') r"
      "outcome = Inr response" "hs_status response = 400"
  | (served) s1 and call :: verifiedAppSpaceCall and internal where "auth_same s s1" "authorized_by jose s (get_header request ''Authorization'') r"
      "vc_appId call = route_appId r" "vc_spaceId call = route_spaceId r"
      "dispatchDataRequest request r (call_headers call) = Inr internal"
      "in_world (stub_fetch (space_fetch rt env bucket sha256 internal)) s1 = (outcome, s')"
proof -
  let ?verify = "verifyToken jose (get_header request ''Authorization'') r"
  have run: "createUniCasService (worker_context rt env bucket sha256 jose admin) request s
      = bindM (tryM ?verify) (\<lambda>outcome. case outcome of Inl e \<Rightarrow> returnM (spaceAuthorizationErrorResponse e)
        | Inr call \<Rightarrow> dispatchSpaceRequest (worker_context rt env bucket sha256 jose admin) request r call) s"
  proof -
    have "cx_authorizeSpaceRequest (worker_context rt env bucket sha256 jose admin)
        = Some (\<lambda>request r. verifyToken jose (get_header request ''Authorization'') r)"
      by (simp add: worker_context_def authorization_header_kept)
    then show ?thesis using assms(1) by (simp add: createUniCasService_def matchUniCasServiceRoute_def)
  qed
  obtain v s1 where v: "?verify s = (v, s1)" by fastforce
  note ok = verifyToken_ok [of jose "get_header request ''Authorization''" r s, unfolded wp_def v prod.case]
  show thesis
  proof (cases v)
    case (Inl e)
    then have "outcome = Inr (spaceAuthorizationErrorResponse e)" "s' = s1" "auth_same s s1"
      using assms(2) ok v by (auto simp: run bindM_def tryM_def returnM_def)
    then show thesis using refused by (auto simp: spaceAuthorizationErrorResponse_def errorResponse_def error_json_def split: auth_error.splits)
  next
    case (Inr call)
    then have call: "auth_same s s1" "authorized_by jose s (get_header request ''Authorization'') r" "vc_appId call = route_appId r"
      "vc_spaceId call = route_spaceId r" using ok by auto
    have go: "dispatchSpaceRequest (worker_context rt env bucket sha256 jose admin) request r call s1 = (outcome, s')"
      using assms(2) v Inr by (simp add: run bindM_def tryM_def)
    have key: "\<exists>key. canonicalActorKey (vc_appId call) (vc_spaceId call) = Inr key"
      using matched_scope [OF assms(1)] call by (simp add: canonicalActorKey_def)
    show thesis
    proof (cases "dispatchDataRequest request r (call_headers call)")
      case (Inl response)
      then have "s' = s1" "outcome = Inr response" using go key by (auto simp: dispatchSpaceRequest_def bindM_def liftM_def returnM_def)
      moreover have "hs_status response = 400"
        using Inl by (cases r) (auto simp: dispatchDataRequest_def errorResponse_def split: if_splits)
      ultimately show thesis using answered call by simp
    next
      case (Inr internal)
      then show thesis using served [OF call Inr] go key
        by (auto simp: dispatchSpaceRequest_def bindM_def liftM_def worker_context_def)
    qed
  qed
qed

section \<open>The example\<close>

text \<open>An App with one registered issuer, and a token for the Spaces below \<open>/team\<close>.\<close>

definition sample_claims :: jsval where
  "sample_claims = Obj [(''ver'', js_int 2), (''iss'', Str ''https://id''), (''sub'', Str ''svc''), (''aud'', Str ''unicas''),
     (''iat'', js_int 0), (''nbf'', js_int 0), (''exp'', js_int 60), (''jti'', Str ''j1''),
     (''grants'', Arr [Obj [(''selector'', Str ''/team/**''), (''permissions'', Arr [Str ''cas:nodes:lease'', Str ''cas:nodes:read''])]])]"

definition sample_jose :: "'w jose" where
  "sample_jose = \<lparr>jw_decodeJwt = (\<lambda>_. Some sample_claims),
     jw_decodeProtectedHeader = (\<lambda>_. Some (Obj [(''kid'', Str ''k1''), (''alg'', Str ''ES256'')])), jw_valid_url = (\<lambda>_. True),
     jw_jwtVerify = (\<lambda>_ _ _ _. Some sample_claims), jw_fraction_exceeds = (\<lambda>_ _ _. False)\<rparr>"

definition sample_control :: "string \<Rightarrow> control_db" where
  "sample_control status = \<lparr>cas_app_oauth_issuers = [\<lparr>is_app_id = ''app'', is_issuer = ''https://id'', is_audience = ''unicas'',
       is_jwks_uri = ''https://id/jwks'', is_capability_max_lifetime_seconds = 120, is_status = ''active'', is_mode = ''external''\<rparr>],
     cas_apps = [(''app'', status)]\<rparr>"

definition sample_service :: "memory_bucket service_state" where
  "sample_service = \<lparr>sv_world = sample_world 5, sv_control = sample_control ''active'',
     sv_verifier = \<lparr>vf_authorityCache = [], vf_remoteKeySets = []\<rparr>\<rparr>"

definition sample_http :: http_request where
  "sample_http = \<lparr>hr_method = ''POST'', hr_url = \<lparr>url_origin = ''https://unicas'', url_pathname = ''/v1/cas/nodes/00/lease'',
       url_params = [(''appId'', ''app''), (''spaceId'', ''/team/a'')]\<rparr>,
     hr_headers = [(''authorization'', ''Bearer t'')], hr_text = []\<rparr>"

lemma sample_match: "matchAppSpaceRoute (hr_method sample_http) (hr_url sample_http) = Some (Lease_node ''app'' ''/team/a'' ''00'')"
  by code_simp

lemma sample_clock: "w_clock (sv_world sample_service) = 5"
  by (simp add: sample_service_def sample_world_def)

lemma sample_verify:
  "\<exists>call. fst (verifyToken sample_jose (Some ''Bearer t'') (Lease_node ''app'' ''/team/a'' ''00'') sample_service) = Inr call"
proof -
  have "isl (fst (verifyToken sample_jose (Some ''Bearer t'') (Lease_node ''app'' ''/team/a'' ''00'') sample_service)) = False" by code_simp
  then show ?thesis by (cases "fst (verifyToken sample_jose (Some ''Bearer t'') (Lease_node ''app'' ''/team/a'' ''00'') sample_service)") auto
qed

section \<open>Properties\<close>

text \<open>
  C5. No request acts without a capability: a data-plane request either is answered with 401 or
  403 and touches nothing, or it carries a bearer token that the verifier accepted under the
  key set, issuer and audience registered for an active App, the very App of the request, with
  claims in which one grant both selects the Space of the request and has the permission of the
  operation, and whose lifetime is within the App's maximum.
\<close>

theorem only_authorized_requests_act:
  assumes "matchAppSpaceRoute (hr_method request) (hr_url request) = Some r"
    and "createUniCasService (worker_context rt env bucket sha256 jose admin) request s = (outcome, s')"
  shows "authorized_by jose s (get_header request ''Authorization'') r
    \<or> (auth_same s s' \<and> (\<exists>response. outcome = Inr response \<and> hs_status response \<in> {401, 403}))"
  using assms by (rule service_run) blast+

theorem only_authorized_requests_act_witness:
  "auth_same sample_service (snd (createUniCasService (worker_context lease_runtime bare_env (mem_bucket sample_sha256) sample_sha256 sample_jose None)
     (sample_http\<lparr>hr_headers := []\<rparr>) sample_service))"
proof -
  let ?request = "sample_http\<lparr>hr_headers := []\<rparr>"
  have anonymous: "get_header ?request ''Authorization'' = None" by (simp add: get_header_def)
  have match: "matchAppSpaceRoute (hr_method ?request) (hr_url ?request) = Some (Lease_node ''app'' ''/team/a'' ''00'')"
    using sample_match by simp
  let ?run = "createUniCasService (worker_context lease_runtime bare_env (mem_bucket sample_sha256) sample_sha256 sample_jose None) ?request sample_service"
  have "authorized_by sample_jose sample_service (get_header ?request ''Authorization'') (Lease_node ''app'' ''/team/a'' ''00'')
      \<or> (auth_same sample_service (snd ?run) \<and> (\<exists>response. fst ?run = Inr response \<and> hs_status response \<in> {401, 403}))"
    by (rule only_authorized_requests_act [OF match surjective_pairing])
  then show ?thesis by (simp add: anonymous authorized_by_def)
qed



text \<open>
  C7. Revocation takes effect within a minute: after any sequence of verifications, changes of
  the registry and passing of time, a request is authorized only if at some moment of the last
  60 seconds the registry named an active issuer of the requested App while that App was
  active; so suspending an App or removing its issuer stops every request at most 60 seconds
  later, even if the registry cannot be read.
\<close>

theorem revocation_bound:
  assumes "vf_authorityCache (sv_verifier s0) = []"
    and "auth_reach jose {(w_clock (sv_world s0), sv_control s0)} s0 H s"
    and "verifyToken jose authorization r s = (Inr call, s')"
  shows "\<exists>t c issuer a. (t, c) \<in> H \<and> w_clock (sv_world s) - 60000 < t \<and> t \<le> w_clock (sv_world s)
    \<and> readIssuer issuer c = Some a \<and> au_appStatus a = ''active'' \<and> au_appId a = route_appId r"
proof -
  have "cache_true {(w_clock (sv_world s0), sv_control s0)} s0" using assms(1) by (simp add: cache_true_def)
  then have cache: "cache_true H s" by (rule auth_reach_cache [OF assms(2)])
  have "authorized_by jose s authorization r"
    using verifyToken_ok [of jose authorization r s] assms(3) by (simp add: wp_def)
  then obtain issuer a where a: "vouched s issuer a" "au_appStatus a = ''active''" "au_appId a = route_appId r"
    by (auto simp: authorized_by_def)
  from vouched_recent [OF cache a(1)] a(2,3) show ?thesis unfolding DEFAULT_HARD_STALE_BOUND_MS_def by blast
qed

theorem revocation_bound_witness:
  "\<exists>t c issuer a. (t, c) \<in> {(5, sample_control ''active'')} \<and> readIssuer issuer c = Some a \<and> au_appStatus a = ''active''
     \<and> au_appId a = ''app''"
proof -
  let ?run = "verifyToken sample_jose (Some ''Bearer t'') (Lease_node ''app'' ''/team/a'' ''00'') sample_service"
  obtain call where "?run = (Inr call, snd ?run)" using sample_verify by (metis prod.collapse)
  from revocation_bound [OF _ auth_start this] show ?thesis
    by (auto simp: sample_service_def sample_clock [unfolded sample_service_def])
qed

end
