(* ===== verification/Capability_Manager.thy ===== *)
theory Capability_Manager
  imports Space_Auth Blob_Client
begin

text \<open>
  The client's capabilities, \<^verbatim>\<open>packages/space-client/src/capability.ts\<close>: what a provider returns is
  checked and kept, one record for each class of operations, and replaced when it expires, does
  not fit or is rejected.

  The provider is a parameter.  Requests of one client are taken one at a time, so the table of
  acquisitions under way is empty whenever a request starts.  A record is an object, compared by
  identity; \<open>cr_id\<close> is that identity.
\<close>

section \<open>Records\<close>

datatype credentialClass = Content_class | Root_refs_class | Management_class

definition CredentialClasses :: "credentialClass list" where
  "CredentialClasses = [Content_class, Root_refs_class, Management_class]"

record capabilityRequirement =
  rq_appId :: string
  rq_spaceId :: string
  rq_permission :: string

record spaceCapabilityMetadata =
  sm_notBefore :: "int option"
  sm_expiresAt :: int
  sm_grants :: "spaceCapabilityGrant list"

record capabilityRecord =
  cr_id :: nat
  cr_bearerToken :: string
  cr_metadata :: spaceCapabilityMetadata

datatype acquireReason = Missing | Expiring | Requirement_miss | Server_rejected

definition MaximumCapabilityClockSkewSeconds :: int where "MaximumCapabilityClockSkewSeconds = 30"

text \<open>The six permissions are the values of the type of the source; the last case covers the remaining two.\<close>

definition credentialClassFor :: "string \<Rightarrow> credentialClass" where
  "credentialClassFor permission =
     (if permission \<in> {''cas:nodes:read'', ''cas:nodes:lease''} then Content_class
      else if permission \<in> {''cas:root-refs:read'', ''cas:root-refs:update''} then Root_refs_class
      else Management_class)"

definition capabilityMatches :: "spaceCapabilityMetadata \<Rightarrow> capabilityRequirement \<Rightarrow> bool" where
  "capabilityMatches metadata requirement =
     list_ex (\<lambda>grant. spaceSelectorMatches (gr_selector grant) (rq_spaceId requirement)
       \<and> rq_permission requirement \<in> set (gr_permissions grant)) (sm_grants metadata)"

definition replacementReason :: "capabilityRecord \<Rightarrow> capabilityRequirement \<Rightarrow> int \<Rightarrow> acquireReason option" where
  "replacementReason r requirement nowMs =
     (if sm_expiresAt (cr_metadata r) \<le> nowMs div 1000 + MaximumCapabilityClockSkewSeconds then Some Expiring
      else if capabilityMatches (cr_metadata r) requirement then None else Some Requirement_miss)"

section \<open>What a provider returns\<close>

definition invalidMetadata :: "string \<Rightarrow> client_exn" where
  "invalidMetadata message = Cas_capability_error ''INVALID_CAPABILITY_METADATA'' message"

definition is_object :: "jsval \<Rightarrow> bool" where
  "is_object v = (case v of Obj _ \<Rightarrow> True | Arr _ \<Rightarrow> True | _ \<Rightarrow> False)"

definition validUnixSeconds :: "jsval \<Rightarrow> int option" where
  "validUnixSeconds v = (case safe_integer v of Some n \<Rightarrow> if 0 \<le> n then Some n else None | None \<Rightarrow> None)"

definition normalize_grant :: "jsval \<Rightarrow> client_exn + spaceCapabilityGrant" where
  "normalize_grant grant =
     (if \<not> is_object grant then Inl (invalidMetadata ''Capability grant metadata must be an object'')
      else
      case js_get grant ''selector'' of
        Str text \<Rightarrow>
          (case parseSpaceSelector text of
             None \<Rightarrow> Inl (invalidMetadata ''Capability grant metadata has an invalid selector'')
           | Some selector \<Rightarrow>
               (case js_get grant ''permissions'' of
                  Arr ps \<Rightarrow>
                    if ps = [] then Inl (invalidMetadata ''Capability grant metadata permissions must not be empty'')
                    else (case all_some (map permission_claim ps) of
                        None \<Rightarrow> Inl (invalidMetadata ''Capability grant metadata has an invalid permission'')
                      | Some kinds \<Rightarrow> Inr \<lparr>gr_selector = sel_selector selector, gr_permissions = rev (remdups (rev kinds))\<rparr>)
                | _ \<Rightarrow> Inl (invalidMetadata ''Capability grant metadata permissions must not be empty'')))
      | _ \<Rightarrow> Inl (invalidMetadata ''Capability grant metadata has an invalid selector''))"

text \<open>The checks of the times, in the order of the source.\<close>

definition normalize_times :: "jsval \<Rightarrow> int \<Rightarrow> client_exn + int option \<times> int" where
  "normalize_times metadata nowSeconds =
     (case validUnixSeconds (js_get metadata ''expiresAt'') of
        None \<Rightarrow> Inl (invalidMetadata ''Capability metadata expiresAt must be non-negative Unix seconds'')
      | Some expiresAt \<Rightarrow>
          let notBefore = js_get metadata ''notBefore'' in
          if notBefore \<noteq> Undefined \<and> validUnixSeconds notBefore = None
          then Inl (invalidMetadata ''Capability metadata notBefore must be non-negative Unix seconds'')
          else
          let start = (if notBefore = Undefined then None else validUnixSeconds notBefore) in
          if (case start of Some n \<Rightarrow> n > expiresAt | None \<Rightarrow> False)
          then Inl (invalidMetadata ''Capability metadata time window is invalid'')
          else if (case start of Some n \<Rightarrow> n > nowSeconds + MaximumCapabilityClockSkewSeconds | None \<Rightarrow> False)
          then Inl (invalidMetadata ''Capability metadata is not active yet'')
          else if expiresAt \<le> nowSeconds + MaximumCapabilityClockSkewSeconds
          then Inl (invalidMetadata ''Capability metadata is expired or too close to expiry'')
          else Inr (start, expiresAt))"

definition normalize_grants :: "jsval \<Rightarrow> client_exn + spaceCapabilityGrant list" where
  "normalize_grants grants = (case grants of
       Arr gs \<Rightarrow>
         if gs = [] \<or> length gs > MaximumSpaceCapabilityGrants
         then Inl (invalidMetadata ''Capability metadata grants must contain 1-32 entries'')
         else mapE normalize_grant gs
     | _ \<Rightarrow> Inl (invalidMetadata ''Capability metadata grants must contain 1-32 entries''))"

definition is_version :: "jsval \<Rightarrow> bool" where
  "is_version v = (case v of Number (Some n) _ \<Rightarrow> n = SpaceCapabilityVersion | _ \<Rightarrow> False)"

definition normalize_metadata :: "jsval \<Rightarrow> int \<Rightarrow> client_exn + spaceCapabilityMetadata" where
  "normalize_metadata metadata nowSeconds =
     (if \<not> is_object metadata then Inl (invalidMetadata ''Capability metadata must be an object'')
      else if \<not> is_version (js_get metadata ''version'') then Inl (invalidMetadata ''Capability metadata version must be 2'')
      else
      bindE (normalize_times metadata nowSeconds) (\<lambda>(start, expiresAt).
      bindE (normalize_grants (js_get metadata ''grants'')) (\<lambda>grants.
      Inr \<lparr>sm_notBefore = start, sm_expiresAt = expiresAt, sm_grants = grants\<rparr>)))"

definition normalizeCapability :: "jsval \<Rightarrow> capabilityRequirement \<Rightarrow> int \<Rightarrow> client_exn + string \<times> spaceCapabilityMetadata" where
  "normalizeCapability provided requirement nowMs =
     (if \<not> is_object provided then Inl (invalidMetadata ''Capability provider result must be an object'')
      else
      case nonempty_string (js_get provided ''bearerToken'') of
        None \<Rightarrow> Inl (invalidMetadata ''Capability bearerToken must not be empty'')
      | Some token \<Rightarrow>
          bindE (normalize_metadata (js_get provided ''metadata'') (nowMs div 1000)) (\<lambda>metadata.
          if capabilityMatches metadata requirement then Inr (token, metadata)
          else Inl (Cas_capability_error ''UNSATISFIED_CAPABILITY_REQUIREMENT''
            (''CAS capability does not satisfy '' @ rq_permission requirement @ '' for the requested Space''))))"

section \<open>The manager\<close>

record capabilityManager =
  mg_current :: "credentialClass \<rightharpoonup> capabilityRecord"
  mg_next :: nat

record 's client_state =
  cl_outer :: 's
  cl_manager :: capabilityManager

text \<open>A computation of the world around the client.\<close>

definition outer :: "('s, 'e, 'a) prog \<Rightarrow> ('s client_state, 'e, 'a) prog" where
  "outer m c = (case m (cl_outer c) of (r, s') \<Rightarrow> (r, c\<lparr>cl_outer := s'\<rparr>))"

record 's capabilityPorts =
  pt_acquire :: "capabilityRequirement \<Rightarrow> acquireReason \<Rightarrow> ('s, client_exn, jsval) prog"
  pt_now :: "'s \<Rightarrow> int"

definition manager_now :: "'s capabilityPorts \<Rightarrow> ('s client_state, client_exn, int) prog" where
  "manager_now ports c = (Inr (pt_now ports (cl_outer c)), c)"

definition get_manager :: "('s client_state, client_exn, capabilityManager) prog" where
  "get_manager c = (Inr (cl_manager c), c)"

definition on_manager :: "(capabilityManager \<Rightarrow> capabilityManager) \<Rightarrow> ('s client_state, client_exn, unit) prog" where
  "on_manager f c = (Inr (), c\<lparr>cl_manager := f (cl_manager c)\<rparr>)"

definition invalidate :: "capabilityRecord \<Rightarrow> capabilityManager \<Rightarrow> capabilityManager" where
  "invalidate r m = m\<lparr>mg_current := (\<lambda>c. case mg_current m c of
     Some x \<Rightarrow> if cr_id x = cr_id r then None else Some x | None \<Rightarrow> None)\<rparr>"

definition set_current :: "credentialClass \<Rightarrow> capabilityRecord \<Rightarrow> capabilityManager \<Rightarrow> capabilityManager" where
  "set_current c r m = m\<lparr>mg_current := (mg_current m)(c \<mapsto> r)\<rparr>"

definition is_capability_error :: "client_exn \<Rightarrow> bool" where
  "is_capability_error e = (case e of Cas_capability_error _ _ \<Rightarrow> True | _ \<Rightarrow> False)"

definition provider_failure :: "client_exn \<Rightarrow> client_exn" where
  "provider_failure e = (if is_capability_error e then e
     else Cas_capability_error ''PROVIDER_FAILED'' ''CAS capability provider failed'')"

text \<open>The new record replaces the superseded one.\<close>

definition install ::
  "credentialClass \<Rightarrow> capabilityRecord option \<Rightarrow> string \<times> spaceCapabilityMetadata \<Rightarrow> ('s client_state, client_exn, capabilityRecord) prog" where
  "install cls superseded provided =
     bindM get_manager (\<lambda>m.
     let r = \<lparr>cr_id = mg_next m, cr_bearerToken = fst provided, cr_metadata = snd provided\<rparr> in
     bindM (on_manager (\<lambda>m. set_current cls r ((case superseded of Some x \<Rightarrow> invalidate x m | None \<Rightarrow> m)\<lparr>mg_next := Suc (mg_next m)\<rparr>))) (\<lambda>_.
     returnM r))"

definition acquire ::
  "'s capabilityPorts \<Rightarrow> capabilityRequirement \<Rightarrow> acquireReason \<Rightarrow> capabilityRecord option \<Rightarrow> ('s client_state, client_exn, capabilityRecord) prog" where
  "acquire ports requirement reason superseded =
     bindM (catchM (outer (pt_acquire ports requirement reason)) (\<lambda>e. throwM (provider_failure e))) (\<lambda>provided.
     bindM (manager_now ports) (\<lambda>now.
     bindM (liftM (normalizeCapability provided requirement now)) (\<lambda>normalized.
     install (credentialClassFor (rq_permission requirement)) superseded normalized)))"

text \<open>The records of the other classes, tried in order.\<close>

definition usable_candidate :: "capabilityManager \<Rightarrow> capabilityRequirement \<Rightarrow> int \<Rightarrow> capabilityRecord option" where
  "usable_candidate m requirement now =
     (case filter (\<lambda>r. replacementReason r requirement now = None) (List.map_filter (mg_current m) CredentialClasses) of
        [] \<Rightarrow> None | r # _ \<Rightarrow> Some r)"

definition resolve ::
  "'s capabilityPorts \<Rightarrow> capabilityRequirement \<Rightarrow> acquireReason option \<Rightarrow> ('s client_state, client_exn, capabilityRecord) prog" where
  "resolve ports requirement forced =
     (let cls = credentialClassFor (rq_permission requirement) in
      bindM get_manager (\<lambda>m.
      bindM (manager_now ports) (\<lambda>now.
      case (forced, mg_current m cls) of
        (Some reason, preferred) \<Rightarrow> acquire ports requirement reason preferred
      | (None, Some preferred) \<Rightarrow>
          (case replacementReason preferred requirement now of
             None \<Rightarrow> returnM preferred
           | Some reason \<Rightarrow> acquire ports requirement reason (Some preferred))
      | (None, None) \<Rightarrow>
          (case usable_candidate m requirement now of
             Some candidate \<Rightarrow> bindM (on_manager (set_current cls candidate)) (\<lambda>_. returnM candidate)
           | None \<Rightarrow> acquire ports requirement Missing None))))"

definition refreshAfterRejection ::
  "'s capabilityPorts \<Rightarrow> capabilityRequirement \<Rightarrow> capabilityRecord \<Rightarrow> ('s client_state, client_exn, capabilityRecord) prog" where
  "refreshAfterRejection ports requirement rejected =
     bindM (on_manager (invalidate rejected)) (\<lambda>_. resolve ports requirement (Some Server_rejected))"

end
