(* ===== verification/Space_Client.thy ===== *)
theory Space_Client
  imports Capability_Manager Service_Actor
begin

text \<open>
  The node-level client, \<^verbatim>\<open>packages/space-client/src/client.ts\<close>, with its transport, \<^verbatim>\<open>transport.ts\<close>,
  over an arbitrary HTTP fetcher, without a cache of nodes.

  \<open>JSON.stringify\<close>, \<open>JSON.parse\<close> of a response's bytes and \<open>Number\<close> of a header are fields of the
  configuration.  Where the source casts a parsed response to its type, the model ends with a
  \<open>Transport_error\<close> if the value is not of that type.  The base URL has no path of its own.
\<close>

section \<open>Transport\<close>

record 's appCasClientConfig =
  cc_baseUrl :: string
  cc_appId :: string
  cc_ports :: "'s capabilityPorts"
  cc_fetch :: "http_request \<Rightarrow> ('s, client_exn, do_response) prog"
  cc_stringify :: "jsval \<Rightarrow> string"
  cc_parse :: "bytes \<Rightarrow> jsval option"
  cc_number :: "string \<Rightarrow> jsval"

record requestInit =
  ri_method :: string
  ri_headers :: "(string \<times> string) list"
  ri_body :: string

definition plain_get :: requestInit where
  "plain_get = \<lparr>ri_method = ''GET'', ri_headers = [], ri_body = []\<rparr>"

definition json_post :: "string \<Rightarrow> requestInit" where
  "json_post body = \<lparr>ri_method = ''POST'', ri_headers = [(''content-type'', ''application/json'')], ri_body = body\<rparr>"

definition response_ok :: "do_response \<Rightarrow> bool" where
  "response_ok response \<longleftrightarrow> 200 \<le> hs_status response \<and> hs_status response \<le> 299"

text \<open>\<open>response.json()\<close> and \<open>response.body\<close>.\<close>

definition response_json :: "'s appCasClientConfig \<Rightarrow> do_response \<Rightarrow> jsval option" where
  "response_json config response = (case hs_body response of Json v \<Rightarrow> Some v | Body_stream bs \<Rightarrow> cc_parse config (concat bs))"

definition response_body :: "'s appCasClientConfig \<Rightarrow> do_response \<Rightarrow> bytes list" where
  "response_body config response =
     (case hs_body response of Json v \<Rightarrow> [textEncode (cc_stringify config v)] | Body_stream bs \<Rightarrow> bs)"

text \<open>The code and the detail of an error body.\<close>

definition readError :: "'s appCasClientConfig \<Rightarrow> do_response \<Rightarrow> string option \<times> string option" where
  "readError config response = (case response_json config response of
       None \<Rightarrow> (None, None)
     | Some body \<Rightarrow>
         let code = (case js_get body ''error'' of Str s \<Rightarrow> Some s | _ \<Rightarrow> None) in
         (code, case js_get body ''message'' of Str s \<Rightarrow> Some s | _ \<Rightarrow> code))"

definition base_url :: "string \<Rightarrow> string" where
  "base_url s = (if s \<noteq> [] \<and> List.last s = CHR ''/'' then butlast s else s)"

definition fetch_request :: "'s appCasClientConfig \<Rightarrow> capabilityRecord \<Rightarrow> string \<times> (string \<times> string) list \<Rightarrow> requestInit \<Rightarrow> http_request" where
  "fetch_request config r target init =
     \<lparr>hr_method = ri_method init,
      hr_url = \<lparr>url_origin = base_url (cc_baseUrl config), url_pathname = fst target, url_params = snd target\<rparr>,
      hr_headers = filter (\<lambda>h. fst h \<noteq> ''authorization'') (ri_headers init) @ [(''authorization'', ''Bearer '' @ cr_bearerToken r)],
      hr_text = ri_body init\<rparr>"

definition fetchWith ::
  "'s appCasClientConfig \<Rightarrow> capabilityRecord \<Rightarrow> string \<times> (string \<times> string) list \<Rightarrow> requestInit \<Rightarrow> ('s client_state, client_exn, do_response) prog" where
  "fetchWith config r target init = outer (cc_fetch config (fetch_request config r target init))"

definition client_error :: "string \<Rightarrow> do_response \<Rightarrow> string option \<times> string option \<Rightarrow> client_exn" where
  "client_error operation response e = Cas_client_error (hs_status response) operation (snd e) (fst e)"

text \<open>The second attempt, with a new capability.\<close>

definition retry_request ::
  "'s appCasClientConfig \<Rightarrow> capabilityRequirement \<Rightarrow> string \<times> (string \<times> string) list \<Rightarrow> requestInit \<Rightarrow> string \<Rightarrow> capabilityRecord
   \<Rightarrow> ('s client_state, client_exn, do_response) prog" where
  "retry_request config requirement target init operation r =
     bindM (refreshAfterRejection (cc_ports config) requirement r) (\<lambda>r'.
     bindM (fetchWith config r' target init) (\<lambda>response.
     if response_ok response then returnM response else throwM (client_error operation response (readError config response))))"

definition reject_request :: "capabilityRecord \<Rightarrow> client_exn \<Rightarrow> ('s client_state, client_exn, 'a) prog" where
  "reject_request r e = bindM (on_manager (invalidate r)) (\<lambda>_. throwM e)"

definition transport_request ::
  "'s appCasClientConfig \<Rightarrow> capabilityRequirement \<Rightarrow> string \<times> (string \<times> string) list \<Rightarrow> requestInit \<Rightarrow> string \<Rightarrow> bool
   \<Rightarrow> ('s client_state, client_exn, do_response) prog" where
  "transport_request config requirement target init operation retryInvalidToken =
     bindM (resolve (cc_ports config) requirement None) (\<lambda>r.
     bindM (fetchWith config r target init) (\<lambda>response.
     let e = readError config response; failure = client_error operation response e in
     if response_ok response then returnM response
     else if hs_status response = 401 \<and> fst e = Some ''invalid_token''
     then (if retryInvalidToken then retry_request config requirement target init operation r else reject_request r failure)
     else if hs_status response = 403 \<and> (fst e = Some ''insufficient_permission'' \<or> fst e = Some ''resource_scope_mismatch'')
     then reject_request r failure
     else throwM failure))"

section \<open>Operations\<close>

definition type_error :: "exn + 'a \<Rightarrow> client_exn + 'a" where
  "type_error r = map_sum (\<lambda>e. case e of TypeErr m \<Rightarrow> Client_type_error m | _ \<Rightarrow> Client_error []) id r"

definition requireSpaceId :: "string \<Rightarrow> client_exn + unit" where
  "requireSpaceId space = (case validateSpaceId space of Some e \<Rightarrow> Inl (Client_type_error e) | None \<Rightarrow> Inr ())"

text \<open>What every operation does: check the Space, build the route, send.\<close>

definition call_route ::
  "'s appCasClientConfig \<Rightarrow> appSpaceRoute \<Rightarrow> (string \<times> string option) list \<Rightarrow> requestInit \<Rightarrow> string \<Rightarrow> bool
   \<Rightarrow> ('s client_state, client_exn, do_response) prog" where
  "call_route config r additional init operation retryInvalidToken =
     bindM (liftM (requireSpaceId (route_spaceId r))) (\<lambda>_.
     bindM (liftM (type_error (appSpaceRoutes r additional))) (\<lambda>target.
     transport_request config \<lparr>rq_appId = cc_appId config, rq_spaceId = route_spaceId r, rq_permission = SpaceOperationPolicies r\<rparr>
       target init operation retryInvalidToken))"

definition json_result ::
  "'s appCasClientConfig \<Rightarrow> (jsval \<Rightarrow> 'a option) \<Rightarrow> do_response \<Rightarrow> ('s client_state, client_exn, 'a) prog" where
  "json_result config decode response =
     (case Option.bind (response_json config response) decode of
        Some x \<Rightarrow> returnM x
      | None \<Rightarrow> throwM (Transport_error ''unexpected response body''))"

definition js_string :: "jsval \<Rightarrow> string option" where
  "js_string v = (case v of Str s \<Rightarrow> Some s | _ \<Rightarrow> None)"

definition js_integer :: "jsval \<Rightarrow> int option" where
  "js_integer v = (case v of Number (Some n) _ \<Rightarrow> Some n | _ \<Rightarrow> None)"

definition js_strings :: "jsval \<Rightarrow> string list option" where
  "js_strings v = (case v of Arr vs \<Rightarrow> all_some (map js_string vs) | _ \<Rightarrow> None)"

definition metadata_of :: "jsval \<Rightarrow> casNodeMetadata option" where
  "metadata_of body =
     (let m = js_get body ''metadata'' in
      case (js_string (js_get m ''hash''), js_integer (js_get m ''size''), js_string (js_get m ''contentType''), js_strings (js_get m ''refs'')) of
        (Some hash, Some n, Some ct, Some refs) \<Rightarrow> Some \<lparr>cm_hash = hash, cm_size = n, cm_contentType = ct, cm_refs = refs\<rparr>
      | _ \<Rightarrow> None)"

definition client_readMetadata :: "'s appCasClientConfig \<Rightarrow> string \<Rightarrow> string \<Rightarrow> ('s client_state, client_exn, casNodeMetadata) prog" where
  "client_readMetadata config space hash =
     bindM (call_route config (Read_metadata (cc_appId config) space hash) [] plain_get ''metadata'' True) (json_result config metadata_of)"

definition client_validateRange :: "nodeRange option \<Rightarrow> client_exn + unit" where
  "client_validateRange rng = (case rng of
       None \<Rightarrow> Inr ()
     | Some (offset, len) \<Rightarrow>
         if \<not> isSafeInteger offset \<or> offset < 0
         then Inl (Client_type_error ''CAS node range offset must be a non-negative safe integer'')
         else (case len of
             None \<Rightarrow> Inr ()
           | Some n \<Rightarrow> if \<not> isSafeInteger n \<or> n < 0
               then Inl (Client_type_error ''CAS node range length must be a non-negative safe integer'') else Inr ()))"

definition range_headers :: "nodeRange option \<Rightarrow> (string \<times> string) list" where
  "range_headers rng = (case rng of
       None \<Rightarrow> []
     | Some (offset, len) \<Rightarrow> [(''range'', ''bytes='' @ show_int offset @ ''-''
         @ (case len of None \<Rightarrow> [] | Some n \<Rightarrow> show_int (offset + n - 1)))])"

definition client_readContent ::
  "'s appCasClientConfig \<Rightarrow> string \<Rightarrow> string \<Rightarrow> nodeRange option \<Rightarrow> ('s client_state, client_exn, bytes list) prog" where
  "client_readContent config space hash rng =
     bindM (liftM (client_validateRange rng)) (\<lambda>_.
     bindM (liftM (requireSpaceId space)) (\<lambda>_.
     if (case rng of Some (_, Some n) \<Rightarrow> n = 0 | _ \<Rightarrow> False) then returnM []
     else
       bindM (call_route config (Read_content (cc_appId config) space hash) [] (plain_get\<lparr>ri_headers := range_headers rng\<rparr>) ''read'' True)
         (\<lambda>response. returnM (response_body config response))))"

definition upload_of :: "jsval \<Rightarrow> uploadInstructions option" where
  "upload_of u =
     (case (js_string (js_get u ''method''), js_string (js_get u ''url''), js_get u ''headers'') of
        (Some verb, Some address, Obj hs) \<Rightarrow>
          map_option (\<lambda>vs. \<lparr>ui_method = verb, ui_url = address, ui_headers = zip (map fst (js_entries hs)) vs\<rparr>)
            (all_some (map (js_string \<circ> snd) (js_entries hs)))
      | _ \<Rightarrow> None)"

definition lease_result_of :: "jsval \<Rightarrow> spaceNodeLeaseResult option" where
  "lease_result_of body =
     (case js_string (js_get body ''hash'') of
        None \<Rightarrow> None
      | Some hash \<Rightarrow>
          let state = js_get body ''state'' in
          if state = Str ''ready'' then
            (case (js_integer (js_get body ''leaseStartedAt''), js_integer (js_get body ''leaseExpiresAt'')) of
               (Some a, Some b) \<Rightarrow> Some (Lease_ready hash a b) | _ \<Rightarrow> None)
          else if state = Str ''awaiting_upload'' then map_option (Lease_awaiting_upload hash) (upload_of (js_get body ''upload''))
          else if state = Str ''awaiting_replacement_upload'' then
            (let rejection = js_get body ''rejection'' in
             case (js_string (js_get rejection ''code''), js_string (js_get rejection ''message'')) of
               (Some code, Some message) \<Rightarrow>
                 map_option (Lease_awaiting_replacement hash (code, message)) (upload_of (js_get body ''upload''))
             | _ \<Rightarrow> None)
          else if state = Str ''validated_awaiting_children'' then
            map_option (Lease_awaiting_children hash) (js_strings (js_get body ''childHashes''))
          else None)"

definition client_leaseNode :: "'s appCasClientConfig \<Rightarrow> string \<Rightarrow> string \<Rightarrow> int \<Rightarrow> ('s client_state, client_exn, spaceNodeLeaseResult) prog" where
  "client_leaseNode config space hash durationMs =
     (if \<not> isSafeInteger durationMs \<or> durationMs \<le> 0
      then throwM (Client_type_error ''CAS lease duration must be a positive safe integer'')
      else
        bindM (call_route config (Lease_node (cc_appId config) space hash) []
          (json_post (cc_stringify config (Obj [(''leaseDurationMs'', js_int durationMs)]))) ''lease'' False)
          (json_result config lease_result_of))"

definition client_listRootRefs ::
  "'s appCasClientConfig \<Rightarrow> string \<Rightarrow> int option \<Rightarrow> string option \<Rightarrow> ('s client_state, client_exn, jsval) prog" where
  "client_listRootRefs config space limit cursor =
     bindM (call_route config (List_root_refs (cc_appId config) space) [(''limit'', map_option show_int limit), (''cursor'', cursor)]
       plain_get ''listRootRefs'' True) (json_result config Some)"

definition root_refs_result_of :: "jsval \<Rightarrow> casRootRefsResult option" where
  "root_refs_result_of body =
     (case js_get body ''success'' of
        Boolean b \<Rightarrow> Some \<lparr>rq_success = b,
          rq_idempotent = (case js_get body ''idempotent'' of Boolean i \<Rightarrow> Some i | _ \<Rightarrow> None),
          rq_revisionAfter = js_integer (js_get body ''revision'')\<rparr>
      | _ \<Rightarrow> None)"

definition client_updateRootRefs ::
  "'s appCasClientConfig \<Rightarrow> string \<Rightarrow> string \<Rightarrow> (string \<times> int) list \<Rightarrow> ('s client_state, client_exn, casRootRefsResult) prog" where
  "client_updateRootRefs config space requestId changes =
     bindM (call_route config (Update_root_refs (cc_appId config) space) []
       (json_post (cc_stringify config (Obj [(''requestId'', Str requestId),
          (''changes'', Obj (map (\<lambda>(h, n). (h, js_int n)) changes))]))) ''updateRootRefs'' False)
       (json_result config root_refs_result_of)"

definition client_usage :: "'s appCasClientConfig \<Rightarrow> string \<Rightarrow> ('s client_state, client_exn, jsval) prog" where
  "client_usage config space =
     bindM (call_route config (Get_usage (cc_appId config) space) [] plain_get ''usage'' True) (json_result config Some)"

definition client_gc :: "'s appCasClientConfig \<Rightarrow> string \<Rightarrow> int option \<Rightarrow> ('s client_state, client_exn, jsval) prog" where
  "client_gc config space maxNodes =
     bindM (call_route config (Run_gc (cc_appId config) space) []
       (case maxNodes of
          None \<Rightarrow> plain_get\<lparr>ri_method := ''POST''\<rparr>
        | Some n \<Rightarrow> json_post (cc_stringify config (Obj [(''maxNodes'', js_int n)]))) ''gc'' False) (json_result config Some)"

section \<open>Whole nodes\<close>

text \<open>\<open>text.split(",")\<close>.\<close>

fun split_comma :: "string \<Rightarrow> string list" where
  "split_comma [] = [[]]"
| "split_comma (c # s) = (if c = CHR '','' then [] # split_comma s
     else case split_comma s of [] \<Rightarrow> [[c]] | seg # segs \<Rightarrow> (c # seg) # segs)"

definition parseCasNodeRefsHeader :: "string option \<Rightarrow> exn + string list" where
  "parseCasNodeRefsHeader header = (case header of
       None \<Rightarrow> Inl (TypeErr ''X-CAS-Refs is required'')
     | Some text \<Rightarrow>
         if text = [] then Inr []
         else
           let refs = split_comma text in
           if length refs > 256 \<or> (\<exists>ref \<in> set refs. \<not> (length ref = 64 \<and> list_all is_lower_hex ref))
           then Inl (TypeErr ''X-CAS-Refs is invalid'') else Inr refs)"

text \<open>\<open>response.headers.get\<close>: names are compared without case.\<close>

definition response_header :: "do_response \<Rightarrow> string \<Rightarrow> string option" where
  "response_header response name =
     map_of (map (\<lambda>(k, v). (map lower_char k, v)) (hs_headers response)) (map lower_char name)"

definition node_of_response ::
  "'s appCasClientConfig \<Rightarrow> string \<Rightarrow> do_response \<Rightarrow> client_exn + casNodeMetadata \<times> bytes list" where
  "node_of_response config hash response =
     (case (present (response_header response ''Content-Type''),
            Option.bind (response_header response ''Content-Length'') (\<lambda>t. safe_integer (cc_number config t))) of
        (Some contentType, Some n) \<Rightarrow>
          if n < 0 then Inl (Cas_client_error 502 ''readNode'' None None)
          else (case parseCasNodeRefsHeader (response_header response ''X-CAS-Refs'') of
              Inl e \<Rightarrow> Inl (Cas_client_error 502 ''readNode'' (case e of TypeErr m \<Rightarrow> Some m | _ \<Rightarrow> None) None)
            | Inr refs \<Rightarrow> Inr (\<lparr>cm_hash = hash, cm_size = n, cm_contentType = contentType, cm_refs = refs\<rparr>, response_body config response))
      | _ \<Rightarrow> Inl (Cas_client_error 502 ''readNode'' None None))"

definition client_readNode :: "'s appCasClientConfig \<Rightarrow> string \<Rightarrow> string \<Rightarrow> ('s client_state, client_exn, casNodeMetadata \<times> bytes list) prog" where
  "client_readNode config space hash =
     bindM (call_route config (Read_content (cc_appId config) space hash) [] plain_get ''readNode'' True)
       (\<lambda>response. liftM (node_of_response config hash response))"

definition createAppCasClient :: "'s appCasClientConfig \<Rightarrow> 's client_state appCasClient" where
  "createAppCasClient config =
     \<lparr>ac_readMetadata = client_readMetadata config, ac_readContent = client_readContent config,
      ac_leaseNode = client_leaseNode config, ac_updateRootRefs = client_updateRootRefs config\<rparr>"

end
