(* ===== verification/Client_Service.thy ===== *)
theory Client_Service
  imports Space_Client Blob_Write Read_Properties
begin

text \<open>
  The node-level client on the service it was written for: every promise the blob layer relies on
  is kept by \<open>createAppCasClient\<close> over \<open>createUniCasService\<close>, the Space object, D1 and R2, whatever
  the network loses and whatever the capability provider does.
\<close>

section \<open>The nodes of a Space\<close>

text \<open>The node a stored object encodes; an object that encodes none counts as the empty node.\<close>

definition node_of :: "bytes \<Rightarrow> cas_node" where
  "node_of body = (case parseNodeBytes asciiDecode body of
       Inr p \<Rightarrow> (pn_contentType p, hex_of_hashes (pn_childHashes p), pn_content p)
     | Inl _ \<Rightarrow> ([], [], []))"

lemma node_of_bytes:
  assumes "node_shape (int (length content)) ct hs"
  shows "node_of (node_bytes ct hs content) = (ct, hex_of_hashes hs, content)"
proof -
  have "asciiDecode (textEncode ct) = ct" using assms by (simp add: asciiDecode_ok node_shape_def validateContentType_ok)
  from parseNodeBytes_node [where textDecode = asciiDecode, OF assms this] show ?thesis by (simp add: node_of_def)
qed

text \<open>The nodes of a Space that are committed and stored.\<close>

definition space_node :: "('b \<Rightarrow> string \<Rightarrow> bytes option) \<Rightarrow> appSpaceScope \<Rightarrow> 'b cf_world \<Rightarrow> string \<Rightarrow> cas_node option" where
  "space_node contents scope w h =
     (if map_of (cas_nodes (w_db w)) (scope, h) = None then None
      else map_option node_of (contents (w_bucket w) (node_object_key scope h)))"

lemma space_node_there:
  "space_node c scope w h = None \<longleftrightarrow> map_of (cas_nodes (w_db w)) (scope, h) = None \<or> c (w_bucket w) (node_object_key scope h) = None"
  by (auto simp: space_node_def)

text \<open>Nothing the Space has is lost.\<close>

definition world_grows :: "(bytes \<Rightarrow> bytes) \<Rightarrow> ('b \<Rightarrow> string \<Rightarrow> bytes option) \<Rightarrow> appSpaceScope \<Rightarrow> 'b cf_world \<Rightarrow> 'b cf_world \<Rightarrow> bool" where
  "world_grows sha contents scope w w' \<longleftrightarrow> world_ok sha contents w' \<and> nodes_grow contents scope w w'"

lemma world_grows_refl: "world_ok sha contents w \<Longrightarrow> world_grows sha contents scope w w"
  by (simp add: world_grows_def nodes_grow_refl)

lemma world_grows_trans: "world_grows sha c scope w w' \<Longrightarrow> world_grows sha c scope w' w'' \<Longrightarrow> world_grows sha c scope w w''"
  using nodes_grow_trans by (auto simp: world_grows_def)

lemma world_grows_node: "world_grows sha c scope w w' \<Longrightarrow> space_node c scope w h = Some n \<Longrightarrow> space_node c scope w' h = Some n"
  by (auto simp: world_grows_def nodes_grow_def space_node_def split: if_splits)

text \<open>A step of the world around the store: the store stays, time may pass.\<close>

definition quiet :: "('b \<Rightarrow> string \<Rightarrow> bytes option) \<Rightarrow> 'b cf_world \<Rightarrow> 'b cf_world \<Rightarrow> bool" where
  "quiet contents w w' \<longleftrightarrow> w_db w' = w_db w \<and> contents (w_bucket w') = contents (w_bucket w) \<and> w_clock w \<le> w_clock w'"

lemma quiet_grows: "world_ok sha c w \<Longrightarrow> quiet c w w' \<Longrightarrow> world_grows sha c scope w w'"
  using world_ok_later [of sha c w "w_clock w'"] by (auto simp: quiet_def world_grows_def nodes_grow_def world_ok_def)

lemma quiet_simps: "quiet c w w" "quiet c w (w\<lparr>w_deliveries := ds\<rparr>)" "store_same c w w' \<Longrightarrow> quiet c w w'"
  by (simp_all add: quiet_def store_same_def)

section \<open>Handlers\<close>

lemma space_error_cases [simp]:
  "\<not> response_ok (space_error (rangeNotSatisfiable n))" "\<not> response_ok (space_error (StorageError m))"
  "\<not> response_ok (space_error (TypeErr m))" "\<not> response_ok (space_error (nodeOpError 400 INVALID_REQUEST m))"
  by (simp_all add: space_error_def rangeNotSatisfiable_def nodeOpError_def errorResponse_def response_ok_def)

text \<open>The errors of a read become responses with an error status.\<close>

definition failing :: "exn \<Rightarrow> bool" where
  "failing e \<longleftrightarrow> \<not> response_ok (space_error e)"

context space_store
begin

definition loud :: "('b cf_world, exn, 'a) prog \<Rightarrow> bool" where
  "loud m \<longleftrightarrow> (\<forall>w. wp m (\<lambda>_ _. True) (\<lambda>e _. failing e) w)"

lemma loud_pure: "loud (returnM x)" "(\<And>e. r = Inl e \<Longrightarrow> failing e) \<Longrightarrow> loud (liftM r)"
  by (auto simp: loud_def wp_simps split: sum.splits)

lemma loud_bind: "loud m \<Longrightarrow> (\<And>x. loud (f x)) \<Longrightarrow> loud (bindM m f)"
  unfolding loud_def wp_bindM by (auto intro: wp_mono)

lemma loud_case: "loud g \<Longrightarrow> (\<And>x. loud (f x)) \<Longrightarrow> loud (case z of None \<Rightarrow> g | Some x \<Rightarrow> f x)"
  by (simp split: option.split)

lemma loud_d1: "loud (d1 st)"
  by (auto simp: loud_def wp_def d1_def Let_def failing_def split: prod.splits option.splits)

lemma loud_range: "loud (cf_readCanonicalRange bucket scope h off len)"
  unfolding loud_def cf_readCanonicalRange_def wp_r2
  by (intro allI wp_mono [OF range_error]) (auto simp: failing_def)

lemma parse_range_failing:
  assumes "parseNodeContentRange header n = Inl e"
  shows "failing e"
proof -
  have "e = rangeNotSatisfiable n"
    using assms by (auto simp: parseNodeContentRange_def Let_def split: option.splits if_splits)
  then show ?thesis by (simp add: failing_def)
qed

lemma loud_read: "loud (readNodeContent (cloudflareNodeReadRepository bucket) scope h header)"
  unfolding readNodeContent_def cloudflareNodeReadRepository_def nodeReadRepository.simps cf_readNode_def cf_readOrderedRefs_def Let_def
  by (intro loud_bind loud_d1 loud_case loud_range loud_pure) (auto intro: parse_range_failing)

text \<open>The range of an answer is the one the header asks for.\<close>

definition answers_header :: "string option \<Rightarrow> nodeContentStream option \<Rightarrow> bool" where
  "answers_header header r \<longleftrightarrow> (case r of None \<Rightarrow> True | Some s \<Rightarrow>
     (\<exists>requested. parseNodeContentRange header (ns_contentSize s) = Inr requested
        \<and> ns_range s = map_option (\<lambda>(off, len). (off, off + len - 1)) requested))"

lemma wp_always: "(\<And>x s'. Q x s') \<Longrightarrow> wp m Q (\<lambda>_ _. True) s"
  by (simp add: wp_def split: prod.splits sum.splits)

lemma read_answers:
  "wp (readNodeContent repository sc h header) (\<lambda>r _. answers_header header r) (\<lambda>_ _. True) w"
  unfolding readNodeContent_def wp_bindM [of "readNode repository sc h"]
proof (rule wp_always)
  fix n w1
  show "wp (case n of None \<Rightarrow> returnM None
     | Some n \<Rightarrow>
         bindM (readOrderedRefs repository sc h) (\<lambda>refs.
         bindM (liftM (parseNodeContentRange header (nr_contentSize n))) (\<lambda>requestedRange.
         let logicalOffset = (case requestedRange of Some (offset, _) \<Rightarrow> offset | None \<Rightarrow> 0);
             logicalLength = (case requestedRange of Some (_, len) \<Rightarrow> len | None \<Rightarrow> nr_contentSize n);
             physicalOffset = int HEADER_SIZE + int (length (textEncode (nr_contentType n))) + int (length refs) * int HASH_SIZE in
         bindM (readCanonicalRange repository sc h (physicalOffset + logicalOffset) logicalLength) (\<lambda>body.
         returnM (case body of
             None \<Rightarrow> None
           | Some b \<Rightarrow> Some \<lparr>ns_body = b, ns_contentType = nr_contentType n, ns_contentSize = nr_contentSize n, ns_refs = refs,
               ns_range = map_option (\<lambda>_. (logicalOffset, logicalOffset + logicalLength - 1)) requestedRange\<rparr>)))))
    (\<lambda>r _. answers_header header r) (\<lambda>_ _. True) w1"
  proof (cases n)
    case (Some m)
    show ?thesis
      unfolding Some option.case wp_bindM Let_def wp_liftM wp_returnM_cont
      by (rule wp_always) (auto simp: wp_liftM answers_header_def split: sum.splits option.splits intro!: wp_always)
  qed (simp add: wp_simps answers_header_def)
qed

text \<open>A node that is there, and what the tables and the bucket hold of it.\<close>

lemma node_facts:
  assumes "world_ok sha256 contents w" and "collision_free_at sha256 h" and "space_node contents scope w h = Some (ct, refs, content)"
  obtains r hs where "map_of (cas_nodes (w_db w)) (scope, h) = Some r" "content_type r = ct" "content_size r = int (length content)"
    "select_refs (scope, h) (w_db w) = refs" "contents (w_bucket w) (node_object_key scope h) = Some (node_bytes ct hs content)"
    "refs = hex_of_hashes hs" "node_shape (int (length content)) ct hs"
proof -
  obtain r body where rb: "map_of (cas_nodes (w_db w)) (scope, h) = Some r" "contents (w_bucket w) (node_object_key scope h) = Some body"
    "node_of body = (ct, refs, content)"
    using assms(3) by (auto simp: space_node_def split: if_splits)
  from committed_node [OF assms(1,2) rb(1,2)] obtain hs content' where
    c: "node_shape (int (length content')) (content_type r) hs" "body = node_bytes (content_type r) hs content'"
    "content_size r = int (length content')" "select_refs (scope, h) (w_db w) = hex_of_hashes hs" by blast
  then have "content_type r = ct" "hex_of_hashes hs = refs" "content' = content"
    using node_of_bytes [OF c(1)] rb(3) by simp_all
  then show thesis using that rb(1,2) c by auto
qed

lemma metadata_read:
  assumes "world_ok sha256 contents w" and "collision_free_at sha256 h" and "space_node contents scope w h = Some (ct, refs, content)"
  shows "wp (readNodeMetadata (cloudflareNodeReadRepository bucket) scope h)
    (\<lambda>r w'. store_same contents w w' \<and> (\<exists>m. r = Some m \<and> nm_contentType m = ct \<and> nm_refs m = refs \<and> nm_size m = int (length content)))
    (\<lambda>_ w'. store_same contents w w') w"
proof -
  obtain r hs where row: "map_of (cas_nodes (w_db w)) (scope, h) = Some r" "content_type r = ct" "content_size r = int (length content)"
    "select_refs (scope, h) (w_db w) = refs" using node_facts [OF assms] by metis
  show ?thesis
    unfolding readNodeMetadata_def cloudflareNodeReadRepository_def nodeReadRepository.simps cf_readNode_def cf_readOrderedRefs_def wp_bindM
    by (intro wp_d1_query) (auto simp: row wp_simps store_same_def intro!: wp_d1_query)
qed

lemma content_read:
  assumes ok: "world_ok sha256 contents w" and free: "collision_free_at sha256 h" and node: "space_node contents scope w h = Some (ct, refs, content)"
    and some: "content \<noteq> []"
  shows "wp (readNodeContent (cloudflareNodeReadRepository bucket) scope h header)
    (\<lambda>r w'. store_same contents w w' \<and> (case r of None \<Rightarrow> True | Some s \<Rightarrow> \<exists>requested.
       parseNodeContentRange header (int (length content)) = Inr requested
       \<and> concat (ns_body s) = (case requested of None \<Rightarrow> content | Some (off, len) \<Rightarrow> take (nat len) (drop (nat off) content))))
    (\<lambda>e w'. store_same contents w w' \<and> failing e) w"
proof -
  obtain r hs where row: "map_of (cas_nodes (w_db w)) (scope, h) = Some r" "content_size r = int (length content)"
    "contents (w_bucket w) (node_object_key scope h) = Some (node_bytes ct hs content)" "node_shape (int (length content)) ct hs"
    using node_facts [OF ok free node] by metis
  have "\<And>r'. map_of (cas_nodes (w_db w)) (scope, h) = Some r' \<Longrightarrow> 0 < content_size r'" using row(1,2) some by simp
  note whole = wp_conj [OF wp_conj [OF read_content_ok [OF ok free this] read_answers] loud_read [unfolded loud_def, rule_format]]
  show ?thesis
  proof (rule wp_mono [OF whole])
    fix x w'
    assume outcome: "((store_same contents w w' \<and> read_result w h x) \<and> answers_header header x) \<and> True"
    show "store_same contents w w' \<and> (case x of None \<Rightarrow> True | Some s \<Rightarrow> \<exists>requested.
       parseNodeContentRange header (int (length content)) = Inr requested
       \<and> concat (ns_body s) = (case requested of None \<Rightarrow> content | Some (off, len) \<Rightarrow> take (nat len) (drop (nat off) content)))"
    proof (cases x)
      case (Some s)
      obtain requested where asked: "parseNodeContentRange header (ns_contentSize s) = Inr requested"
        "ns_range s = map_option (\<lambda>(off, len). (off, off + len - 1)) requested"
        using outcome Some by (auto simp: answers_header_def)
      have "serves (node_bytes ct hs content) s" using outcome Some row(3) by (auto simp: read_result_def)
      then obtain hs' content' where s: "node_shape (int (length content')) (ns_contentType s) hs'"
        "node_bytes ct hs content = node_bytes (ns_contentType s) hs' content'" "ns_contentSize s = int (length content')"
        and slice: "case ns_range s of None \<Rightarrow> concat (ns_body s) = content'
         | Some (a, b) \<Rightarrow> 0 \<le> a \<and> a \<le> b \<and> b < int (length content')
             \<and> concat (ns_body s) = take (nat (b - a + 1)) (drop (nat a) content')"
        unfolding serves_def by blast
      have same: "content' = content" using node_of_bytes [OF row(4)] node_of_bytes [OF s(1)] s(2) by simp
      have "concat (ns_body s) = (case requested of None \<Rightarrow> content | Some (off, len) \<Rightarrow> take (nat len) (drop (nat off) content))"
        using slice unfolding asked(2) same by (cases requested) auto
      then show ?thesis using outcome Some asked(1) s(3) same by auto
    qed (use outcome in simp)
  next
    fix e w'
    assume "(store_same contents w w' \<and> True) \<and> failing e"
    then show "store_same contents w w' \<and> failing e" by blast
  qed
qed

end

section \<open>Responses\<close>

text \<open>What a response that is accepted says, for each of the three operations.\<close>

definition metadata_answer :: "cas_node \<Rightarrow> do_response \<Rightarrow> bool" where
  "metadata_answer n response \<longleftrightarrow> (response_ok response \<longrightarrow> (\<exists>v. hs_body response = Json v \<and> (\<forall>m. metadata_of v = Some m \<longrightarrow>
     cm_contentType m = fst n \<and> cm_refs m = fst (snd n) \<and> cm_size m = int (length (snd (snd n))))))"

definition content_answer :: "bytes \<Rightarrow> do_response \<Rightarrow> bool" where
  "content_answer bs response \<longleftrightarrow> (response_ok response \<longrightarrow> (\<exists>chunks. hs_body response = Body_stream chunks \<and> concat chunks = bs))"

definition lease_answer :: "bool \<Rightarrow> do_response \<Rightarrow> bool" where
  "lease_answer there response \<longleftrightarrow> (response_ok response \<longrightarrow> (\<exists>v. hs_body response = Json v
     \<and> (\<forall>r. lease_result_of v = Some r \<longrightarrow> lease_is_ready r \<longrightarrow> there)))"

lemma space_error_body: "\<exists>code message. hs_body (space_error e) = Json (Obj [(''error'', Str code), (''message'', Str message)])"
  by (cases e) (simp_all add: space_error_def errorResponse_def)

lemma error_answers: "metadata_answer n (space_error e)" "lease_answer there (space_error e)"
proof -
  obtain code message where "hs_body (space_error e) = Json (Obj [(''error'', Str code), (''message'', Str message)])"
    using space_error_body by blast
  then show "metadata_answer n (space_error e)" "lease_answer there (space_error e)"
    by (simp_all add: metadata_answer_def lease_answer_def metadata_of_def lease_result_of_def js_get_def js_string_def)
qed

lemma lease_answer_ready: "lease_answer True (jsonResponse v)"
  by (simp add: lease_answer_def jsonResponse_def)

lemma lease_answer_waiting:
  assumes "js_get v ''state'' \<noteq> Str ''ready''"
  shows "lease_answer there (jsonResponse v)"
proof -
  have "\<not> lease_is_ready r" if "lease_result_of v = Some r" for r
    using that assms by (auto simp: lease_result_of_def Let_def lease_is_ready_def split: option.splits if_splits)
  then show ?thesis by (simp add: lease_answer_def jsonResponse_def)
qed

lemma missing_answers: "metadata_answer n (errorResponse 404 c m)" "content_answer bs (errorResponse 404 c m)"
  by (simp_all add: metadata_answer_def content_answer_def response_ok_def errorResponse_def)

lemma all_some_map: "all_some (map (js_string \<circ> Str) xs) = Some xs"
  by (induction xs) (simp_all add: js_string_def)

lemma metadata_json_answer:
  "metadata_answer (nm_contentType m, nm_refs m, content) (jsonResponse (metadata_json m))" if "nm_size m = int (length content)"
  using that by (simp add: metadata_answer_def jsonResponse_def metadata_of_def metadata_json_def js_get_def js_string_def js_integer_def
      js_strings_def js_int_def all_some_map)

context space_store
begin

lemma handleMetadata_ok:
  assumes ok: "world_ok sha256 contents w" "collision_free_at sha256 h" "space_node contents scope w h = Some n"
    and header: "requireHeader request ''X-CAS-Hash'' = Inr h"
  shows "wp (handleMetadata bucket scope request) (\<lambda>response w'. store_same contents w w' \<and> metadata_answer n response)
    (\<lambda>_ w'. store_same contents w w') w"
proof -
  obtain ct refs content where n: "n = (ct, refs, content)" by (cases n)
  show ?thesis
    unfolding handleMetadata_def header wp_bindM wp_liftM sum.case wp_returnM_cont
    by (rule wp_mono [OF metadata_read [OF ok [unfolded n]]]) (auto simp: n intro: metadata_json_answer)
qed

text \<open>The part of a node a header asks for.\<close>

definition asked :: "string option \<Rightarrow> bytes \<Rightarrow> bytes \<Rightarrow> bool" where
  "asked header content bs \<longleftrightarrow> (\<forall>requested. parseNodeContentRange header (int (length content)) = Inr requested \<longrightarrow>
     bs = (case requested of None \<Rightarrow> content | Some (off, len) \<Rightarrow> take (nat len) (drop (nat off) content)))"

lemma handleRead_ok:
  assumes ok: "world_ok sha256 contents w" "collision_free_at sha256 h" "space_node contents scope w h = Some (ct, refs, content)" "content \<noteq> []"
    and header: "requireHeader request ''X-CAS-Hash'' = Inr h" and bs: "asked (hq_header request ''Range'') content bs"
  shows "wp (handleRead bucket scope request) (\<lambda>response w'. store_same contents w w' \<and> content_answer bs response)
    (\<lambda>e w'. store_same contents w w' \<and> failing e) w"
  unfolding handleRead_def header wp_bindM wp_liftM sum.case
proof (rule wp_mono [OF content_read [OF ok]])
  fix x :: "nodeContentStream option" and w'
  assume a: "store_same contents w w' \<and> (case x of None \<Rightarrow> True | Some s \<Rightarrow> \<exists>requested.
       parseNodeContentRange (hq_header request ''Range'') (int (length content)) = Inr requested
       \<and> concat (ns_body s) = (case requested of None \<Rightarrow> content | Some (off, len) \<Rightarrow> take (nat len) (drop (nat off) content)))"
  show "wp (case x of None \<Rightarrow> returnM (errorResponse 404 NOT_FOUND (''Node '' @ h @ '' not found or not ready''))
     | Some c \<Rightarrow>
         bindM (liftM (formatCasNodeRefsHeader (ns_refs c))) (\<lambda>refs.
         returnM \<lparr>hs_status = (if ns_range c = None then 200 else 206), hs_headers = content_headers c refs,
                  hs_body = Body_stream (ns_body c)\<rparr>))
    (\<lambda>response w'. store_same contents w w' \<and> content_answer bs response) (\<lambda>e w'. store_same contents w w' \<and> failing e) w'"
  proof (cases x)
    case (Some c)
    then have "concat (ns_body c) = bs" using a bs by (auto simp: asked_def)
    then show ?thesis
      using a by (auto simp: Some wp_simps formatCasNodeRefsHeader_def content_answer_def failing_def)
  qed (use a in \<open>simp add: wp_simps missing_answers\<close>)
next
  fix e w'
  assume "store_same contents w w' \<and> failing e"
  then show "store_same contents w w' \<and> failing e" .
qed

lemma handleLease_ok:
  assumes ok: "world_ok sha256 contents w" and header: "requireHeader request ''X-CAS-Hash'' = Inr h"
  shows "wp (handleLease rt env bucket sha256 scope request)
    (\<lambda>v w'. world_grows sha256 contents scope w w' \<and> lease_answer (space_node contents scope w' h \<noteq> None) (jsonResponse v))
    (\<lambda>_ w'. world_grows sha256 contents scope w w') w"
proof -
  have there: "space_node contents scope w' h \<noteq> None" if "space_lease scope w' h = Some l" "space_stored contents scope w' h" for w' l
    using that by (simp add: space_node_there space_lease_def space_stored_def) blast
  have tail: "wp (evaluateSpaceLease rt env bucket sha256 scope h dur secs now)
    (\<lambda>v w'. world_grows sha256 contents scope w w' \<and> lease_answer (space_node contents scope w' h \<noteq> None) (jsonResponse v))
    (\<lambda>_ w'. world_grows sha256 contents scope w w') w" for dur secs now
    unfolding evaluateSpaceLease_def wp_bindM Let_def
  proof (rule wp_mono [OF lease_upload_outcome [OF ok]], goal_cases)
    case (1 result w')
    then have grows: "world_grows sha256 contents scope w w'" by (simp add: world_grows_def lease_moves_def)
    show ?case
    proof (cases result)
      case (Ready x)
      then show ?thesis using 1 grows there [of w' "lr_lease x"] by (simp add: wp_simps lease_answer_ready)
    qed (auto simp: grows wp_simps js_get_def intro!: lease_answer_waiting split: sum.split)
  qed (simp add: world_grows_def lease_moves_def)
  show ?thesis
    unfolding handleLease_def header wp_bindM wp_liftM sum.case wp_date_now
    using tail world_grows_refl [OF ok] by (auto split: sum.split)
qed

end

section \<open>The service\<close>

text \<open>The fetcher of a client of this service.  What the worker throws reaches the client as a failed request.\<close>

definition service_fetch :: "'b service_state serviceContext \<Rightarrow> http_request \<Rightarrow> ('b service_state, client_exn, do_response) prog" where
  "service_fetch context request s =
     (case createUniCasService context request s of (r, s') \<Rightarrow> (map_sum (\<lambda>_. Transport_error ''request failed'') id r, s'))"

lemma auth_same_quiet: "auth_same s s' \<Longrightarrow> quiet contents (sv_world s) ((sv_world s')\<lparr>w_deliveries := ds\<rparr>)"
  "auth_same s s' \<Longrightarrow> quiet contents (sv_world s) (sv_world s')"
  by (auto simp: auth_same_def quiet_def)

context space_store
begin

definition grows :: "'b service_state \<Rightarrow> 'b service_state \<Rightarrow> bool" where
  "grows s s' \<longleftrightarrow> world_grows sha256 contents scope (sv_world s) (sv_world s')"

lemma grows_trans: "grows s s' \<Longrightarrow> grows s' s'' \<Longrightarrow> grows s s''"
  unfolding grows_def by (rule world_grows_trans)

text \<open>
  A request of the data plane, from what its handler does: every response is either an error or
  the handler's.
\<close>

lemma service_fetch_ok:
  assumes ok: "world_ok sha256 contents (sv_world s)"
    and match: "matchAppSpaceRoute (hr_method request) (hr_url request) = Some r"
    and scope: "scope = \<lparr>appId = route_appId r, spaceId = route_spaceId r\<rparr>"
    and handler: "\<And>internal call w. dispatchDataRequest request r (call_headers call) = Inr internal
      \<Longrightarrow> quiet contents (sv_world s) w \<Longrightarrow> world_ok sha256 contents w
      \<Longrightarrow> wp (route rt env bucket sha256 scope internal) (\<lambda>response w'. world_grows sha256 contents scope w w' \<and> good w' response)
            (\<lambda>e w'. world_grows sha256 contents scope w w' \<and> good w' (space_error e)) w"
    and bad: "\<And>w response. \<not> response_ok response \<Longrightarrow> good w response"
  shows "wp (service_fetch (worker_context rt env bucket sha256 jose admin) request)
    (\<lambda>response s'. grows s s' \<and> good (sv_world s') response) (\<lambda>e s'. grows s s' \<and> e \<noteq> Out_of_fuel) s"
proof -
  obtain outcome s' where run: "createUniCasService (worker_context rt env bucket sha256 jose admin) request s = (outcome, s')" by fastforce
  have "grows s s' \<and> (\<forall>response. outcome = Inr response \<longrightarrow> good (sv_world s') response)"
    using match run
  proof (cases rule: service_run)
    case (served s1 call internal)
    have inner: "physicalScope internal = Inr scope"
      using dispatched_scope [OF served(5)] matched_scope [OF match] served(3,4) scope by simp
    obtain w' where w': "stub_fetch (space_fetch rt env bucket sha256 internal) (sv_world s1) = (outcome, w')" "s' = s1\<lparr>sv_world := w'\<rparr>"
      using served(6) by (auto simp: in_world_def split: prod.splits)
    note still = quiet_grows [OF ok auth_same_quiet(1) [OF served(1)], where scope = scope]
    show ?thesis
      using w'(1)
    proof (rule stub_fetch_run)
      fix ds
      assume "w' = (sv_world s1)\<lparr>w_deliveries := ds\<rparr>" "\<not> (\<exists>response. outcome = Inr response)"
      then show ?thesis using still [of ds] by (simp add: grows_def w'(2))
    next
      fix ds result
      assume call: "space_fetch rt env bucket sha256 internal ((sv_world s1)\<lparr>w_deliveries := ds\<rparr>) = (result, w')" "outcome = result \<or> isl outcome"
      have ok1: "world_ok sha256 contents ((sv_world s1)\<lparr>w_deliveries := ds\<rparr>)" using still [of ds] by (simp add: world_grows_def)
      have "wp (space_fetch rt env bucket sha256 internal)
          (\<lambda>response w'. world_grows sha256 contents scope ((sv_world s1)\<lparr>w_deliveries := ds\<rparr>) w' \<and> good w' response) (\<lambda>_ _. False)
          ((sv_world s1)\<lparr>w_deliveries := ds\<rparr>)"
        unfolding space_fetch_def inner sum.case wp_catchM wp_returnM
        by (rule handler [OF served(5) auth_same_quiet(1) [OF served(1)] ok1])
      from wp_run [OF this call(1)] show ?thesis
        using world_grows_trans [OF still [of ds]] call(2) by (auto simp: grows_def w'(2) split: sum.splits)
    qed
  qed (use quiet_grows [OF ok auth_same_quiet(2)] bad in \<open>auto simp: grows_def response_ok_def\<close>)
  then show ?thesis by (cases outcome) (auto simp: wp_def service_fetch_def run)
qed

end

section \<open>The client\<close>

lemma wp_outer [wp_simps]:
  "wp (outer m) Q E c = wp m (\<lambda>x s. Q x (c\<lparr>cl_outer := s\<rparr>)) (\<lambda>e s. E e (c\<lparr>cl_outer := s\<rparr>)) (cl_outer c)"
  by (simp add: wp_def outer_def split: prod.splits sum.splits)

lemma wp_manager [wp_simps]:
  "wp get_manager Q E c = Q (cl_manager c) c" "wp (manager_now ports) Q1 E c = Q1 (pt_now ports (cl_outer c)) c"
  "wp (on_manager f) Q2 E c = Q2 () (c\<lparr>cl_manager := f (cl_manager c)\<rparr>)"
  by (simp_all add: wp_def get_manager_def manager_now_def on_manager_def)

text \<open>The errors of the manager are capability errors.\<close>

lemma normalize_grant_error: "normalize_grant v = Inl e \<Longrightarrow> is_capability_error e"
  unfolding normalize_grant_def invalidMetadata_def
  by (auto simp: is_capability_error_def split: if_splits jsval.split_asm option.split_asm)

lemma normalize_grants_error:
  assumes "normalize_grants v = Inl e"
  shows "is_capability_error e"
proof -
  have "mapE normalize_grant gs = Inl e \<Longrightarrow> is_capability_error e" for gs
    by (induction gs) (auto simp: bindE_eq_Inl normalize_grant_error)
  then show ?thesis using assms by (auto simp: normalize_grants_def invalidMetadata_def is_capability_error_def split: jsval.split_asm if_split_asm)
qed

lemma normalize_times_error: "normalize_times v now = Inl e \<Longrightarrow> is_capability_error e"
  unfolding normalize_times_def invalidMetadata_def Let_def
  by (auto simp: is_capability_error_def split: if_split_asm option.split_asm)

lemma normalize_metadata_error: "normalize_metadata v now = Inl e \<Longrightarrow> is_capability_error e"
  unfolding normalize_metadata_def invalidMetadata_def
  by (auto simp: bindE_eq_Inl normalize_times_error normalize_grants_error is_capability_error_def [of "Cas_capability_error _ _"]
      split: if_split_asm)

lemma normalize_not_fuel: "normalizeCapability v q now = Inl e \<Longrightarrow> e \<noteq> Out_of_fuel"
proof -
  assume "normalizeCapability v q now = Inl e"
  then have "is_capability_error e"
    unfolding normalizeCapability_def
    by (auto simp: bindE_eq_Inl normalize_metadata_error is_capability_error_def [of "invalidMetadata _"]
        is_capability_error_def [of "Cas_capability_error _ _"] invalidMetadata_def simp del: bindE_eq_Inr split: if_split_asm option.split_asm)
  then show ?thesis by (auto simp: is_capability_error_def)
qed

text \<open>The upload of a presigned request, done by whatever sends HTTP requests for the client.\<close>

definition upload_port :: "(uploadInstructions \<Rightarrow> bytes \<Rightarrow> ('s, string, nat) prog) \<Rightarrow> 's client_state uploadFetcher" where
  "upload_port put u b = outer (\<lambda>s. case put u b s of (r, s') \<Rightarrow> (map_sum Transport_error id r, s'))"

text \<open>
  A client of one Space.  Acquiring a capability and uploading to a presigned URL are done by others:
  they leave the tables and the canonical objects alone, and may take time.
\<close>

locale service_client = space_store bucket contents sha256 scope
  for bucket :: "'b r2_bucket" and contents :: "'b \<Rightarrow> string \<Rightarrow> bytes option" and sha256 :: "bytes \<Rightarrow> bytes" and scope :: appSpaceScope +
  fixes rt :: "'b runtime" and env :: spaceCasDoEnv and jose :: "'b service_state jose"
    and admin :: "(http_request \<Rightarrow> appAdminRoute \<Rightarrow> ('b service_state, exn, do_response) prog) option"
    and config :: "'b service_state appCasClientConfig"
    and put :: "uploadInstructions \<Rightarrow> bytes \<Rightarrow> ('b service_state, string, nat) prog"
  assumes fetch_is: "cc_fetch config = service_fetch (worker_context rt env bucket sha256 jose admin)"
    and app_is: "cc_appId config = appId scope"
    and acquire_quiet: "quiet contents (sv_world s) (sv_world (snd (pt_acquire (cc_ports config) q reason s)))"
    and put_quiet: "quiet contents (sv_world s) (sv_world (snd (put u b s)))"
begin

definition client_inv :: "'b service_state client_state \<Rightarrow> bool" where
  "client_inv c \<longleftrightarrow> world_ok sha256 contents (sv_world (cl_outer c))"

definition client_node :: "'b service_state client_state \<Rightarrow> string \<Rightarrow> cas_node option" where
  "client_node c = space_node contents scope (sv_world (cl_outer c))"

definition client_grows :: "'b service_state client_state \<Rightarrow> 'b service_state client_state \<Rightarrow> bool" where
  "client_grows c c' \<longleftrightarrow> grows (cl_outer c) (cl_outer c')"

lemma client_grows_refl: "client_inv c \<Longrightarrow> client_grows c c"
  by (simp add: client_grows_def grows_def client_inv_def world_grows_refl)

lemma client_grows_trans: "client_grows c c' \<Longrightarrow> client_grows c' c'' \<Longrightarrow> client_grows c c''"
  unfolding client_grows_def by (rule grows_trans)

lemma client_grows_ok: "client_grows c c' \<Longrightarrow> client_inv c' \<and> node_ext client_node c c'"
proof -
  assume "client_grows c c'"
  then have g: "world_grows sha256 contents scope (sv_world (cl_outer c)) (sv_world (cl_outer c'))" by (simp add: client_grows_def grows_def)
  then have "client_inv c'" by (simp add: client_inv_def world_grows_def)
  then show ?thesis using world_grows_node [OF g] by (simp add: node_ext_def client_node_def)
qed

lemma client_grows_simps [simp]:
  "client_grows c (c'\<lparr>cl_manager := m\<rparr>) = client_grows c c'" "client_grows c (c'\<lparr>cl_outer := s\<rparr>) = grows (cl_outer c) s"
  by (simp_all add: client_grows_def)

definition tame :: "'b service_state client_state \<Rightarrow> ('b service_state client_state, client_exn, 'a) prog
    \<Rightarrow> ('a \<Rightarrow> 'b service_state client_state \<Rightarrow> bool) \<Rightarrow> bool" where
  "tame c m Q \<longleftrightarrow> wp m (\<lambda>x c'. client_grows c c' \<and> Q x c') (\<lambda>e c'. client_grows c c' \<and> e \<noteq> Out_of_fuel) c"

lemma tame_bind:
  assumes "tame c m P" and "\<And>x c'. client_inv c' \<Longrightarrow> client_grows c c' \<Longrightarrow> P x c' \<Longrightarrow> tame c' (f x) Q"
  shows "tame c (bindM m f) Q"
  unfolding tame_def wp_bindM
proof (rule wp_mono [OF assms(1) [unfolded tame_def]])
  fix x c'
  assume a: "client_grows c c' \<and> P x c'"
  then have "tame c' (f x) Q" using assms(2) client_grows_ok by blast
  then show "wp (f x) (\<lambda>x c'. client_grows c c' \<and> Q x c') (\<lambda>e c'. client_grows c c' \<and> e \<noteq> Out_of_fuel) c'"
    unfolding tame_def by (rule wp_mono) (use a client_grows_trans in blast)+
qed

lemma tame_return: "client_inv c \<Longrightarrow> Q x c \<Longrightarrow> tame c (returnM x) Q"
  by (simp add: tame_def wp_simps client_grows_refl)

lemma tame_throw: "client_inv c \<Longrightarrow> e \<noteq> Out_of_fuel \<Longrightarrow> tame c (throwM e) Q"
  by (simp add: tame_def wp_simps client_grows_refl)

lemma tame_lift: "client_inv c \<Longrightarrow> (\<And>e. r = Inl e \<Longrightarrow> e \<noteq> Out_of_fuel) \<Longrightarrow> (\<And>x. r = Inr x \<Longrightarrow> Q x c) \<Longrightarrow> tame c (liftM r) Q"
  by (cases r) (simp_all add: tame_def wp_simps client_grows_refl)

lemma tame_manager: "client_inv c \<Longrightarrow> tame c get_manager (\<lambda>_ _. True)" "client_inv c \<Longrightarrow> tame c (manager_now ports) (\<lambda>_ _. True)"
  "client_inv c \<Longrightarrow> tame c (on_manager f) (\<lambda>_ _. True)"
  by (simp_all add: tame_def wp_simps client_grows_refl)

lemma tame_mono: "tame c m P \<Longrightarrow> (\<And>x c'. client_inv c' \<Longrightarrow> client_grows c c' \<Longrightarrow> P x c' \<Longrightarrow> Q x c') \<Longrightarrow> tame c m Q"
  unfolding tame_def by (erule wp_mono) (use client_grows_ok in blast)+

lemma tame_if: "(b \<Longrightarrow> tame c m Q) \<Longrightarrow> (\<not> b \<Longrightarrow> tame c n Q) \<Longrightarrow> tame c (if b then m else n) Q"
  by simp

lemma acquire_tame: "client_inv c \<Longrightarrow> tame c (acquire (cc_ports config) q reason superseded) (\<lambda>_ _. True)"
proof -
  assume ok: "client_inv c"
  have "grows (cl_outer c) (snd (pt_acquire (cc_ports config) q reason (cl_outer c)))"
    unfolding grows_def using ok acquire_quiet by (intro quiet_grows) (simp_all add: client_inv_def)
  then have "tame c (catchM (outer (pt_acquire (cc_ports config) q reason)) (\<lambda>e. throwM (provider_failure e))) (\<lambda>_ _. True)"
    by (auto simp: tame_def wp_simps wp_def [of "pt_acquire _ _ _"] provider_failure_def is_capability_error_def
        split: prod.splits sum.splits client_exn.splits)
  then show ?thesis
    unfolding acquire_def install_def Let_def
    by (rule tame_bind) (intro tame_bind [OF tame_manager(1)] tame_bind [OF tame_manager(2)] tame_bind [OF tame_manager(3)]
        tame_bind [OF tame_lift [where Q = "\<lambda>_ _. True"]] tame_return; (simp add: normalize_not_fuel)?)
qed

lemma resolve_tame: "client_inv c \<Longrightarrow> tame c (resolve (cc_ports config) q forced) (\<lambda>_ _. True)"
  unfolding resolve_def Let_def
  by (intro tame_bind [OF tame_manager(1)] tame_bind [OF tame_manager(2)]; assumption?)
    (auto intro!: acquire_tame tame_return tame_bind [OF tame_manager(3)] split: option.splits)

lemma refresh_tame: "client_inv c \<Longrightarrow> tame c (refreshAfterRejection (cc_ports config) q r) (\<lambda>_ _. True)"
  unfolding refreshAfterRejection_def by (rule tame_bind [OF tame_manager(3)]) (simp_all add: resolve_tame)

text \<open>What every response to a request satisfies, the answer of the transport satisfies.\<close>

lemma request_tame:
  assumes ok: "client_inv c"
    and fetch: "\<And>r c'. client_inv c' \<Longrightarrow> client_grows c c' \<Longrightarrow>
      wp (cc_fetch config (fetch_request config r target init)) (\<lambda>response s'. grows (cl_outer c') s' \<and> good (sv_world s') response)
        (\<lambda>e s'. grows (cl_outer c') s' \<and> e \<noteq> Out_of_fuel) (cl_outer c')"
  shows "tame c (transport_request config q target init operation retry)
    (\<lambda>response c'. response_ok response \<and> good (sv_world (cl_outer c')) response)"
proof -
  let ?Q = "\<lambda>response c'. response_ok response \<and> good (sv_world (cl_outer c')) response"
  have sent: "tame c' (fetchWith config r target init) (\<lambda>response c''. good (sv_world (cl_outer c'')) response)"
    if "client_inv c'" "client_grows c c'" for c' r
    using fetch [OF that] by (simp add: tame_def fetchWith_def wp_outer)
  have dropped: "tame c' (reject_request r e) Q" if "client_inv c'" "e \<noteq> Out_of_fuel" for c' r e Q
    unfolding reject_request_def by (rule tame_bind [OF tame_manager(3) [OF that(1)]]) (simp add: tame_throw that(2))
  have again: "tame c' (retry_request config q target init operation r) ?Q" if c': "client_inv c'" "client_grows c c'" for c' r
    unfolding retry_request_def
    by (rule tame_bind [OF refresh_tame [OF c'(1)]], rule tame_bind [OF sent])
      (use c'(2) client_grows_trans in \<open>auto simp: client_error_def intro: tame_return tame_throw\<close>)
  show ?thesis
    unfolding transport_request_def Let_def
    by (rule tame_bind [OF resolve_tame [OF ok]], rule tame_bind [OF sent], assumption, assumption, intro tame_if)
      (use client_grows_trans in \<open>auto simp: client_error_def intro: tame_return tame_throw again dropped\<close>)
qed

lemma call_tame:
  assumes ok: "client_inv c"
    and fetch: "\<And>r' c' target. appSpaceRoutes r additional = Inr target \<Longrightarrow> client_inv c' \<Longrightarrow> client_grows c c' \<Longrightarrow>
      wp (cc_fetch config (fetch_request config r' target init)) (\<lambda>response s'. grows (cl_outer c') s' \<and> good (sv_world s') response)
        (\<lambda>e s'. grows (cl_outer c') s' \<and> e \<noteq> Out_of_fuel) (cl_outer c')"
  shows "tame c (call_route config r additional init operation retry)
    (\<lambda>response c'. response_ok response \<and> good (sv_world (cl_outer c')) response)"
  unfolding call_route_def
proof (rule tame_bind)
  show "tame c (liftM (requireSpaceId (route_spaceId r))) (\<lambda>_ _. True)"
    using ok by (rule tame_lift) (auto simp: requireSpaceId_def split: option.splits)
  fix c'
  assume c': "client_inv c'" "client_grows c c'"
  show "tame c' (bindM (liftM (type_error (appSpaceRoutes r additional))) (\<lambda>target.
      transport_request config \<lparr>rq_appId = cc_appId config, rq_spaceId = route_spaceId r, rq_permission = SpaceOperationPolicies r\<rparr>
        target init operation retry)) (\<lambda>response c'. response_ok response \<and> good (sv_world (cl_outer c')) response)"
  proof (rule tame_bind [where P = "\<lambda>target _. appSpaceRoutes r additional = Inr target"])
    show "tame c' (liftM (type_error (appSpaceRoutes r additional))) (\<lambda>target _. appSpaceRoutes r additional = Inr target)"
      using c'(1) by (rule tame_lift) (cases "appSpaceRoutes r additional"; auto simp: type_error_def split: exn.splits)+
    fix target c2
    assume c2: "client_inv c2" "client_grows c' c2" "appSpaceRoutes r additional = Inr target"
    show "tame c2 (transport_request config \<lparr>rq_appId = cc_appId config, rq_spaceId = route_spaceId r, rq_permission = SpaceOperationPolicies r\<rparr>
        target init operation retry) (\<lambda>response c'. response_ok response \<and> good (sv_world (cl_outer c')) response)"
      by (rule request_tame [OF c2(1)], rule fetch [OF c2(3)])
        (use client_grows_trans [OF client_grows_trans [OF c'(2) c2(2)]] in blast)+
  qed
qed

text \<open>A call of an operation with a hash, from what its handler does.\<close>

lemma hash_call_tame:
  assumes ok: "client_inv c" and r: "route_appId r = appId scope" "route_spaceId r = spaceId scope" "route_hash r \<noteq> Some []"
    and verb: "ri_method init = route_method r"
    and handler: "\<And>r' target internal call w. dispatchDataRequest (fetch_request config r' target init) r (call_headers call) = Inr internal
      \<Longrightarrow> world_grows sha256 contents scope (sv_world (cl_outer c)) w
      \<Longrightarrow> wp (route rt env bucket sha256 scope internal) (\<lambda>response w'. world_grows sha256 contents scope w w' \<and> good w' response)
            (\<lambda>e w'. world_grows sha256 contents scope w w' \<and> good w' (space_error e)) w"
    and bad: "\<And>w response. \<not> response_ok response \<Longrightarrow> good w response"
  shows "tame c (call_route config r [] init operation retry)
    (\<lambda>response c'. response_ok response \<and> good (sv_world (cl_outer c')) response)"
proof (rule call_tame [OF ok])
  fix r' c' target
  assume a: "appSpaceRoutes r [] = Inr target" "client_inv c'" "client_grows c c'"
  have match: "matchAppSpaceRoute (hr_method (fetch_request config r' target init)) (hr_url (fetch_request config r' target init)) = Some r"
    using matched_route [of r "[]" "fst target" "snd target"] a(1) r(3) by (simp add: fetch_request_def verb)
  have scope: "scope = \<lparr>appId = route_appId r, spaceId = route_spaceId r\<rparr>" using r(1,2) by simp
  show "wp (cc_fetch config (fetch_request config r' target init)) (\<lambda>response s'. grows (cl_outer c') s' \<and> good (sv_world s') response)
        (\<lambda>e s'. grows (cl_outer c') s' \<and> e \<noteq> Out_of_fuel) (cl_outer c')"
    unfolding fetch_is
  proof (rule service_fetch_ok [OF a(2) [unfolded client_inv_def] match scope _ bad], goal_cases)
    case (1 internal call w)
    then show ?case
      using handler [OF 1(1)] world_grows_trans quiet_grows [OF a(2) [unfolded client_inv_def] 1(2)] a(3)
      unfolding client_grows_def grows_def by blast
  qed
qed

lemma read_headers:
  "dispatchDataRequest request (Read_content app space h) headers = Inr internal \<Longrightarrow> h \<noteq> [] \<Longrightarrow> headers ''Range'' = None \<Longrightarrow>
    requireHeader internal ''X-CAS-Hash'' = Inr h \<and> hq_header internal ''Range'' = present (get_header request ''Range'')
    \<and> hq_pathname internal = ''/read'' \<and> hq_method internal = ''GET''"
  by (auto simp: dispatchDataRequest_def space_request_def requireHeader_def present_def split: option.splits if_splits)

lemma metadata_headers:
  "dispatchDataRequest request (Read_metadata app space h) headers = Inr internal \<Longrightarrow> h \<noteq> [] \<Longrightarrow>
    requireHeader internal ''X-CAS-Hash'' = Inr h \<and> hq_pathname internal = ''/metadata'' \<and> hq_method internal = ''GET''"
  by (auto simp: dispatchDataRequest_def space_request_def requireHeader_def present_def)

lemma metadata_tame:
  assumes ok: "client_inv c" and node: "client_node c h = Some n" and free: "collision_free_at sha256 h" and h: "h \<noteq> []"
  shows "tame c (client_readMetadata config (spaceId scope) h)
    (\<lambda>m _. cm_contentType m = fst n \<and> cm_refs m = fst (snd n) \<and> cm_size m = int (length (snd (snd n))))"
  unfolding client_readMetadata_def
proof (rule tame_bind [OF hash_call_tame [where good = "\<lambda>_. metadata_answer n"]])
  fix r' target internal call w
  assume d: "dispatchDataRequest (fetch_request config r' target plain_get) (Read_metadata (cc_appId config) (spaceId scope) h) (call_headers call)
      = Inr internal" and w: "world_grows sha256 contents scope (sv_world (cl_outer c)) w"
  then have there: "world_ok sha256 contents w" "space_node contents scope w h = Some n"
    using node world_grows_node [OF w] by (simp_all add: world_grows_def client_node_def)
  have i: "requireHeader internal ''X-CAS-Hash'' = Inr h" "route rt env bucket sha256 scope internal = handleMetadata bucket scope internal"
    using metadata_headers [OF d h] by (simp_all add: route_def)
  show "wp (route rt env bucket sha256 scope internal) (\<lambda>response w'. world_grows sha256 contents scope w w' \<and> metadata_answer n response)
      (\<lambda>e w'. world_grows sha256 contents scope w w' \<and> metadata_answer n (space_error e)) w"
    unfolding i(2)
    by (rule wp_mono [OF handleMetadata_ok [OF there(1) free there(2) i(1)]])
      (auto intro: quiet_grows [OF there(1)] quiet_simps error_answers)
next
  fix response c'
  assume "client_inv c'" "response_ok response \<and> metadata_answer n response"
  then show "tame c' (json_result config metadata_of response)
      (\<lambda>m _. cm_contentType m = fst n \<and> cm_refs m = fst (snd n) \<and> cm_size m = int (length (snd (snd n))))"
    by (auto simp: json_result_def response_json_def metadata_answer_def intro!: tame_return tame_throw split: option.split)
qed (use ok h in \<open>auto simp: app_is plain_get_def metadata_answer_def\<close>)

lemma sent_range: "present (get_header (fetch_request config r target (plain_get\<lparr>ri_headers := range_headers rng\<rparr>)) ''Range'')
    = map_of (range_headers rng) ''range''"
proof -
  have key: "map lower_char ''Range'' = ''range''" by code_simp
  show ?thesis
    unfolding get_header_def key by (auto simp: fetch_request_def range_headers_def present_def split: option.splits)
qed

lemma content_tame:
  assumes ok: "client_inv c" and node: "client_node c h = Some (ct, refs, content)" and free: "collision_free_at sha256 h" and h: "h \<noteq> []"
    and some: "content \<noteq> []" and rng: "case rng of Some (_, Some n) \<Rightarrow> n \<noteq> 0 | _ \<Rightarrow> True"
    and bs: "asked (map_of (range_headers rng) ''range'') content bs"
  shows "tame c (client_readContent config (spaceId scope) h rng) (\<lambda>chunks _. concat chunks = bs)"
proof -
  let ?init = "plain_get\<lparr>ri_headers := range_headers rng\<rparr>" and ?r = "Read_content (cc_appId config) (spaceId scope) h"
  have call: "tame c' (bindM (call_route config ?r [] ?init ''read'' True) (\<lambda>response. returnM (response_body config response)))
      (\<lambda>chunks _. concat chunks = bs)" if c': "client_inv c'" "client_grows c c'" for c'
  proof (rule tame_bind [OF hash_call_tame [where good = "\<lambda>_. content_answer bs"]])
    fix r' target internal call w
    assume d: "dispatchDataRequest (fetch_request config r' target ?init) ?r (call_headers call) = Inr internal"
      and w: "world_grows sha256 contents scope (sv_world (cl_outer c')) w"
    have there: "world_ok sha256 contents w" "space_node contents scope w h = Some (ct, refs, content)"
      using node world_grows_node [OF world_grows_trans [OF c'(2) [unfolded client_grows_def grows_def] w]] w
      by (simp_all add: world_grows_def client_node_def)
    have i: "requireHeader internal ''X-CAS-Hash'' = Inr h" "hq_header internal ''Range'' = map_of (range_headers rng) ''range''"
      "route rt env bucket sha256 scope internal = handleRead bucket scope internal"
      using read_headers [OF d h] by (simp_all add: call_headers_def sent_range route_def)
    show "wp (route rt env bucket sha256 scope internal) (\<lambda>response w'. world_grows sha256 contents scope w w' \<and> content_answer bs response)
        (\<lambda>e w'. world_grows sha256 contents scope w w' \<and> content_answer bs (space_error e)) w"
      unfolding i(3)
      by (rule wp_mono [OF handleRead_ok [OF there(1) free there(2) some i(1)]])
        (use bs in \<open>auto simp: i(2) content_answer_def failing_def intro: quiet_grows [OF there(1)] quiet_simps\<close>)
  next
    fix response c''
    assume "client_inv c''" "response_ok response \<and> content_answer bs response"
    then show "tame c'' (returnM (response_body config response)) (\<lambda>chunks _. concat chunks = bs)"
      by (auto simp: response_body_def content_answer_def intro!: tame_return)
  qed (use c' h in \<open>auto simp: app_is plain_get_def content_answer_def\<close>)
  have valid: "tame c (liftM (client_validateRange rng)) (\<lambda>_ _. True)"
    using ok by (rule tame_lift) (auto simp: client_validateRange_def split: option.splits if_splits)
  have named: "tame c' (liftM (requireSpaceId (spaceId scope))) (\<lambda>_ _. True)" if "client_inv c'" for c'
    using that by (rule tame_lift) (auto simp: requireSpaceId_def split: option.splits)
  have "\<not> (case rng of Some (_, Some n) \<Rightarrow> n = 0 | _ \<Rightarrow> False)" using rng by (auto split: option.splits)
  then show ?thesis
    unfolding client_readContent_def
    by (intro tame_bind [OF valid] tame_bind [OF named]; (simp only: if_False)?) (blast intro: call client_grows_trans)+
qed

lemma post_parts: "matchAppSpaceRoute ''POST'' u = Some r \<Longrightarrow> length (path_parts (url_pathname u)) \<in> {3, 5}"
  by (auto simp: matchAppSpaceRoute_def Let_def split: list.splits option.splits if_splits)

lemma empty_hash_unmatched:
  assumes "appSpaceRoutes (Lease_node app space []) [] = Inr target"
  shows "matchUniCasServiceRoute (fetch_request config r target (json_post body)) = None"
proof -
  have parts: "path_parts (fst target) = [''v1'', ''cas'', ''nodes'', ''lease'']"
  proof -
    have "fst target = ''/v1/cas/nodes//lease''" using assms by (auto simp: appSpaceRoutes_def encodeURIComponent_def)
    then show ?thesis by (simp add: path_parts_def)
  qed
  have "matchAppSpaceRoute ''POST'' u = None" if "url_pathname u = fst target" for u
    using post_parts [of u] that parts by (cases "matchAppSpaceRoute ''POST'' u") auto
  moreover have "matchAppAdminRoute verb path = None" if "part (path_parts path) 0 \<noteq> Some ''admin''" for verb path
    using that unfolding matchAppAdminRoute_def Let_def by simp
  moreover have "part (path_parts (fst target)) 0 \<noteq> Some ''admin''" by (simp add: parts Routes.part_def)
  ultimately show ?thesis by (simp add: matchUniCasServiceRoute_def fetch_request_def json_post_def)
qed

lemma lease_tame:
  assumes ok: "client_inv c"
  shows "tame c (client_leaseNode config (spaceId scope) h d) (\<lambda>r c'. lease_is_ready r \<longrightarrow> client_node c' h \<noteq> None)"
proof -
  let ?good = "\<lambda>w. lease_answer (space_node contents scope w h \<noteq> None)" and ?r = "Lease_node (cc_appId config) (spaceId scope) h"
  have call: "tame c (call_route config ?r [] (json_post body) ''lease'' False)
      (\<lambda>response c'. response_ok response \<and> ?good (sv_world (cl_outer c')) response)" for body
  proof (cases "h = []")
    case True
    show ?thesis
    proof (rule call_tame [OF ok])
      fix r' c' target
      assume a: "appSpaceRoutes ?r [] = Inr target" "client_inv c'"
      have "createUniCasService (worker_context rt env bucket sha256 jose admin) (fetch_request config r' target (json_post body)) (cl_outer c')
          = (Inr (error_json 404 ''Unknown UniCAS endpoint''), cl_outer c')"
        using empty_hash_unmatched a(1) True by (simp add: createUniCasService_def returnM_def)
      then show "wp (cc_fetch config (fetch_request config r' target (json_post body)))
          (\<lambda>response s'. grows (cl_outer c') s' \<and> ?good (sv_world s') response) (\<lambda>e s'. grows (cl_outer c') s' \<and> e \<noteq> Out_of_fuel) (cl_outer c')"
        using world_grows_refl a(2)
        by (simp add: fetch_is wp_def service_fetch_def grows_def client_inv_def lease_answer_def error_json_def response_ok_def)
    qed
  next
    case False
    show ?thesis
    proof (rule hash_call_tame [OF ok])
      fix r' target internal call w
      assume d: "dispatchDataRequest (fetch_request config r' target (json_post body)) ?r (call_headers call) = Inr internal"
        and w: "world_grows sha256 contents scope (sv_world (cl_outer c)) w"
      have i: "requireHeader internal ''X-CAS-Hash'' = Inr h"
        "route rt env bucket sha256 scope internal = map_response (handleLease rt env bucket sha256 scope internal) id"
        using d False by (auto simp: dispatchDataRequest_def space_request_def requireHeader_def present_def route_def split: if_splits)
      have "world_ok sha256 contents w" using w by (simp add: world_grows_def)
      from handleLease_ok [OF this i(1)]
      show "wp (route rt env bucket sha256 scope internal) (\<lambda>response w'. world_grows sha256 contents scope w w' \<and> ?good w' response)
          (\<lambda>e w'. world_grows sha256 contents scope w w' \<and> ?good w' (space_error e)) w"
        unfolding i(2) map_response_def wp_bindM wp_returnM_cont id_apply by (rule wp_mono) (simp_all add: error_answers)
    qed (use False in \<open>simp_all add: app_is json_post_def lease_answer_def\<close>)
  qed
  show ?thesis
    unfolding client_leaseNode_def
  proof (intro tame_if tame_throw ok tame_bind [OF call])
    fix response c'
    assume a: "client_inv c'" "response_ok response \<and> ?good (sv_world (cl_outer c')) response"
    then obtain v where v: "hs_body response = Json v" "\<And>r. lease_result_of v = Some r \<Longrightarrow> lease_is_ready r \<Longrightarrow> client_node c' h \<noteq> None"
      unfolding lease_answer_def client_node_def by blast
    show "tame c' (json_result config lease_result_of response) (\<lambda>r c'. lease_is_ready r \<longrightarrow> client_node c' h \<noteq> None)"
    proof (cases "lease_result_of v")
      case None
      then show ?thesis using a(1) v(1) by (simp add: json_result_def response_json_def tame_throw)
    next
      case (Some r)
      then show ?thesis using a(1) v(1) v(2) [OF Some] by (simp add: json_result_def response_json_def tame_return)
    qed
  qed simp
qed

lemma client_hash: "client_inv c \<Longrightarrow> client_node c h \<noteq> None \<Longrightarrow> validateHash h = Inr ()"
proof -
  assume ok: "client_inv c" and "client_node c h \<noteq> None"
  then obtain r where row: "map_of (cas_nodes (w_db (sv_world (cl_outer c)))) (scope, h) = Some r"
    by (auto simp: client_node_def space_node_def split: if_splits)
  have "graph_ok sha256 (w_db (sv_world (cl_outer c)))" using ok db_ok_parts(2) by (simp add: client_inv_def world_ok_def)
  then have "node_genuine sha256 (w_db (sv_world (cl_outer c))) (scope, h) r" using row by (auto simp: graph_ok_def nodes_genuine_def)
  then show ?thesis using genuine_hash_ok by (auto simp: node_genuine_def)
qed

lemma asked_range:
  assumes "0 \<le> off" and "0 < len" and "off + len \<le> int (length content)"
  shows "asked (map_of (range_headers (Some (off, Some len))) ''range'') content (take (nat len) (drop (nat off) content))"
proof -
  let ?a = "nat off" and ?b = "nat (off + len - 1)"
  have shown: "map_of (range_headers (Some (off, Some len))) ''range'' = Some (''bytes='' @ show_nat ?a @ ''-'' @ show_nat ?b)"
    using assms by (simp add: range_headers_def show_int_def)
  have m: "match_range (''bytes='' @ show_nat ?a @ ''-'' @ show_nat ?b) = Some (show_nat ?a, show_nat ?b)"
    using show_nat_digits by (intro match_range_of) simp_all
  have "requested = Some (off, len)"
    if "parseNodeContentRange (Some (''bytes='' @ show_nat ?a @ ''-'' @ show_nat ?b)) (int (length content)) = Inr requested" for requested
    using that assms unfolding parseNodeContentRange_def option.case m
    by (auto simp: number_of_show_nat Let_def min_def split: if_splits)
  then show ?thesis unfolding asked_def shown by auto
qed

lemma tame_kept: "tame c m Q \<Longrightarrow> wp m (\<lambda>x c'. client_inv c' \<and> node_ext client_node c c' \<and> Q x c')
    (\<lambda>e c'. client_inv c' \<and> node_ext client_node c c' \<and> e \<noteq> Out_of_fuel) c"
  unfolding tame_def by (erule wp_mono) (use client_grows_ok in blast)+

lemma upload_tame: "client_inv c \<Longrightarrow> tame c (upload_port put u b) (\<lambda>_ _. True)"
proof -
  assume "client_inv c"
  then have "grows (cl_outer c) (snd (put u b (cl_outer c)))"
    unfolding grows_def using put_quiet by (intro quiet_grows) (simp_all add: client_inv_def)
  then show ?thesis
    by (cases "put u b (cl_outer c)"; cases "fst (put u b (cl_outer c))") (auto simp: tame_def upload_port_def outer_def wp_def)
qed

lemma client_digest:
  assumes "client_inv c" and "client_node c h = Some (ct, refs, content)" and "collision_free_at sha256 h"
  shows "\<exists>hs. refs = hex_of_hashes hs \<and> node_shape (int (length content)) ct hs \<and> hashToHex (sha256 (node_bytes ct hs content)) = Inr h"
proof -
  let ?w = "sv_world (cl_outer c)"
  obtain hs where hs: "contents (w_bucket ?w) (node_object_key scope h) = Some (node_bytes ct hs content)" "refs = hex_of_hashes hs"
    "node_shape (int (length content)) ct hs"
    using node_facts [of ?w h ct refs content] assms by (metis client_inv_def client_node_def)
  have "validateHash h = Inr ()" using client_hash assms(1,2) by simp
  then have "hashToHex (sha256 (node_bytes ct hs content)) = Inr h"
    using assms(1) hs(1) scope_valid unfolding client_inv_def world_ok_def objects_ok_def by blast
  then show ?thesis using hs by blast
qed

end

text \<open>The client keeps every promise the blob layer relies on.\<close>

sublocale service_client \<subseteq> blobs: cas_client "createAppCasClient config" "upload_port put" sha256 "spaceId scope" client_inv client_node
proof (unfold_locales, goal_cases)
  case (1 s h d)
  then show ?case using tame_kept [OF lease_tame] by (simp add: createAppCasClient_def)
next
  case (2 s u b)
  then show ?case using tame_kept [OF upload_tame] by simp
next
  case (3 s h ct refs content)
  then have "h \<noteq> []" using client_hash [of s h] by (auto simp: validateHash_ok)
  then show ?case using tame_kept [OF metadata_tame [OF 3(1,2,3)]] by (simp add: createAppCasClient_def)
next
  case (4 s h ct refs content)
  then have "h \<noteq> []" using client_hash [of s h] by (auto simp: validateHash_ok)
  moreover have "asked (map_of (range_headers None) ''range'') content content"
    by (simp add: asked_def range_headers_def parseNodeContentRange_def)
  ultimately show ?case using tame_kept [OF content_tame [OF 4(1,2,3) _ 4(4), of None]] by (simp add: createAppCasClient_def)
next
  case (5 s h ct refs content off len)
  then have "h \<noteq> []" "content \<noteq> []" using client_hash [of s h] by (auto simp: validateHash_ok)
  then show ?case
    using tame_kept [OF content_tame [OF 5(1,2,3), of "Some (off, Some len)"]] asked_range [OF 5(4,5,6)] 5(5) by (simp add: createAppCasClient_def)
next
  case (6 s h ct refs content)
  then show ?case by (rule client_digest)
next
  case (7 s h)
  then show ?case by (rule client_hash)
qed

end
