(* ===== verification/Client_Properties.thy ===== *)
theory Client_Properties
  imports Client_Service "HOL-Library.Countable"
begin

text \<open>
  What the clients guarantee: the capability manager, the transport, and blobs stored and read
  through the service.
\<close>

section \<open>Capabilities\<close>

text \<open>A capability that may be used for a requirement now.\<close>

definition usable :: "'s capabilityPorts \<Rightarrow> capabilityRequirement \<Rightarrow> 's client_state \<Rightarrow> capabilityRecord \<Rightarrow> bool" where
  "usable ports q c r \<longleftrightarrow> capabilityMatches (cr_metadata r) q
     \<and> pt_now ports (cl_outer c) div 1000 + MaximumCapabilityClockSkewSeconds < sm_expiresAt (cr_metadata r)"

definition current_for :: "capabilityRequirement \<Rightarrow> 's client_state \<Rightarrow> capabilityRecord option" where
  "current_for q c = mg_current (cl_manager c) (credentialClassFor (rq_permission q))"

lemma usable_iff: "replacementReason r q (pt_now ports (cl_outer c)) = None \<longleftrightarrow> usable ports q c r"
  by (auto simp: replacementReason_def usable_def)

lemma normalized_usable:
  assumes "normalizeCapability v q now = Inr (token, metadata)"
  shows "capabilityMatches metadata q \<and> now div 1000 + MaximumCapabilityClockSkewSeconds < sm_expiresAt metadata"
proof -
  have "normalize_metadata (js_get v ''metadata'') (now div 1000) = Inr metadata" "capabilityMatches metadata q"
    using assms by (auto simp: normalizeCapability_def split: if_split_asm option.split_asm)
  moreover have "n + MaximumCapabilityClockSkewSeconds < e" if "normalize_times m n = Inr (st, e)" for m n st e
    using that by (auto simp: normalize_times_def Let_def split: if_split_asm option.split_asm)
  ultimately show ?thesis by (auto simp: normalize_metadata_def split: if_split_asm)
qed

lemma acquire_usable:
  "wp (acquire ports q reason superseded) (\<lambda>r c'. usable ports q c' r \<and> current_for q c' = Some r) (\<lambda>_ _. True) c"
proof -
  have "wp (install (credentialClassFor (rq_permission q)) superseded n) (\<lambda>r c'. usable ports q c' r \<and> current_for q c' = Some r) (\<lambda>_ _. True) c"
    if "normalizeCapability v q (pt_now ports (cl_outer c)) = Inr n" for v n c
    using normalized_usable [of v q _ "fst n" "snd n"] that
    by (simp add: install_def Let_def wp_simps usable_def current_for_def set_current_def)
  then show ?thesis
    unfolding acquire_def wp_bindM wp_catchM wp_outer wp_throwM
    by (auto simp: wp_simps wp_def [of "pt_acquire _ _ _"] split: prod.splits sum.splits)
qed

lemma candidate_usable:
  assumes "usable_candidate m q now = Some r"
  shows "replacementReason r q now = None"
  using assms by (auto simp: usable_candidate_def split: list.split_asm dest!: filter_eq_ConsD)

lemma resolve_usable:
  "wp (resolve ports q forced) (\<lambda>r c'. usable ports q c' r \<and> current_for q c' = Some r) (\<lambda>_ _. True) c"
proof -
  let ?Q = "\<lambda>r c'. usable ports q c' r \<and> current_for q c' = Some r"
  have "usable ports q (c\<lparr>cl_manager := m\<rparr>) r = usable ports q c r" for m r by (simp add: usable_def)
  then show ?thesis
    unfolding resolve_def Let_def
    using candidate_usable [of "cl_manager c" q "pt_now ports (cl_outer c)"] acquire_usable [of ports q]
    by (auto simp: wp_simps usable_iff current_for_def set_current_def split: option.split)
qed

text \<open>The identities of the records are given out in order.\<close>

definition manager_ok :: "capabilityManager \<Rightarrow> bool" where
  "manager_ok m \<longleftrightarrow> (\<forall>cls r. mg_current m cls = Some r \<longrightarrow> cr_id r < mg_next m)"

definition manager_after :: "nat \<Rightarrow> 's client_state \<Rightarrow> 's client_state \<Rightarrow> bool" where
  "manager_after i c c' \<longleftrightarrow> manager_ok (cl_manager c') \<and> mg_next (cl_manager c) \<le> mg_next (cl_manager c')
     \<and> (\<forall>cls r. mg_current (cl_manager c') cls = Some r \<longrightarrow> cr_id r \<noteq> i)"

lemma install_fresh:
  assumes "manager_ok (cl_manager c)" and "i < mg_next (cl_manager c)" and "\<forall>cls r. mg_current (cl_manager c) cls = Some r \<longrightarrow> cr_id r \<noteq> i"
  shows "wp (install cls superseded n) (\<lambda>r c'. cr_id r \<noteq> i \<and> manager_after i c c') (\<lambda>_ c'. manager_after i c c') c"
  using assms
  by (auto simp: install_def Let_def wp_simps manager_after_def manager_ok_def set_current_def invalidate_def less_Suc_eq
      split: option.splits if_splits)

lemma acquire_fresh:
  assumes "manager_ok (cl_manager c)" and "i < mg_next (cl_manager c)" and "\<forall>cls r. mg_current (cl_manager c) cls = Some r \<longrightarrow> cr_id r \<noteq> i"
  shows "wp (acquire ports q reason superseded) (\<lambda>r c'. cr_id r \<noteq> i \<and> manager_after i c c') (\<lambda>_ c'. manager_after i c c') c"
proof -
  have same: "manager_after i (c\<lparr>cl_outer := s\<rparr>) = manager_after i c" for s by (simp add: manager_after_def fun_eq_iff)
  have "manager_after i c (c\<lparr>cl_outer := s\<rparr>)" for s using assms by (simp add: manager_after_def)
  then show ?thesis
    unfolding acquire_def wp_bindM wp_catchM wp_outer wp_throwM
    using install_fresh [of "c\<lparr>cl_outer := s\<rparr>" i for s] assms
    by (auto simp: same wp_simps wp_def [of "pt_acquire _ _ _"] split: prod.splits sum.splits)
qed

lemma refresh_fresh:
  assumes "manager_ok (cl_manager c)" and "cr_id r < mg_next (cl_manager c)"
  shows "wp (refreshAfterRejection ports q r) (\<lambda>r' c'. cr_id r' \<noteq> cr_id r \<and> manager_after (cr_id r) c c') (\<lambda>_ c'. manager_after (cr_id r) c c') c"
proof -
  let ?c = "c\<lparr>cl_manager := invalidate r (cl_manager c)\<rparr>"
  have "manager_after (cr_id r) ?c = manager_after (cr_id r) c" by (simp add: manager_after_def invalidate_def fun_eq_iff)
  moreover have "manager_ok (cl_manager ?c)" "cr_id r < mg_next (cl_manager ?c)"
    "\<forall>cls x. mg_current (cl_manager ?c) cls = Some x \<longrightarrow> cr_id x \<noteq> cr_id r"
    using assms by (auto simp: manager_ok_def invalidate_def split: option.splits if_splits)
  ultimately show ?thesis
    using acquire_fresh [of ?c "cr_id r"] by (simp add: refreshAfterRejection_def resolve_def wp_simps)
qed

section \<open>Requests sent\<close>

text \<open>Running \<open>m\<close> adds at most \<open>n\<close> requests to the log of the world around the client.\<close>

definition sends :: "('s \<Rightarrow> http_request list) \<Rightarrow> nat \<Rightarrow> ('s client_state, client_exn, 'a) prog \<Rightarrow> bool" where
  "sends sent n m \<longleftrightarrow> (\<forall>c. \<exists>rs. sent (cl_outer (snd (m c))) = sent (cl_outer c) @ rs \<and> length rs \<le> n)"

definition logged :: "('s \<Rightarrow> http_request list) \<Rightarrow> 's appCasClientConfig \<Rightarrow> bool" where
  "logged sent config \<longleftrightarrow> (\<forall>q s. sent (snd (cc_fetch config q s)) = sent s @ [q])
     \<and> (\<forall>q reason s. sent (snd (pt_acquire (cc_ports config) q reason s)) = sent s)"

lemma sends_pure: "sends sent n (returnM x)" "sends sent n (throwM e)" "sends sent n (liftM r)" "sends sent n get_manager"
  "sends sent n (manager_now ports)" "sends sent n (on_manager f)"
  by (simp_all add: sends_def returnM_def throwM_def liftM_def get_manager_def manager_now_def on_manager_def)

lemma sends_bind:
  assumes "sends sent a m" and "\<And>x. sends sent b (f x)" and "a + b \<le> n"
  shows "sends sent n (bindM m f)"
  unfolding sends_def
proof
  fix c
  obtain r c1 where m: "m c = (r, c1)" by fastforce
  obtain rs where rs: "sent (cl_outer c1) = sent (cl_outer c) @ rs" "length rs \<le> a" using assms(1) m unfolding sends_def by (metis snd_conv)
  show "\<exists>rs. sent (cl_outer (snd (bindM m f c))) = sent (cl_outer c) @ rs \<and> length rs \<le> n"
  proof (cases r)
    case (Inl e)
    then show ?thesis using m rs assms(3) by (auto simp: bindM_def)
  next
    case (Inr x)
    obtain rs' where "sent (cl_outer (snd (f x c1))) = sent (cl_outer c1) @ rs'" "length rs' \<le> b" using assms(2) unfolding sends_def by blast
    then show ?thesis using m rs Inr assms(3) by (intro exI [of _ "rs @ rs'"]) (simp add: bindM_def)
  qed
qed

lemma sends_if: "sends sent n m \<Longrightarrow> sends sent n m' \<Longrightarrow> sends sent n (if b then m else m')"
  by simp

lemma sends_more: "sends sent a m \<Longrightarrow> a \<le> n \<Longrightarrow> sends sent n m"
  unfolding sends_def using le_trans by blast

lemma sends_acquire: "logged sent config \<Longrightarrow> sends sent 0 (acquire (cc_ports config) q reason superseded)"
proof -
  assume log: "logged sent config"
  have "sends sent 0 (catchM (outer (pt_acquire (cc_ports config) q reason)) (\<lambda>e. throwM (provider_failure e)))"
    unfolding sends_def
  proof
    fix c
    show "\<exists>rs. sent (cl_outer (snd (catchM (outer (pt_acquire (cc_ports config) q reason)) (\<lambda>e. throwM (provider_failure e)) c)))
        = sent (cl_outer c) @ rs \<and> length rs \<le> 0"
      using log [unfolded logged_def] by (cases "pt_acquire (cc_ports config) q reason (cl_outer c)"; cases "fst (pt_acquire (cc_ports config) q reason (cl_outer c))")
        (auto simp: catchM_def outer_def throwM_def dest!: conjunct2 spec [of _ q] spec [of _ reason] spec [of _ "cl_outer c"])
  qed
  then show ?thesis
    unfolding acquire_def install_def Let_def
    by (rule sends_bind) (rule sends_bind sends_pure le_refl | simp)+
qed

lemma sends_resolve: "logged sent config \<Longrightarrow> sends sent 0 (resolve (cc_ports config) q forced)"
  unfolding resolve_def Let_def
  by (intro sends_bind [OF sends_pure(4)] sends_bind [OF sends_pure(5)])
    (auto intro!: sends_acquire sends_pure sends_bind [OF sends_pure(6), where b = 0] split: option.split)

lemma sends_fetch: "logged sent config \<Longrightarrow> sends sent 1 (fetchWith config r target init)"
  unfolding sends_def fetchWith_def outer_def logged_def by (auto split: prod.split) (metis snd_conv length_Cons list.size(3) le_refl One_nat_def)

lemma sends_request: "logged sent config \<Longrightarrow> sends sent (if retry then 2 else 1) (transport_request config q target init operation retry)"
proof -
  assume log: "logged sent config"
  have reject: "sends sent n (reject_request r e)" for n r e
    unfolding reject_request_def by (rule sends_bind [OF sends_pure(6), where b = n and a = 0]) (simp_all add: sends_pure)
  have again: "sends sent 1 (retry_request config q target init operation r)" for r
    unfolding retry_request_def refreshAfterRejection_def
    by (rule sends_bind [where a = 0 and b = 1], rule sends_bind [OF sends_pure(6), where b = 0], rule sends_resolve [OF log], simp,
        rule sends_bind [OF sends_fetch [OF log], where b = 0]) (simp_all add: sends_pure sends_if)
  show ?thesis
    unfolding transport_request_def Let_def
    by (rule sends_bind [OF sends_resolve [OF log], where b = "if retry then 2 else 1"],
        rule sends_bind [OF sends_fetch [OF log], where b = "if retry then 1 else 0"])
      (auto intro!: sends_if sends_pure reject again [unfolded One_nat_def])
qed

lemma sends_call: "logged sent config \<Longrightarrow> sends sent (if retry then 2 else 1) (call_route config r additional init operation retry)"
  unfolding call_route_def
  by (rule sends_bind [OF sends_pure(3), where a = 0 and b = "if retry then 2 else 1"],
      rule sends_bind [OF sends_pure(3), where a = 0 and b = "if retry then 2 else 1"], rule sends_request) simp_all

lemma sends_json: "sends sent 0 (json_result config f response)"
  by (simp add: json_result_def sends_pure split: option.split)

lemma sends_operation:
  assumes "logged sent config" and "\<And>x. sends sent 0 (f x)"
  shows "sends sent 2 (bindM (call_route config r additional init operation True) f)"
    and "sends sent 1 (bindM (call_route config r additional init operation False) f)"
  using sends_bind [OF sends_call [OF assms(1), of True] assms(2)] sends_bind [OF sends_call [OF assms(1), of False] assms(2)] by auto

section \<open>Reference headers\<close>

lemma split_comma_segment: "CHR '','' \<notin> set g \<Longrightarrow> split_comma (g @ CHR '','' # s) = g # split_comma s" "CHR '','' \<notin> set g \<Longrightarrow> split_comma g = [g]"
  by (induction g) auto

lemma split_join: "refs \<noteq> [] \<Longrightarrow> \<forall>ref \<in> set refs. CHR '','' \<notin> set ref \<Longrightarrow> split_comma (join '','' refs) = refs"
  by (induction "'',''" refs rule: join.induct) (simp_all add: split_comma_segment)

lemma join_split: "join '','' (split_comma s) = s"
proof (induction s)
  case (Cons c s)
  obtain seg segs where "split_comma s = seg # segs" by (cases "split_comma s") (auto elim: split_comma.elims split: if_splits list.splits)
  then show ?case using Cons by (cases segs) auto
qed simp

lemma comma_not_hex: "list_all is_lower_hex ref \<Longrightarrow> CHR '','' \<notin> set ref"
proof -
  have "\<not> is_lower_hex (CHR '','')" by code_simp
  then show "list_all is_lower_hex ref \<Longrightarrow> CHR '','' \<notin> set ref" by (auto simp: list_all_iff)
qed

section \<open>The example\<close>

text \<open>A client of the sample deployment, with a provider that always has a capability and an upload that stores nothing.\<close>

definition sample_capability :: jsval where
  "sample_capability = Obj [(''bearerToken'', Str ''t''), (''metadata'', Obj [(''version'', js_int 2), (''expiresAt'', js_int 60),
     (''grants'', Arr [Obj [(''selector'', Str ''/team/**''), (''permissions'', Arr [Str ''cas:nodes:lease'', Str ''cas:nodes:read''])]])])]"

definition sample_config :: "memory_bucket service_state appCasClientConfig" where
  "sample_config = \<lparr>cc_baseUrl = ''https://unicas/'', cc_appId = ''app'',
     cc_ports = \<lparr>pt_acquire = (\<lambda>_ _. returnM sample_capability), pt_now = (\<lambda>s. w_clock (sv_world s))\<rparr>,
     cc_fetch = service_fetch (worker_context lease_runtime bare_env (mem_bucket sample_sha256) sample_sha256 sample_jose None),
     cc_stringify = (\<lambda>_. []), cc_parse = (\<lambda>_. None), cc_number = (\<lambda>_. Undefined)\<rparr>"

definition sample_put :: "uploadInstructions \<Rightarrow> bytes \<Rightarrow> ('s, string, nat) prog" where
  "sample_put u b = returnM 200"

definition sample_client :: "memory_bucket service_state client_state" where
  "sample_client = \<lparr>cl_outer = sample_service, cl_manager = \<lparr>mg_current = Map.empty, mg_next = 0\<rparr>\<rparr>"

lemma sample_node_text: "encodeCanonicalNode sample_sha256 [0x68, 0x69] ''text/plain'' [] = Inr (sample_hash, sample_node)"
  by code_simp

lemma sample_resolve: "\<exists>r m. resolve (cc_ports sample_config) \<lparr>rq_appId = ''app'', rq_spaceId = ''/team/a'', rq_permission = ''cas:nodes:lease''\<rparr> None sample_client
    = (Inr r, sample_client\<lparr>cl_manager := m\<rparr>) \<and> cr_bearerToken r = ''t''"
proof -
  let ?q = "\<lparr>rq_appId = ''app'', rq_spaceId = ''/team/a'', rq_permission = ''cas:nodes:lease''\<rparr>"
  have "map_sum id fst (normalizeCapability sample_capability ?q 5) = Inr ''t''" by code_simp
  then obtain md where md: "normalizeCapability sample_capability ?q 5 = Inr (''t'', md)"
    by (cases "normalizeCapability sample_capability ?q 5") auto
  have now: "w_clock (sv_world (cl_outer sample_client)) = 5" by (simp add: sample_client_def sample_clock)
  have "usable_candidate (cl_manager sample_client) ?q t = None" "mg_current (cl_manager sample_client) c = None" for t c
    by (simp_all add: sample_client_def usable_candidate_def CredentialClasses_def List.map_filter_def)
  then show ?thesis
    by (simp add: resolve_def acquire_def install_def Let_def get_manager_def manager_now_def on_manager_def outer_def bindM_def catchM_def
        returnM_def liftM_def sample_config_def now md) (rule exI, rule refl)
qed

lemma sample_verified:
  "\<exists>call s. verifyToken sample_jose (Some ''Bearer t'') (Lease_node ''app'' ''/team/a'' sample_hash) sample_service = (Inr call, s)
     \<and> sv_world s = sample_world 5 \<and> vc_appId call = ''app'' \<and> vc_spaceId call = ''/team/a''"
proof -
  let ?run = "verifyToken sample_jose (Some ''Bearer t'') (Lease_node ''app'' ''/team/a'' sample_hash) sample_service"
  have "isl (fst ?run) = False" and none: "w_deliveries (sv_world (snd ?run)) = []" by code_simp+
  then obtain call where run: "?run = (Inr call, snd ?run)" by (cases ?run; cases "fst ?run") auto
  have "auth_same sample_service (snd ?run) \<and> vc_appId call = ''app'' \<and> vc_spaceId call = ''/team/a''"
    using wp_run [OF verifyToken_ok run] by auto
  moreover have "sv_world sample_service = sample_world 5" "w_deliveries (sample_world 5) = []"
    by (simp_all add: sample_service_def sample_world_def)
  ultimately show ?thesis using run none unfolding auth_same_def by (metis world.surjective world.update_convs(3) world.select_convs(3))
qed

lemma attempts_ready: "upload_attempts 3 cas fetcher space h n d (Lease_ready a b e) False c = (Inr (Lease_ready a b e), c)"
  by (simp add: numeral_3_eq_3 returnM_def)

definition sample_lease :: casLeaseResult where
  "sample_lease = \<lparr>lr_hash = sample_hash, lr_lease = \<lparr>leaseStartedAt = 0, leaseExpiresAt = 60005\<rparr>\<rparr>"

lemma sample_headers:
  assumes "cr_bearerToken r = ''t''"
  shows "get_header (fetch_request config r target (json_post body)) ''Authorization'' = Some ''Bearer t''"
    and "is_json_request (fetch_request config r target (json_post body))"
    and "list_ex (\<lambda>name. get_header (fetch_request config r target (json_post body)) name \<noteq> None) RETIRED_LEASE_HEADERS = False"
proof -
  have keys: "map lower_char ''Authorization'' = ''authorization''" "map lower_char ''Content-Type'' = ''content-type''"
    "map (map lower_char) RETIRED_LEASE_HEADERS = [''x-cas-lease-duration'', ''x-cas-upload-length'', ''x-cas-upload-id'']"
    by code_simp+
  have headers: "hr_headers (fetch_request config r target (json_post body))
      = [(''content-type'', ''application/json''), (''authorization'', ''Bearer t'')]"
    using assms by (simp add: fetch_request_def json_post_def)
  show "get_header (fetch_request config r target (json_post body)) ''Authorization'' = Some ''Bearer t''"
    unfolding get_header_def headers keys by simp
  have "get_header (fetch_request config r target (json_post body)) ''Content-Type'' = Some ''application/json''"
    unfolding get_header_def headers keys by simp
  moreover have "trim (takeWhile (\<lambda>c. c \<noteq> CHR '';'') ''application/json'') = ''application/json''" by code_simp
  ultimately show "is_json_request (fetch_request config r target (json_post body))" unfolding is_json_request_def by simp
  have "list_ex (\<lambda>name. map_of (hr_headers (fetch_request config r target (json_post body))) name \<noteq> None) (map (map lower_char) RETIRED_LEASE_HEADERS)
      = False" unfolding keys headers by simp
  then show "list_ex (\<lambda>name. get_header (fetch_request config r target (json_post body)) name \<noteq> None) RETIRED_LEASE_HEADERS = False"
    by (simp add: get_header_def list_ex_iff)
qed

lemma sample_served:
  assumes "cr_bearerToken r = ''t''" and "appSpaceRoutes (Lease_node ''app'' ''/team/a'' sample_hash) [] = Inr target"
  shows "\<exists>s. cc_fetch sample_config (fetch_request sample_config r target (json_post body)) sample_service = (Inr (jsonResponse (lease_json sample_lease)), s)
    \<and> sv_world s = snd (leaseDrivenNodeUpload sample_input (sample_world 5))"
proof -
  let ?request = "fetch_request sample_config r target (json_post body)" and ?r = "Lease_node ''app'' ''/team/a'' sample_hash"
  let ?ctx = "worker_context lease_runtime bare_env (mem_bucket sample_sha256) sample_sha256 sample_jose None"
  have match: "matchAppSpaceRoute (hr_method ?request) (hr_url ?request) = Some ?r"
    using matched_route [of ?r "[]" "fst target" "snd target"] assms(2) by (simp add: fetch_request_def json_post_def sample_hash_def)
  obtain call s where v: "verifyToken sample_jose (Some ''Bearer t'') ?r sample_service = (Inr call, s)" "sv_world s = sample_world 5"
    "vc_appId call = ''app''" "vc_spaceId call = ''/team/a''" using sample_verified by blast
  let ?internal = "space_request ''POST'' ''/lease'' ((call_headers call)(''X-CAS-Hash'' \<mapsto> sample_hash, ''Content-Type'' \<mapsto> ''application/json''))
    Map.empty (hr_text ?request)"
  have d: "dispatchDataRequest ?request ?r (call_headers call) = Inr ?internal"
    by (simp add: dispatchDataRequest_def sample_headers(2) [OF assms(1)] sample_headers(3) [OF assms(1), simplified])
  have "physicalScope ?internal = Inr sample_scope"
    using dispatched_scope [OF d] v(3,4) by (simp add: sample_scope_def)
  moreover have "requireHeader ?internal ''X-CAS-Hash'' = Inr sample_hash"
    by (simp add: space_request_def requireHeader_def present_def sample_hash_def)
  ultimately have "space_fetch lease_runtime bare_env (mem_bucket sample_sha256) sample_sha256 ?internal (sample_world 5)
      = (Inr (jsonResponse (lease_json sample_lease)), snd (leaseDrivenNodeUpload sample_input (sample_world 5)))"
    unfolding sample_lease_def by (rule lease_requests_result) (simp_all add: space_request_def)
  moreover have same: "w_deliveries (sample_world 5) = []" "(sample_world 5)\<lparr>w_deliveries := []\<rparr> = sample_world 5"
    by (simp_all add: sample_world_def)
  ultimately have "in_world (stub_fetch (space_fetch lease_runtime bare_env (mem_bucket sample_sha256) sample_sha256 ?internal)) s
      = (Inr (jsonResponse (lease_json sample_lease)), s\<lparr>sv_world := snd (leaseDrivenNodeUpload sample_input (sample_world 5))\<rparr>)"
    by (simp add: in_world_def stub_fetch_def v(2) next_delivery_def same)
  moreover have "canonicalActorKey (vc_appId call) (vc_spaceId call) = Inr (encodeURIComponent ''app'' @ ''|'' @ encodeURIComponent ''/team/a'')"
    by (simp add: canonicalActorKey_def v(3,4))
  moreover have "cc_fetch sample_config = service_fetch ?ctx" by (simp add: sample_config_def)
  moreover have "cx_authorizeSpaceRequest ?ctx = Some (\<lambda>request. verifyToken sample_jose (get_header request ''Authorization''))"
    "cx_spaceActors ?ctx = (\<lambda>_ internal.
       in_world (stub_fetch (space_fetch lease_runtime bare_env (mem_bucket sample_sha256) sample_sha256 internal)))"
    by (simp_all add: worker_context_def authorization_header_kept fun_eq_iff)
  moreover have "get_header ?request ''Authorization'' = Some ''Bearer t''" using assms(1) by (rule sample_headers(1))
  ultimately show ?thesis
    using match v(1) d
    by (simp add: service_fetch_def createUniCasService_def matchUniCasServiceRoute_def dispatchSpaceRequest_def bindM_def tryM_def liftM_def)
qed

lemma sample_leased: "\<exists>c. client_leaseNode sample_config ''/team/a'' sample_hash 60000 sample_client = (Inr (Lease_ready sample_hash 0 60005), c)
    \<and> sv_world (cl_outer c) = snd (leaseDrivenNodeUpload sample_input (sample_world 5))"
proof -
  let ?r = "Lease_node ''app'' ''/team/a'' sample_hash"
  have space: "validateSpaceId ''/team/a'' = None" by code_simp
  then obtain target where t: "appSpaceRoutes ?r [] = Inr target" by (simp add: appSpaceRoutes_def queryForScope_def)
  obtain r m where r: "resolve (cc_ports sample_config) \<lparr>rq_appId = ''app'', rq_spaceId = ''/team/a'', rq_permission = ''cas:nodes:lease''\<rparr> None sample_client
      = (Inr r, sample_client\<lparr>cl_manager := m\<rparr>)" "cr_bearerToken r = ''t''" using sample_resolve by blast
  obtain s where s: "cc_fetch sample_config (fetch_request sample_config r target (json_post [])) sample_service
      = (Inr (jsonResponse (lease_json sample_lease)), s)" "sv_world s = snd (leaseDrivenNodeUpload sample_input (sample_world 5))"
    using sample_served [OF r(2) t] by blast
  have "lease_result_of (lease_json sample_lease) = Some (Lease_ready sample_hash 0 60005)"
    by (simp add: lease_result_of_def lease_json_def sample_lease_def js_get_def js_string_def js_integer_def js_int_def Let_def)
  then have "json_result sample_config lease_result_of (jsonResponse (lease_json sample_lease)) c = (Inr (Lease_ready sample_hash 0 60005), c)" for c
    by (simp add: json_result_def response_json_def jsonResponse_def returnM_def)
  moreover have "cc_appId sample_config = ''app''" "cc_stringify sample_config v = []" for v by (simp_all add: sample_config_def)
  moreover have "cl_outer (sample_client\<lparr>cl_manager := m\<rparr>) = sample_service" "isSafeInteger 60000" "response_ok (jsonResponse v)" for v
    by (simp_all add: sample_client_def isSafeInteger_iff response_ok_def jsonResponse_def)
  ultimately show ?thesis
    using space t r(1) s
    by (simp add: client_leaseNode_def call_route_def transport_request_def requireSpaceId_def type_error_def fetchWith_def outer_def
        bindM_def liftM_def returnM_def Let_def)
qed

section \<open>Blobs through the service\<close>

definition service_blob_client ::
  "'b service_state appCasClientConfig \<Rightarrow> (uploadInstructions \<Rightarrow> bytes \<Rightarrow> ('b service_state, string, nat) prog) \<Rightarrow> (bytes \<Rightarrow> bytes)
   \<Rightarrow> cbor_codec \<Rightarrow> string \<Rightarrow> nat \<Rightarrow> nat \<Rightarrow> 'b service_state client_state blobClient" where
  "service_blob_client config put sha256 cbor space chunkBytes fanout =
     \<lparr>bc_cas = createAppCasClient config, bc_fetcher = upload_port put, bc_sha256 = sha256, bc_cbor = cbor, bc_spaceId = space,
      bc_chunkBytes = chunkBytes, bc_indexFanout = fanout\<rparr>"

context service_client
begin

lemma blob_stored_and_read:
  assumes ok: "client_inv c" and cbor: "cbor_ok cbor" and k: "0 < k" and fanout: "2 \<le> fanout" "fanout \<le> 256"
    and ct: "validateContentType ct = Inr ()" "ct \<noteq> BlobIndexContentType" and some: "concat source \<noteq> []" and rng: "range_ok rng (concat source)"
    and run: "storeBlob (blobs.blob_client cbor k fanout) (source, None) ct expected d c = (Inr ref, c1)"
    and later: "client_grows c1 c2" and clean: "blobs.clean c2"
  shows "br_blobSize ref = int (length (concat source)) \<and> (\<exists>depth. \<forall>fuel \<ge> depth.
    blobs.keeps c2 (openBlob_read fuel (blobs.blob_client cbor k fanout) (br_blobHash ref) rng) (\<lambda>bs _. bs = range_of rng (concat source)))"
proof -
  have "blobs.keeps c (storeBlob (blobs.blob_client cbor k fanout) (source, None) ct expected d)
    (\<lambda>ref c1. br_blobSize ref = int (length (concat source)) \<and> (blobs.clean c1 \<longrightarrow> blobs.blob_at cbor ct c1 (br_blobHash ref) (concat source)))"
    by (rule blobs.keeps_mono [OF blobs.storeBlob_keeps [OF fanout k ok ct(1)]]) simp_all
  from wp_run [OF this [unfolded blobs.keeps_def] run]
  have stored: "br_blobSize ref = int (length (concat source))" "blobs.clean c1 \<longrightarrow> blobs.blob_at cbor ct c1 (br_blobHash ref) (concat source)" by simp_all
  note ext = client_grows_ok [OF later]
  have "blobs.blob_at cbor ct c1 (br_blobHash ref) (concat source)" using stored(2) blobs.clean_earlier [OF clean] ext by blast
  then have "blobs.blob_at cbor ct c2 (br_blobHash ref) (concat source)"
    using blobs.tree_later ext unfolding blobs.blob_at_def node_ext_def by blast
  from blobs.read_blob [OF _ clean cbor this ct(2) some rng] show ?thesis using stored(1) ext by blast
qed

lemma blob_outcome:
  assumes "world_ok sha256 contents (sv_world (cl_outer c))"
    and "cbor_ok cbor" and "0 < k" and "2 \<le> fanout" and "fanout \<le> 256"
    and "validateContentType ct = Inr ()" and "ct \<noteq> BlobIndexContentType" and "concat source \<noteq> []" and "range_ok rng (concat source)"
    and "storeBlob (service_blob_client config put sha256 cbor (spaceId scope) k fanout) (source, None) ct expected d c = (Inr ref, c1)"
    and "world_grows sha256 contents scope (sv_world (cl_outer c1)) (sv_world (cl_outer c2))"
    and "\<And>h. space_node contents scope (sv_world (cl_outer c2)) h \<noteq> None \<Longrightarrow> collision_free_at sha256 h"
  shows "br_blobSize ref = int (length (concat source)) \<and> (\<exists>depth. \<forall>fuel \<ge> depth.
    case fst (openBlob_read fuel (service_blob_client config put sha256 cbor (spaceId scope) k fanout) (br_blobHash ref) rng c2) of
      Inr bs \<Rightarrow> bs = range_of rng (concat source)
    | Inl e \<Rightarrow> e \<noteq> Out_of_fuel)"
proof -
  have client: "service_blob_client config put sha256 cbor (spaceId scope) k fanout = blobs.blob_client cbor k fanout"
    by (simp add: service_blob_client_def blobs.blob_client_def)
  have outcome: "case fst (m c') of Inr x \<Rightarrow> Q x | Inl e \<Rightarrow> e \<noteq> Out_of_fuel" if "blobs.keeps c' m (\<lambda>x _. Q x)" for m c' and Q :: "bytes \<Rightarrow> bool"
    using that by (auto simp: blobs.keeps_def wp_def split: prod.splits sum.splits)
  have "client_inv c" "client_grows c1 c2" "blobs.clean c2"
    using assms(1,11,12) by (simp_all add: client_inv_def client_grows_def grows_def blobs.clean_def client_node_def)
  from blob_stored_and_read [OF this(1) assms(2-9) assms(10) [unfolded client] this(2,3)]
  show ?thesis unfolding client using outcome by meson
qed

end

interpretation sample_services: service_client "mem_bucket sample_sha256" mem_contents sample_sha256 sample_scope
  lease_runtime bare_env sample_jose None sample_config sample_put
proof (intro service_client.intro service_client_axioms.intro)
  show "space_store (mem_bucket sample_sha256) mem_contents sample_sha256 sample_scope" by (rule sample_space_store)
qed (simp_all add: sample_config_def sample_scope_def sample_put_def returnM_def quiet_simps)

text \<open>A codec with the documented behaviour: what it encodes it decodes, and no encoding is empty.\<close>

instance jsval :: countable
  by countable_datatype

definition sample_cbor :: cbor_codec where
  "sample_cbor = \<lparr>cbor_encode = (\<lambda>v. replicate (Suc (to_nat v)) 0), cbor_decode = (\<lambda>bs. Inr (from_nat (length bs - 1)))\<rparr>"

lemma sample_cbor_ok: "cbor_ok sample_cbor"
  by (auto simp: cbor_ok_def sample_cbor_def wireValue_def)

text \<open>
  C6. A blob comes back as it was stored: when \<open>storeBlob\<close>, talking to the service through the
  node-level client, has returned a reference, then at any later time, as long as the Space has
  lost none of the nodes it had, opening that reference and reading the whole blob or any
  byte range of it gives exactly those bytes, if it gives anything: the network, the provider and
  the service may fail a read, but none returns other bytes or runs out of depth.  The size
  in the reference is the size of the blob.  Assumed: no digest collision among the stored nodes,
  a media type other than the index's own, and a non-empty blob.
\<close>

theorem blob_round_trip:
  assumes "service_client bucket contents sha256 scope rt env jose admin config put" and "world_ok sha256 contents (sv_world (cl_outer c))"
    and "cbor_ok cbor" and "0 < k" and "2 \<le> fanout" and "fanout \<le> 256"
    and "validateContentType ct = Inr ()" and "ct \<noteq> BlobIndexContentType" and "concat source \<noteq> []" and "range_ok rng (concat source)"
    and "storeBlob (service_blob_client config put sha256 cbor (spaceId scope) k fanout) (source, None) ct expected d c = (Inr ref, c1)"
    and "world_grows sha256 contents scope (sv_world (cl_outer c1)) (sv_world (cl_outer c2))"
    and "\<And>h. space_node contents scope (sv_world (cl_outer c2)) h \<noteq> None \<Longrightarrow> collision_free_at sha256 h"
  shows "br_blobSize ref = int (length (concat source)) \<and> (\<exists>depth. \<forall>fuel \<ge> depth.
    case fst (openBlob_read fuel (service_blob_client config put sha256 cbor (spaceId scope) k fanout) (br_blobHash ref) rng c2) of
      Inr bs \<Rightarrow> bs = range_of rng (concat source)
    | Inl e \<Rightarrow> e \<noteq> Out_of_fuel)"
  by (rule service_client.blob_outcome [OF assms])

theorem blob_round_trip_witness:
  "\<exists>ref c1 depth. storeBlob (service_blob_client sample_config sample_put sample_sha256 sample_cbor ''/team/a'' 4 2)
       ([[0x68], [0x69]], None) ''text/plain'' None (Some 60000) sample_client = (Inr ref, c1)
     \<and> br_blobSize ref = 2 \<and> (\<forall>fuel \<ge> depth.
     case fst (openBlob_read fuel (service_blob_client sample_config sample_put sample_sha256 sample_cbor ''/team/a'' 4 2) (br_blobHash ref)
       (Some (1, None)) c1) of
       Inr bs \<Rightarrow> bs = [0x69]
     | Inl e \<Rightarrow> e \<noteq> Out_of_fuel)"
proof -
  let ?c = "service_blob_client sample_config sample_put sample_sha256 sample_cbor ''/team/a'' 4 2"
  have chunks: "chunkSource 4 ([[0x68], [0x69]], None) = [Inr [0x68, 0x69]]" by code_simp
  obtain c1 where lease: "client_leaseNode sample_config ''/team/a'' sample_hash 60000 sample_client = (Inr (Lease_ready sample_hash 0 60005), c1)"
    and world: "sv_world (cl_outer c1) = snd (leaseDrivenNodeUpload sample_input (sample_world 5))"
    using sample_leased by blast
  have run: "storeBlob ?c ([[0x68], [0x69]], None) ''text/plain'' None (Some 60000) sample_client
      = (Inr \<lparr>br_blobHash = sample_hash, br_blobSize = 2, br_contentType = Str ''text/plain''\<rparr>, c1)"
    using lease sample_node_text
    by (simp add: storeBlob_def service_blob_client_def chunks store_single_def storeNode_def storeNodeContent_def client_uploadCanonicalNode_def
        createAppCasClient_def assertExpectedSize_def bindM_def liftM_def returnM_def attempts_ready)
  have ok: "world_ok sample_sha256 mem_contents (sv_world (cl_outer c1))"
    using wp_run [OF space_store.lease_upload_outcome [OF sample_space_store sample_world_ok] sample_lease_pair] by (simp add: world)
  have "map fst (cas_nodes (w_db (sv_world (cl_outer c1)))) = [(sample_scope, sample_hash)]" unfolding world by code_simp
  then have only: "h = sample_hash" if "space_node mem_contents sample_scope (sv_world (cl_outer c1)) h \<noteq> None" for h
    using that by (auto simp: space_node_def split: if_splits dest: map_of_SomeD)
  have world0: "world_ok sample_sha256 mem_contents (sv_world (cl_outer sample_client))"
    using sample_world_ok by (simp add: sample_client_def sample_service_def)
  have "validateContentType ''text/plain'' = Inr ()" "''text/plain'' \<noteq> BlobIndexContentType"
    "range_ok (Some (1, None)) (concat [[0x68], [0x69]])" by code_simp+
  note args = this
  have free: "collision_free_at sample_sha256 h" if "space_node mem_contents sample_scope (sv_world (cl_outer c1)) h \<noteq> None" for h
    using only [OF that] sample_collision_free by simp
  have space: "''/team/a'' = spaceId sample_scope" by (simp add: sample_scope_def)
  have some: "concat [[0x68], [0x69 :: byte]] \<noteq> []" by simp
  have part: "range_of (Some (1, None)) (concat [[0x68], [0x69 :: byte]]) = [0x69]" by (simp add: range_of_def)
  from blob_round_trip [where k = 4 and fanout = 2, OF sample_services.service_client_axioms world0 sample_cbor_ok _ _ _ args(1,2) some args(3)
      run [unfolded space] world_grows_refl [OF ok] free]
  obtain depth where d: "\<forall>fuel \<ge> depth. case fst (openBlob_read fuel ?c sample_hash (Some (1, None)) c1) of
      Inr bs \<Rightarrow> bs = [0x69] | Inl e \<Rightarrow> e \<noteq> Out_of_fuel"
    unfolding part space casBlobRef.simps by auto
  show ?thesis
    by (rule exI [of _ "\<lparr>br_blobHash = sample_hash, br_blobSize = 2, br_contentType = Str ''text/plain''\<rparr>"], rule exI [of _ c1],
        rule exI [of _ depth]) (use run d in simp)
qed

section \<open>Properties of the clients\<close>





text \<open>
  C16. Nothing that changes the Space is sent twice: whatever the service answers and the provider
  does, a lease, an update of root references and a collection each send at most one request;
  reads are repeated at most once.
\<close>

theorem mutations_sent_once:
  assumes "logged sent config"
  shows "sends sent 1 (client_leaseNode config space h d) \<and> sends sent 1 (client_updateRootRefs config space requestId changes)
    \<and> sends sent 1 (client_gc config space maxNodes) \<and> sends sent 2 (client_readMetadata config space h)
    \<and> sends sent 2 (client_readContent config space h rng) \<and> sends sent 2 (client_readNode config space h)
    \<and> sends sent 2 (client_usage config space) \<and> sends sent 2 (client_listRootRefs config space limit cursor)"
proof -
  note call = sends_operation [OF assms sends_json] and body = sends_operation(1) [OF assms sends_pure(1)] sends_operation(1) [OF assms sends_pure(3)]
  have "sends sent 2 (client_readContent config space h rng)"
    unfolding client_readContent_def
    by (rule sends_bind [OF sends_pure(3), where a = 0 and b = 2], rule sends_bind [OF sends_pure(3), where a = 0 and b = 2])
      (simp_all add: sends_if sends_pure body)
  then show ?thesis
    by (simp add: client_leaseNode_def client_updateRootRefs_def client_gc_def client_readMetadata_def client_readNode_def client_usage_def
        client_listRootRefs_def call [unfolded One_nat_def] body sends_pure)
qed

theorem mutations_sent_once_witness:
  "\<exists>config :: http_request list appCasClientConfig. logged id config \<and> sends id 1 (client_leaseNode config ''/team/a'' sample_hash 60000)"
proof -
  let ?config = "\<lparr>cc_baseUrl = ''https://unicas'', cc_appId = ''app'',
     cc_ports = \<lparr>pt_acquire = (\<lambda>_ _. returnM sample_capability), pt_now = (\<lambda>_. 0)\<rparr>,
     cc_fetch = (\<lambda>q s. (Inr (errorResponse 401 ''invalid_token'' ''expired''), s @ [q])), cc_stringify = (\<lambda>_. []), cc_parse = (\<lambda>_. None),
     cc_number = (\<lambda>_. Undefined)\<rparr> :: http_request list appCasClientConfig"
  have "logged id ?config" by (simp add: logged_def returnM_def)
  from mutations_sent_once [OF this] this show ?thesis by blast
qed

text \<open>
  C37. The children of a node survive the header they travel in: \<open>parseCasNodeRefsHeader\<close> returns the
  list that \<open>formatCasNodeRefsHeader\<close> wrote, in order, for every list it accepts, the empty one
  included, and every text the parser accepts is the one the formatter writes.
\<close>

theorem refs_header_round_trip:
  "(formatCasNodeRefsHeader refs = Inr header) = (parseCasNodeRefsHeader (Some header) = Inr refs)"
proof -
  let ?ok = "\<lambda>refs. length refs \<le> 256 \<and> (\<forall>ref \<in> set refs. length ref = 64 \<and> list_all is_lower_hex ref)"
  have format: "formatCasNodeRefsHeader refs = Inr header \<longleftrightarrow> ?ok refs \<and> header = join '','' refs"
    by (auto simp: formatCasNodeRefsHeader_def)
  have parse: "parseCasNodeRefsHeader (Some header) = Inr refs \<longleftrightarrow> (if header = [] then refs = [] else ?ok refs \<and> refs = split_comma header)"
    by (auto simp: parseCasNodeRefsHeader_def Let_def)
  have undone: "split_comma (join '','' refs) = refs" if "?ok refs" "refs \<noteq> []"
    using that comma_not_hex by (intro split_join) auto
  have some: "join '','' refs \<noteq> []" if "?ok refs" "refs \<noteq> []"
    using that by (cases refs rule: list.exhaust; cases "tl refs") auto
  show ?thesis unfolding format parse using undone some join_split [of header] by (cases "refs = []") auto
qed



end
