(* ===== verification/Spec2Isabelle.thy ===== *)
theory Spec2Isabelle
  imports Codec_Properties Direct_Upload Data_Plane Root_Refs_Properties Read_Properties Blob_Write Service_Actor Client_Properties
begin

text \<open>
  UniCAS is a content-addressed store.  A node is a content type, an ordered list of child hashes
  and content; its name is the SHA-256 of its canonical bytes.  Nodes belong to a Space of an App.
  They are kept alive by leases, by root references of the App and by parents; what nothing keeps
  alive is collected.  Clients talk HTTP to a Cloudflare worker, which verifies their capability
  tokens and forwards requests to one Durable Object per Space; rows live in a D1 database, bytes in
  an R2 bucket.  On top of nodes a client library stores blobs as trees of chunks.

  This library models that path from end to end - the blob client, the node client, the worker's
  service, the Space object, the kernels and their D1/R2 adapters - and proves what it promises.
  All paths below are relative to \<^verbatim>\<open>packages/\<close>.

  \<^bold>\<open>Conventions.\<close>  A fallible synchronous function returns \<open>error + 'a\<close>; an asynchronous one is a
  \<open>('s, 'e, 'a) prog\<close>, a state transformer with exceptions (theory \<open>Prelude\<close>), and \<open>wp\<close> is its weakest
  precondition.  A class or struct is a \<open>record\<close> (an object with methods is a record of
  operations: a repository port), a union a \<open>datatype\<close>, a JavaScript value after \<open>JSON.parse\<close> a
  \<open>jsval\<close>, a number an \<open>int\<close> with \<open>isSafeInteger\<close> written out where the source checks it, bytes \<open>8 word\<close>
  lists, a table an association list.  Strings are lists of code units up to U+00FF.

  \<^bold>\<open>Theories, in dependency order, and the code they model.\<close>

  \<^item> \<open>Prelude\<close>, \<open>Js_Values\<close>: the program monad, its rules (\<open>wp_simps\<close>), tables (\<open>table_simps\<close>), values.
  \<^item> \<open>Codec_Binary\<close>, \<open>Codec_Digest\<close>, \<open>Codec_Validation\<close>, \<open>Codec_Stream\<close>: \<^verbatim>\<open>codec/src/\<close>.
    \<open>Codec_Properties\<close> shows that the two writers agree, that the whole-buffer and streaming parsers
    invert them for every way of cutting the stream into chunks, and that nothing else is accepted.
  \<^item> \<open>Service_Errors\<close>, \<open>Node_Lease\<close>, \<open>Direct_Upload\<close>, \<open>Node_Gc\<close>, \<open>Node_Read\<close>, \<open>Root_Refs\<close>: the kernels
    \<^verbatim>\<open>service/src/node-lease.ts\<close>, \<^verbatim>\<open>gc.ts\<close>, \<^verbatim>\<open>node-read.ts\<close>, \<^verbatim>\<open>node-usage.ts\<close>, \<^verbatim>\<open>root-refs.ts\<close>, over their ports.
    \<open>Lease_Contract\<close>, \<open>Node_Gc\<close> and \<open>Root_Refs_Contract\<close> state what a kernel relies on as the locales
    \<open>lease_repository\<close>, \<open>gc_repository\<close>, \<open>root_ref_views\<close> and \<open>root_ref_repository\<close>, and prove the kernel in them.
  \<^item> \<open>Platform\<close>, \<open>Schema\<close>: D1 and R2.  A D1 call may be lost before or after it took effect (\<open>delivery\<close>);
    a batch is atomic; the tables and usage triggers are those of \<^verbatim>\<open>service-cloudflare/src/schema.ts\<close>.
    The bucket is a parameter with the documented behaviour of R2 as the locale \<open>object_store\<close>;
    \<open>mem_store\<close> shows that it can hold.
  \<^item> \<open>Cf_Node_Lease\<close>, \<open>Store\<close>, \<open>Commit_Batch\<close>, \<open>Cf_Lease_Correct\<close>, \<open>Cf_Node_Gc\<close>, \<open>Cf_Node_Read\<close>, \<open>Cf_Root_Refs\<close>,
    \<open>Audit_Reads\<close>: the adapters in \<^verbatim>\<open>service-cloudflare/src/\<close> of the same names, \<^verbatim>\<open>root-cutover.ts\<close> and
    \<^verbatim>\<open>audit-reads.ts\<close>.  \<open>world_ok\<close> (theory \<open>Store\<close>) is the invariant of the store: usage counters
    exact, reference counts equal to edges and root balances, the root log gapless, every object under
    its digest, every protected node's object present.  The sublocale declarations of \<open>space_store\<close>
    prove that the adapters keep it and satisfy the kernels' locales.
  \<^item> \<open>Do_Names\<close>, \<open>Space_Object\<close>, \<open>Space_Correct\<close>: \<^verbatim>\<open>space-do.ts\<close>, \<^verbatim>\<open>domain-do.ts\<close>, \<^verbatim>\<open>do-names.ts\<close>,
    \<^verbatim>\<open>r2-upload-presigner.ts\<close>, as functions from a request to a response.
  \<^item> \<open>Example_World\<close>: a concrete deployment for the witnesses.
  \<^item> \<open>Lease_Properties\<close>, \<open>Gc_Properties\<close>, \<open>Root_Refs_Properties\<close>, \<open>Read_Properties\<close>: what leases, collection,
    root updates and reads guarantee on the real adapters.  \<open>Data_Plane\<close>: the data plane as a state
    machine (requests, time, client uploads, losses), with durability in every reachable state.
  \<^item> \<open>Space_Id\<close>, \<open>Uri\<close>, \<open>Routes\<close>, \<open>Admin_Routes\<close>: names, selectors and the routes of
    \<^verbatim>\<open>space-protocol/src/\<close> and \<^verbatim>\<open>admin-protocol/src/routes.ts\<close>; builders and matchers are inverse.
  \<^item> \<open>Space_Auth\<close>, \<open>Service_Actor\<close>: \<^verbatim>\<open>service/src/app-space-auth.ts\<close>, \<^verbatim>\<open>actor.ts\<close>,
    \<^verbatim>\<open>service-cloudflare/src/control-authority.ts\<close> and the context of \<^verbatim>\<open>worker.ts\<close>.  Only authorized
    requests act, requests are confined to their Space, revocation takes effect within a minute.
  \<^item> \<open>Capability_Manager\<close>, \<open>Space_Client\<close>: \<^verbatim>\<open>space-client/src/capability.ts\<close>, \<^verbatim>\<open>transport.ts\<close>, \<^verbatim>\<open>client.ts\<close>.
  \<^item> \<open>Blob_Client\<close>, \<open>Blob_Correct\<close>, \<open>Blob_Tree\<close>, \<open>Blob_Write\<close>: \<^verbatim>\<open>space-blob-client/src/\<close>, proved over the locale
    \<open>cas_client\<close>, which states what the blob layer needs of a node client.
  \<^item> \<open>Client_Service\<close>, \<open>Client_Properties\<close>: the node client over the service is a \<open>cas_client\<close>, so a
    blob that was stored through HTTP, the verifier, the Space object, D1 and R2 reads back.

  \<^bold>\<open>Parameters.\<close>  SHA-256; \<open>TextDecoder\<close> on ill-formed input; \<open>JSON.parse\<close>, \<open>JSON.stringify\<close>, \<open>Number(text)\<close>,
  \<open>Math.random\<close> and the base64 text of cursors; the packages \<^verbatim>\<open>aws4fetch\<close> (signing), \<^verbatim>\<open>jose\<close> (tokens) and
  \<^verbatim>\<open>cborg\<close> (with the law \<open>cbor_ok\<close>: decoding inverts encoding); the capability provider and whatever
  sends the presigned upload.  Content addressing itself rests on \<open>collision_free_at\<close>: no second
  byte string has the digest of a given node.  It is a hypothesis of the theorems on content only.

  \<^bold>\<open>Fuel.\<close>  Loops that follow data end by a measure.  The recursion over a blob tree has no bound in
  the data a reader can trust; \<open>blob_readNode\<close> and \<open>readRangeNode\<close> take fuel, and \<open>blob_round_trip\<close>
  shows that some depth is enough for every stored blob (the level of its root plus two).
  \<open>appendTreeNode\<close> and \<open>finish_loop\<close> start with fuel computed from their argument, the number of groups
  and of nodes still to be merged; the proofs show that it is never used up.  \<open>withRootRefsRetry\<close> and
  the paging of listings count attempts as the source does.

  \<^bold>\<open>Not modelled.\<close>  The handlers of one Space run one after the other, so the queue of the mutation
  gate, the coalescing of equal concurrent leases and the sharing of capability acquisitions are
  not there.  Abort signals, progress callbacks, tracing, timing and logs have no influence on
  results and are left out; the text form of URLs too.  Of the worker only the data plane's context is
  modelled: the administration plane (accounts, memberships, invitations, OAuth discovery, sessions,
  the browser-facing server, the MCP server, the command line and the web interface) is a handler
  the service calls, and meets the data plane only in the registry tables that the verifier reads.
  Its code is CRUD over its own tables and is a development of its own.  Migrations and
  backfills of old databases, the App-wide collection and usage loops, the file client's
  directory manifests, the browser cache, the client's optional node cache, and the Spaces
  demonstration product are not modelled.
\<close>

end
